(* ===== verification/Prelude.thy ===== *)
theory Prelude
  imports Main "HOL-Library.Word"
begin

text \<open>
  Prelude of the development: names of the machine types the firmware uses, the big-endian
  byte strings every wire format shares, the threading of a state through fallible operations,
  and the collections of automation the components fill.

  The firmware runs on a 32-bit Xtensa core. \<^verbatim>\<open>uint8_t\<close>, \<^verbatim>\<open>uint16_t\<close>, \<^verbatim>\<open>uint32_t\<close> and
  \<^verbatim>\<open>uint64_t\<close> are words of that width, whose arithmetic wraps. The size of an object in memory
  (\<^verbatim>\<open>size_t\<close>) is a \<^typ>\<open>nat\<close>: the badge has 8 MB of memory, so the sum of two object sizes
  stays far below 2^32. A length that comes from outside (the length field of a packet) keeps the
  width it has on the wire.
\<close>

unbundle bit_operations_syntax

type_synonym byte = "8 word"
type_synonym u16 = "16 word"
type_synonym u32 = "32 word"
type_synonym u64 = "64 word"
type_synonym bytes = "byte list"

named_theorems len_simps \<open>lengths of the byte strings the encoders build\<close>
named_theorems frame_simps \<open>fields an operation leaves alone\<close>

section \<open>Bytes of a word, and words from bytes\<close>

text \<open>\<^verbatim>\<open>(v >> k) & 0xFF\<close>, narrowed to a byte.\<close>

definition byte_at :: "nat \<Rightarrow> 'a::len word \<Rightarrow> byte" where
  "byte_at k v = ucast (drop_bit k v AND 0xFF)"

lemma bit_255: "bit (255 :: int) n \<longleftrightarrow> n < 8"
proof -
  have "(255 :: int) = mask 8" by (simp add: mask_eq_exp_minus_1)
  then show ?thesis by (simp only: bit_mask_iff) simp
qed

lemma bit_byte_at: "bit (byte_at k v) n \<longleftrightarrow> n < 8 \<and> bit v (k + n)" for v :: "'a::len word"
  by (auto simp add: byte_at_def bit_simps bit_255 dest: bit_imp_le_length)

lemma unat_byte_at: "unat (byte_at k v) = unat v div 2 ^ k mod 256" for v :: "'a::len word"
proof -
  have "unat (byte_at k v) = take_bit 8 (drop_bit k (unat v))"
    by (rule bit_eqI)
      (auto simp: bit_unsigned_iff bit_byte_at bit_take_bit_iff bit_drop_bit_eq)
  then show ?thesis by (simp add: take_bit_eq_mod drop_bit_eq_div)
qed

text \<open>The receiving side: \<^verbatim>\<open>(b0 << 8) | b1\<close> and its wider forms.\<close>

definition be16 :: "byte \<Rightarrow> byte \<Rightarrow> u16" where
  "be16 b0 b1 = push_bit 8 (ucast b0) OR ucast b1"

definition be32 :: "byte \<Rightarrow> byte \<Rightarrow> byte \<Rightarrow> byte \<Rightarrow> u32" where
  "be32 b0 b1 b2 b3 =
     push_bit 24 (ucast b0) OR push_bit 16 (ucast b1) OR push_bit 8 (ucast b2) OR ucast b3"

definition be64 :: "byte \<Rightarrow> byte \<Rightarrow> byte \<Rightarrow> byte \<Rightarrow> byte \<Rightarrow> byte \<Rightarrow> byte \<Rightarrow> byte \<Rightarrow> u64" where
  "be64 b0 b1 b2 b3 b4 b5 b6 b7 =
     push_bit 56 (ucast b0) OR push_bit 48 (ucast b1) OR push_bit 40 (ucast b2) OR
     push_bit 32 (ucast b3) OR push_bit 24 (ucast b4) OR push_bit 16 (ucast b5) OR
     push_bit 8 (ucast b6) OR ucast b7"

text \<open>
  A byte joins the bits above it: the step by which a big-endian read undoes a big-endian write.
\<close>

lemma byte_join:
  "push_bit (8 + m) (drop_bit (8 + k) v) OR push_bit m (ucast (byte_at k v)) =
    push_bit m (drop_bit k v)" for v :: "'a::len word"
proof -
  have "push_bit 8 (drop_bit (8 + k) v) OR ucast (byte_at k v) = drop_bit k v"
    by (rule bit_word_eqI) (auto simp: bit_simps bit_byte_at)
  then have "push_bit m (push_bit 8 (drop_bit (8 + k) v) OR ucast (byte_at k v)) =
      push_bit m (drop_bit k v)"
    by simp
  then show ?thesis by (simp add: push_bit_or add.commute)
qed

lemma top_byte: "ucast (byte_at k v) = drop_bit k v" if "8 + k = LENGTH('a)" for v :: "'a::len word"
proof (rule bit_word_eqI)
  fix n
  have "bit v (k + n) \<Longrightarrow> n < 8"
    using bit_imp_le_length [of v "k + n"] that by simp
  moreover assume "n < LENGTH('a)"
  ultimately show "bit (ucast (byte_at k v) :: 'a word) n = bit (drop_bit k v) n"
    by (auto simp: bit_simps bit_byte_at)
qed

lemma be16_byte_at [simp]: "be16 (byte_at 8 v) (byte_at 0 v) = v"
  using byte_join [of 0 0 v] by (simp add: be16_def top_byte)

lemma be32_byte_at [simp]:
  "be32 (byte_at 24 v) (byte_at 16 v) (byte_at 8 v) (byte_at 0 v) = v"
  using byte_join [of 16 16 v] byte_join [of 8 8 v] byte_join [of 0 0 v]
  by (simp add: be32_def top_byte flip: or.assoc)

lemma be64_byte_at [simp]:
  "be64 (byte_at 56 v) (byte_at 48 v) (byte_at 40 v) (byte_at 32 v)
     (byte_at 24 v) (byte_at 16 v) (byte_at 8 v) (byte_at 0 v) = v"
  using byte_join [of 48 48 v] byte_join [of 40 40 v] byte_join [of 32 32 v]
    byte_join [of 24 24 v] byte_join [of 16 16 v] byte_join [of 8 8 v] byte_join [of 0 0 v]
  by (simp add: be64_def top_byte flip: or.assoc)

text \<open>A value below a power of two has no bits from there on, so it can be packed beside others.\<close>

lemma bit_small: "unat x < 2 ^ k \<Longrightarrow> bit x n \<Longrightarrow> n < k" for x :: "'a::len word"
proof (rule ccontr)
  assume small: "unat x < 2 ^ k" and bit: "bit x n" and "\<not> n < k"
  from small have "take_bit k (unat x) = unat x" by (simp add: take_bit_nat_eq_self)
  moreover from bit have "bit (unat x) n" by (simp add: bit_unsigned_iff bit_imp_le_length)
  ultimately have "bit (take_bit k (unat x)) n" by simp
  with \<open>\<not> n < k\<close> show False by (simp add: bit_take_bit_iff)
qed

lemma pack_high: "unat x < 2 ^ k \<Longrightarrow> drop_bit k (push_bit k t OR x) = take_bit (LENGTH('a) - k) t"
  for t x :: "'a::len word"
  by (rule bit_word_eqI) (auto simp: bit_simps dest: bit_small)

lemma pack_low: "unat x < 2 ^ k \<Longrightarrow> take_bit k (push_bit k t OR x) = x"
  for t x :: "'a::len word"
  by (rule bit_word_eqI) (auto simp: bit_simps dest: bit_small)

text \<open>Narrowing a value that fits loses nothing.\<close>

lemma ucast_narrow: "unat v < 2 ^ LENGTH('b) \<Longrightarrow> ucast (ucast v :: 'b::len word) = v"
  for v :: "'a::len word"
  by (rule bit_word_eqI) (auto simp: bit_simps dest: bit_small)

lemma byte_at_ucast: "8 + k \<le> LENGTH('b) \<Longrightarrow> byte_at k (ucast v :: 'b::len word) = byte_at k v"
  for v :: "'a::len word"
  by (rule bit_word_eqI) (auto simp: bit_byte_at bit_simps dest: bit_imp_le_length)

lemma ucast_be16: "unat v < 2 ^ 16 \<Longrightarrow> ucast (be16 (byte_at 8 v) (byte_at 0 v)) = v"
  for v :: "'a::len word"
  using be16_byte_at [of "ucast v"] ucast_narrow [where 'b = 16, of v]
  by (simp add: byte_at_ucast)

lemma ucast_be32:
  "unat v < 2 ^ 32 \<Longrightarrow>
    ucast (be32 (byte_at 24 v) (byte_at 16 v) (byte_at 8 v) (byte_at 0 v)) = v"
  for v :: "'a::len word"
  using be32_byte_at [of "ucast v"] ucast_narrow [where 'b = 32, of v]
  by (simp add: byte_at_ucast)

text \<open>Sizes: a word is below its modulus, and a number below it survives the conversions.\<close>

lemma unat_less: "unat v < 2 ^ LENGTH('a)" for v :: "'a::len word"
  by (rule unsigned_less)

lemma unat_of_nat_u32: "n < 2 ^ 32 \<Longrightarrow> unat (of_nat n :: u32) = n"
  by (simp add: unsigned_of_nat take_bit_nat_eq_self)

lemma unat_of_nat_byte: "n < 256 \<Longrightarrow> unat (of_nat n :: byte) = n"
  by (simp add: unsigned_of_nat take_bit_nat_eq_self)

lemma unat_of_nat_u16: "n < 65536 \<Longrightarrow> unat (of_nat n :: u16) = n"
  by (simp add: unsigned_of_nat take_bit_nat_eq_self)

lemma unat_ucast_up: "LENGTH('b) \<le> LENGTH('a) \<Longrightarrow> unat (ucast v :: 'a::len word) = unat v"
  for v :: "'b::len word"
  by (rule bit_eqI) (auto simp: bit_unsigned_iff bit_simps dest: bit_imp_le_length)

section \<open>C strings and little-endian numbers\<close>

text \<open>The C string in an array of characters: what comes before the terminator.\<close>

definition cstr :: "bytes \<Rightarrow> bytes" where
  "cstr s = takeWhile (\<lambda>b. b \<noteq> 0) s"

text \<open>The field of \<open>n\<close> characters after \<^verbatim>\<open>memset\<close> and \<^verbatim>\<open>strncpy(field, s, n - 1)\<close>.\<close>

definition char_field :: "nat \<Rightarrow> bytes \<Rightarrow> bytes" where
  "char_field n s = take (n - 1) s @ replicate (n - length (take (n - 1) s)) 0"

text \<open>
  The bytes of a number as the processor keeps it in memory, low byte first: what \<^verbatim>\<open>memcpy\<close> of a
  packed structure moves.
\<close>

definition le_bytes :: "nat \<Rightarrow> 'a::len word \<Rightarrow> bytes" where
  "le_bytes n v = map (\<lambda>i. byte_at (8 * i) v) [0..<n]"

definition le_value :: "bytes \<Rightarrow> 'a::len word" where
  "le_value bs = foldr (\<lambda>b v. ucast b OR push_bit 8 v) bs 0"

lemma length_char_field [simp]: "0 < n \<Longrightarrow> length (char_field n s) = n"
  by (simp add: char_field_def)

lemma length_le_bytes [simp]: "length (le_bytes n v) = n"
  by (simp add: le_bytes_def)

lemma cstr_char_field: "cstr (char_field n s) = take (n - 1) (cstr s)"
proof -
  have "takeWhile (\<lambda>b. b \<noteq> 0) (take k xs @ replicate m 0) = take k (takeWhile (\<lambda>b. b \<noteq> 0) xs)"
    for k m and xs :: bytes
    by (induction xs arbitrary: k) (auto simp: take_Cons' takeWhile_replicate)
  then show ?thesis by (simp add: cstr_def char_field_def)
qed

lemma cstr_no_zero: "0 \<notin> set (cstr s)"
  using set_takeWhileD by (fastforce simp: cstr_def)

lemma cstr_id: "0 \<notin> set s \<Longrightarrow> cstr s = s"
  by (metis (mono_tags, lifting) cstr_def takeWhile_eq_all_conv)

lemma le_value_bytes:
  assumes "8 * n = LENGTH('a)"
  shows "le_value (le_bytes n v) = (v :: 'a::len word)"
proof -
  have "foldr (\<lambda>b v. ucast b OR push_bit 8 v) (map (\<lambda>i. byte_at (8 * i) v) [k..<k + m]) 0 =
      take_bit (8 * m) (drop_bit (8 * k) v)" for k m
  proof (induction m arbitrary: k)
    case (Suc m)
    have "[k..<k + Suc m] = k # [Suc k..<Suc k + m]" by (simp add: upt_conv_Cons)
    then have "foldr (\<lambda>b v. ucast b OR push_bit 8 v) (map (\<lambda>i. byte_at (8 * i) v) [k..<k + Suc m]) 0 =
        ucast (byte_at (8 * k) v) OR push_bit 8 (take_bit (8 * m) (drop_bit (8 * Suc k) v))"
      using Suc.IH [of "Suc k"] by simp
    also have "\<dots> = take_bit (8 * Suc m) (drop_bit (8 * k) v)"
      by (rule bit_word_eqI) (auto simp: bit_simps bit_byte_at)
    finally show ?case .
  qed simp
  from this [of 0 n] show ?thesis using assms by (simp add: le_bytes_def le_value_def)
qed

section \<open>Fallible operations that thread a state\<close>

text \<open>
  A C function that returns \<^verbatim>\<open>bool\<close> and writes a result through a pointer, working on a context
  struct, is a function to \<^typ>\<open>'a option \<times> 's\<close>: the context is returned in both cases, since the
  code may have changed it before it failed. \<open>obind\<close> is \<^verbatim>\<open>if (!f(&s, &a)) return false; ...\<close>.
\<close>

definition obind :: "'a option \<times> 's \<Rightarrow> ('a \<Rightarrow> 's \<Rightarrow> 'b option \<times> 's) \<Rightarrow> 'b option \<times> 's" where
  "obind m f = (case m of (None, s) \<Rightarrow> (None, s) | (Some a, s) \<Rightarrow> f a s)"

lemma obind_simps [simp]:
  "obind (None, s) f = (None, s)"
  "obind (Some a, s) f = f a s"
  by (simp_all add: obind_def)

lemma obind_cong [fundef_cong]:
  "m = n \<Longrightarrow> (\<And>a s. n = (Some a, s) \<Longrightarrow> f a s = g a s) \<Longrightarrow> obind m f = obind n g"
  by (auto simp: obind_def split: prod.splits option.splits)

lemma obind_SomeE:
  assumes "obind m f = (Some b, t)"
  obtains a s where "m = (Some a, s)" and "f a s = (Some b, t)"
  using assms by (auto simp: obind_def split: prod.splits option.splits)

section \<open>Counted loops\<close>

text \<open>
  \<^verbatim>\<open>for (int i = 0; i < n; i++)\<close>, with a body that works on the variables it changes:
  \<open>repeat_n\<close> when it always runs to the end, \<open>for_loop\<close> when it may leave the loop with a result.
\<close>

fun repeat_n :: "nat \<Rightarrow> ('s \<Rightarrow> 's) \<Rightarrow> 's \<Rightarrow> 's" where
  "repeat_n 0 f s = s"
| "repeat_n (Suc n) f s = repeat_n n f (f s)"

fun for_loop :: "nat \<Rightarrow> ('s \<Rightarrow> 'r + 's) \<Rightarrow> 's \<Rightarrow> 'r + 's" where
  "for_loop 0 f s = Inr s"
| "for_loop (Suc n) f s = (case f s of Inl r \<Rightarrow> Inl r | Inr s \<Rightarrow> for_loop n f s)"

lemma repeat_n_inv: "P s \<Longrightarrow> (\<And>s. P s \<Longrightarrow> P (f s)) \<Longrightarrow> P (repeat_n n f s)"
  by (induction n arbitrary: s) auto

lemma for_loop_inv:
  assumes "P s" and "\<And>s. P s \<Longrightarrow> case f s of Inl r \<Rightarrow> Q r | Inr s \<Rightarrow> P s"
  shows "case for_loop n f s of Inl r \<Rightarrow> Q r | Inr s \<Rightarrow> P s"
  using assms(1)
proof (induction n arbitrary: s)
  case (Suc n)
  then show ?case using assms(2) [OF Suc.prems] by (cases "f s") auto
qed simp

end
