(* ===== verification/Byte_Sink.thy ===== *)
theory Byte_Sink
  imports Prelude
begin

text \<open>
  The contract of a bounded output buffer, as the encoders of the firmware use it: bytes are
  appended while they fit, and the first one that does not fit makes the buffer fail for good.
  An encoder is a sequence of such writes; what it leaves in the buffer is proved once here
  (\<open>writes_trans\<close>) and then holds for every provider of the contract.
\<close>

locale byte_sink =
  fixes out :: "'s \<Rightarrow> bytes"
    and cap :: "'s \<Rightarrow> nat"
    and failed :: "'s \<Rightarrow> bool"
    and put :: "'s \<Rightarrow> byte \<Rightarrow> 's"
    and put_all :: "'s \<Rightarrow> bytes \<Rightarrow> 's"
  assumes put_cap: "cap (put s b) = cap s"
    and put_fits: "\<not> failed s \<Longrightarrow> length (out s) < cap s \<Longrightarrow>
      \<not> failed (put s b) \<and> out (put s b) = out s @ [b]"
    and put_full: "failed s \<or> cap s \<le> length (out s) \<Longrightarrow>
      failed (put s b) \<and> out (put s b) = out s"
    and put_all_cap: "cap (put_all s bs) = cap s"
    and put_all_fits: "\<not> failed s \<Longrightarrow> length (out s) + length bs \<le> cap s \<Longrightarrow>
      \<not> failed (put_all s bs) \<and> out (put_all s bs) = out s @ bs"
    and put_all_full: "failed s \<or> cap s < length (out s) + length bs \<Longrightarrow>
      failed (put_all s bs) \<and> out (put_all s bs) = out s"
begin

definition fits :: "'s \<Rightarrow> bytes \<Rightarrow> bool" where
  "fits s bs \<longleftrightarrow> \<not> failed s \<and> length (out s) + length bs \<le> cap s"

text \<open>
  \<open>writes s bs t\<close>: the step from \<open>s\<close> to \<open>t\<close> is a write of \<open>bs\<close>. It appends them when they fit,
  fails when they do not, and never leaves more than \<open>cap s\<close> bytes in the buffer.
\<close>

definition writes :: "'s \<Rightarrow> bytes \<Rightarrow> 's \<Rightarrow> bool" where
  "writes s bs t \<longleftrightarrow> cap t = cap s \<and>
     (length (out s) \<le> cap s \<longrightarrow> length (out t) \<le> cap s) \<and>
     (if fits s bs then \<not> failed t \<and> out t = out s @ bs
      else length (out s) \<le> cap s \<longrightarrow> failed t)"

lemma writes_put: "writes s [b] (put s b)"
proof (cases "\<not> failed s \<and> length (out s) < cap s")
  case True
  with put_fits [of s b] show ?thesis by (auto simp: writes_def fits_def put_cap)
next
  case False
  then have full: "failed s \<or> cap s \<le> length (out s)" by auto
  with put_full [OF full, of b] show ?thesis by (auto simp: writes_def fits_def put_cap)
qed

lemma writes_put_all: "writes s bs (put_all s bs)"
proof (cases "fits s bs")
  case True
  with put_all_fits [of s bs] show ?thesis by (auto simp: writes_def fits_def put_all_cap)
next
  case False
  then have full: "failed s \<or> cap s < length (out s) + length bs" by (auto simp: fits_def)
  with put_all_full [OF full] False show ?thesis by (auto simp: writes_def put_all_cap)
qed

lemma writes_nil: "writes s [] s"
  by (auto simp: writes_def fits_def)

lemma writes_trans: "writes s bs t \<Longrightarrow> writes t cs u \<Longrightarrow> writes s (bs @ cs) u"
  by (auto simp: writes_def fits_def split: if_splits)

lemma writes_puts: "writes s bs (foldl put s bs)"
  by (induction bs rule: rev_induct) (auto intro: writes_nil writes_trans writes_put)

lemma writes_okD:
  assumes "writes s bs t" and "length (out s) \<le> cap s" and "\<not> failed t"
  shows "out t = out s @ bs" and "\<not> failed s"
  using assms by (auto simp: writes_def fits_def split: if_splits)

lemma writes_fits: "writes s bs t \<Longrightarrow> fits s bs \<Longrightarrow> \<not> failed t \<and> out t = out s @ bs"
  by (auto simp: writes_def)

lemma writes_bound: "writes s bs t \<Longrightarrow> length (out s) \<le> cap s \<Longrightarrow> length (out t) \<le> cap t"
  by (auto simp: writes_def)

lemma writes_overflow:
  "writes s bs t \<Longrightarrow> length (out s) \<le> cap s \<Longrightarrow> cap s < length (out s) + length bs \<Longrightarrow> failed t"
  by (auto simp: writes_def fits_def)

end

end
