(* ===== verification/Byte_Source.thy ===== *)
theory Byte_Source
  imports Prelude
begin

text \<open>
  The contract of an input cursor over a fixed buffer, as the decoders of the firmware use it: a
  byte is handed out only from inside the buffer, the cursor moves forward, and a failed cursor
  stays failed. Whatever a decoder does with the bytes, it then never reads past the end
  (\<open>reads_bound\<close>).
\<close>

locale byte_source =
  fixes input :: "'s \<Rightarrow> bytes"
    and pos :: "'s \<Rightarrow> nat"
    and failed :: "'s \<Rightarrow> bool"
    and get :: "'s \<Rightarrow> byte option \<times> 's"
  assumes get_input: "get s = (x, t) \<Longrightarrow> input t = input s"
    and get_Some: "get s = (Some b, t) \<Longrightarrow>
      \<not> failed s \<and> \<not> failed t \<and> pos s < length (input s) \<and> b = input s ! pos s \<and> pos t = Suc (pos s)"
    and get_None: "get s = (None, t) \<Longrightarrow> failed t \<and> pos t = pos s"
begin

text \<open>\<open>reads s t\<close>: the step from \<open>s\<close> to \<open>t\<close> is one a decoder may take.\<close>

definition reads :: "'s \<Rightarrow> 's \<Rightarrow> bool" where
  "reads s t \<longleftrightarrow> input t = input s \<and> pos s \<le> pos t \<and>
     (pos s \<le> length (input s) \<longrightarrow> pos t \<le> length (input s)) \<and> (failed s \<longrightarrow> failed t)"

lemma reads_refl [simp, intro]: "reads s s"
  by (simp add: reads_def)

lemma reads_trans: "reads s t \<Longrightarrow> reads t u \<Longrightarrow> reads s u"
  by (auto simp: reads_def)

lemma reads_get: "reads s (snd (get s))"
proof (cases "get s")
  case (Pair x t)
  then show ?thesis
    using get_input [OF Pair] get_Some [of s "the x" t] get_None [of s t]
    by (cases x) (auto simp: reads_def)
qed

lemma reads_obind:
  assumes "reads s (snd m)" and "\<And>a t. m = (Some a, t) \<Longrightarrow> reads t (snd (f a t))"
  shows "reads s (snd (obind m f))"
  using assms by (cases m) (auto simp: obind_def intro: reads_trans split: option.splits)

lemma reads_bound:
  "reads s t \<Longrightarrow> pos s \<le> length (input s) \<Longrightarrow> pos t \<le> length (input t) \<and> input t = input s"
  by (simp add: reads_def)

end

end
