(* ===== verification/Cbor.thy ===== *)
theory Cbor
  imports Byte_Sink Byte_Source
begin

text \<open>
  The CBOR reader and writer of the FIDO2 module
  (\<^verbatim>\<open>components/mod_fido2/src/cbor_helpers.cpp\<close>).

  The writer's buffer is the list of the bytes written so far, so that \<^verbatim>\<open>offset\<close> is its length;
  the reader's buffer is the whole input, and its size the length of the list. A function that
  returns \<^verbatim>\<open>bool\<close> and an output parameter returns an option and the context.
\<close>

section \<open>Writer\<close>

record cbor_writer =
  w_size :: nat
  w_buffer :: bytes
  w_error :: bool

abbreviation w_offset :: "cbor_writer \<Rightarrow> nat" where
  "w_offset w \<equiv> length (w_buffer w)"

text \<open>\<^verbatim>\<open>CBOR_UNSIGNED\<close> to \<^verbatim>\<open>CBOR_SIMPLE\<close> of \<^verbatim>\<open>cbor_helpers.h\<close>.\<close>

abbreviation (input) "CBOR_UNSIGNED \<equiv> (0 :: byte)"
abbreviation (input) "CBOR_NEGATIVE \<equiv> (1 :: byte)"
abbreviation (input) "CBOR_BYTES \<equiv> (2 :: byte)"
abbreviation (input) "CBOR_TEXT \<equiv> (3 :: byte)"
abbreviation (input) "CBOR_ARRAY \<equiv> (4 :: byte)"
abbreviation (input) "CBOR_MAP \<equiv> (5 :: byte)"
abbreviation (input) "CBOR_TAG \<equiv> (6 :: byte)"
abbreviation (input) "CBOR_FALSE \<equiv> (0xF4 :: byte)"
abbreviation (input) "CBOR_TRUE \<equiv> (0xF5 :: byte)"
abbreviation (input) "CBOR_NULL \<equiv> (0xF6 :: byte)"

definition cbor_writer_init :: "nat \<Rightarrow> cbor_writer" where
  "cbor_writer_init sz = \<lparr>w_size = sz, w_buffer = [], w_error = False\<rparr>"

definition write_byte :: "cbor_writer \<Rightarrow> byte \<Rightarrow> cbor_writer" where
  "write_byte w b =
     (if w_error w then w
      else if w_offset w \<ge> w_size w then w\<lparr>w_error := True\<rparr>
      else w\<lparr>w_buffer := w_buffer w @ [b]\<rparr>)"

definition write_bytes :: "cbor_writer \<Rightarrow> bytes \<Rightarrow> cbor_writer" where
  "write_bytes w data =
     (if w_error w then w
      else if w_offset w + length data > w_size w then w\<lparr>w_error := True\<rparr>
      else w\<lparr>w_buffer := w_buffer w @ data\<rparr>)"

definition write_type_value :: "cbor_writer \<Rightarrow> byte \<Rightarrow> u64 \<Rightarrow> cbor_writer" where
  "write_type_value w type value =
     (let major = push_bit 5 type in
      if value < 24 then write_byte w (major OR ucast value)
      else if value \<le> 0xFF then
        write_byte (write_byte w (major OR 24)) (ucast value)
      else if value \<le> 0xFFFF then
        write_byte (write_byte (write_byte w (major OR 25)) (byte_at 8 value)) (byte_at 0 value)
      else if value \<le> 0xFFFFFFFF then
        write_byte (write_byte (write_byte (write_byte
          (write_byte w (major OR 26)) (byte_at 24 value)) (byte_at 16 value))
          (byte_at 8 value)) (byte_at 0 value)
      else
        write_byte (write_byte (write_byte (write_byte (write_byte (write_byte (write_byte
          (write_byte (write_byte w (major OR 27)) (byte_at 56 value)) (byte_at 48 value))
          (byte_at 40 value)) (byte_at 32 value)) (byte_at 24 value)) (byte_at 16 value))
          (byte_at 8 value)) (byte_at 0 value))"

definition cbor_encode_uint :: "cbor_writer \<Rightarrow> u64 \<Rightarrow> cbor_writer" where
  "cbor_encode_uint w value = write_type_value w CBOR_UNSIGNED value"

text \<open>\<^verbatim>\<open>int64_t\<close> is a 64-bit word read by \<^const>\<open>sint\<close>; the cast to \<^verbatim>\<open>uint64_t\<close> keeps the bits.\<close>

definition cbor_encode_int :: "cbor_writer \<Rightarrow> u64 \<Rightarrow> cbor_writer" where
  "cbor_encode_int w value =
     (if 0 \<le> sint value then write_type_value w CBOR_UNSIGNED value
      else write_type_value w CBOR_NEGATIVE (- 1 - value))"

text \<open>The data pointer of a byte or text string may be null: the header alone is written then.\<close>

definition cbor_encode_bytes :: "cbor_writer \<Rightarrow> bytes option \<Rightarrow> nat \<Rightarrow> cbor_writer" where
  "cbor_encode_bytes w data len =
     (let w = write_type_value w CBOR_BYTES (of_nat len) in
      case data of
        None \<Rightarrow> w
      | Some d \<Rightarrow> if len > 0 then write_bytes w (take len d) else w)"

definition cbor_encode_text_len :: "cbor_writer \<Rightarrow> bytes option \<Rightarrow> nat \<Rightarrow> cbor_writer" where
  "cbor_encode_text_len w str len =
     (let w = write_type_value w CBOR_TEXT (of_nat len) in
      case str of
        None \<Rightarrow> w
      | Some s \<Rightarrow> if len > 0 then write_bytes w (take len s) else w)"

text \<open>A C string is the list of its bytes before the terminator; \<^verbatim>\<open>strlen\<close> is its length.\<close>

definition cbor_encode_text :: "cbor_writer \<Rightarrow> bytes option \<Rightarrow> cbor_writer" where
  "cbor_encode_text w str =
     (let s = (case str of None \<Rightarrow> [] | Some s \<Rightarrow> s); len = length s;
          w = write_type_value w CBOR_TEXT (of_nat len) in
      if len > 0 then write_bytes w s else w)"

definition cbor_encode_bool :: "cbor_writer \<Rightarrow> bool \<Rightarrow> cbor_writer" where
  "cbor_encode_bool w value = write_byte w (if value then CBOR_TRUE else CBOR_FALSE)"

definition cbor_encode_null :: "cbor_writer \<Rightarrow> cbor_writer" where
  "cbor_encode_null w = write_byte w CBOR_NULL"

definition cbor_encode_array :: "cbor_writer \<Rightarrow> nat \<Rightarrow> cbor_writer" where
  "cbor_encode_array w count = write_type_value w CBOR_ARRAY (of_nat count)"

definition cbor_encode_map :: "cbor_writer \<Rightarrow> nat \<Rightarrow> cbor_writer" where
  "cbor_encode_map w count = write_type_value w CBOR_MAP (of_nat count)"

definition cbor_encode_cose_key_p256 :: "cbor_writer \<Rightarrow> bytes \<Rightarrow> bytes \<Rightarrow> cbor_writer" where
  "cbor_encode_cose_key_p256 w x y =
     (let w = cbor_encode_map w 5;
          w = cbor_encode_uint w 1; w = cbor_encode_uint w 2;
          w = cbor_encode_uint w 3; w = cbor_encode_int w (- 7);
          w = cbor_encode_int w (- 1); w = cbor_encode_uint w 1;
          w = cbor_encode_int w (- 2); w = cbor_encode_bytes w (Some x) 32;
          w = cbor_encode_int w (- 3)
      in cbor_encode_bytes w (Some y) 32)"

definition cbor_encode_cose_key_ed25519 :: "cbor_writer \<Rightarrow> bytes \<Rightarrow> cbor_writer" where
  "cbor_encode_cose_key_ed25519 w pubkey =
     (let w = cbor_encode_map w 4;
          w = cbor_encode_uint w 1; w = cbor_encode_uint w 1;
          w = cbor_encode_uint w 3; w = cbor_encode_int w (- 8);
          w = cbor_encode_int w (- 1); w = cbor_encode_uint w 6;
          w = cbor_encode_int w (- 2)
      in cbor_encode_bytes w (Some pubkey) 32)"

section \<open>Reader\<close>

record cbor_reader =
  r_data :: bytes
  r_offset :: nat
  r_error :: bool

abbreviation r_size :: "cbor_reader \<Rightarrow> nat" where
  "r_size r \<equiv> length (r_data r)"

text \<open>The payload of a byte or text string: \<^verbatim>\<open>bytes\<close> and \<^verbatim>\<open>length\<close> of \<^verbatim>\<open>cbor_item_t\<close> as one list.\<close>

record cbor_item =
  it_type :: byte
  it_value :: u64
  it_bytes :: bytes

definition cbor_reader_init :: "bytes \<Rightarrow> cbor_reader" where
  "cbor_reader_init data = \<lparr>r_data = data, r_offset = 0, r_error = False\<rparr>"

definition cbor_reader_available :: "cbor_reader \<Rightarrow> bool" where
  "cbor_reader_available r \<longleftrightarrow> \<not> r_error r \<and> r_offset r < r_size r"

definition cbor_reader_peek_type :: "cbor_reader \<Rightarrow> int" where
  "cbor_reader_peek_type r =
     (if r_error r \<or> r_offset r \<ge> r_size r then - 1
      else uint (drop_bit 5 (r_data r ! r_offset r)))"

abbreviation r_fail :: "cbor_reader \<Rightarrow> cbor_reader" where
  "r_fail r \<equiv> r\<lparr>r_error := True\<rparr>"

definition read_byte :: "cbor_reader \<Rightarrow> byte option \<times> cbor_reader" where
  "read_byte r =
     (if r_error r then (None, r)
      else if r_offset r \<ge> r_size r then (None, r_fail r)
      else (Some (r_data r ! r_offset r), r\<lparr>r_offset := r_offset r + 1\<rparr>))"

text \<open>The loops \<^verbatim>\<open>for (i = 0; i < n; i++) if (!read_byte(r, &b[i])) return false;\<close>.\<close>

fun read_n :: "cbor_reader \<Rightarrow> nat \<Rightarrow> bytes option \<times> cbor_reader" where
  "read_n r 0 = (Some [], r)"
| "read_n r (Suc n) = obind (read_byte r) (\<lambda>b r. obind (read_n r n) (\<lambda>bs r. (Some (b # bs), r)))"

definition read_type_value :: "cbor_reader \<Rightarrow> (byte \<times> u64) option \<times> cbor_reader" where
  "read_type_value r =
     obind (read_byte r) (\<lambda>initial r.
       let type = drop_bit 5 initial; info = initial AND 0x1F in
       if info < 24 then (Some (type, ucast info), r)
       else if info = 24 then obind (read_byte r) (\<lambda>b r. (Some (type, ucast b), r))
       else if info = 25 then
         obind (read_n r 2) (\<lambda>b r. (Some (type, ucast (be16 (b ! 0) (b ! 1))), r))
       else if info = 26 then
         obind (read_n r 4) (\<lambda>b r. (Some (type, ucast (be32 (b ! 0) (b ! 1) (b ! 2) (b ! 3))), r))
       else if info = 27 then
         obind (read_n r 8) (\<lambda>b r. (Some (type,
           be64 (b ! 0) (b ! 1) (b ! 2) (b ! 3) (b ! 4) (b ! 5) (b ! 6) (b ! 7)), r))
       else (None, r_fail r))"

definition cbor_read_item :: "cbor_reader \<Rightarrow> cbor_item option \<times> cbor_reader" where
  "cbor_read_item r =
     obind (read_type_value r) (\<lambda>(type, value) r.
       if type = CBOR_BYTES \<or> type = CBOR_TEXT then
         if unat value > r_size r - r_offset r then (None, r_fail r)
         else (Some \<lparr>it_type = type, it_value = value,
                     it_bytes = take (unat value) (drop (r_offset r) (r_data r))\<rparr>,
               r\<lparr>r_offset := r_offset r + unat value\<rparr>)
       else (Some \<lparr>it_type = type, it_value = value, it_bytes = []\<rparr>, r))"

definition cbor_read_uint :: "cbor_reader \<Rightarrow> u64 option \<times> cbor_reader" where
  "cbor_read_uint r =
     obind (cbor_read_item r) (\<lambda>item r.
       if it_type item \<noteq> CBOR_UNSIGNED then (None, r_fail r)
       else (Some (it_value item), r))"

definition cbor_read_int :: "cbor_reader \<Rightarrow> u64 option \<times> cbor_reader" where
  "cbor_read_int r =
     obind (cbor_read_item r) (\<lambda>item r.
       if it_type item = CBOR_UNSIGNED then (Some (it_value item), r)
       else if it_type item = CBOR_NEGATIVE then (Some (- 1 - it_value item), r)
       else (None, r_fail r))"

text \<open>The bytes copied out: at most \<^verbatim>\<open>max_len\<close>, and \<^verbatim>\<open>out_len\<close> is their number.\<close>

definition cbor_read_bytes :: "cbor_reader \<Rightarrow> nat \<Rightarrow> bytes option \<times> cbor_reader" where
  "cbor_read_bytes r max_len =
     obind (cbor_read_item r) (\<lambda>item r.
       if it_type item \<noteq> CBOR_BYTES then (None, r_fail r)
       else
         let copy_len = (if length (it_bytes item) < max_len then length (it_bytes item) else max_len)
         in (Some (take copy_len (it_bytes item)), r))"

definition cbor_read_text :: "cbor_reader \<Rightarrow> nat \<Rightarrow> bytes option \<times> cbor_reader" where
  "cbor_read_text r max_len =
     (if max_len = 0 then (None, r)
      else obind (cbor_read_item r) (\<lambda>item r.
        if it_type item \<noteq> CBOR_TEXT then (None, r_fail r)
        else
          let copy_len = (if length (it_bytes item) < max_len - 1 then length (it_bytes item)
                          else max_len - 1)
          in (Some (take copy_len (it_bytes item)), r)))"

definition cbor_read_bool :: "cbor_reader \<Rightarrow> bool option \<times> cbor_reader" where
  "cbor_read_bool r =
     obind (read_byte r) (\<lambda>b r.
       if b = CBOR_FALSE then (Some False, r)
       else if b = CBOR_TRUE then (Some True, r)
       else (None, r_fail r))"

text \<open>
  The count is \<^verbatim>\<open>(int)item.value\<close>, the low 32 bits of the value as a signed number, and \<open>-1\<close>
  stands for an error: a count with bit 31 set is taken for a failure by the callers.
\<close>

definition int_of_count :: "u64 \<Rightarrow> int" where
  "int_of_count v = sint (ucast v :: u32)"

definition cbor_read_map :: "cbor_reader \<Rightarrow> int \<times> cbor_reader" where
  "cbor_read_map r =
     (case cbor_read_item r of
        (None, r) \<Rightarrow> (- 1, r)
      | (Some item, r) \<Rightarrow>
          if it_type item \<noteq> CBOR_MAP then (- 1, r_fail r) else (int_of_count (it_value item), r))"

definition cbor_read_array :: "cbor_reader \<Rightarrow> int \<times> cbor_reader" where
  "cbor_read_array r =
     (case cbor_read_item r of
        (None, r) \<Rightarrow> (- 1, r)
      | (Some item, r) \<Rightarrow>
          if it_type item \<noteq> CBOR_ARRAY then (- 1, r_fail r) else (int_of_count (it_value item), r))"

section \<open>Skipping an item\<close>

text \<open>
  \<open>skip_loop r depth n\<close> is the loop of \<^verbatim>\<open>cbor_skip_item_impl\<close> over the \<open>n\<close> items a container has
  left. The recursion goes one level deeper with every container and stops at the limit.
\<close>

abbreviation (input) "CBOR_MAX_RECURSION_DEPTH \<equiv> (8 :: nat)"
abbreviation (input) "CBOR_MAX_CONTAINER_SIZE \<equiv> (256 :: u64)"

function cbor_skip_item_impl :: "cbor_reader \<Rightarrow> nat \<Rightarrow> bool \<times> cbor_reader"
  and skip_loop :: "cbor_reader \<Rightarrow> nat \<Rightarrow> nat \<Rightarrow> bool \<times> cbor_reader" where
  "cbor_skip_item_impl r depth =
     (if depth > CBOR_MAX_RECURSION_DEPTH then (False, r)
      else case cbor_read_item r of
        (None, r) \<Rightarrow> (False, r)
      | (Some item, r) \<Rightarrow>
          if it_type item = CBOR_ARRAY then
            if it_value item > CBOR_MAX_CONTAINER_SIZE then (False, r)
            else skip_loop r (depth + 1) (unat (it_value item))
          else if it_type item = CBOR_MAP then
            if it_value item > CBOR_MAX_CONTAINER_SIZE then (False, r)
            else skip_loop r (depth + 1) (unat (it_value item * 2))
          else (True, r))"
| "skip_loop r depth 0 = (True, r)"
| "skip_loop r depth (Suc n) =
     (case cbor_skip_item_impl r depth of
        (False, r) \<Rightarrow> (False, r)
      | (True, r) \<Rightarrow> skip_loop r depth n)"
  by pat_completeness auto
termination
  by (relation "measures [\<lambda>x. case x of Inl (r, d) \<Rightarrow> 10 - d | Inr (r, d, n) \<Rightarrow> 10 - d,
                          \<lambda>x. case x of Inl (r, d) \<Rightarrow> 0 | Inr (r, d, n) \<Rightarrow> Suc n]") auto

declare cbor_skip_item_impl.simps [simp del]

definition cbor_skip_item :: "cbor_reader \<Rightarrow> bool \<times> cbor_reader" where
  "cbor_skip_item r = cbor_skip_item_impl r 0"

section \<open>COSE keys\<close>

text \<open>
  The output parameters of \<^verbatim>\<open>cbor_parse_cose_key\<close>: \<open>ck_x\<close> is the 32-byte buffer, \<open>ck_y\<close> is
  \<^const>\<open>None\<close> when the caller passes no buffer for the y coordinate.
\<close>

record cose_key =
  ck_kty :: int
  ck_alg :: int
  ck_x :: bytes
  ck_y :: "bytes option"

text \<open>\<^verbatim>\<open>memcpy\<close> of the bytes read over the front of the buffer.\<close>

definition overwrite :: "bytes \<Rightarrow> bytes \<Rightarrow> bytes" where
  "overwrite d buf = d @ drop (length d) buf"

fun cose_loop :: "cbor_reader \<Rightarrow> nat \<Rightarrow> cose_key \<Rightarrow> cose_key option \<times> cbor_reader" where
  "cose_loop r 0 k = (Some k, r)"
| "cose_loop r (Suc n) k =
     obind (cbor_read_int r) (\<lambda>key r.
       if key = 1 then
         obind (cbor_read_uint r) (\<lambda>v r. cose_loop r n (k\<lparr>ck_kty := int_of_count v\<rparr>))
       else if key = 3 then
         obind (cbor_read_int r) (\<lambda>v r. cose_loop r n (k\<lparr>ck_alg := int_of_count v\<rparr>))
       else if key = - 2 then
         obind (cbor_read_bytes r 32) (\<lambda>d r. cose_loop r n (k\<lparr>ck_x := overwrite d (ck_x k)\<rparr>))
       else if key = - 3 then
         (case ck_y k of
            None \<Rightarrow> cose_loop r n k
          | Some y \<Rightarrow>
              obind (cbor_read_bytes r 32) (\<lambda>d r. cose_loop r n (k\<lparr>ck_y := Some (overwrite d y)\<rparr>)))
       else
         (case cbor_skip_item r of
            (False, r) \<Rightarrow> (None, r)
          | (True, r) \<Rightarrow> cose_loop r n k))"

definition cbor_parse_cose_key ::
    "cbor_reader \<Rightarrow> bytes \<Rightarrow> bytes option \<Rightarrow> cose_key option \<times> cbor_reader" where
  "cbor_parse_cose_key r x y =
     (case cbor_read_map r of
        (count, r) \<Rightarrow>
          if count < 0 then (None, r)
          else cose_loop r (nat count) \<lparr>ck_kty = 0, ck_alg = 0, ck_x = x, ck_y = y\<rparr>)"

section \<open>What the writer writes\<close>

text \<open>
  The header of an item with major type \<open>t\<close> and argument \<open>v\<close>: the shortest of the five forms of
  RFC 8949. The writer is a provider of \<open>byte_sink\<close>, and writes exactly this.
\<close>

definition cbor_head :: "byte \<Rightarrow> u64 \<Rightarrow> bytes" where
  "cbor_head t v =
     (let major = push_bit 5 t in
      if v < 24 then [major OR ucast v]
      else if v \<le> 0xFF then [major OR 24, ucast v]
      else if v \<le> 0xFFFF then [major OR 25, byte_at 8 v, byte_at 0 v]
      else if v \<le> 0xFFFFFFFF then
        [major OR 26, byte_at 24 v, byte_at 16 v, byte_at 8 v, byte_at 0 v]
      else [major OR 27, byte_at 56 v, byte_at 48 v, byte_at 40 v, byte_at 32 v,
            byte_at 24 v, byte_at 16 v, byte_at 8 v, byte_at 0 v])"

interpretation cw: byte_sink w_buffer w_size w_error write_byte write_bytes
  by unfold_locales (auto simp: write_byte_def write_bytes_def)

lemma write_type_value_puts: "write_type_value w t v = foldl write_byte w (cbor_head t v)"
  by (simp add: write_type_value_def cbor_head_def Let_def)

section \<open>What the reader reads\<close>

text \<open>What is left to read, and the reader moved \<open>n\<close> bytes ahead.\<close>

definition rest :: "cbor_reader \<Rightarrow> bytes" where
  "rest r = drop (r_offset r) (r_data r)"

definition adv :: "cbor_reader \<Rightarrow> nat \<Rightarrow> cbor_reader" where
  "adv r n = r\<lparr>r_offset := r_offset r + n\<rparr>"

lemma rest_adv [simp]: "rest (adv r n) = drop n (rest r)"
  by (simp add: rest_def adv_def add.commute)

lemma adv_adv [simp]: "adv (adv r m) n = adv r (m + n)"
  by (simp add: adv_def)

lemma adv_error [simp]: "r_error (adv r n) = r_error r" "r_data (adv r n) = r_data r"
  by (simp_all add: adv_def)

lemma adv_0 [simp]: "adv r 0 = r"
  by (simp add: adv_def)

lemma read_byte_rest:
  "\<not> r_error r \<Longrightarrow> rest r = b # bs \<Longrightarrow> read_byte r = (Some b, adv r 1)"
  using length_drop [of "r_offset r" "r_data r"]
  by (auto simp: read_byte_def nth_via_drop rest_def adv_def)

lemma read_n_rest:
  "\<not> r_error r \<Longrightarrow> rest r = bs @ cs \<Longrightarrow> read_n r (length bs) = (Some bs, adv r (length bs))"
proof (induction bs arbitrary: r)
  case (Cons b bs)
  then have "read_byte r = (Some b, adv r 1)" by (simp add: read_byte_rest)
  moreover have "read_n (adv r 1) (length bs) = (Some bs, adv (adv r 1) (length bs))"
    using Cons.prems by (intro Cons.IH) simp_all
  ultimately show ?case by simp
qed simp

lemma head_type: "unat t < 8 \<Longrightarrow> drop_bit 5 (push_bit 5 t) = (t :: byte)"
  by (rule bit_word_eqI) (auto simp: bit_simps dest: bit_small [of t 3, simplified])

lemma low_no_type: "unat x < 32 \<Longrightarrow> drop_bit 5 x = (0 :: byte)"
  by (rule bit_word_eqI) (auto simp: bit_simps dest: bit_small [of x 5, simplified])

lemma unat_ucast_byte: "unat (ucast b :: u64) = unat (b :: byte)"
  by (rule bit_eqI) (auto simp: bit_unsigned_iff bit_simps dest: bit_imp_le_length)

lemma head_info: "unat x < 32 \<Longrightarrow> (push_bit 5 t OR x) AND 0x1F = (x :: byte)"
  using pack_low [of x 5 t] by (simp add: take_bit_eq_mask mask_eq_exp_minus_1)



text \<open>The header of an item, read back: one case per width of the argument.\<close>

lemma read_n_rest':
  "\<not> r_error r \<Longrightarrow> rest r = bs @ cs \<Longrightarrow> n = length bs \<Longrightarrow> read_n r n = (Some bs, adv r n)"
  using read_n_rest by simp

lemma read_type_value_1:
  assumes "\<not> r_error r" and "unat t < 8" and "unat i < 24" and "rest r = (push_bit 5 t OR i) # cs"
  shows "read_type_value r = (Some (t, ucast i), adv r 1)"
  using assms
  by (simp add: read_type_value_def read_byte_rest head_type head_info low_no_type word_less_nat_alt)

lemma read_type_value_n:
  assumes "\<not> r_error r" and "unat t < 8" and "rest r = (push_bit 5 t OR i) # bs @ cs"
    and "i = 24 \<and> length bs = 1 \<and> v = ucast (bs ! 0) \<or>
      i = 25 \<and> length bs = 2 \<and> v = ucast (be16 (bs ! 0) (bs ! 1)) \<or>
      i = 26 \<and> length bs = 4 \<and> v = ucast (be32 (bs ! 0) (bs ! 1) (bs ! 2) (bs ! 3)) \<or>
      i = 27 \<and> length bs = 8 \<and>
        v = be64 (bs ! 0) (bs ! 1) (bs ! 2) (bs ! 3) (bs ! 4) (bs ! 5) (bs ! 6) (bs ! 7)"
  shows "read_type_value r = (Some (t, v), adv r (Suc (length bs)))"
proof -
  have byte: "read_byte r = (Some (push_bit 5 t OR i), adv r 1)"
    using assms(1,3) by (simp add: read_byte_rest)
  have next_n: "read_n (adv r 1) (length bs) = (Some bs, adv (adv r 1) (length bs))"
    using assms(1,3) by (simp add: read_n_rest)
  have next_1: "length bs = 1 \<Longrightarrow> read_byte (adv r 1) = (Some (bs ! 0), adv r 2)"
    using assms(1,3) read_byte_rest [of "adv r 1" "bs ! 0" cs]
    by (cases bs) (auto simp: numeral_2_eq_2)
  have "unat i < 32" using assms(4) by auto
  with byte next_n next_1 assms(2,4) show ?thesis
    by (auto simp: read_type_value_def head_type head_info)
qed

lemma read_type_value_head:
  assumes "\<not> r_error r" and "unat t < 8" and "rest r = cbor_head t v @ cs"
  shows "read_type_value r = (Some (t, v), adv r (length (cbor_head t v)))"
proof -
  consider "v < 24" | "\<not> v < 24" "v \<le> 0xFF" | "\<not> v < 24" "\<not> v \<le> 0xFF" "v \<le> 0xFFFF"
    | "\<not> v < 24" "\<not> v \<le> 0xFF" "\<not> v \<le> 0xFFFF" "v \<le> 0xFFFFFFFF" 
    | "\<not> v < 24" "\<not> v \<le> 0xFF" "\<not> v \<le> 0xFFFF" "\<not> v \<le> 0xFFFFFFFF" by blast
  then show ?thesis
  proof cases
    case 1
    have narrow: "ucast (ucast v :: byte) = v" using 1 by (simp add: ucast_narrow word_less_nat_alt)
    then have "unat (ucast v :: byte) < 24" using 1 unat_ucast_byte [of "ucast v"] by (simp add: word_less_nat_alt)
    with assms 1 narrow show ?thesis
      using read_type_value_1 [of r t "ucast v" cs] by (simp add: cbor_head_def)
  next
    case 2
    then show ?thesis
      using assms read_type_value_n [of r t 24 "[ucast v]" cs v]
      by (simp add: cbor_head_def ucast_narrow word_le_nat_alt)
  next
    case 3
    then show ?thesis
      using assms read_type_value_n [of r t 25 "[byte_at 8 v, byte_at 0 v]" cs v]
      by (simp add: cbor_head_def ucast_be16 word_le_nat_alt)
  next
    case 4
    then show ?thesis
      using assms read_type_value_n
        [of r t 26 "[byte_at 24 v, byte_at 16 v, byte_at 8 v, byte_at 0 v]" cs v]
      by (simp add: cbor_head_def ucast_be32 word_le_nat_alt)
  next
    case 5
    then show ?thesis
      using assms read_type_value_n [of r t 27 "[byte_at 56 v, byte_at 48 v, byte_at 40 v,
          byte_at 32 v, byte_at 24 v, byte_at 16 v, byte_at 8 v, byte_at 0 v]" cs v]
      by (simp add: cbor_head_def)
  qed
qed

lemma writes_head: "cw.writes w (cbor_head t v) (write_type_value w t v)"
  by (simp add: write_type_value_puts cw.writes_puts)

text \<open>The bytes of an integer, a byte string and a text string.\<close>

definition enc_int :: "u64 \<Rightarrow> bytes" where
  "enc_int v = (if 0 \<le> sint v then cbor_head 0 v else cbor_head 1 (- 1 - v))"

definition enc_string :: "byte \<Rightarrow> bytes \<Rightarrow> bytes" where
  "enc_string t d = cbor_head t (of_nat (length d)) @ d"

lemma writes_uint: "cw.writes w (cbor_head 0 v) (cbor_encode_uint w v)"
  by (simp add: cbor_encode_uint_def writes_head)

lemma writes_int: "cw.writes w (enc_int v) (cbor_encode_int w v)"
  by (simp add: cbor_encode_int_def enc_int_def writes_head)

lemma writes_bytes:
  "n = length d \<Longrightarrow> cw.writes w (enc_string 2 d) (cbor_encode_bytes w (Some d) n)"
  using cw.writes_trans [OF writes_head cw.writes_put_all] writes_head
  by (cases d) (simp_all add: cbor_encode_bytes_def enc_string_def Let_def)

lemma writes_text: "cw.writes w (enc_string 3 d) (cbor_encode_text w (Some d))"
  using cw.writes_trans [OF writes_head cw.writes_put_all] writes_head
  by (cases d) (simp_all add: cbor_encode_text_def enc_string_def Let_def)

lemma writes_text_len:
  "n = length d \<Longrightarrow> cw.writes w (enc_string 3 d) (cbor_encode_text_len w (Some d) n)"
  using cw.writes_trans [OF writes_head cw.writes_put_all] writes_head
  by (cases d) (simp_all add: cbor_encode_text_len_def enc_string_def Let_def)

lemma writes_map: "cw.writes w (cbor_head 5 (of_nat n)) (cbor_encode_map w n)"
  by (simp add: cbor_encode_map_def writes_head)

lemma writes_array: "cw.writes w (cbor_head 4 (of_nat n)) (cbor_encode_array w n)"
  by (simp add: cbor_encode_array_def writes_head)

lemma writes_bool: "cw.writes w [if b then 0xF5 else 0xF4] (cbor_encode_bool w b)"
  by (simp add: cbor_encode_bool_def cw.writes_put)

lemma writes_null: "cw.writes w [0xF6] (cbor_encode_null w)"
  by (simp add: cbor_encode_null_def cw.writes_put)

lemmas writes_encoders = writes_uint writes_int writes_bytes writes_text writes_text_len
  writes_map writes_array writes_bool writes_null

text \<open>The two COSE keys, in the order the code writes their entries.\<close>

definition cose_p256 :: "bytes \<Rightarrow> bytes \<Rightarrow> bytes" where
  "cose_p256 x y = cbor_head 5 5 @ cbor_head 0 1 @ cbor_head 0 2 @ cbor_head 0 3 @ enc_int (- 7) @
     enc_int (- 1) @ cbor_head 0 1 @ enc_int (- 2) @ enc_string 2 x @ enc_int (- 3) @ enc_string 2 y"

definition cose_ed25519 :: "bytes \<Rightarrow> bytes" where
  "cose_ed25519 p = cbor_head 5 4 @ cbor_head 0 1 @ cbor_head 0 1 @ cbor_head 0 3 @ enc_int (- 8) @
     enc_int (- 1) @ cbor_head 0 6 @ enc_int (- 2) @ enc_string 2 p"

lemma writes_cose_p256:
  assumes "length x = 32" and "length y = 32"
  shows "cw.writes w (cose_p256 x y) (cbor_encode_cose_key_p256 w x y)"
  unfolding cose_p256_def cbor_encode_cose_key_p256_def Let_def using assms writes_map [where n = 5]
  by (auto intro!: cw.writes_trans writes_encoders)

lemma writes_cose_ed25519:
  assumes "length p = 32"
  shows "cw.writes w (cose_ed25519 p) (cbor_encode_cose_key_ed25519 w p)"
  unfolding cose_ed25519_def cbor_encode_cose_key_ed25519_def Let_def
  using assms writes_map [where n = 4]
  by (auto intro!: cw.writes_trans writes_encoders)

section \<open>The reader stays inside its input\<close>

interpretation cr: byte_source r_data r_offset r_error read_byte
  by unfold_locales (auto simp: read_byte_def split: if_splits)

lemma reads_fail [simp]: "cr.reads r (r_fail r)"
  by (simp add: cr.reads_def)

lemma reads_read_n: "cr.reads r (snd (read_n r n))"
proof (induction n arbitrary: r)
  case (Suc n)
  show ?case
    by (auto intro!: cr.reads_obind cr.reads_get Suc.IH)
qed simp

lemma reads_type_value: "cr.reads r (snd (read_type_value r))"
  unfolding read_type_value_def Let_def
  by (auto intro!: cr.reads_obind cr.reads_get reads_read_n)

lemma reads_item: "cr.reads r (snd (cbor_read_item r))"
  unfolding cbor_read_item_def
  by (rule cr.reads_obind [OF reads_type_value]) (auto simp: cr.reads_def)

lemma reads_uint: "cr.reads r (snd (cbor_read_uint r))"
  and reads_int: "cr.reads r (snd (cbor_read_int r))"
  and reads_bytes: "cr.reads r (snd (cbor_read_bytes r n))"
  and reads_text: "cr.reads r (snd (cbor_read_text r n))"
  and reads_bool: "cr.reads r (snd (cbor_read_bool r))"
  unfolding cbor_read_uint_def cbor_read_int_def cbor_read_bytes_def cbor_read_text_def
    cbor_read_bool_def Let_def
  by (auto intro!: cr.reads_obind reads_item cr.reads_get)

lemma reads_map: "cr.reads r (snd (cbor_read_map r))"
  and reads_array: "cr.reads r (snd (cbor_read_array r))"
  using reads_item [of r] unfolding cbor_read_map_def cbor_read_array_def
  by (auto split: prod.splits option.splits simp: cr.reads_def)

lemma reads_skip_impl:
  "cr.reads r (snd (cbor_skip_item_impl r d))"
  "cr.reads r (snd (skip_loop r d n))"
proof (induction r d and r d n rule: cbor_skip_item_impl_skip_loop.induct)
  case (1 r d)
  show ?case using 1 reads_item [of r]
    by (subst cbor_skip_item_impl.simps)
       (auto simp: split: prod.splits option.splits intro: cr.reads_trans)
next
  case (3 r d n)
  then show ?case
    by (auto split: prod.splits bool.splits intro: cr.reads_trans)
qed simp

lemma reads_skip: "cr.reads r (snd (cbor_skip_item r))"
  by (simp add: cbor_skip_item_def reads_skip_impl)

lemma reads_cose_loop: "cr.reads r (snd (cose_loop r n k))"
proof (induction n arbitrary: r k)
  case (Suc n)
  have skip: "cr.reads r (snd (case cbor_skip_item r of (False, r) \<Rightarrow> (None, r)
      | (True, r) \<Rightarrow> cose_loop r n k))" for r k
    using reads_skip [of r]
    by (auto split: prod.splits bool.splits intro: cr.reads_trans Suc.IH)
  show ?case
    by (auto intro!: cr.reads_obind reads_int reads_uint reads_bytes Suc.IH skip
        split: option.splits)
qed simp

lemma reads_cose: "cr.reads r (snd (cbor_parse_cose_key r x y))"
  using reads_map [of r] reads_cose_loop cr.reads_trans
  by (auto simp: cbor_parse_cose_key_def split: prod.splits)

section \<open>Reading back what was written\<close>

lemma read_item_scalar:
  assumes "\<not> r_error r" and "unat t < 8" and "t \<noteq> 2" and "t \<noteq> 3" and "rest r = cbor_head t v @ cs"
  shows "cbor_read_item r =
    (Some \<lparr>it_type = t, it_value = v, it_bytes = []\<rparr>, adv r (length (cbor_head t v)))"
  using read_type_value_head [OF assms(1,2,5)] assms(3,4) by (simp add: cbor_read_item_def)

lemma read_item_string:
  assumes "\<not> r_error r" and "t = 2 \<or> t = 3" and "length d < 2 ^ 64"
    and "rest r = enc_string t d @ cs"
  shows "cbor_read_item r =
    (Some \<lparr>it_type = t, it_value = of_nat (length d), it_bytes = d\<rparr>,
     adv r (length (enc_string t d)))"
proof -
  define h where "h = cbor_head t (of_nat (length d))"
  define r1 where "r1 = adv r (length h)"
  have "unat t < 8" using assms(2) by auto
  then have head: "read_type_value r = (Some (t, of_nat (length d)), r1)"
    using assms unfolding r1_def h_def
    by (intro read_type_value_head) (auto simp: enc_string_def)
  have len: "unat (of_nat (length d) :: u64) = length d"
    using assms(3) by (simp add: unsigned_of_nat take_bit_nat_eq_self)
  have after: "drop (r_offset r1) (r_data r1) = d @ cs"
    using assms(4) rest_adv [of r "length h"] by (simp add: r1_def h_def enc_string_def rest_def)
  then have "length d \<le> r_size r1 - r_offset r1"
    by (metis le_add1 length_append length_drop)
  then have "cbor_read_item r =
      (Some \<lparr>it_type = t, it_value = of_nat (length d), it_bytes = d\<rparr>, adv r1 (length d))"
    using assms(2) by (simp add: cbor_read_item_def head len after adv_def)
  moreover have "adv r1 (length d) = adv r (length (enc_string t d))"
    by (simp add: r1_def h_def enc_string_def)
  ultimately show ?thesis by simp
qed

lemma read_uint_enc:
  "\<not> r_error r \<Longrightarrow> rest r = cbor_head 0 v @ cs \<Longrightarrow>
    cbor_read_uint r = (Some v, adv r (length (cbor_head 0 v)))"
  using read_item_scalar [of r 0 v cs] by (simp add: cbor_read_uint_def)

lemma read_int_enc:
  assumes "\<not> r_error r" and "rest r = enc_int v @ cs"
  shows "cbor_read_int r = (Some v, adv r (length (enc_int v)))"
  using assms read_item_scalar [of r 0 v cs] read_item_scalar [of r 1 "- 1 - v" cs]
  by (auto simp: cbor_read_int_def enc_int_def split: if_splits)

lemma read_bytes_enc:
  assumes "\<not> r_error r" and "length d < 2 ^ 64" and "rest r = enc_string 2 d @ cs"
  shows "cbor_read_bytes r n = (Some (take n d), adv r (length (enc_string 2 d)))"
  using read_item_string [OF assms(1) _ assms(2,3)] by (simp add: cbor_read_bytes_def)

lemma read_text_enc:
  assumes "\<not> r_error r" and "length d < 2 ^ 64" and "rest r = enc_string 3 d @ cs" and "0 < n"
  shows "cbor_read_text r n = (Some (take (n - 1) d), adv r (length (enc_string 3 d)))"
  using read_item_string [OF assms(1) _ assms(2,3)] assms(4) by (simp add: cbor_read_text_def)

lemma read_map_enc:
  assumes "\<not> r_error r" and "n < 2 ^ 31" and "rest r = cbor_head 5 (of_nat n) @ cs"
  shows "cbor_read_map r = (int n, adv r (length (cbor_head 5 (of_nat n))))"
proof -
  have "(ucast (of_nat n :: u64) :: u32) = of_nat n"
    by (rule bit_word_eqI) (simp add: bit_simps)
  then have "int_of_count (of_nat n) = int n"
    using assms(2) by (simp add: int_of_count_def signed_of_nat signed_take_bit_int_eq_self)
  then show ?thesis
    using read_item_scalar [OF assms(1) _ _ _ assms(3)] by (simp add: cbor_read_map_def)
qed

section \<open>Integers, strings, keys: round trips\<close>

lemma init_simps [simp]:
  "rest (cbor_reader_init d) = d" "r_error (cbor_reader_init d) = False"
  "r_offset (cbor_reader_init d) = 0" "r_data (cbor_reader_init d) = d"
  by (simp_all add: cbor_reader_init_def rest_def)

lemma adv_offset [simp]: "r_offset (adv r n) = r_offset r + n"
  by (simp add: adv_def)

section \<open>Skipping: an abstract view\<close>

text \<open>
  A CBOR value, its encoding by the writer's headers, and the depth to which its containers nest:
  a container counts only when it has elements, since an empty one calls no skip of its own.
\<close>

datatype cval =
    CInt u64
  | CString byte bytes
  | CArray "cval list"
  | CMap "(cval \<times> cval) list"
  | CSimple byte

fun enc :: "cval \<Rightarrow> bytes" where
  "enc (CInt v) = enc_int v"
| "enc (CString t d) = enc_string t d"
| "enc (CArray vs) = cbor_head 4 (of_nat (length vs)) @ concat (map enc vs)"
| "enc (CMap kvs) =
     cbor_head 5 (of_nat (length kvs)) @ concat (map (\<lambda>(k, v). enc k @ enc v) kvs)"
| "enc (CSimple i) = cbor_head 7 (ucast i)"

fun elems :: "cval \<Rightarrow> cval list" where
  "elems (CArray vs) = vs"
| "elems (CMap kvs) = concat (map (\<lambda>(k, v). [k, v]) kvs)"
| "elems _ = []"

lemma size_elems: "v \<in> set (elems c) \<Longrightarrow> size v < size c"
proof (cases c)
  case (CArray vs)
  then show "v \<in> set (elems c) \<Longrightarrow> size v < size c"
    by (induction vs arbitrary: c) auto
next
  case (CMap kvs)
  show "size v < size c" if "v \<in> set (elems c)"
  proof -
    from that CMap obtain k w where kw: "(k, w) \<in> set kvs" "v = k \<or> v = w" by auto
    then have "size v \<le> size_prod size size (k, w)" by auto
    with kw(1) have "size v \<le> size_list (size_prod size size) kvs"
      by (rule size_list_estimation')
    with CMap show ?thesis by simp
  qed
qed simp_all

function nest :: "cval \<Rightarrow> nat" where
  "nest c = foldr (\<lambda>v. max (Suc (nest v))) (elems c) 0"
  by pat_completeness auto
termination by (relation "measure size") (auto dest: size_elems)

function small :: "cval \<Rightarrow> bool" where
  "small c \<longleftrightarrow> (case c of
       CString t d \<Rightarrow> (t = 2 \<or> t = 3) \<and> length d < 2 ^ 64
     | CArray vs \<Rightarrow> length vs \<le> 256
     | CMap kvs \<Rightarrow> length kvs \<le> 256
     | CSimple i \<Rightarrow> unat i < 24
     | CInt v \<Rightarrow> True) \<and> (\<forall>v \<in> set (elems c). small v)"
  by pat_completeness auto
termination by (relation "measure size") (auto dest: size_elems)

declare nest.simps [simp del] small.simps [simp del]

lemma nest_simps [simp]:
  "nest (CInt v) = 0"
  "nest (CString t d) = 0"
  "nest (CArray vs) = foldr (\<lambda>v. max (Suc (nest v))) vs 0"
  "nest (CMap kvs) = foldr (\<lambda>v. max (Suc (nest v))) (elems (CMap kvs)) 0"
  "nest (CSimple i) = 0"
  by (subst nest.simps, simp)+

lemma small_simps [simp]:
  "small (CInt v)"
  "small (CString t d) \<longleftrightarrow> (t = 2 \<or> t = 3) \<and> length d < 2 ^ 64"
  "small (CArray vs) \<longleftrightarrow> length vs \<le> 256 \<and> (\<forall>v \<in> set vs. small v)"
  "small (CMap kvs) \<longleftrightarrow> length kvs \<le> 256 \<and> (\<forall>v \<in> set (elems (CMap kvs)). small v)"
  "small (CSimple i) \<longleftrightarrow> unat i < 24"
  by (subst small.simps, simp)+

lemma nest_le: "d + nest c \<le> n \<longleftrightarrow> d \<le> n \<and> (\<forall>v \<in> set (elems c). Suc d + nest v \<le> n)"
proof -
  have "d + foldr (\<lambda>v. max (Suc (nest v))) vs 0 \<le> n \<longleftrightarrow>
      d \<le> n \<and> (\<forall>v \<in> set vs. Suc d + nest v \<le> n)" for vs
    by (induction vs) (auto simp: max_def)
  then show ?thesis by (subst nest.simps) simp
qed

text \<open>The encoding without the elements of a container: what \<open>cbor_read_item\<close> consumes.\<close>

fun front :: "cval \<Rightarrow> bytes" where
  "front (CArray vs) = cbor_head 4 (of_nat (length vs))"
| "front (CMap kvs) = cbor_head 5 (of_nat (length kvs))"
| "front c = enc c"

lemma enc_front: "enc c = front c @ concat (map enc (elems c))"
proof (cases c)
  case (CMap kvs)
  have "concat (map (\<lambda>(k, v). enc k @ enc v) kvs) =
      concat (map enc (concat (map (\<lambda>(k, v). [k, v]) kvs)))"
    by (induction kvs) auto
  with CMap show ?thesis by simp
qed simp_all

text \<open>How many items \<open>cbor_skip_item\<close> goes on to skip after reading the front of a value.\<close>

definition inner_count :: "cbor_item \<Rightarrow> nat" where
  "inner_count i = (if it_type i = 4 then unat (it_value i)
     else if it_type i = 5 then unat (it_value i * 2) else 0)"

lemma unat_count: "n < 2 ^ 64 \<Longrightarrow> unat (of_nat n :: u64) = n"
  by (simp add: unsigned_of_nat take_bit_nat_eq_self)

lemma count_word:
  assumes "n \<le> 256"
  shows "unat (of_nat n :: u64) = n" "(of_nat n :: u64) \<le> 256" "unat (of_nat n * 2 :: u64) = 2 * n"
proof -
  show n: "unat (of_nat n :: u64) = n" by (rule unat_count) (use assms in simp)
  have 256: "unat (256 :: u64) = 256" by simp
  show "(of_nat n :: u64) \<le> 256"
    by (rule word_le_nat_alt [THEN iffD2]) (unfold n 256, rule assms)
  have 2: "(of_nat n * 2 :: u64) = of_nat (2 * n)" by (simp add: mult.commute)
  show "unat (of_nat n * 2 :: u64) = 2 * n"
    unfolding 2 by (rule unat_count) (use assms in simp)
qed

lemma read_item_front:
  assumes "\<not> r_error r" and "small c" and "rest r = front c @ cs"
  obtains i where "cbor_read_item r = (Some i, adv r (length (front c)))"
    and "it_type i \<in> {4, 5} \<Longrightarrow> it_value i \<le> 256" and "inner_count i = length (elems c)"
proof (cases c)
  case (CInt v)
  then show thesis
    using assms that read_item_scalar [of r 0 v cs] read_item_scalar [of r 1 "- 1 - v" cs]
    by (auto simp: enc_int_def inner_count_def split: if_splits)
next
  case (CString t d)
  with assms(2) have t: "t = 2 \<or> t = 3" and len: "length d < 2 ^ 64" by simp_all
  from CString assms(3) have "rest r = enc_string t d @ cs" by simp
  from read_item_string [OF assms(1) t len this] show thesis
    by (rule that [OF trans]) (use t CString in \<open>auto simp: inner_count_def\<close>)
next
  case (CArray vs)
  then have len: "length vs \<le> 256" using assms(2) by simp_all
  note n = count_word [OF len]
  have item: "cbor_read_item r = (Some \<lparr>it_type = 4, it_value = of_nat (length vs), it_bytes = []\<rparr>,
      adv r (length (front c)))"
    using CArray assms by (simp add: read_item_scalar)
  show thesis by (rule that [OF item]) (use n CArray in \<open>simp_all add: inner_count_def\<close>)
next
  case (CMap kvs)
  then have len: "length kvs \<le> 256" using assms(2) by simp
  note n = count_word [OF len]
  have elems: "length (elems c) = 2 * length kvs"
    unfolding CMap by (induction kvs) auto
  have item: "cbor_read_item r =
      (Some \<lparr>it_type = 5, it_value = of_nat (length kvs), it_bytes = []\<rparr>,
       adv r (length (front c)))"
    using CMap assms by (simp add: read_item_scalar)
  show thesis by (rule that [OF item]) (use n elems in \<open>simp_all add: inner_count_def\<close>)
next
  case (CSimple i)
  then show thesis
    using assms that read_item_scalar [of r 7 "ucast i" cs] by (auto simp: inner_count_def)
qed

text \<open>One call of the skip, once the front is read.\<close>

lemma skip_impl_front:
  assumes "\<not> r_error r" and "small c" and "rest r = front c @ cs"
  shows "cbor_skip_item_impl r d =
    (if d > 8 then (False, r)
     else skip_loop (adv r (length (front c))) (Suc d) (length (elems c)))"
proof -
  from read_item_front [OF assms] obtain i
    where i: "cbor_read_item r = (Some i, adv r (length (front c)))"
      "it_type i \<in> {4, 5} \<Longrightarrow> it_value i \<le> 256" "inner_count i = length (elems c)"
    by blast
  then show ?thesis
    by (subst cbor_skip_item_impl.simps) (auto simp: inner_count_def not_less split: if_splits)
qed

lemma skip_loop_list:
  assumes "\<And>v r cs. v \<in> set vs \<Longrightarrow> \<not> r_error r \<Longrightarrow> rest r = enc v @ cs \<Longrightarrow>
      fst (cbor_skip_item_impl r d) = (d + nest v \<le> 8) \<and>
      (d + nest v \<le> 8 \<longrightarrow> cbor_skip_item_impl r d = (True, adv r (length (enc v))))"
    and "\<not> r_error r" and "rest r = concat (map enc vs) @ cs"
  shows "fst (skip_loop r d (length vs)) = (\<forall>v \<in> set vs. d + nest v \<le> 8) \<and>
    ((\<forall>v \<in> set vs. d + nest v \<le> 8) \<longrightarrow>
      skip_loop r d (length vs) = (True, adv r (length (concat (map enc vs)))))"
  using assms
proof (induction vs arbitrary: r)
  case (Cons v vs)
  have head: "fst (cbor_skip_item_impl r d) = (d + nest v \<le> 8)"
    "d + nest v \<le> 8 \<Longrightarrow> cbor_skip_item_impl r d = (True, adv r (length (enc v)))"
    using Cons.prems(1) [of v r "concat (map enc vs) @ cs"] Cons.prems(2,3) by auto
  show ?case
  proof (cases "d + nest v \<le> 8")
    case True
    have "rest (adv r (length (enc v))) = concat (map enc vs) @ cs" "\<not> r_error (adv r (length (enc v)))"
      using Cons.prems(2,3) by simp_all
    with Cons.IH [of "adv r (length (enc v))"] Cons.prems(1) head(2) [OF True] True
    show ?thesis by simp
  next
    case False
    with head(1) show ?thesis by (auto split: prod.splits bool.splits)
  qed
qed simp

lemma skip_impl_enc:
  "\<not> r_error r \<Longrightarrow> small c \<Longrightarrow> rest r = enc c @ cs \<Longrightarrow>
    fst (cbor_skip_item_impl r d) = (d + nest c \<le> 8) \<and>
    (d + nest c \<le> 8 \<longrightarrow> cbor_skip_item_impl r d = (True, adv r (length (enc c))))"
proof (induction c arbitrary: r d cs rule: measure_induct_rule [of size])
  case (less c)
  let ?r = "adv r (length (front c))"
  have step: "cbor_skip_item_impl r d =
      (if d > 8 then (False, r) else skip_loop ?r (Suc d) (length (elems c)))"
    using less.prems by (intro skip_impl_front [of _ _ "concat (map enc (elems c)) @ cs"])
      (simp_all add: enc_front)
  have small: "small v" if "v \<in> set (elems c)" for v
    using less.prems(2) that by (subst (asm) small.simps) blast
  have loop: "fst (skip_loop ?r (Suc d) (length (elems c))) =
        (\<forall>v \<in> set (elems c). Suc d + nest v \<le> 8) \<and>
      ((\<forall>v \<in> set (elems c). Suc d + nest v \<le> 8) \<longrightarrow>
        skip_loop ?r (Suc d) (length (elems c)) =
          (True, adv ?r (length (concat (map enc (elems c))))))"
    using less.prems
    by (intro skip_loop_list [of _ _ _ cs] less.IH small) (simp_all add: size_elems enc_front [of c])
  show ?case
    using step loop nest_le [of d c 8] by (auto simp: enc_front [of c])
qed

section \<open>COSE keys: an abstract view\<close>

text \<open>
  The entries of a COSE key map as a sender may order them, the keys the parser does not know
  included.
\<close>

datatype cose_entry =
    Kty u64
  | Alg u64
  | X bytes
  | Y bytes
  | Other u64 cval

fun enc_entry :: "cose_entry \<Rightarrow> bytes" where
  "enc_entry (Kty v) = enc_int 1 @ cbor_head 0 v"
| "enc_entry (Alg v) = enc_int 3 @ enc_int v"
| "enc_entry (X d) = enc_int (- 2) @ enc_string 2 d"
| "enc_entry (Y d) = enc_int (- 3) @ enc_string 2 d"
| "enc_entry (Other key c) = enc_int key @ enc c"

fun apply_entry :: "cose_key \<Rightarrow> cose_entry \<Rightarrow> cose_key" where
  "apply_entry k (Kty v) = k\<lparr>ck_kty := int_of_count v\<rparr>"
| "apply_entry k (Alg v) = k\<lparr>ck_alg := int_of_count v\<rparr>"
| "apply_entry k (X d) = k\<lparr>ck_x := overwrite (take 32 d) (ck_x k)\<rparr>"
| "apply_entry k (Y d) = k\<lparr>ck_y := map_option (overwrite (take 32 d)) (ck_y k)\<rparr>"
| "apply_entry k (Other key c) = k"

fun entry_ok :: "cose_entry \<Rightarrow> bool" where
  "entry_ok (X d) = (length d < 2 ^ 64)"
| "entry_ok (Y d) = (length d < 2 ^ 64)"
| "entry_ok (Other key c) = (key \<notin> {1, 3, - 2, - 3} \<and> small c \<and> nest c \<le> 8)"
| "entry_ok _ = True"

lemma skip_enc:
  "\<not> r_error r \<Longrightarrow> small c \<Longrightarrow> rest r = enc c @ cs \<Longrightarrow>
    fst (cbor_skip_item r) = (nest c \<le> 8) \<and>
    (nest c \<le> 8 \<longrightarrow> cbor_skip_item r = (True, adv r (length (enc c))))"
  using skip_impl_enc [of r c cs 0] by (simp add: cbor_skip_item_def)

lemma cose_loop_entry:
  assumes "\<not> r_error r" and "ck_y k \<noteq> None" and "entry_ok e" and "rest r = enc_entry e @ cs"
  shows "cose_loop r (Suc n) k = cose_loop (adv r (length (enc_entry e))) n (apply_entry k e)"
proof -
  from assms(2) obtain y where y: "ck_y k = Some y" by auto
  have key: "cbor_read_int r = (Some key, adv r (length (enc_int key)))"
    if "enc_entry e = enc_int key @ bs" for key bs
    using that assms(1,4) by (intro read_int_enc) simp_all
  show ?thesis
  proof (cases e)
    case (Kty v)
    with assms read_uint_enc [of "adv r (length (enc_int 1))" v cs] key show ?thesis by simp
  next
    case (Alg v)
    with assms read_int_enc [of "adv r (length (enc_int 3))" v cs] key show ?thesis by simp
  next
    case (X d)
    with assms read_bytes_enc [of "adv r (length (enc_int (- 2)))" d cs 32] key show ?thesis by simp
  next
    case (Y d)
    with assms y read_bytes_enc [of "adv r (length (enc_int (- 3)))" d cs 32] key show ?thesis
      by simp
  next
    case (Other i c)
    with assms skip_enc [of "adv r (length (enc_int i))" c cs] key show ?thesis by simp
  qed
qed

lemma apply_entry_y: "ck_y k \<noteq> None \<Longrightarrow> ck_y (apply_entry k e) \<noteq> None"
  by (cases e) auto

lemma cose_loop_entries:
  "\<not> r_error r \<Longrightarrow> ck_y k \<noteq> None \<Longrightarrow> \<forall>e \<in> set es. entry_ok e \<Longrightarrow>
    rest r = concat (map enc_entry es) @ cs \<Longrightarrow>
    cose_loop r (length es) k =
      (Some (foldl apply_entry k es), adv r (length (concat (map enc_entry es))))"
proof (induction es arbitrary: r k)
  case (Cons e es)
  then have "cose_loop r (Suc (length es)) k =
      cose_loop (adv r (length (enc_entry e))) (length es) (apply_entry k e)"
    by (intro cose_loop_entry) simp_all
  also have "\<dots> = (Some (foldl apply_entry (apply_entry k e) es),
      adv (adv r (length (enc_entry e))) (length (concat (map enc_entry es))))"
    using Cons.prems by (intro Cons.IH apply_entry_y) simp_all
  finally show ?case by simp
qed simp

lemma parse_cose_entries:
  assumes "\<not> r_error r" and "length es < 2 ^ 31" and "\<forall>e \<in> set es. entry_ok e"
    and "rest r = cbor_head 5 (of_nat (length es)) @ concat (map enc_entry es) @ cs"
  shows "cbor_parse_cose_key r x (Some y) =
    (Some (foldl apply_entry \<lparr>ck_kty = 0, ck_alg = 0, ck_x = x, ck_y = Some y\<rparr> es),
     adv r (length (cbor_head 5 (of_nat (length es)) @ concat (map enc_entry es))))"
  using read_map_enc [OF assms(1,2,4)] assms
    cose_loop_entries [of "adv r (length (cbor_head 5 (of_nat (length es))))" _ es cs]
  by (simp add: cbor_parse_cose_key_def)

lemma enc_int_small: "enc_int 1 = cbor_head 0 1" "enc_int 3 = cbor_head 0 3"
  by (simp_all add: enc_int_def)

lemma cose_p256_entries:
  "cose_p256 x y = cbor_head 5 (of_nat (length [Kty 2, Alg (- 7), Other (- 1) (CInt 1), X x, Y y])) @
     concat (map enc_entry [Kty 2, Alg (- 7), Other (- 1) (CInt 1), X x, Y y])"
  by (simp add: cose_p256_def enc_int_small)

lemma cose_ed25519_entries:
  "cose_ed25519 p = cbor_head 5 (of_nat (length [Kty 1, Alg (- 8), Other (- 1) (CInt 6), X p])) @
     concat (map enc_entry [Kty 1, Alg (- 8), Other (- 1) (CInt 6), X p])"
  by (simp add: cose_ed25519_def enc_int_small) (simp add: enc_int_def)

section \<open>Sequences of encoder and decoder calls\<close>

text \<open>The calls a client makes on one writer, and the bytes each of them stands for.\<close>

datatype encode_call =
    EUint u64
  | EInt u64
  | EBytes bytes
  | EText bytes
  | EBool bool
  | ENull
  | EArray nat
  | EMap nat

fun encode :: "cbor_writer \<Rightarrow> encode_call \<Rightarrow> cbor_writer" where
  "encode w (EUint v) = cbor_encode_uint w v"
| "encode w (EInt v) = cbor_encode_int w v"
| "encode w (EBytes d) = cbor_encode_bytes w (Some d) (length d)"
| "encode w (EText d) = cbor_encode_text w (Some d)"
| "encode w (EBool b) = cbor_encode_bool w b"
| "encode w ENull = cbor_encode_null w"
| "encode w (EArray n) = cbor_encode_array w n"
| "encode w (EMap n) = cbor_encode_map w n"

fun encoding :: "encode_call \<Rightarrow> bytes" where
  "encoding (EUint v) = cbor_head 0 v"
| "encoding (EInt v) = enc_int v"
| "encoding (EBytes d) = enc_string 2 d"
| "encoding (EText d) = enc_string 3 d"
| "encoding (EBool b) = [if b then 0xF5 else 0xF4]"
| "encoding ENull = [0xF6]"
| "encoding (EArray n) = cbor_head 4 (of_nat n)"
| "encoding (EMap n) = cbor_head 5 (of_nat n)"

lemma writes_encode: "cw.writes w (encoding c) (encode w c)"
  by (cases c) (simp_all add: writes_encoders)

lemma writes_encode_all: "cw.writes w (concat (map encoding cs)) (foldl encode w cs)"
  by (induction cs arbitrary: w) (auto intro: cw.writes_nil cw.writes_trans writes_encode)

datatype decode_call =
    DItem | DUint | DInt | DBytes nat | DText nat | DBool | DMap | DArray | DSkip
  | DCose bytes "bytes option"

fun decode :: "cbor_reader \<Rightarrow> decode_call \<Rightarrow> cbor_reader" where
  "decode r DItem = snd (cbor_read_item r)"
| "decode r DUint = snd (cbor_read_uint r)"
| "decode r DInt = snd (cbor_read_int r)"
| "decode r (DBytes n) = snd (cbor_read_bytes r n)"
| "decode r (DText n) = snd (cbor_read_text r n)"
| "decode r DBool = snd (cbor_read_bool r)"
| "decode r DMap = snd (cbor_read_map r)"
| "decode r DArray = snd (cbor_read_array r)"
| "decode r DSkip = snd (cbor_skip_item r)"
| "decode r (DCose x y) = snd (cbor_parse_cose_key r x y)"

lemma reads_decode: "cr.reads r (decode r c)"
  by (cases c) (simp_all add: reads_item reads_uint reads_int reads_bytes reads_text reads_bool
      reads_map reads_array reads_skip reads_cose)

lemma reads_decode_all: "cr.reads r (foldl decode r cs)"
  by (induction cs arbitrary: r) (auto intro: cr.reads_trans reads_decode)

lemma read_item_failed: "r_error r \<Longrightarrow> cbor_read_item r = (None, r)"
  by (simp add: cbor_read_item_def read_type_value_def read_byte_def)

lemma decode_failed: "r_error r \<Longrightarrow> decode r c = r"
  by (cases c)
     (auto simp: read_item_failed cbor_read_uint_def cbor_read_int_def cbor_read_bytes_def
       cbor_read_text_def cbor_read_bool_def read_byte_def cbor_read_map_def cbor_read_array_def
       cbor_skip_item_def cbor_skip_item_impl.simps cbor_parse_cose_key_def)

lemma decode_all_failed: "r_error r \<Longrightarrow> foldl decode r cs = r"
  by (induction cs) (simp_all add: decode_failed)

section \<open>Properties\<close>

text \<open>
  C38. The writer never puts more than the buffer's size into it, and whatever sequence of encoder
  calls is made, it reports an error exactly when the encodings do not fit; without an error the
  buffer holds exactly their concatenation.
\<close>

theorem cbor_writer_sequence:
  fixes cs :: "encode_call list"
  defines "w n \<equiv> foldl encode (cbor_writer_init n) cs"
  shows "length (w_buffer (w n)) \<le> n \<and> w_size (w n) = n \<and>
    (if n < length (concat (map encoding cs)) then w_error (w n)
     else \<not> w_error (w n) \<and> w_buffer (w n) = concat (map encoding cs))"
  using writes_encode_all [of "cbor_writer_init n" cs]
  by (auto simp: w_def cbor_writer_init_def cw.writes_def cw.fits_def split: if_splits)

text \<open>
  C39. Whatever sequence of decoder calls is made on whatever input, the reader's offset stays inside
  the input, the input is not changed, and after an error no call moves the reader any more.
\<close>

theorem cbor_reader_in_bounds:
  fixes d :: bytes and cs cs' :: "decode_call list"
  defines "r \<equiv> foldl decode (cbor_reader_init d) cs"
  shows "r_data r = d \<and> r_offset r \<le> length d \<and>
    (if r_error r then foldl decode r cs' = r else r_offset r \<le> r_offset (foldl decode r cs'))"
  using reads_decode_all [of "cbor_reader_init d" cs] reads_decode_all [of r cs']
    decode_all_failed [of r cs']
  by (auto simp: r_def cr.reads_def)

text \<open>
  Integers survive the round trip: if \<^verbatim>\<open>cbor_encode_int\<close> reports no error then it appended at
  most nine bytes, and \<^verbatim>\<open>cbor_read_int\<close>, whatever follows them, reads the integer back and
  consumes exactly these bytes. That holds for every \<^verbatim>\<open>int64_t\<close>, the most negative one included.
\<close>

theorem cbor_int_roundtrip:
  assumes "w_offset w \<le> w_size w" and "\<not> w_error (cbor_encode_int w v)"
  shows "\<exists>bs. w_buffer (cbor_encode_int w v) = w_buffer w @ bs \<and> length bs \<le> 9 \<and>
    cbor_read_int (cbor_reader_init (bs @ cs)) =
      (Some v, (cbor_reader_init (bs @ cs))\<lparr>r_offset := length bs\<rparr>)"
  using cw.writes_okD [OF writes_int assms]
    read_int_enc [of "cbor_reader_init (enc_int v @ cs)" v cs]
  by (intro exI [of _ "enc_int v"]) (simp add: adv_def enc_int_def cbor_head_def Let_def)

theorem cbor_int_roundtrip_witness:
  "\<exists>bs. w_buffer (cbor_encode_int (cbor_writer_init 16) (- 500)) = [] @ bs \<and> length bs \<le> 9 \<and>
    cbor_read_int (cbor_reader_init (bs @ [7])) =
      (Some (- 500), (cbor_reader_init (bs @ [7]))\<lparr>r_offset := length bs\<rparr>)"
  using cbor_int_roundtrip [of "cbor_writer_init 16" "- 500" "[7]"]
  by (simp add: cbor_writer_init_def cbor_encode_int_def write_type_value_def write_byte_def)

text \<open>
  Strings survive the round trip: what \<^verbatim>\<open>cbor_encode_bytes\<close> and \<^verbatim>\<open>cbor_encode_text\<close> write is
  read back by \<^verbatim>\<open>cbor_read_bytes\<close> and \<^verbatim>\<open>cbor_read_text\<close>, cut to the space of the caller's buffer
  (one byte less for text, which is terminated), and the whole string is consumed either way.
\<close>

theorem cbor_string_roundtrip:
  assumes "w_offset w \<le> w_size w" and "length d < 2 ^ 64" and "0 < n"
  shows "(\<not> w_error (cbor_encode_bytes w (Some d) (length d)) \<longrightarrow>
      (\<exists>bs. w_buffer (cbor_encode_bytes w (Some d) (length d)) = w_buffer w @ bs \<and>
        cbor_read_bytes (cbor_reader_init (bs @ cs)) n =
          (Some (take n d), (cbor_reader_init (bs @ cs))\<lparr>r_offset := length bs\<rparr>))) \<and>
    (\<not> w_error (cbor_encode_text w (Some d)) \<longrightarrow>
      (\<exists>bs. w_buffer (cbor_encode_text w (Some d)) = w_buffer w @ bs \<and>
        cbor_read_text (cbor_reader_init (bs @ cs)) n =
          (Some (take (n - 1) d), (cbor_reader_init (bs @ cs))\<lparr>r_offset := length bs\<rparr>)))"
    (is "?bytes \<and> ?text")
proof
  show ?bytes
    using cw.writes_okD [OF writes_bytes [OF refl] assms(1)] assms(2)
      read_bytes_enc [of "cbor_reader_init (enc_string 2 d @ cs)" d cs n]
    by (intro impI exI [of _ "enc_string 2 d"]) (simp add: adv_def)
  show ?text
    using cw.writes_okD [OF writes_text assms(1)] assms(2,3)
      read_text_enc [of "cbor_reader_init (enc_string 3 d @ cs)" d cs n]
    by (intro impI exI [of _ "enc_string 3 d"]) (simp add: adv_def)
qed

theorem cbor_string_roundtrip_witness:
  "(\<exists>bs. w_buffer (cbor_encode_bytes (cbor_writer_init 9) (Some [1, 2, 3]) 3) = [] @ bs \<and>
      cbor_read_bytes (cbor_reader_init (bs @ [7])) 2 =
        (Some [1, 2], (cbor_reader_init (bs @ [7]))\<lparr>r_offset := length bs\<rparr>)) \<and>
    (\<exists>bs. w_buffer (cbor_encode_text (cbor_writer_init 9) (Some [1, 2, 3])) = [] @ bs \<and>
      cbor_read_text (cbor_reader_init (bs @ [7])) 2 =
        (Some [1], (cbor_reader_init (bs @ [7]))\<lparr>r_offset := length bs\<rparr>))"
  using cbor_string_roundtrip [of "cbor_writer_init 9" "[1, 2, 3]" 2 "[7]"]
  by (simp add: cbor_writer_init_def cbor_encode_bytes_def cbor_encode_text_def Let_def
      write_type_value_def write_byte_def write_bytes_def)



text \<open>
  C27. \<^verbatim>\<open>cbor_parse_cose_key\<close> does not depend on how the sender built the map: on any list of
  entries, in any order, repeated or with unknown keys between them, it takes each known entry
  in turn (the last one wins), skips the unknown ones, and consumes exactly the map.
\<close>

theorem cose_parse_any_order:
  assumes "length es < 2 ^ 31" and "\<forall>e \<in> set es. entry_ok e"
  shows "let m = cbor_head 5 (of_nat (length es)) @ concat (map enc_entry es);
      r = cbor_reader_init (m @ cs) in
    cbor_parse_cose_key r x (Some y) =
      (Some (foldl apply_entry \<lparr>ck_kty = 0, ck_alg = 0, ck_x = x, ck_y = Some y\<rparr> es),
       r\<lparr>r_offset := length m\<rparr>)"
  unfolding Let_def by (subst parse_cose_entries [OF _ assms]) (simp_all add: adv_def)

theorem cose_parse_any_order_witness:
  "fst (cbor_parse_cose_key (cbor_reader_init
      (cbor_head 5 3 @ concat (map enc_entry [Y [5], Other 9 (CArray [CInt 1]), Kty 2])))
      [0] (Some [0, 6])) =
    Some \<lparr>ck_kty = 2, ck_alg = 0, ck_x = [0], ck_y = Some [5, 6]\<rparr>"
  using cose_parse_any_order [of "[Y [5], Other 9 (CArray [CInt 1]), Kty 2]" "[]" "[0]" "[0, 6]"]
  by (simp add: Let_def int_of_count_def overwrite_def)

text \<open>
  A P-256 key the badge writes for a relying party takes 77 bytes, and the badge's own parser
  reads it back as key type 2 (EC2), algorithm -7 (ES256) and the two coordinates.
\<close>

theorem cose_p256_roundtrip:
  assumes "length x = 32" and "length y = 32" and "length x0 = 32" and "length y0 = 32"
    and "77 \<le> n"
  shows "let w = cbor_encode_cose_key_p256 (cbor_writer_init n) x y in
    \<not> w_error w \<and> length (w_buffer w) = 77 \<and>
    cbor_parse_cose_key (cbor_reader_init (w_buffer w)) x0 (Some y0) =
      (Some \<lparr>ck_kty = 2, ck_alg = - 7, ck_x = x, ck_y = Some y\<rparr>,
       (cbor_reader_init (w_buffer w))\<lparr>r_offset := 77\<rparr>)"
proof -
  let ?es = "[Kty 2, Alg (- 7), Other (- 1) (CInt 1), X x, Y y]"
  have len: "length (cose_p256 x y) = 77"
    using assms by (simp add: cose_p256_def enc_string_def enc_int_def cbor_head_def)
  have "cw.fits (cbor_writer_init n) (cose_p256 x y)"
    using assms(5) len by (simp add: cw.fits_def cbor_writer_init_def)
  then have w: "\<not> w_error (cbor_encode_cose_key_p256 (cbor_writer_init n) x y)"
      "w_buffer (cbor_encode_cose_key_p256 (cbor_writer_init n) x y) = cose_p256 x y"
    using cw.writes_fits [OF writes_cose_p256 [OF assms(1,2)]]
    by (simp_all add: cbor_writer_init_def)
  have "cbor_parse_cose_key (cbor_reader_init (cose_p256 x y @ [])) x0 (Some y0) =
      (Some (foldl apply_entry \<lparr>ck_kty = 0, ck_alg = 0, ck_x = x0, ck_y = Some y0\<rparr> ?es),
       adv (cbor_reader_init (cose_p256 x y @ [])) (length (cose_p256 x y)))"
    unfolding cose_p256_entries using assms
    by (intro parse_cose_entries [where cs = "[]"]) simp_all
  then show ?thesis
    using assms w len by (simp add: adv_def int_of_count_def overwrite_def)
qed

theorem cose_p256_roundtrip_witness:
  "let w = cbor_encode_cose_key_p256 (cbor_writer_init 80) (replicate 32 1) (replicate 32 2) in
    \<not> w_error w \<and> length (w_buffer w) = 77"
  using cose_p256_roundtrip [of "replicate 32 1" "replicate 32 2" "replicate 32 0" "replicate 32 0" 80]
  by (simp add: Let_def)

text \<open>
  What the code does with a tag (major type 6), which has a tagged item behind its header: the skip
  reports success after the header, so that the caller goes on with the tagged item as if it were
  the next one.
\<close>

lemma cbor_skip_tag_header_only:
  "cbor_skip_item (cbor_reader_init (cbor_head 6 v @ cs)) =
    (True, (cbor_reader_init (cbor_head 6 v @ cs))\<lparr>r_offset := length (cbor_head 6 v)\<rparr>)"
  using read_item_scalar [of "cbor_reader_init (cbor_head 6 v @ cs)" 6 v cs]
  by (simp add: cbor_skip_item_def cbor_skip_item_impl.simps adv_def)

end
