(* ===== verification/Apdu.thy ===== *)
theory Apdu
  imports Prelude
begin

text \<open>
  ISO 7816-4 command and response APDUs (\<^verbatim>\<open>components/cdc_scard/src/apdu.cpp\<close>): the parser of the
  four command cases in their short and extended forms, and the response builder.

  The data pointer of a parsed command points into the raw buffer; it is the offset it has there,
  and \<^const>\<open>None\<close> when it is null. Null arguments of the two functions are refused first; the
  buffers here are the ones that exist.
\<close>

section \<open>Parser\<close>

record apdu =
  a_cla :: byte
  a_ins :: byte
  a_p1 :: byte
  a_p2 :: byte
  a_lc :: u16
  a_data :: "nat option"
  a_le :: u32
  a_extended :: bool

text \<open>The short length bytes of Le: zero stands for 256.\<close>

definition short_le :: "byte \<Rightarrow> u32" where
  "short_le b = (if b = 0 then 256 else ucast b)"

text \<open>The data field at \<open>pos\<close>, and the optional Le field behind it.\<close>

definition parse_le :: "bytes \<Rightarrow> apdu \<Rightarrow> nat \<Rightarrow> apdu" where
  "parse_le raw a pos =
     (if pos < length raw then
        if a_extended a then
          if pos + 2 \<le> length raw then
            (let le_val = be16 (raw ! pos) (raw ! (pos + 1)) in
             a\<lparr>a_le := if le_val = 0 then 65536 else ucast le_val\<rparr>)
          else a
        else a\<lparr>a_le := short_le (raw ! pos)\<rparr>
      else a)"

definition parse_data :: "bytes \<Rightarrow> apdu \<Rightarrow> nat \<Rightarrow> apdu option" where
  "parse_data raw a pos =
     (if a_lc a > 0 then
        if pos + unat (a_lc a) > length raw then None
        else Some (parse_le raw (a\<lparr>a_data := Some pos\<rparr>) (pos + unat (a_lc a)))
      else Some (parse_le raw a pos))"

definition apdu_parse :: "bytes \<Rightarrow> apdu option" where
  "apdu_parse raw =
     (if length raw < 4 then None
      else
        let a = \<lparr>a_cla = raw ! 0, a_ins = raw ! 1, a_p1 = raw ! 2, a_p2 = raw ! 3,
                 a_lc = 0, a_data = None, a_le = 0, a_extended = False\<rparr>;
            pos = 4 in
        if length raw = 4 then Some a
        else if raw ! pos = 0 \<and> length raw > 7 then
          let a = a\<lparr>a_extended := True\<rparr> in
          if pos + 3 \<le> length raw then
            parse_data raw (a\<lparr>a_lc := be16 (raw ! (pos + 1)) (raw ! (pos + 2))\<rparr>) (pos + 3)
          else parse_data raw a pos
        else if length raw = 5 then Some (a\<lparr>a_le := short_le (raw ! pos)\<rparr>)
        else parse_data raw (a\<lparr>a_lc := ucast (raw ! pos)\<rparr>) (pos + 1))"

text \<open>The command data a handler reads through the pointer.\<close>

definition apdu_data :: "bytes \<Rightarrow> apdu \<Rightarrow> bytes" where
  "apdu_data raw a = (case a_data a of None \<Rightarrow> [] | Some p \<Rightarrow> take (unat (a_lc a)) (drop p raw))"

section \<open>Responses\<close>

text \<open>
  What \<^verbatim>\<open>apdu_build_response\<close> writes at the front of the buffer, whose length it returns. The data
  pointer may be null; nothing is copied then, and the \<open>data_len\<close> bytes in front of the status
  word are those the buffer \<open>old\<close> held.
\<close>

definition apdu_build_response :: "bytes \<Rightarrow> bytes option \<Rightarrow> nat \<Rightarrow> u16 \<Rightarrow> bytes" where
  "apdu_build_response old data data_len sw =
     (let buf_max = length old in
      if buf_max < 2 then []
      else
        let n = (if data_len + 2 > buf_max then buf_max - 2 else data_len);
            body = (case data of Some d \<Rightarrow> take n d | None \<Rightarrow> take n old)
        in body @ [byte_at 8 sw, byte_at 0 sw])"

definition apdu_sw :: "u16 \<Rightarrow> bytes" where
  "apdu_sw sw = [byte_at 8 sw, byte_at 0 sw]"

section \<open>Commands as the standard encodes them\<close>

text \<open>
  A command: the header, its data, and the number of response bytes expected, with the largest of
  each form standing for ``as many as there are''.
\<close>

record command =
  c_cla :: byte
  c_ins :: byte
  c_p1 :: byte
  c_p2 :: byte
  c_data :: bytes
  c_ne :: "nat option"

definition short_form :: "command \<Rightarrow> bytes" where
  "short_form c = [c_cla c, c_ins c, c_p1 c, c_p2 c] @
     (if c_data c = [] then [] else of_nat (length (c_data c)) # c_data c) @
     (case c_ne c of None \<Rightarrow> [] | Some n \<Rightarrow> [of_nat n])"

definition extended_form :: "command \<Rightarrow> bytes" where
  "extended_form c = [c_cla c, c_ins c, c_p1 c, c_p2 c, 0] @
     [byte_at 8 (of_nat (length (c_data c)) :: u16), byte_at 0 (of_nat (length (c_data c)) :: u16)] @
     c_data c @
     (case c_ne c of None \<Rightarrow> [] | Some n \<Rightarrow> [byte_at 8 (of_nat n :: u16), byte_at 0 (of_nat n :: u16)])"

definition fits_form :: "nat \<Rightarrow> command \<Rightarrow> bool" where
  "fits_form k c \<longleftrightarrow> length (c_data c) < k \<and> (case c_ne c of None \<Rightarrow> True | Some n \<Rightarrow> 0 < n \<and> n \<le> k)"

text \<open>The command a parsed APDU stands for, over the buffer it was parsed from.\<close>

definition command_of :: "bytes \<Rightarrow> apdu \<Rightarrow> command" where
  "command_of raw a = \<lparr>c_cla = a_cla a, c_ins = a_ins a, c_p1 = a_p1 a, c_p2 = a_p2 a,
     c_data = apdu_data raw a, c_ne = if a_le a = 0 then None else Some (unat (a_le a))\<rparr>"

section \<open>Parsing what the standard encodes\<close>

lemma short_le_of_nat: "0 < n \<Longrightarrow> n \<le> 256 \<Longrightarrow> unat (short_le (of_nat n)) = n"
proof (cases "n = 256")
  case False
  assume "0 < n" "n \<le> 256"
  with False have n: "unat (of_nat n :: byte) = n" by (intro unat_of_nat_byte) simp
  with \<open>0 < n\<close> have "(of_nat n :: byte) \<noteq> 0" by auto
  with n show ?thesis by (simp add: short_le_def unat_ucast_up)
qed (simp add: short_le_def)

lemma wide_le_of_nat:
  "0 < n \<Longrightarrow> n \<le> 65536 \<Longrightarrow>
    unat (if (of_nat n :: u16) = 0 then 65536 else ucast (of_nat n :: u16) :: u32) = n"
proof (cases "n = 65536")
  case False
  assume "0 < n" "n \<le> 65536"
  with False have n: "unat (of_nat n :: u16) = n" by (intro unat_of_nat_u16) simp
  with \<open>0 < n\<close> have "(of_nat n :: u16) \<noteq> 0" by auto
  with n show ?thesis by (simp add: unat_ucast_up)
qed simp

lemma le_nonzero: "unat v = n \<Longrightarrow> 0 < n \<Longrightarrow> v \<noteq> (0 :: u32)"
  by auto

lemma parse_le_frame [simp]:
  "a_cla (parse_le raw a p) = a_cla a" "a_ins (parse_le raw a p) = a_ins a"
  "a_p1 (parse_le raw a p) = a_p1 a" "a_p2 (parse_le raw a p) = a_p2 a"
  "a_lc (parse_le raw a p) = a_lc a" "a_data (parse_le raw a p) = a_data a"
  "a_extended (parse_le raw a p) = a_extended a"
  by (simp_all add: parse_le_def Let_def)

lemma parse_le_none: "length raw = p \<Longrightarrow> parse_le raw a p = a"
  by (simp add: parse_le_def)

lemma parse_le_short:
  "raw = pre @ [b] \<Longrightarrow> p = length pre \<Longrightarrow> \<not> a_extended a \<Longrightarrow> a_le (parse_le raw a p) = short_le b"
  by (simp add: parse_le_def)

lemma parse_le_wide:
  "raw = pre @ [byte_at 8 v, byte_at 0 v] \<Longrightarrow> p = length pre \<Longrightarrow> a_extended a \<Longrightarrow>
    a_le (parse_le raw a p) = (if v = 0 then 65536 else ucast v)" for v :: u16
  by (simp add: parse_le_def nth_append)

text \<open>The common part: a data field of \<open>lc\<close> bytes at \<open>pos\<close>, and the Le field of the form.\<close>

lemma parse_data_field:
  assumes "raw = pre @ d @ le" and "p = length pre" and "d \<noteq> []" and "unat (a_lc a) = length d"
    and "a_le a = 0"
    and "case ne of None \<Rightarrow> le = []
      | Some n \<Rightarrow> 0 < n \<and> (if a_extended a
          then n \<le> 65536 \<and> le = [byte_at 8 (of_nat n :: u16), byte_at 0 (of_nat n :: u16)]
          else n \<le> 256 \<and> le = [of_nat n])"
  obtains b where "parse_data raw a p = Some b"
    and "command_of raw b = \<lparr>c_cla = a_cla a, c_ins = a_ins a, c_p1 = a_p1 a, c_p2 = a_p2 a,
      c_data = d, c_ne = ne\<rparr>"
    and "a_extended b = a_extended a"
proof -
  let ?a = "a\<lparr>a_data := Some p\<rparr>"
  let ?b = "parse_le raw ?a (p + length d)"
  have lc: "a_lc a > 0" using assms(3,4) by (auto simp: word_gt_0)
  have fit: "\<not> length raw < p + length d" using assms(1,2) by simp
  have data: "parse_data raw a p = Some ?b"
    using lc fit by (simp add: parse_data_def assms(4))
  have "a_le ?b = (case ne of None \<Rightarrow> 0 | Some n \<Rightarrow> a_le ?b) \<and>
    (case ne of None \<Rightarrow> True | Some n \<Rightarrow> 0 < n \<and> unat (a_le ?b) = n)"
  proof (cases ne)
    case None
    with assms(1,2,5,6) show ?thesis by (simp add: parse_le_none)
  next
    case (Some n)
    show ?thesis
    proof (cases "a_extended a")
      case True
      with Some assms(6) have n: "0 < n" "n \<le> 65536"
        and le: "le = [byte_at 8 (of_nat n :: u16), byte_at 0 (of_nat n :: u16)]" by auto
      have "a_le ?b = (if (of_nat n :: u16) = 0 then 65536 else ucast (of_nat n :: u16))"
        using assms(1,2) le True by (intro parse_le_wide [of _ "pre @ d"]) simp_all
      then have "unat (a_le ?b) = n" by (simp only: wide_le_of_nat [OF n])
      with Some n show ?thesis by simp
    next
      case False
      with Some assms(6) have n: "0 < n" "n \<le> 256" and le: "le = [of_nat n]" by auto
      have "a_le ?b = short_le (of_nat n)"
        using assms(1,2) le False by (intro parse_le_short [of _ "pre @ d"]) simp_all
      then have "unat (a_le ?b) = n" by (simp only: short_le_of_nat [OF n])
      with Some n show ?thesis by simp
    qed
  qed
  then have "(if a_le ?b = 0 then None else Some (unat (a_le ?b))) = ne"
    by (cases ne) auto
  moreover have "apdu_data raw ?b = d"
    using assms(1,2,4) by (simp add: apdu_data_def)
  ultimately have "command_of raw ?b = \<lparr>c_cla = a_cla a, c_ins = a_ins a, c_p1 = a_p1 a,
      c_p2 = a_p2 a, c_data = d, c_ne = ne\<rparr>"
    by (simp add: command_of_def)
  with data show thesis by (rule that) simp
qed

section \<open>Properties\<close>

text \<open>
  Every command that fits the short form (up to 255 data bytes, up to 256 expected) is parsed
  back from its ISO 7816-4 encoding: header, data field and expected length, in all four cases.
\<close>

theorem apdu_short_roundtrip:
  assumes "fits_form 256 c"
  shows "\<exists>a. apdu_parse (short_form c) = Some a \<and> \<not> a_extended a \<and> command_of (short_form c) a = c"
proof (cases "c_data c = []")
  case True
  then show ?thesis
    using assms short_le_of_nat le_nonzero [OF short_le_of_nat]
    by (cases c; cases "c_ne c")
       (auto simp: apdu_parse_def short_form_def command_of_def apdu_data_def fits_form_def Let_def)
next
  case False
  let ?n = "length (c_data c)"
  let ?le = "case c_ne c of None \<Rightarrow> [] | Some n \<Rightarrow> [of_nat n :: byte]"
  let ?a = "\<lparr>a_cla = c_cla c, a_ins = c_ins c, a_p1 = c_p1 c, a_p2 = c_p2 c,
    a_lc = ucast (of_nat ?n :: byte), a_data = None, a_le = 0, a_extended = False\<rparr>"
  have n: "unat (of_nat ?n :: byte) = ?n"
    using assms by (intro unat_of_nat_byte) (simp add: fits_form_def)
  then have "(of_nat ?n :: byte) \<noteq> 0" using False by auto
  moreover have "length (short_form c) > 5" using False by (cases "c_data c") (auto simp: short_form_def)
  ultimately have parse: "apdu_parse (short_form c) = parse_data (short_form c) ?a 5"
    using False by (simp add: apdu_parse_def short_form_def Let_def)
  have split: "short_form c = [c_cla c, c_ins c, c_p1 c, c_p2 c, of_nat ?n] @ c_data c @ ?le"
    using False by (simp add: short_form_def)
  show ?thesis
    by (rule parse_data_field [OF split, of 5 ?a "c_ne c"])
      (use assms False n parse in \<open>auto simp: unat_ucast_up fits_form_def split: option.splits\<close>)
qed

theorem apdu_short_roundtrip_witness:
  "\<exists>a. apdu_parse [0, 0xA4, 4, 0, 2, 0xD2, 0x76, 0] = Some a \<and> \<not> a_extended a \<and>
    command_of [0, 0xA4, 4, 0, 2, 0xD2, 0x76, 0] a =
      \<lparr>c_cla = 0, c_ins = 0xA4, c_p1 = 4, c_p2 = 0, c_data = [0xD2, 0x76], c_ne = Some 256\<rparr>"
proof -
  have "(256 :: byte) = 0" by simp
  with apdu_short_roundtrip
    [of "\<lparr>c_cla = 0, c_ins = 0xA4, c_p1 = 4, c_p2 = 0, c_data = [0xD2, 0x76], c_ne = Some 256\<rparr>"]
  show ?thesis by (simp add: fits_form_def short_form_def)
qed

text \<open>
  Every command with data that fits the extended form (up to 65535 data bytes, up to 65536
  expected) is parsed back from its encoding and marked as extended.
\<close>

theorem apdu_extended_roundtrip:
  assumes "fits_form 65536 c" and "c_data c \<noteq> []"
  shows "\<exists>a. apdu_parse (extended_form c) = Some a \<and> a_extended a \<and>
    command_of (extended_form c) a = c"
proof -
  let ?n = "of_nat (length (c_data c)) :: u16"
  let ?le = "case c_ne c of None \<Rightarrow> []
    | Some n \<Rightarrow> [byte_at 8 (of_nat n :: u16), byte_at 0 (of_nat n :: u16)]"
  let ?a = "\<lparr>a_cla = c_cla c, a_ins = c_ins c, a_p1 = c_p1 c, a_p2 = c_p2 c,
    a_lc = ?n, a_data = None, a_le = 0, a_extended = True\<rparr>"
  have n: "unat ?n = length (c_data c)"
    using assms by (intro unat_of_nat_u16) (simp add: fits_form_def)
  have len: "length (extended_form c) > 7"
    using assms(2) by (cases "c_data c") (auto simp: extended_form_def)
  then have parse: "apdu_parse (extended_form c) = parse_data (extended_form c) ?a 7"
    by (simp add: apdu_parse_def extended_form_def Let_def)
  have split: "extended_form c = ([c_cla c, c_ins c, c_p1 c, c_p2 c, 0] @
      [byte_at 8 ?n, byte_at 0 ?n]) @ c_data c @ ?le"
    by (simp add: extended_form_def)
  show ?thesis
    by (rule parse_data_field [OF split, of 7 ?a "c_ne c"])
      (use assms n parse in \<open>auto simp: fits_form_def split: option.splits\<close>)
qed

theorem apdu_extended_roundtrip_witness:
  "\<exists>a. apdu_parse [0, 0xDB, 0x3F, 0xFF, 0, 0, 1, 0x4D, 0, 0] = Some a \<and> a_extended a \<and>
    command_of [0, 0xDB, 0x3F, 0xFF, 0, 0, 1, 0x4D, 0, 0] a =
      \<lparr>c_cla = 0, c_ins = 0xDB, c_p1 = 0x3F, c_p2 = 0xFF, c_data = [0x4D], c_ne = Some 65536\<rparr>"
  using apdu_extended_roundtrip
    [of "\<lparr>c_cla = 0, c_ins = 0xDB, c_p1 = 0x3F, c_p2 = 0xFF, c_data = [0x4D], c_ne = Some 65536\<rparr>"]
  by (simp add: fits_form_def extended_form_def byte_at_def)

text \<open>What holds of a parse in progress: no data field yet, no expected length yet.\<close>

definition parsed :: "bytes \<Rightarrow> apdu \<Rightarrow> bool" where
  "parsed raw a \<longleftrightarrow> (a_data a = None \<longleftrightarrow> a_lc a = 0) \<and>
     (case a_data a of None \<Rightarrow> True | Some p \<Rightarrow> 5 \<le> p \<and> p + unat (a_lc a) \<le> length raw) \<and>
     unat (a_le a) \<le> (if a_extended a then 65536 else 256)"

lemma short_le_bound: "unat (short_le b) \<le> 256"
  using unat_less [of b] by (simp add: short_le_def unat_ucast_up)

lemma parse_le_bound:
  "a_le a = 0 \<Longrightarrow> unat (a_le (parse_le raw a p)) \<le> (if a_extended a then 65536 else 256)"
  using short_le_bound unat_less [of "be16 (raw ! p) (raw ! (p + 1))"]
  by (auto simp: parse_le_def Let_def unat_ucast_up)

lemma parse_data_parsed:
  "a_le a = 0 \<Longrightarrow> a_data a = None \<Longrightarrow> 5 \<le> p \<Longrightarrow> parse_data raw a p = Some b \<Longrightarrow> parsed raw b"
  using parse_le_bound [of "a\<lparr>a_data := Some p\<rparr>"] parse_le_bound [of a]
  by (auto simp: parse_data_def parsed_def word_gt_0 split: if_splits)

lemma apdu_parse_parsed: "apdu_parse raw = Some a \<Longrightarrow> 4 \<le> length raw \<and> parsed raw a"
  using short_le_bound
  by (auto simp: apdu_parse_def Let_def split: if_splits dest!: parse_data_parsed [rotated 3])
     (simp_all add: parsed_def)

text \<open>
  Whatever the host sends, the data field of a parsed command lies inside the buffer: it starts
  behind the header, ends before the buffer does, is there exactly when Lc is not zero, and the
  expected length is at most 65536 (256 for a short command).
\<close>

theorem apdu_parse_in_bounds:
  "case apdu_parse raw of
     None \<Rightarrow> True
   | Some a \<Rightarrow> 4 \<le> length raw \<and> (a_data a = None \<longleftrightarrow> a_lc a = 0) \<and>
       (case a_data a of None \<Rightarrow> True | Some p \<Rightarrow> 5 \<le> p \<and> p + unat (a_lc a) \<le> length raw) \<and>
       unat (a_le a) \<le> (if a_extended a then 65536 else 256) \<and>
       length (apdu_data raw a) = unat (a_lc a)"
  using apdu_parse_parsed [of raw]
  by (auto simp: parsed_def apdu_data_def split: option.splits)

text \<open>
  A response never exceeds the buffer, and it always ends in the status word: the payload is cut
  to leave the two bytes room. A buffer without that room gets nothing.
\<close>

theorem apdu_response_bounded:
  "case apdu_build_response old (Some d) (length d) sw of r \<Rightarrow>
    length r \<le> length old \<and>
    (if length old < 2 then r = []
     else r = take (length old - 2) d @ apdu_sw sw \<and> be16 (r ! (length r - 2)) (last r) = sw)"
  by (auto simp: apdu_build_response_def apdu_sw_def Let_def nth_append)

text \<open>
  What the parser does with a command without data in the extended form, \<^verbatim>\<open>CLA INS P1 P2 00 Le Le\<close>
  (case 2E of the standard): seven bytes do not pass its test for the extended form, so it is taken
  for a short command without data whose Le is the upper half of the length.
\<close>

lemma apdu_parse_case_2E:
  "apdu_parse [cla, ins, p1, p2, 0, hi, lo] =
    Some \<lparr>a_cla = cla, a_ins = ins, a_p1 = p1, a_p2 = p2, a_lc = 0, a_data = None,
      a_le = short_le hi, a_extended = False\<rparr>"
  by (simp add: apdu_parse_def parse_data_def parse_le_def)

end
