(* ===== verification/Card_Service.thy ===== *)
theory Card_Service
  imports Prelude
begin

text \<open>
  The contract between a smartcard transport and the card behind it: the transport hands over
  command bytes and the room there is for the response, and may reset the card. Given at least
  \<open>room\<close> bytes, the card never returns more than there are, its answer has the length it reports,
  and a transaction or a reset leaves a card that keeps the contract.
\<close>

locale card_service =
  fixes good :: "'c \<Rightarrow> bool"
    and dispatch :: "bytes \<Rightarrow> nat \<Rightarrow> 'c \<Rightarrow> (int \<times> bytes) \<times> 'c"
    and reset :: "'c \<Rightarrow> 'c"
    and room :: nat
  assumes reset_good: "good c \<Longrightarrow> good (reset c)"
    and dispatch_good: "good c \<Longrightarrow> good (snd (dispatch cmd n c))"
    and dispatch_fits: "good c \<Longrightarrow> room \<le> n \<Longrightarrow> fst (dispatch cmd n c) = (k, b) \<Longrightarrow>
      k \<le> int n \<and> (0 \<le> k \<longrightarrow> length b = nat k)"
begin

text \<open>The states a transport can bring the card to.\<close>

inductive reaches :: "'c \<Rightarrow> 'c \<Rightarrow> bool" for c where
  start: "reaches c c"
| dispatch: "reaches c d \<Longrightarrow> reaches c (snd (dispatch cmd n d))"
| reset: "reaches c d \<Longrightarrow> reaches c (reset d)"

lemma reaches_good: "reaches c d \<Longrightarrow> good c \<Longrightarrow> good d"
  by (induction rule: reaches.induct) (auto intro: dispatch_good reset_good)

lemma reaches_fits:
  assumes "reaches c d" and "good c" and "room \<le> n" and "fst (dispatch cmd n d) = (k, b)"
  shows "k \<le> int n" and "0 \<le> k \<Longrightarrow> length b = nat k"
  using dispatch_fits [OF reaches_good [OF assms(1,2)] assms(3,4)] by auto

end

end
