(* ===== verification/Scard.thy ===== *)
theory Scard
  imports Apdu Card_Service "HOL-Library.Sublist"
begin

text \<open>
  The applet registry and APDU dispatcher (\<^verbatim>\<open>components/cdc_scard/src/scard.cpp\<close>).

  The applets themselves are other components, reached through the function pointers of their
  descriptors: a command handler and an optional deselect handler, both acting on the state
  \<^typ>\<open>'s\<close> that the applets keep. The table \<^verbatim>\<open>s_applets[0 .. s_count)\<close> is the list of the registered
  ones, so that \<^verbatim>\<open>s_count\<close> is its length.
\<close>

type_synonym 's process = "bytes \<Rightarrow> nat \<Rightarrow> 's \<Rightarrow> (int \<times> bytes) \<times> 's"

text \<open>The descriptor a client passes, whose pointers may be null, and a registered applet.\<close>

record 's descriptor =
  d_name :: "string option"
  d_aid :: "bytes option"
  d_process :: "'s process option"
  d_deselect :: "('s \<Rightarrow> 's) option"

record 's applet =
  ap_name :: string
  ap_aid :: bytes
  ap_process :: "'s process"
  ap_deselect :: "('s \<Rightarrow> 's) option"

record 's scard =
  s_applets :: "'s applet list"
  s_current :: int
  s_default :: int
  s_world :: 's

abbreviation (input) "SCARD_MAX_APPLETS \<equiv> (4 :: nat)"
abbreviation (input) "SCARD_SW_FILE_NOT_FOUND \<equiv> (0x6A82 :: u16)"
abbreviation (input) "CLA_ISO7816 \<equiv> (0x00 :: byte)"
abbreviation (input) "INS_SELECT \<equiv> (0xA4 :: byte)"
abbreviation (input) "SCARD_SELECT_BY_DF_NAME \<equiv> (0x04 :: byte)"

abbreviation s_count :: "'s scard \<Rightarrow> nat" where
  "s_count s \<equiv> length (s_applets s)"

definition scard_init :: "'s \<Rightarrow> 's scard" where
  "scard_init w = \<lparr>s_applets = [], s_current = - 1, s_default = - 1, s_world = w\<rparr>"

section \<open>Operations\<close>

definition scard_register_applet :: "'s descriptor \<Rightarrow> bool \<Rightarrow> 's scard \<Rightarrow> bool \<times> 's scard" where
  "scard_register_applet d make_default s =
     (case (d_name d, d_aid d, d_process d) of
        (Some name, Some aid, Some process) \<Rightarrow>
          if length aid = 0 then (False, s)
          else if \<exists>a \<in> set (s_applets s). ap_name a = name then (False, s)
          else if s_count s \<ge> SCARD_MAX_APPLETS then (False, s)
          else (True, s\<lparr>
            s_applets := s_applets s @
              [\<lparr>ap_name = name, ap_aid = aid, ap_process = process, ap_deselect = d_deselect d\<rparr>],
            s_default := if make_default then int (s_count s) else s_default s\<rparr>)
      | _ \<Rightarrow> (False, s))"

text \<open>The call of the deselect handler of the applet at an index, if it has one.\<close>

definition deselect :: "int \<Rightarrow> 's scard \<Rightarrow> 's scard" where
  "deselect i s =
     (case ap_deselect (s_applets s ! nat i) of
        None \<Rightarrow> s
      | Some f \<Rightarrow> s\<lparr>s_world := f (s_world s)\<rparr>)"

text \<open>The index at which the loop of \<^verbatim>\<open>scard_unregister_applet\<close> finds the name.\<close>

fun find_name :: "string \<Rightarrow> 's applet list \<Rightarrow> nat option" where
  "find_name name [] = None"
| "find_name name (a # as) =
     (if ap_name a = name then Some 0 else map_option Suc (find_name name as))"

definition scard_unregister_applet :: "string \<Rightarrow> 's scard \<Rightarrow> 's scard" where
  "scard_unregister_applet name s =
     (case find_name name (s_applets s) of
        None \<Rightarrow> s
      | Some i \<Rightarrow>
          let s = (if s_current s = int i then (deselect (int i) s)\<lparr>s_current := - 1\<rparr> else s);
              s = (if s_default s = int i then s\<lparr>s_default := - 1\<rparr> else s)
          in s\<lparr>s_applets := take i (s_applets s) @ drop (i + 1) (s_applets s),
               s_current := if s_current s > int i then s_current s - 1 else s_current s,
               s_default := if s_default s > int i then s_default s - 1 else s_default s\<rparr>)"

text \<open>
  \<open>find_loop as i best best_len data len\<close> is the loop of \<^verbatim>\<open>find_applet_by_aid\<close> over the rest \<open>as\<close> of
  the table from index \<open>i\<close> on.
\<close>

fun find_loop :: "'s applet list \<Rightarrow> nat \<Rightarrow> int \<Rightarrow> nat \<Rightarrow> bytes \<Rightarrow> nat \<Rightarrow> int" where
  "find_loop [] i best best_len data len = best"
| "find_loop (a # as) i best best_len data len =
     (if len \<ge> length (ap_aid a) \<and> take (length (ap_aid a)) data = ap_aid a \<and>
         length (ap_aid a) > best_len
      then find_loop as (i + 1) (int i) (length (ap_aid a)) data len
      else find_loop as (i + 1) best best_len data len)"

definition find_applet_by_aid :: "'s scard \<Rightarrow> bytes \<Rightarrow> nat \<Rightarrow> int" where
  "find_applet_by_aid s data len = find_loop (s_applets s) 0 (- 1) 0 data len"

text \<open>The call of the command handler of the applet at an index.\<close>

definition process :: "int \<Rightarrow> bytes \<Rightarrow> nat \<Rightarrow> 's scard \<Rightarrow> (int \<times> bytes) \<times> 's scard" where
  "process i cmd resp_max s =
     (case ap_process (s_applets s ! nat i) cmd resp_max (s_world s) of
        (resp, w) \<Rightarrow> (resp, s\<lparr>s_world := w\<rparr>))"

text \<open>
  The result is the returned length and the bytes written at the front of the response buffer of
  \<open>resp_max\<close> bytes.
\<close>

definition scard_dispatch_apdu :: "bytes \<Rightarrow> nat \<Rightarrow> 's scard \<Rightarrow> (int \<times> bytes) \<times> 's scard" where
  "scard_dispatch_apdu cmd resp_max s =
     (let sw_response = (2, apdu_sw SCARD_SW_FILE_NOT_FOUND) in
      if resp_max < 2 then ((- 1, []), s)
      else if s_count s = 0 then (sw_response, s)
      else
        let other = (let target = (if s_current s \<ge> 0 then s_current s else s_default s) in
              if target < 0 then (sw_response, s) else process target cmd resp_max s)
        in case apdu_parse cmd of
          None \<Rightarrow> other
        | Some apdu \<Rightarrow>
            if a_cla apdu = CLA_ISO7816 \<and> a_ins apdu = INS_SELECT \<and>
               a_p1 apdu = SCARD_SELECT_BY_DF_NAME
            then
              let match = find_applet_by_aid s (apdu_data cmd apdu) (unat (a_lc apdu)) in
              if match \<ge> 0 then
                let s = (if s_current s \<ge> 0 \<and> s_current s \<noteq> match then deselect (s_current s) s
                         else s);
                    s = s\<lparr>s_current := match\<rparr>
                in process match cmd resp_max s
              else if s_current s \<ge> 0 then process (s_current s) cmd resp_max s
              else (sw_response, s)
            else other)"

definition scard_reset :: "'s scard \<Rightarrow> 's scard" where
  "scard_reset s =
     (let s = (if s_current s \<ge> 0 then deselect (s_current s) s else s) in s\<lparr>s_current := - 1\<rparr>)"

section \<open>The invariant\<close>

text \<open>
  Both indices are \<open>-1\<close> or point into the table, the table is not over-full, and its names are
  unique.
\<close>

definition index_ok :: "int \<Rightarrow> nat \<Rightarrow> bool" where
  "index_ok i n \<longleftrightarrow> - 1 \<le> i \<and> i < int n"

definition scard_ok :: "'s scard \<Rightarrow> bool" where
  "scard_ok s \<longleftrightarrow> s_count s \<le> 4 \<and> distinct (map ap_name (s_applets s)) \<and>
     (\<forall>a \<in> set (s_applets s). ap_aid a \<noteq> []) \<and>
     index_ok (s_current s) (s_count s) \<and> index_ok (s_default s) (s_count s)"

lemma deselect_frame [simp]:
  "s_applets (deselect i s) = s_applets s" "s_current (deselect i s) = s_current s"
  "s_default (deselect i s) = s_default s"
  by (simp_all add: deselect_def split: option.splits)

lemma process_frame [simp]:
  "s_applets (snd (process i cmd n s)) = s_applets s"
  "s_current (snd (process i cmd n s)) = s_current s"
  "s_default (snd (process i cmd n s)) = s_default s"
  by (simp_all add: process_def split: prod.splits)

lemma scard_ok_cong:
  "s_applets t = s_applets s \<Longrightarrow> s_current t = s_current s \<Longrightarrow> s_default t = s_default s \<Longrightarrow>
    scard_ok t = scard_ok s"
  by (simp add: scard_ok_def)

lemma find_name_None: "find_name n as = None \<longleftrightarrow> n \<notin> ap_name ` set as"
  by (induction as) auto

lemma find_name_Some: "find_name n as = Some i \<Longrightarrow> i < length as \<and> ap_name (as ! i) = n"
  by (induction as arbitrary: i) (auto split: if_splits)

lemma find_name_remove:
  "find_name n as = Some i \<Longrightarrow> distinct (map ap_name as) \<Longrightarrow>
    take i as @ drop (Suc i) as = filter (\<lambda>a. ap_name a \<noteq> n) as"
proof (induction as arbitrary: i)
  case (Cons a as)
  show ?case
  proof (cases "ap_name a = n")
    case True
    with Cons.prems have "filter (\<lambda>a. ap_name a \<noteq> n) as = as"
      by (intro filter_True) (auto simp: image_iff)
    with True Cons.prems show ?thesis by simp
  next
    case False
    with Cons.prems obtain j where "find_name n as = Some j" "i = Suc j" by auto
    with False Cons.IH [of j] Cons.prems(2) show ?thesis by simp
  qed
qed simp

lemma find_loop_spec:
  assumes "find_loop as i best bl data (length data) = r"
  shows "r = best \<and> (\<forall>a \<in> set as. prefix (ap_aid a) data \<longrightarrow> length (ap_aid a) \<le> bl) \<or>
    (\<exists>j < length as. r = int (i + j) \<and> prefix (ap_aid (as ! j)) data \<and>
      bl < length (ap_aid (as ! j)) \<and>
      (\<forall>a \<in> set as. prefix (ap_aid a) data \<longrightarrow> length (ap_aid a) \<le> length (ap_aid (as ! j))) \<and>
      (\<forall>k < j. prefix (ap_aid (as ! k)) data \<longrightarrow> length (ap_aid (as ! k)) < length (ap_aid (as ! j))))"
  using assms
proof (induction as arbitrary: i best bl)
  case (Cons a as)
  have m: "length data \<ge> length (ap_aid a) \<and> take (length (ap_aid a)) data = ap_aid a \<longleftrightarrow>
      prefix (ap_aid a) data"
    by (metis append_eq_conv_conj prefix_def prefix_length_le take_is_prefix)
  have step: "r = (if prefix (ap_aid a) data \<and> bl < length (ap_aid a)
      then find_loop as (Suc i) (int i) (length (ap_aid a)) data (length data)
      else find_loop as (Suc i) best bl data (length data))"
    using Cons.prems [symmetric] m by (auto simp flip: m)
  show ?case
  proof (cases "prefix (ap_aid a) data \<and> bl < length (ap_aid a)")
    case True
    with step have "find_loop as (Suc i) (int i) (length (ap_aid a)) data (length data) = r" by simp
    from Cons.IH [OF this] show ?thesis
    proof (elim disjE exE conjE)
      assume "r = int i" "\<forall>b \<in> set as. prefix (ap_aid b) data \<longrightarrow> length (ap_aid b) \<le> length (ap_aid a)"
      with True show ?thesis by (intro disjI2 exI [of _ 0]) auto
    next
      fix j assume "j < length as" "r = int (Suc i + j)" "prefix (ap_aid (as ! j)) data"
        "length (ap_aid a) < length (ap_aid (as ! j))"
        "\<forall>b \<in> set as. prefix (ap_aid b) data \<longrightarrow> length (ap_aid b) \<le> length (ap_aid (as ! j))"
        "\<forall>k < j. prefix (ap_aid (as ! k)) data \<longrightarrow> length (ap_aid (as ! k)) < length (ap_aid (as ! j))"
      with True show ?thesis
        by (intro disjI2 exI [of _ "Suc j"]) (auto simp: less_Suc_eq_0_disj)
    qed
  next
    case False
    with step have "find_loop as (Suc i) best bl data (length data) = r" by auto
    from Cons.IH [OF this] show ?thesis
    proof (elim disjE exE conjE)
      assume "r = best" "\<forall>b \<in> set as. prefix (ap_aid b) data \<longrightarrow> length (ap_aid b) \<le> bl"
      with False show ?thesis by auto
    next
      fix j assume "j < length as" "r = int (Suc i + j)" "prefix (ap_aid (as ! j)) data"
        "bl < length (ap_aid (as ! j))"
        "\<forall>b \<in> set as. prefix (ap_aid b) data \<longrightarrow> length (ap_aid b) \<le> length (ap_aid (as ! j))"
        "\<forall>k < j. prefix (ap_aid (as ! k)) data \<longrightarrow> length (ap_aid (as ! k)) < length (ap_aid (as ! j))"
      with False show ?thesis
        by (intro disjI2 exI [of _ "Suc j"]) (auto simp: less_Suc_eq_0_disj)
    qed
  qed
qed simp

text \<open>The declarative reading: the first of the longest registered prefixes of the data.\<close>

definition longest :: "'s applet list \<Rightarrow> bytes \<Rightarrow> 's applet option" where
  "longest as data = find (\<lambda>a. prefix (ap_aid a) data \<and>
     (\<forall>b \<in> set as. prefix (ap_aid b) data \<longrightarrow> length (ap_aid b) \<le> length (ap_aid a))) as"

lemma longest_Nil [simp]: "longest [] data = None"
  by (simp add: longest_def)

lemma find_applet_longest:
  assumes "\<forall>a \<in> set (s_applets s). ap_aid a \<noteq> []"
  shows "index_ok (find_applet_by_aid s data (length data)) (s_count s) \<and>
    longest (s_applets s) data = (let i = find_applet_by_aid s data (length data) in
      if i < 0 then None else Some (s_applets s ! nat i))"
proof -
  define r where "r = find_applet_by_aid s data (length data)"
  have "find_loop (s_applets s) 0 (- 1) 0 data (length data) = r"
    by (simp add: r_def find_applet_by_aid_def)
  from find_loop_spec [OF this] have "index_ok r (s_count s) \<and> longest (s_applets s) data =
      (if r < 0 then None else Some (s_applets s ! nat r))"
  proof (elim disjE exE conjE)
    assume "r = - 1" "\<forall>a \<in> set (s_applets s). prefix (ap_aid a) data \<longrightarrow> length (ap_aid a) \<le> 0"
    with assms show ?thesis
      by (auto simp: index_ok_def longest_def find_None_iff)
  next
    fix j assume "j < s_count s" "r = int (0 + j)" "prefix (ap_aid (s_applets s ! j)) data"
      "\<forall>a \<in> set (s_applets s). prefix (ap_aid a) data \<longrightarrow>
        length (ap_aid a) \<le> length (ap_aid (s_applets s ! j))"
      "\<forall>k < j. prefix (ap_aid (s_applets s ! k)) data \<longrightarrow>
        length (ap_aid (s_applets s ! k)) < length (ap_aid (s_applets s ! j))"
    then show ?thesis
      by (auto simp: index_ok_def longest_def find_Some_iff intro!: exI [of _ j])
         (meson leD nth_mem order.strict_trans)
  qed
  then show ?thesis by (simp add: r_def Let_def)
qed

section \<open>The card behind the table\<close>

text \<open>
  What the dispatcher promises, without indices: a list of applets, the one selected, the default
  one, and the applets' state. Selecting another applet, resetting the card or removing the selected
  applet closes the session of the applet that was selected.
\<close>

record 's card =
  c_applets :: "'s applet list"
  c_selected :: "'s applet option"
  c_default :: "'s applet option"
  c_world :: 's

definition closed_session :: "'s card \<Rightarrow> 's" where
  "closed_session c = (case c_selected c of
       None \<Rightarrow> c_world c
     | Some a \<Rightarrow> (case ap_deselect a of None \<Rightarrow> c_world c | Some f \<Rightarrow> f (c_world c)))"

definition answer :: "'s applet \<Rightarrow> bytes \<Rightarrow> nat \<Rightarrow> 's card \<Rightarrow> (int \<times> bytes) \<times> 's card" where
  "answer a cmd n c = (case ap_process a cmd n (c_world c) of (r, w) \<Rightarrow> (r, c\<lparr>c_world := w\<rparr>))"

definition selects :: "bytes \<Rightarrow> bytes option" where
  "selects cmd = (case apdu_parse cmd of
       None \<Rightarrow> None
     | Some a \<Rightarrow> if a_cla a = 0 \<and> a_ins a = 0xA4 \<and> a_p1 a = 4 then Some (apdu_data cmd a) else None)"

definition card_dispatch :: "bytes \<Rightarrow> nat \<Rightarrow> 's card \<Rightarrow> (int \<times> bytes) \<times> 's card" where
  "card_dispatch cmd n c =
     (let not_found = ((2, apdu_sw 0x6A82), c);
          forward = (\<lambda>target. case target of None \<Rightarrow> not_found | Some a \<Rightarrow> answer a cmd n c) in
      if n < 2 then ((- 1, []), c)
      else case selects cmd of
        None \<Rightarrow> forward (case c_selected c of None \<Rightarrow> c_default c | Some a \<Rightarrow> Some a)
      | Some aid \<Rightarrow>
          (case longest (c_applets c) aid of
             None \<Rightarrow> forward (c_selected c)
           | Some a \<Rightarrow> answer a cmd n (c\<lparr>c_selected := Some a,
               c_world := if map_option ap_name (c_selected c) = Some (ap_name a) then c_world c
                          else closed_session c\<rparr>)))"

definition card_reset :: "'s card \<Rightarrow> 's card" where
  "card_reset c = c\<lparr>c_selected := None, c_world := closed_session c\<rparr>"

definition without :: "string \<Rightarrow> 's applet option \<Rightarrow> 's applet option" where
  "without name x = (case x of None \<Rightarrow> None | Some a \<Rightarrow> if ap_name a = name then None else Some a)"

definition card_unregister :: "string \<Rightarrow> 's card \<Rightarrow> 's card" where
  "card_unregister name c =
     \<lparr>c_applets = filter (\<lambda>a. ap_name a \<noteq> name) (c_applets c),
      c_selected = without name (c_selected c), c_default = without name (c_default c),
      c_world = if map_option ap_name (c_selected c) = Some name then closed_session c
                else c_world c\<rparr>"

definition pick :: "'s applet list \<Rightarrow> int \<Rightarrow> 's applet option" where
  "pick as i = (if i < 0 then None else Some (as ! nat i))"

definition card_of :: "'s scard \<Rightarrow> 's card" where
  "card_of s = \<lparr>c_applets = s_applets s, c_selected = pick (s_applets s) (s_current s),
     c_default = pick (s_applets s) (s_default s), c_world = s_world s\<rparr>"

lemma closed_session_deselect:
  "closed_session (card_of s) = (if s_current s < 0 then s_world s else s_world (deselect (s_current s) s))"
  by (simp add: closed_session_def card_of_def pick_def deselect_def split: option.splits)

lemma process_answer:
  "0 \<le> i \<Longrightarrow> (case process i cmd n s of (r, t) \<Rightarrow> (r, card_of t)) =
    answer (s_applets s ! nat i) cmd n (card_of s)"
  by (simp add: process_def answer_def card_of_def split: prod.splits)

lemma same_index:
  assumes "distinct (map ap_name as)" and "index_ok i (length as)" and "index_ok j (length as)"
    and "0 \<le> j"
  shows "map_option ap_name (pick as i) = Some (ap_name (as ! nat j)) \<longleftrightarrow> i = j"
proof (cases "i < 0")
  case False
  then have "nat i < length as" "nat j < length as" using assms(2,3,4) by (auto simp: index_ok_def)
  with nth_eq_iff_index_eq [OF assms(1)] have "ap_name (as ! nat i) = ap_name (as ! nat j) \<longleftrightarrow> nat i = nat j"
    by (metis length_map nth_map)
  with False assms(4) show ?thesis by (auto simp: pick_def)
qed (use assms in \<open>auto simp: pick_def\<close>)

lemma not_index:
  "n \<notin> ap_name ` set as \<Longrightarrow> index_ok i (length as) \<Longrightarrow> map_option ap_name (pick as i) \<noteq> Some n"
  by (auto simp: pick_def index_ok_def image_iff)

lemma card_reset_refines: "card_of (scard_reset s) = card_reset (card_of s)"
  using closed_session_deselect [of s]
  by (auto simp: scard_reset_def card_reset_def card_of_def pick_def Let_def)

text \<open>The index of an applet after the one at \<open>i\<close> has left the table.\<close>

lemma pick_remove:
  assumes "find_name n as = Some i" and "distinct (map ap_name as)" and "index_ok k (length as)"
  shows "pick (take i as @ drop (Suc i) as)
      (if k = int i then - 1 else if int i < k then k - 1 else k) = without n (pick as k)"
proof -
  note i = find_name_Some [OF assms(1)]
  have eq: "ap_name (as ! nat k) = n \<longleftrightarrow> nat k = i" if "0 \<le> k"
    using i assms(2,3) that nth_eq_iff_index_eq [OF assms(2), of "nat k" i]
    by (auto simp: index_ok_def)
  consider "k < 0" | "k = int i" | "0 \<le> k" "k < int i" | "int i < k" by linarith
  then show ?thesis
  proof cases
    case 4
    then have "nat (k - 1) - i + Suc i = nat k" "\<not> nat (k - 1) < i" by linarith+
    with 4 eq i assms(3) show ?thesis
      by (auto simp: pick_def without_def nth_append index_ok_def min_def add.commute)
  qed (use eq i in \<open>auto simp: pick_def without_def nth_append min_def\<close>)
qed

lemma card_unregister_refines:
  assumes "scard_ok s"
  shows "card_of (scard_unregister_applet n s) = card_unregister n (card_of s)"
proof (cases "find_name n (s_applets s)")
  case None
  then have n: "n \<notin> ap_name ` set (s_applets s)" by (simp add: find_name_None)
  then have "filter (\<lambda>a. ap_name a \<noteq> n) (s_applets s) = s_applets s" by (intro filter_True) auto
  with None assms not_index [OF n] show ?thesis
    by (auto simp: scard_unregister_applet_def card_unregister_def card_of_def without_def
        scard_ok_def split: option.splits)
next
  case (Some i)
  have d: "distinct (map ap_name (s_applets s))" "index_ok (s_current s) (s_count s)"
    "index_ok (s_default s) (s_count s)" using assms by (simp_all add: scard_ok_def)
  note i = find_name_Some [OF Some]
  have "map_option ap_name (pick (s_applets s) (s_current s)) = Some n \<longleftrightarrow> s_current s = int i"
    using same_index [OF d(1,2), of "int i"] i by (simp add: index_ok_def)
  with Some pick_remove [OF Some d(1) d(2)] pick_remove [OF Some d(1) d(3)]
    find_name_remove [OF Some d(1)] closed_session_deselect [of s]
  show ?thesis
    by (auto simp: scard_unregister_applet_def card_unregister_def card_of_def Let_def)
qed

lemma card_dispatch_select:
  assumes "scard_ok s" and "longest (s_applets s) aid = Some a"
    and "find_applet_by_aid s aid (length aid) = i"
  shows "0 \<le> i" and "s_applets s ! nat i = a"
    and "card_of ((if s_current s \<ge> 0 \<and> s_current s \<noteq> i then deselect (s_current s) s else s)
        \<lparr>s_current := i\<rparr>) = (card_of s)\<lparr>c_selected := Some a,
          c_world := if map_option ap_name (c_selected (card_of s)) = Some (ap_name a)
            then c_world (card_of s) else closed_session (card_of s)\<rparr>"
proof -
  have i: "index_ok i (s_count s)" "0 \<le> i" "s_applets s ! nat i = a"
    using find_applet_longest [of s aid] assms by (auto simp: scard_ok_def Let_def split: if_splits)
  then show "0 \<le> i" "s_applets s ! nat i = a" by simp_all
  have "map_option ap_name (c_selected (card_of s)) = Some (ap_name a) \<longleftrightarrow> s_current s = i"
    using same_index [of "s_applets s" "s_current s" i] assms(1) i by (simp add: card_of_def scard_ok_def)
  with i closed_session_deselect [of s]
  show "card_of ((if s_current s \<ge> 0 \<and> s_current s \<noteq> i then deselect (s_current s) s else s)
        \<lparr>s_current := i\<rparr>) = (card_of s)\<lparr>c_selected := Some a,
          c_world := if map_option ap_name (c_selected (card_of s)) = Some (ap_name a)
            then c_world (card_of s) else closed_session (card_of s)\<rparr>"
    by (auto simp: card_of_def pick_def)
qed

lemma card_dispatch_plain:
  assumes "selects cmd = None" and "\<not> n < 2" and "s_applets s \<noteq> []"
  shows "scard_dispatch_apdu cmd n s =
    (let i = if s_current s \<ge> 0 then s_current s else s_default s in
     if i < 0 then ((2, apdu_sw 0x6A82), s) else process i cmd n s)"
proof (cases "apdu_parse cmd")
  case None
  with assms show ?thesis by (simp add: scard_dispatch_apdu_def)
next
  case (Some a)
  with assms(1) have "(a_cla a = 0 \<and> a_ins a = 0xA4 \<and> a_p1 a = 4) = False"
    by (auto simp: selects_def)
  moreover have "(n < 2) = False" "(s_count s = 0) = False" using assms by simp_all
  ultimately show ?thesis
    by (simp only: scard_dispatch_apdu_def Let_def Some option.case if_False)
qed

lemma card_dispatch_refines:
  assumes "scard_ok s"
  shows "(case scard_dispatch_apdu cmd n s of (r, t) \<Rightarrow> (r, card_of t)) = card_dispatch cmd n (card_of s)"
proof -
  let ?forward = "\<lambda>i. if i < 0 then ((2, apdu_sw 0x6A82), s) else process i cmd n s"
  have forward: "(case ?forward i of (r, t) \<Rightarrow> (r, card_of t)) =
      (case pick (s_applets s) i of None \<Rightarrow> ((2, apdu_sw 0x6A82), card_of s)
       | Some a \<Rightarrow> answer a cmd n (card_of s))" for i
    using process_answer [of i cmd n s] by (auto simp: pick_def)
  have picks: "c_selected (card_of s) = pick (s_applets s) (s_current s)"
    "c_default (card_of s) = pick (s_applets s) (s_default s)"
    "c_applets (card_of s) = s_applets s" by (simp_all add: card_of_def)
  have target: "(case c_selected (card_of s) of None \<Rightarrow> c_default (card_of s) | Some a \<Rightarrow> Some a) =
      pick (s_applets s) (if s_current s \<ge> 0 then s_current s else s_default s)"
    by (simp add: card_of_def pick_def)
  consider "n < 2" | "\<not> n < 2" "s_applets s = []" | "\<not> n < 2" "s_applets s \<noteq> []" by blast
  then show ?thesis
  proof cases
    case 1
    then show ?thesis by (simp add: scard_dispatch_apdu_def card_dispatch_def)
  next
    case 2
    then have "s_current s = - 1" "s_default s = - 1"
      using assms by (simp_all add: scard_ok_def index_ok_def)
    with 2 show ?thesis
      by (simp add: scard_dispatch_apdu_def card_dispatch_def picks pick_def Let_def split: option.splits)
  next
    case False: 3
    show ?thesis
    proof (cases "selects cmd")
      case None
      then have "scard_dispatch_apdu cmd n s =
          ?forward (if s_current s \<ge> 0 then s_current s else s_default s)"
        using card_dispatch_plain [OF None, of n s] False by (simp only: Let_def) blast
      then show ?thesis
        using None False unfolding card_dispatch_def by (simp add: forward target)
    next
      case (Some aid)
      let ?i = "find_applet_by_aid s aid (length aid)"
      from Some obtain a where a: "apdu_parse cmd = Some a" "a_cla a = 0" "a_ins a = 0xA4"
          "a_p1 a = 4" "apdu_data cmd a = aid"
        by (auto simp: selects_def split: option.splits if_splits)
      have len: "unat (a_lc a) = length aid" using apdu_parse_parsed [OF a(1)] a(5)
        by (auto simp: parsed_def apdu_data_def split: option.splits)
      show ?thesis
      proof (cases "longest (s_applets s) aid")
        case None
        then have "?i < 0" using find_applet_longest [of s aid] assms
          by (auto simp: scard_ok_def Let_def split: if_splits)
        then have "scard_dispatch_apdu cmd n s = ?forward (s_current s)"
          using False a len by (auto simp: scard_dispatch_apdu_def Let_def)
        with Some None False forward show ?thesis by (simp add: card_dispatch_def picks)
      next
        case (Some b)
        note sel = card_dispatch_select [OF assms Some refl]
        let ?s = "(if s_current s \<ge> 0 \<and> s_current s \<noteq> ?i then deselect (s_current s) s else s)
          \<lparr>s_current := ?i\<rparr>"
        have "scard_dispatch_apdu cmd n s = process ?i cmd n ?s"
          using False a len sel(1) by (simp add: scard_dispatch_apdu_def Let_def)
        moreover have "s_applets ?s = s_applets s" by simp
        ultimately show ?thesis
          using process_answer [OF sel(1), of cmd n ?s] sel(2,3) False Some \<open>selects cmd = Some aid\<close>
          by (simp add: card_dispatch_def picks)
      qed
    qed
  qed
qed

definition card_register :: "'s descriptor \<Rightarrow> bool \<Rightarrow> 's card \<Rightarrow> 's card" where
  "card_register d make_default c =
     (case (d_name d, d_aid d, d_process d) of
        (Some name, Some aid, Some p) \<Rightarrow>
          if aid = [] \<or> name \<in> ap_name ` set (c_applets c) \<or> length (c_applets c) \<ge> 4 then c
          else let a = \<lparr>ap_name = name, ap_aid = aid, ap_process = p, ap_deselect = d_deselect d\<rparr>
            in c\<lparr>c_applets := c_applets c @ [a],
                 c_default := if make_default then Some a else c_default c\<rparr>
      | _ \<Rightarrow> c)"

lemma pick_append: "index_ok i (length as) \<Longrightarrow> pick (as @ bs) i = pick as i"
  by (auto simp: pick_def index_ok_def nth_append)

lemma card_register_refines:
  assumes "scard_ok s"
  shows "card_of (snd (scard_register_applet d b s)) = card_register d b (card_of s)"
  using assms pick_append [of _ "s_applets s"]
  by (auto simp: scard_register_applet_def card_register_def card_of_def Let_def scard_ok_def image_iff
      pick_def [of _ "int n" for n] split: option.splits)

section \<open>Sequences of operations\<close>

datatype 's scard_op =
    Register "'s descriptor" bool
  | Unregister string
  | Dispatch bytes nat
  | Reset

fun scard_step :: "'s scard \<Rightarrow> 's scard_op \<Rightarrow> 's scard" where
  "scard_step s (Register d b) = snd (scard_register_applet d b s)"
| "scard_step s (Unregister n) = scard_unregister_applet n s"
| "scard_step s (Dispatch cmd n) = snd (scard_dispatch_apdu cmd n s)"
| "scard_step s Reset = scard_reset s"

fun card_step :: "'s card \<Rightarrow> 's scard_op \<Rightarrow> 's card" where
  "card_step c (Register d b) = card_register d b c"
| "card_step c (Unregister n) = card_unregister n c"
| "card_step c (Dispatch cmd n) = snd (card_dispatch cmd n c)"
| "card_step c Reset = card_reset c"

lemma register_ok: "scard_ok s \<Longrightarrow> scard_ok (snd (scard_register_applet d b s))"
  by (auto simp: scard_register_applet_def scard_ok_def index_ok_def split: option.splits)

lemma index_ok_remove:
  "index_ok k (Suc n) \<Longrightarrow> i \<le> n \<Longrightarrow>
    index_ok (if k = int i then - 1 else if int i < k then k - 1 else k) n"
  by (auto simp: index_ok_def)

lemma unregister_frame:
  assumes "find_name n (s_applets s) = Some i"
  shows "s_applets (scard_unregister_applet n s) = take i (s_applets s) @ drop (Suc i) (s_applets s)"
    and "s_current (scard_unregister_applet n s) = (if s_current s = int i then - 1
      else if int i < s_current s then s_current s - 1 else s_current s)"
    and "s_default (scard_unregister_applet n s) = (if s_default s = int i then - 1
      else if int i < s_default s then s_default s - 1 else s_default s)"
  using assms by (simp_all add: scard_unregister_applet_def Let_def)

lemma unregister_ok:
  assumes "scard_ok s"
  shows "scard_ok (scard_unregister_applet n s)"
proof (cases "find_name n (s_applets s)")
  case (Some i)
  have d: "distinct (map ap_name (s_applets s))" using assms by (simp add: scard_ok_def)
  let ?as = "take i (s_applets s) @ drop (Suc i) (s_applets s)"
  have i: "i < s_count s" using find_name_Some [OF Some] by simp
  then have len: "Suc (length ?as) = s_count s" by simp
  have "distinct (map ap_name ?as)" "set ?as \<subseteq> set (s_applets s)"
    unfolding find_name_remove [OF Some d] using d by (auto simp: distinct_map_filter)
  moreover have "i \<le> length ?as" using i len by linarith
  ultimately show ?thesis
    using assms index_ok_remove [of _ "length ?as" i]
    unfolding scard_ok_def unregister_frame [OF Some] len [symmetric] by auto
qed (use assms in \<open>simp add: scard_unregister_applet_def\<close>)

lemma find_applet_index:
  "scard_ok s \<Longrightarrow> index_ok (find_applet_by_aid s data (length data)) (s_count s)"
  using find_applet_longest [of s data] by (simp add: scard_ok_def)

lemma dispatch_frame:
  "s_applets (snd (scard_dispatch_apdu cmd n s)) = s_applets s"
  "s_default (snd (scard_dispatch_apdu cmd n s)) = s_default s"
  by (auto simp: scard_dispatch_apdu_def Let_def split: option.splits)

lemma dispatch_current:
  "s_current (snd (scard_dispatch_apdu cmd n s)) \<noteq> s_current s \<Longrightarrow>
    \<exists>data. s_current (snd (scard_dispatch_apdu cmd n s)) = find_applet_by_aid s data (length data)"
proof -
  assume *: "s_current (snd (scard_dispatch_apdu cmd n s)) \<noteq> s_current s"
  then obtain a where a: "apdu_parse cmd = Some a"
    by (auto simp: scard_dispatch_apdu_def Let_def split: option.splits if_splits)
  have "unat (a_lc a) = length (apdu_data cmd a)" using apdu_parse_parsed [OF a]
    by (auto simp: parsed_def apdu_data_def split: option.splits)
  with * a show ?thesis
    by (intro exI [of _ "apdu_data cmd a"])
       (auto simp: scard_dispatch_apdu_def Let_def split: if_splits)
qed

lemma dispatch_ok:
  assumes "scard_ok s"
  shows "scard_ok (snd (scard_dispatch_apdu cmd n s))"
proof -
  have "index_ok (s_current (snd (scard_dispatch_apdu cmd n s))) (s_count s)"
    using dispatch_current [of cmd n s] find_applet_index [OF assms] assms
    by (cases "s_current (snd (scard_dispatch_apdu cmd n s)) = s_current s") (auto simp: scard_ok_def)
  with assms show ?thesis by (simp add: scard_ok_def dispatch_frame)
qed

lemma reset_ok: "scard_ok s \<Longrightarrow> scard_ok (scard_reset s)"
  by (auto simp: scard_reset_def scard_ok_def index_ok_def Let_def)

lemma scard_step_ok: "scard_ok s \<Longrightarrow> scard_ok (scard_step s x)"
  by (cases x) (simp_all add: register_ok unregister_ok dispatch_ok reset_ok)

lemma step_refines: "scard_ok s \<Longrightarrow> card_of (scard_step s x) = card_step (card_of s) x"
proof (cases x)
  case (Dispatch cmd n)
  assume "scard_ok s"
  from card_dispatch_refines [OF this, of cmd n] Dispatch show ?thesis
    by (auto split: prod.splits dest: arg_cong [of _ _ snd])
qed (simp_all add: card_register_refines card_unregister_refines card_reset_refines)

lemma steps_refine:
  "scard_ok s \<Longrightarrow> scard_ok (foldl scard_step s xs) \<and>
    card_of (foldl scard_step s xs) = foldl card_step (card_of s) xs"
  by (induction xs arbitrary: s) (simp_all add: scard_step_ok step_refines)

section \<open>The dispatcher provides the card service\<close>

text \<open>
  What \<^verbatim>\<open>applet.h\<close> asks of an applet, over an invariant \<^verbatim>\<open>W\<close> of the state the applets keep: the
  command handler returns the length of the response, which is what it wrote and within the buffer,
  and both handlers keep the invariant.
\<close>

definition well_behaved :: "('s \<Rightarrow> bool) \<Rightarrow> nat \<Rightarrow> 's applet \<Rightarrow> bool" where
  "well_behaved W m a \<longleftrightarrow>
     (\<forall>cmd n w k b w'. 2 \<le> n \<longrightarrow> W w \<longrightarrow> ap_process a cmd n w = ((k, b), w') \<longrightarrow>
        (m \<le> n \<longrightarrow> k \<le> int n \<and> (0 \<le> k \<longrightarrow> length b = nat k)) \<and> W w') \<and>
     (\<forall>f w. ap_deselect a = Some f \<longrightarrow> W w \<longrightarrow> W (f w))"

definition scard_good :: "('s \<Rightarrow> bool) \<Rightarrow> nat \<Rightarrow> 's scard \<Rightarrow> bool" where
  "scard_good W m s \<longleftrightarrow> scard_ok s \<and> (\<forall>a \<in> set (s_applets s). well_behaved W m a) \<and> W (s_world s)"

lemma answer_fits:
  "well_behaved W m a \<Longrightarrow> 2 \<le> n \<Longrightarrow> W (c_world c) \<Longrightarrow> answer a cmd n c = ((k, b), c') \<Longrightarrow>
    (m \<le> n \<longrightarrow> k \<le> int n \<and> (0 \<le> k \<longrightarrow> length b = nat k)) \<and> W (c_world c')"
  by (cases "ap_process a cmd n (c_world c)") (fastforce simp: answer_def well_behaved_def)

lemma closed_session_inv:
  "W (c_world c) \<Longrightarrow> \<forall>a. c_selected c = Some a \<longrightarrow> well_behaved W m a \<Longrightarrow> W (closed_session c)"
  by (auto simp: closed_session_def well_behaved_def split: option.splits)

lemma longest_mem: "longest as d = Some a \<Longrightarrow> a \<in> set as"
  by (auto simp: longest_def find_Some_iff)

lemma pick_mem: "index_ok i (length as) \<Longrightarrow> pick as i = Some a \<Longrightarrow> a \<in> set as"
  by (auto simp: pick_def index_ok_def split: if_splits)

definition card_good :: "('s \<Rightarrow> bool) \<Rightarrow> nat \<Rightarrow> 's card \<Rightarrow> bool" where
  "card_good W m c \<longleftrightarrow> W (c_world c) \<and>
     (\<forall>a. c_selected c = Some a \<or> c_default c = Some a \<or> a \<in> set (c_applets c) \<longrightarrow> well_behaved W m a)"

text \<open>A command is answered by one applet, or by the dispatcher itself.\<close>

lemma card_dispatch_cases:
  assumes "2 \<le> n"
  shows "card_dispatch cmd n c = ((2, apdu_sw 0x6A82), c) \<or>
    (\<exists>a. (c_selected c = Some a \<or> c_default c = Some a) \<and> card_dispatch cmd n c = answer a cmd n c) \<or>
    (\<exists>a w. a \<in> set (c_applets c) \<and> (w = c_world c \<or> w = closed_session c) \<and>
      card_dispatch cmd n c = answer a cmd n (c\<lparr>c_selected := Some a, c_world := w\<rparr>))"
proof (cases "selects cmd")
  case None
  with assms show ?thesis
    by (cases "c_selected c"; cases "c_default c") (auto simp: card_dispatch_def)
next
  case (Some aid)
  show ?thesis
  proof (cases "longest (c_applets c) aid")
    case None
    with Some assms show ?thesis by (cases "c_selected c") (auto simp: card_dispatch_def)
  next
    case (Some a)
    define w where "w = (if map_option ap_name (c_selected c) = Some (ap_name a) then c_world c
      else closed_session c)"
    have "card_dispatch cmd n c = answer a cmd n (c\<lparr>c_selected := Some a, c_world := w\<rparr>)"
      using \<open>selects cmd = Some aid\<close> Some assms by (simp add: card_dispatch_def Let_def w_def)
    moreover have "w = c_world c \<or> w = closed_session c" by (simp add: w_def)
    ultimately show ?thesis using longest_mem [OF Some] by blast
  qed
qed

lemma card_dispatch_fits:
  assumes "card_good W m c" and "card_dispatch cmd n c = ((k, b), c')"
  shows "(m \<le> n \<longrightarrow> k \<le> int n \<and> (0 \<le> k \<longrightarrow> length b = nat k)) \<and> W (c_world c')"
proof (cases "n < 2")
  case True
  with assms show ?thesis by (auto simp: card_dispatch_def card_good_def)
next
  case False
  then have n: "2 \<le> n" by simp
  have good: "W (c_world c)" "W (closed_session c)"
    using closed_session_inv [of W c m] assms(1) by (auto simp: card_good_def)
  consider "card_dispatch cmd n c = ((2, apdu_sw 0x6A82), c)"
    | a where "well_behaved W m a" "card_dispatch cmd n c = answer a cmd n c"
    | a w where "well_behaved W m a" "W w"
        "card_dispatch cmd n c = answer a cmd n (c\<lparr>c_selected := Some a, c_world := w\<rparr>)"
    using card_dispatch_cases [OF n, of cmd c] assms(1) good by (auto simp: card_good_def)
  then show ?thesis
  proof cases
    case 1
    with assms(2) n good(1) show ?thesis by (auto simp: apdu_sw_def)
  next
    case (2 a)
    with assms(2) show ?thesis using answer_fits [OF 2(1) n good(1)] by simp
  next
    case (3 a w)
    with assms(2) show ?thesis
      using answer_fits [OF 3(1) n, of "c\<lparr>c_selected := Some a, c_world := w\<rparr>"] by simp
  qed
qed

lemma scard_good_card:
  assumes "scard_good W m s"
  shows "card_good W m (card_of s)"
  using assms pick_mem [of _ "s_applets s"]
  by (auto simp: scard_good_def card_good_def card_of_def scard_ok_def)

interpretation card: card_service "scard_good W m" scard_dispatch_apdu scard_reset m for W m
proof
  fix c :: "'a scard" and cmd n k b
  show "scard_good W m c \<Longrightarrow> scard_good W m (scard_reset c)"
  proof -
    assume good: "scard_good W m c"
    have "W (closed_session (card_of c))"
      using closed_session_inv [of W "card_of c" m] scard_good_card [OF good] by (simp add: card_good_def)
    then have "W (s_world (scard_reset c))"
      using card_reset_refines [of c] good
      by (simp add: card_reset_def card_of_def scard_good_def)
    with good reset_ok [of c] show ?thesis
      by (simp add: scard_good_def) (simp add: scard_reset_def Let_def)
  qed
  have fits: "(m \<le> n \<longrightarrow> k \<le> int n \<and> (0 \<le> k \<longrightarrow> length b = nat k)) \<and> W (s_world (snd (scard_dispatch_apdu cmd n c)))"
    if good: "scard_good W m c" and r: "fst (scard_dispatch_apdu cmd n c) = (k, b)" for k b
  proof -
    obtain c' where d: "card_dispatch cmd n (card_of c) = ((k, b), c')"
      "c' = card_of (snd (scard_dispatch_apdu cmd n c))"
      using card_dispatch_refines [of c cmd n] good r by (auto simp: scard_good_def split: prod.splits)
    from card_dispatch_fits [OF scard_good_card [OF good] d(1)] show ?thesis
      by (simp add: d(2) card_of_def)
  qed
  show "scard_good W m c \<Longrightarrow> scard_good W m (snd (scard_dispatch_apdu cmd n c))"
    using fits [of "fst (fst (scard_dispatch_apdu cmd n c))" "snd (fst (scard_dispatch_apdu cmd n c))"]
    by (simp add: scard_good_def dispatch_ok dispatch_frame)
  show "scard_good W m c \<Longrightarrow> m \<le> n \<Longrightarrow> fst (scard_dispatch_apdu cmd n c) = (k, b) \<Longrightarrow>
      k \<le> int n \<and> (0 \<le> k \<longrightarrow> length b = nat k)"
    using fits by blast
qed

section \<open>Properties\<close>

text \<open>
  C22. Whatever sequence of registrations, removals, commands and resets reaches the dispatcher, its
  table and its two indices stay well-formed, and it behaves as the card without indices: the
  selected and the default applet follow every removal and compaction of the table, a SELECT goes to
  the first of the longest matching prefixes, the session of the applet that was selected is closed
  when another one is selected, when it is removed and on a reset, and every response is the one
  this card gives.
\<close>

theorem scard_refines_card:
  fixes w :: 's and xs :: "'s scard_op list"
  defines "s \<equiv> foldl scard_step (scard_init w) xs"
  defines "c \<equiv> foldl card_step \<lparr>c_applets = [], c_selected = None, c_default = None, c_world = w\<rparr> xs"
  shows "scard_ok s \<and> card_of s = c \<and>
    fst (scard_dispatch_apdu cmd n s) = fst (card_dispatch cmd n c)"
proof -
  have "scard_ok (scard_init w)"
    and "card_of (scard_init w) = \<lparr>c_applets = [], c_selected = None, c_default = None, c_world = w\<rparr>"
    by (simp_all add: scard_init_def scard_ok_def index_ok_def card_of_def pick_def)
  then have *: "scard_ok s \<and> card_of s = c"
    using steps_refine [of "scard_init w" xs] by (simp add: s_def c_def)
  then show ?thesis
    using card_dispatch_refines [of s cmd n] by (auto split: prod.splits dest: arg_cong [of _ _ fst])
qed

text \<open>
  A SELECT by DF name finds the registered applet whose AID is the longest prefix of the name in
  the command, and the first one registered if there are several; it finds none exactly when no
  registered AID is such a prefix.
\<close>

theorem find_applet_longest_prefix:
  assumes "scard_ok s"
  shows "let i = find_applet_by_aid s data (length data); as = s_applets s;
      matches = (\<lambda>a. prefix (ap_aid a) data) in
    if i < 0 then \<forall>a \<in> set as. \<not> matches a
    else nat i < length as \<and> matches (as ! nat i) \<and>
      (\<forall>j < length as. matches (as ! j) \<longrightarrow>
        length (ap_aid (as ! j)) < length (ap_aid (as ! nat i)) \<or>
        length (ap_aid (as ! j)) = length (ap_aid (as ! nat i)) \<and> nat i \<le> j)"
proof -
  define i where "i = find_applet_by_aid s data (length data)"
  have "find_loop (s_applets s) 0 (- 1) 0 data (length data) = i"
    by (simp add: i_def find_applet_by_aid_def)
  from find_loop_spec [OF this] show ?thesis
  proof (elim disjE exE conjE)
    assume "i = - 1" "\<forall>a \<in> set (s_applets s). prefix (ap_aid a) data \<longrightarrow> length (ap_aid a) \<le> 0"
    then show ?thesis using assms by (auto simp: scard_ok_def Let_def i_def)
  next
    fix j assume j: "j < s_count s" "i = int (0 + j)" "prefix (ap_aid (s_applets s ! j)) data"
      "\<forall>a \<in> set (s_applets s). prefix (ap_aid a) data \<longrightarrow>
        length (ap_aid a) \<le> length (ap_aid (s_applets s ! j))"
      "\<forall>k < j. prefix (ap_aid (s_applets s ! k)) data \<longrightarrow>
        length (ap_aid (s_applets s ! k)) < length (ap_aid (s_applets s ! j))"
    then have "length (ap_aid (s_applets s ! k)) < length (ap_aid (s_applets s ! j)) \<or>
        length (ap_aid (s_applets s ! k)) = length (ap_aid (s_applets s ! j)) \<and> j \<le> k"
      if "k < s_count s" "prefix (ap_aid (s_applets s ! k)) data" for k
      using that by (cases "k < j") (auto simp: le_less)
    with j show ?thesis unfolding i_def [symmetric] Let_def by auto
  qed
qed

text \<open>Two applets, the AID of one a prefix of the other's, for the witnesses.\<close>

definition echo_applet :: "string \<Rightarrow> bytes \<Rightarrow> nat applet" where
  "echo_applet name aid = \<lparr>ap_name = name, ap_aid = aid,
     ap_process = (\<lambda>cmd n w. ((2, apdu_sw 0x9000), w + 1)), ap_deselect = Some (\<lambda>w. 0)\<rparr>"

definition two_applets :: "nat scard" where
  "two_applets = \<lparr>s_applets = [echo_applet ''piv'' [0xA0, 0], echo_applet ''gpg'' [0xA0, 0, 3]],
     s_current = 0, s_default = 1, s_world = 7\<rparr>"

lemma two_applets_ok: "scard_ok two_applets"
  by (simp add: scard_ok_def index_ok_def two_applets_def echo_applet_def)

theorem find_applet_longest_prefix_witness:
  "nat (find_applet_by_aid two_applets [0xA0, 0, 3, 1] (length [0xA0, 0, 3, 1 :: byte])) = 1 \<and> 1 < s_count two_applets \<and>
    prefix (ap_aid (s_applets two_applets ! 1)) [0xA0, 0, 3, 1]"
proof -
  have "find_applet_by_aid two_applets [0xA0, 0, 3, 1] (length [0xA0, 0, 3, 1 :: byte]) = 1"
    by (simp add: find_applet_by_aid_def two_applets_def echo_applet_def)
  then show ?thesis
    using find_applet_longest_prefix [OF two_applets_ok, of "[0xA0, 0, 3, 1]"]
    by (simp add: Let_def)
qed

end
