(* ===== verification/Ccid.thy ===== *)
theory Ccid
  imports Scard
begin

text \<open>
  The CCID transport (\<^verbatim>\<open>components/cdc_scard/src/ccid.cpp\<close>) and the USB class driver below it
  (\<^verbatim>\<open>ccid_driver.cpp\<close>). The transport is written over the two calls it makes to the card,
  \<^verbatim>\<open>scard_dispatch_apdu\<close> and \<^verbatim>\<open>scard_reset\<close>, so that what it guarantees rests on the contract
  \<open>card_service\<close> alone; \<open>ccid_process_message\<close> is the function with the two calls in place. Log
  output is not modelled.
\<close>

abbreviation (input) "CCID_HEADER_SIZE \<equiv> (10 :: nat)"
abbreviation (input) "CCID_MAX_MSG_SIZE \<equiv> (2048 :: nat)"
abbreviation (input) "CCID_BUF_SIZE \<equiv> (2058 :: nat)"
abbreviation (input) "CCID_PC_TO_RDR_ICC_POWER_ON \<equiv> (0x62 :: byte)"
abbreviation (input) "CCID_PC_TO_RDR_ICC_POWER_OFF \<equiv> (0x63 :: byte)"
abbreviation (input) "CCID_PC_TO_RDR_GET_SLOT_STATUS \<equiv> (0x65 :: byte)"
abbreviation (input) "CCID_PC_TO_RDR_XFR_BLOCK \<equiv> (0x6F :: byte)"
abbreviation (input) "CCID_PC_TO_RDR_GET_PARAMETERS \<equiv> (0x6C :: byte)"
abbreviation (input) "CCID_PC_TO_RDR_RESET_PARAMETERS \<equiv> (0x6D :: byte)"
abbreviation (input) "CCID_RDR_TO_PC_DATA_BLOCK \<equiv> (0x80 :: byte)"
abbreviation (input) "CCID_RDR_TO_PC_SLOT_STATUS \<equiv> (0x81 :: byte)"
abbreviation (input) "CCID_RDR_TO_PC_PARAMETERS \<equiv> (0x82 :: byte)"
abbreviation (input) "CCID_ICC_PRESENT_ACTIVE \<equiv> (0x00 :: byte)"
abbreviation (input) "CCID_ICC_PRESENT_INACTIVE \<equiv> (0x01 :: byte)"
abbreviation (input) "CCID_CMD_STATUS_FAILED \<equiv> (0x40 :: byte)"
abbreviation (input) "CCID_ERROR_XFR_OVERRUN \<equiv> (0xFC :: byte)"
abbreviation (input) "CCID_ERROR_HW_ERROR \<equiv> (0xFB :: byte)"
abbreviation (input) "CCID_ERROR_CMD_NOT_SUPPORTED \<equiv> (0x00 :: byte)"

section \<open>Transport\<close>

record ccid =
  cc_initialized :: bool
  cc_slot :: byte
  cc_seq :: byte

definition ATR :: bytes where
  "ATR = [0x3B, 0xDA, 0x18, 0xFF, 0x81, 0xB1, 0xFE, 0x75, 0x1F, 0x03,
          0x00, 0x31, 0xF5, 0x73, 0xC0, 0x01, 0x60, 0x00, 0x90, 0x00, 0x1C]"

definition ccid_init :: "ccid \<Rightarrow> bool \<times> ccid" where
  "ccid_init st = (True, st\<lparr>cc_initialized := True\<rparr>)"

definition ccid_get_atr :: "bytes \<times> nat" where
  "ccid_get_atr = (ATR, length ATR)"

definition ccid_card_present :: "ccid \<Rightarrow> bool" where
  "ccid_card_present st = cc_initialized st"

definition ccid_build_header :: "byte \<Rightarrow> u32 \<Rightarrow> byte \<Rightarrow> byte \<Rightarrow> byte \<Rightarrow> byte \<Rightarrow> bytes" where
  "ccid_build_header msg_type data_len slot seq status error =
     [msg_type, byte_at 0 data_len, byte_at 8 data_len, byte_at 16 data_len, byte_at 24 data_len,
      slot, seq, status, error, 0]"

text \<open>The packed header of \<^verbatim>\<open>ccid_header_t\<close>, whose length field is little endian.\<close>

definition dwLength :: "bytes \<Rightarrow> u32" where
  "dwLength msg = be32 (msg ! 4) (msg ! 3) (msg ! 2) (msg ! 1)"

text \<open>
  One message, over the calls to the card. The result is the returned length, the bytes at the front
  of the response buffer, the transport's state and the card. \<^verbatim>\<open>resp[9] = 0x01\<close> over the header is
  a list update.
\<close>

definition ccid_process ::
    "(bytes \<Rightarrow> nat \<Rightarrow> 'c \<Rightarrow> (int \<times> bytes) \<times> 'c) \<Rightarrow> ('c \<Rightarrow> 'c) \<Rightarrow>
     bytes \<Rightarrow> nat \<Rightarrow> ccid \<Rightarrow> 'c \<Rightarrow> (int \<times> bytes) \<times> ccid \<times> 'c" where
  "ccid_process dispatch reset msg resp_max st c =
     (if length msg < CCID_HEADER_SIZE \<or> resp_max < CCID_HEADER_SIZE then ((- 1, []), st, c)
      else
        let type = msg ! 0; slot = msg ! 5; seq = msg ! 6;
            st = st\<lparr>cc_slot := slot, cc_seq := seq\<rparr>;
            status = CCID_ICC_PRESENT_ACTIVE; error = 0;
            params = [0x01, 0x00, 0x00, 0xFE, 0x00, 0xFE, 0x00] in
        if type = CCID_PC_TO_RDR_ICC_POWER_ON then
          let c = reset c; (atr, atr_len) = ccid_get_atr;
              hdr = ccid_build_header CCID_RDR_TO_PC_DATA_BLOCK (of_nat atr_len) slot seq status error
          in ((int (CCID_HEADER_SIZE + atr_len), hdr @ atr), st, c)
        else if type = CCID_PC_TO_RDR_ICC_POWER_OFF then
          let c = reset c; status = CCID_ICC_PRESENT_INACTIVE;
              hdr = ccid_build_header CCID_RDR_TO_PC_SLOT_STATUS 0 slot seq status error
          in ((int CCID_HEADER_SIZE, hdr), st, c)
        else if type = CCID_PC_TO_RDR_GET_SLOT_STATUS then
          let hdr = ccid_build_header CCID_RDR_TO_PC_SLOT_STATUS 0 slot seq status error
          in ((int CCID_HEADER_SIZE, hdr), st, c)
        else if type = CCID_PC_TO_RDR_XFR_BLOCK then
          let apdu_len = dwLength msg in
          if unat apdu_len > length msg - CCID_HEADER_SIZE \<or>
             unat apdu_len > resp_max - CCID_HEADER_SIZE
          then
            let hdr = ccid_build_header CCID_RDR_TO_PC_DATA_BLOCK 0 slot seq
                  CCID_CMD_STATUS_FAILED CCID_ERROR_XFR_OVERRUN
            in ((int CCID_HEADER_SIZE, hdr), st, c)
          else
            let ((resp_len, resp_data), c) =
                  dispatch (take (unat apdu_len) (drop CCID_HEADER_SIZE msg))
                    (resp_max - CCID_HEADER_SIZE) c
            in if resp_len < 0 then
                 let hdr = ccid_build_header CCID_RDR_TO_PC_DATA_BLOCK 0 slot seq
                       CCID_CMD_STATUS_FAILED CCID_ERROR_HW_ERROR
                 in ((int CCID_HEADER_SIZE, hdr), st, c)
               else
                 let hdr = ccid_build_header CCID_RDR_TO_PC_DATA_BLOCK (of_int resp_len) slot seq
                       status error
                 in ((int CCID_HEADER_SIZE + resp_len, hdr @ resp_data), st, c)
        else if type = CCID_PC_TO_RDR_GET_PARAMETERS \<or> type = CCID_PC_TO_RDR_RESET_PARAMETERS then
          let hdr = ccid_build_header CCID_RDR_TO_PC_PARAMETERS (of_nat (length params)) slot seq
                status error
          in ((int (CCID_HEADER_SIZE + length params), hdr[9 := 0x01] @ params), st, c)
        else
          let hdr = ccid_build_header CCID_RDR_TO_PC_SLOT_STATUS 0 slot seq
                CCID_CMD_STATUS_FAILED CCID_ERROR_CMD_NOT_SUPPORTED
          in ((int CCID_HEADER_SIZE, hdr), st, c))"

definition ccid_process_message ::
    "bytes \<Rightarrow> nat \<Rightarrow> ccid \<Rightarrow> 's scard \<Rightarrow> (int \<times> bytes) \<times> ccid \<times> 's scard" where
  "ccid_process_message = ccid_process scard_dispatch_apdu scard_reset"

section \<open>USB class driver\<close>

text \<open>
  The driver's state with the transport and the card it calls. The receive and transmit buffers of
  \<open>CCID_BUF_SIZE\<close> bytes are those of the transfers: the bytes received come with the callback, the
  bytes to send go out with a \<open>Submit\<close>, and what TinyUSB answers to a submission is a parameter.
\<close>

record 's ccid_driver =
  dr_initialized :: bool
  dr_itf_num :: byte
  dr_ep_in :: byte
  dr_ep_out :: byte
  dr_rhport :: byte
  dr_rx_len :: u16
  dr_rx_pending :: bool
  dr_rx_count :: u32
  dr_tx_count :: u32
  dr_error_count :: u32
  dr_ccid :: ccid
  dr_card :: "'s scard"

datatype submit = Receive byte nat | Send byte bytes

definition ccid_driver_init :: "'s ccid_driver \<Rightarrow> 's ccid_driver" where
  "ccid_driver_init d = d\<lparr>dr_initialized := False, dr_itf_num := 0, dr_ep_in := 0, dr_ep_out := 0,
     dr_rhport := 0, dr_rx_len := 0, dr_rx_pending := False, dr_rx_count := 0, dr_tx_count := 0,
     dr_error_count := 0\<rparr>"

definition ccid_driver_reset :: "'s ccid_driver \<Rightarrow> 's ccid_driver" where
  "ccid_driver_reset d = d\<lparr>dr_card := scard_reset (dr_card d), dr_rx_len := 0,
     dr_rx_pending := False, dr_initialized := False, dr_rx_count := 0, dr_tx_count := 0,
     dr_error_count := 0\<rparr>"

text \<open>
  The answers to the three class requests: a status stage, or the data of the IN stage. \<open>None\<close> is
  the \<^verbatim>\<open>false\<close> that stalls the request; \<open>accepted\<close> is what TinyUSB returns for the answer.
\<close>

record control_request =
  rq_is_class :: bool
  rq_to_interface :: bool
  rq_wIndex :: u16
  rq_bRequest :: byte

datatype control_answer = Nothing_Due | Status_Stage | Data_Stage bytes | Stall

definition ccid_driver_control_xfer_cb ::
    "bool \<Rightarrow> control_request \<Rightarrow> 's ccid_driver \<Rightarrow> control_answer \<times> 's ccid_driver" where
  "ccid_driver_control_xfer_cb setup_stage rq d =
     (if \<not> setup_stage then (Nothing_Due, d)
      else if rq_is_class rq \<and> rq_to_interface rq \<and> rq_wIndex rq = ucast (dr_itf_num d) then
        if rq_bRequest rq = 0x01 then
          (Status_Stage, d\<lparr>dr_rx_pending := False, dr_rx_len := 0\<rparr>)
        else if rq_bRequest rq = 0x02 then (Data_Stage [0xA0, 0x0F, 0x00, 0x00], d)
        else if rq_bRequest rq = 0x03 then (Data_Stage [0xB0, 0x04, 0x00, 0x00], d)
        else (Stall, d)
      else (Stall, d))"

text \<open>A completed transfer: the submissions made, in order, and the new state.\<close>

definition count_error :: "'s ccid_driver \<Rightarrow> 's ccid_driver" where
  "count_error d = d\<lparr>dr_error_count := dr_error_count d + 1\<rparr>"

definition ccid_driver_rx ::
    "(submit \<Rightarrow> bool) \<Rightarrow> bytes \<Rightarrow> u32 \<Rightarrow> 's ccid_driver \<Rightarrow> submit list \<times> 's ccid_driver" where
  "ccid_driver_rx edpt_xfer rx_buf xferred d =
     (if unat xferred \<ge> CCID_HEADER_SIZE then
        let data_len = dwLength rx_buf in
        if unat data_len > CCID_BUF_SIZE - CCID_HEADER_SIZE then ([], count_error d)
        else
          let total_len = CCID_HEADER_SIZE + unat data_len in
          if unat (dr_rx_len d) \<ge> total_len then
            case ccid_process_message (take total_len rx_buf) CCID_BUF_SIZE (dr_ccid d) (dr_card d) of
              ((resp_len, resp), st, c) \<Rightarrow>
                let d = d\<lparr>dr_ccid := st, dr_card := c\<rparr> in
                if resp_len > 0 then
                  let d = d\<lparr>dr_tx_count := dr_tx_count d + 1\<rparr>;
                      tx = Send (dr_ep_in d) (take (nat resp_len) resp)
                  in ([tx], if edpt_xfer tx then d else count_error d)
                else if resp_len < 0 then ([], count_error d)
                else ([], d)
          else ([], d)
      else ([], d))"

definition ccid_driver_xfer_cb ::
    "(submit \<Rightarrow> bool) \<Rightarrow> byte \<Rightarrow> bool \<Rightarrow> bytes \<Rightarrow> u32 \<Rightarrow> 's ccid_driver \<Rightarrow>
     submit list \<times> 's ccid_driver" where
  "ccid_driver_xfer_cb edpt_xfer ep_addr success rx_buf xferred d =
     (if \<not> success then ([], count_error d)
      else if ep_addr = dr_ep_out d then
        let d = d\<lparr>dr_rx_count := dr_rx_count d + 1, dr_rx_len := ucast xferred,
                  dr_rx_pending := False\<rparr>;
            (txs, d) = ccid_driver_rx edpt_xfer rx_buf xferred d;
            rx = Receive (dr_ep_out d) CCID_BUF_SIZE;
            rx_ok = edpt_xfer rx;
            d = (if rx_ok then d else count_error d)
        in (txs @ [rx], d\<lparr>dr_rx_pending := rx_ok\<rparr>)
      else ([], d))"

section \<open>Opening the interface\<close>

text \<open>
  The configuration descriptor from the interface descriptor on, as bytes; \<open>p\<close> is the offset of
  \<^verbatim>\<open>p_desc\<close> in it. The two loops advance by the length byte of each descriptor: they need not
  end on a descriptor of length zero, and are \<^const>\<open>None\<close> then.
\<close>

partial_function (option) skip_functional :: "bytes \<Rightarrow> u16 \<Rightarrow> u16 \<Rightarrow> nat \<Rightarrow> (u16 \<times> nat) option" where
  "skip_functional desc max_len drv_len p =
     (if drv_len < max_len then
        if desc ! (p + 1) = 0x21 then
          skip_functional desc max_len (drv_len + ucast (desc ! p)) (p + unat (desc ! p))
        else Some (drv_len, p)
      else Some (drv_len, p))"

partial_function (option) open_endpoints ::
    "(bytes \<Rightarrow> bool) \<Rightarrow> bytes \<Rightarrow> u16 \<Rightarrow> u16 \<Rightarrow> nat \<Rightarrow> byte \<Rightarrow> byte \<times> byte \<Rightarrow>
     (u16 \<times> byte \<times> byte) option" where
  "open_endpoints edpt_open desc max_len drv_len p ep_count eps =
     (if drv_len < max_len \<and> ep_count < desc ! 4 then
        let opened = desc ! (p + 1) = 0x05 \<and> edpt_open (drop p desc);
            ep_addr = desc ! (p + 2);
            eps' = (if opened then
                      if bit ep_addr 7 then (ep_addr, snd eps) else (fst eps, ep_addr)
                    else eps)
        in open_endpoints edpt_open desc max_len (drv_len + ucast (desc ! p)) (p + unat (desc ! p))
             (if opened then ep_count + 1 else ep_count) eps'
      else Some (drv_len, eps))"

definition ccid_driver_open ::
    "(bytes \<Rightarrow> bool) \<Rightarrow> (submit \<Rightarrow> bool) \<Rightarrow> byte \<Rightarrow> bytes \<Rightarrow> u16 \<Rightarrow> 's ccid_driver \<Rightarrow>
     (u16 \<times> submit list \<times> 's ccid_driver) option" where
  "ccid_driver_open edpt_open edpt_xfer rhport desc max_len d =
     (if desc ! 5 \<noteq> 0x0B then Some (0, [], d)
      else
        let d = d\<lparr>dr_itf_num := desc ! 2, dr_rhport := rhport\<rparr> in
        case skip_functional desc max_len 9 9 of
          None \<Rightarrow> None
        | Some (drv_len, p) \<Rightarrow>
            (case open_endpoints edpt_open desc max_len drv_len p 0 (dr_ep_in d, dr_ep_out d) of
               None \<Rightarrow> None
             | Some (drv_len, ep_in, ep_out) \<Rightarrow>
                 let d = d\<lparr>dr_ep_in := ep_in, dr_ep_out := ep_out\<rparr>;
                     rx = Receive ep_out CCID_BUF_SIZE;
                     (txs, d) = (if ep_out \<noteq> 0 then ([rx], d\<lparr>dr_rx_pending := edpt_xfer rx\<rparr>)
                                 else ([], d))
                 in Some (drv_len, txs, d\<lparr>dr_initialized := True\<rparr>)))"

section \<open>Responses are well-formed\<close>

text \<open>
  A response as the CCID specification frames it: the length field counts the bytes behind the ten of
  the header, slot and sequence number are those of the command, and all of it is in the buffer.
\<close>

definition framed :: "bytes \<Rightarrow> nat \<Rightarrow> int \<times> bytes \<Rightarrow> bool" where
  "framed msg resp_max r \<longleftrightarrow> fst r = int (length (snd r)) \<and> length (snd r) \<le> resp_max \<and>
     10 \<le> length (snd r) \<and> unat (dwLength (snd r)) = length (snd r) - 10 \<and>
     snd r ! 5 = msg ! 5 \<and> snd r ! 6 = msg ! 6"

lemma header_length [simp, len_simps]: "length (ccid_build_header t n slot seq status err) = 10"
  by (simp add: ccid_build_header_def)

lemma header_fields:
  "dwLength (ccid_build_header t n slot seq status err @ bs) = n"
  "(ccid_build_header t n slot seq status err @ bs) ! 5 = slot"
  "(ccid_build_header t n slot seq status err @ bs) ! 6 = seq"
  "dwLength (ccid_build_header t n slot seq status err) = n"
  "ccid_build_header t n slot seq status err ! 5 = slot"
  "ccid_build_header t n slot seq status err ! 6 = seq"
  by (simp_all add: ccid_build_header_def dwLength_def)

lemma header_protocol:
  "(ccid_build_header t n slot seq status err)[9 := b] @ bs =
    [t, byte_at 0 n, byte_at 8 n, byte_at 16 n, byte_at 24 n, slot, seq, status, err, b] @ bs"
  by (simp add: ccid_build_header_def)

lemma framed_header:
  "unat n = length bs \<Longrightarrow> 10 + length bs \<le> resp_max \<Longrightarrow> k = 10 + int (length bs) \<Longrightarrow>
    framed msg resp_max (k, ccid_build_header t n (msg ! 5) (msg ! 6) status err @ bs)"
  by (simp add: framed_def header_fields)

lemma framed_header_only:
  "10 \<le> resp_max \<Longrightarrow>
    framed msg resp_max (10, ccid_build_header t 0 (msg ! 5) (msg ! 6) status err)"
  using framed_header [of 0 "[]"] by simp

text \<open>What holds of the transport over any card that keeps the contract.\<close>

context card_service
begin

lemma message_good:
  "good c \<Longrightarrow> good (snd (snd (ccid_process dispatch reset msg n st c)))"
  using dispatch_good [of c "take (unat (dwLength msg)) (drop 10 msg)" "n - 10"] reset_good [of c]
  by (auto simp: ccid_process_def Let_def split: prod.splits)

lemma message_xfr:
  assumes "good c" and "10 \<le> length msg" and "msg ! 0 = 0x6F" and "10 + room \<le> n" and "n < 2 ^ 32"
  shows "framed msg n (fst (ccid_process dispatch reset msg n st c))"
proof -
  let ?cmd = "take (unat (dwLength msg)) (drop 10 msg)"
  obtain k b c' where r: "dispatch ?cmd (n - 10) c = ((k, b), c')"
    by (cases "dispatch ?cmd (n - 10) c") auto
  have "room \<le> n - 10" using assms(4) by simp
  from dispatch_fits [OF assms(1) this, of ?cmd k b] r
  have fits: "k \<le> int (n - 10)" "0 \<le> k \<Longrightarrow> length b = nat k" by simp_all
  have "unat (of_int k :: u32) = length b" if "0 \<le> k"
  proof -
    have "unat (of_int k :: u32) = unat (of_nat (nat k) :: u32)" using that by simp
    also have "\<dots> = nat k" using fits(1) assms(4,5) by (intro unat_of_nat_u32) linarith
    finally show ?thesis using fits(2) that by simp
  qed
  with r fits assms show ?thesis
    by (auto simp: ccid_process_def Let_def not_less intro!: framed_header framed_header_only)
qed

lemma message_framed:
  assumes "good c" and "31 \<le> n" and "10 + room \<le> n" and "n < 2 ^ 32" and "10 \<le> length msg"
  shows "framed msg n (fst (ccid_process dispatch reset msg n st c))"
proof (cases "msg ! 0 = 0x6F")
  case True
  with assms show ?thesis by (intro message_xfr) simp_all
next
  case False
  have atr: "length ATR = 21" by (simp add: ATR_def)
  with False assms show ?thesis
    by (auto simp: ccid_process_def Let_def ccid_get_atr_def not_less
        intro!: framed_header framed_header_only)
       (simp_all add: framed_def header_protocol dwLength_def)
qed

end

text \<open>The interface descriptor the badge enumerates (\<^verbatim>\<open>usb_descriptors.h\<close>), endpoint size 64.\<close>

definition TUD_CCID_DESCRIPTOR :: "byte \<Rightarrow> byte \<Rightarrow> byte \<Rightarrow> byte \<Rightarrow> u16 \<Rightarrow> bytes" where
  "TUD_CCID_DESCRIPTOR itfnum stridx epout epin epsize =
     [9, 4, itfnum, 0, 2, 0x0B, 0, 0, stridx,
      54, 0x21, 0x10, 0x01, 0x00, 0x07, 0x02, 0x00, 0x00, 0x00, 0xA0, 0x0F, 0x00, 0x00,
      0xA0, 0x0F, 0x00, 0x00, 0x00, 0x00, 0x2A, 0x00, 0x00, 0x00, 0x2A, 0x00, 0x00, 0x00,
      0xFE, 0x00, 0x00, 0x00, 0x00, 0x00, 0x00, 0x00, 0x00, 0x00, 0x00, 0x00,
      0xFE, 0x00, 0x04, 0x00, 0x0F, 0x01, 0x00, 0x00, 0xFF, 0xFF, 0x00, 0x00, 0x00, 0x01,
      7, 5, epout, 2, byte_at 0 epsize, byte_at 8 epsize, 0,
      7, 5, epin, 2, byte_at 0 epsize, byte_at 8 epsize, 0]"

lemma ccid_framed_good:
  assumes "scard_good W m c" and "31 \<le> n" and "10 + m \<le> n" and "n < 2 ^ 32" and "10 \<le> length msg"
  shows "framed msg n (fst (ccid_process_message msg n st c)) \<and>
    scard_good W m (snd (snd (ccid_process_message msg n st c)))"
  unfolding ccid_process_message_def
  using card.message_framed [OF assms] card.message_good [OF assms(1)] by blast

lemma two_applets_good: "scard_good (\<lambda>w. True) 2 two_applets"
  using two_applets_ok
  by (auto simp: scard_good_def well_behaved_def two_applets_def echo_applet_def apdu_sw_def)

text \<open>A driver with the two applets behind it, for the witnesses.\<close>

definition some_driver :: "nat ccid_driver" where
  "some_driver = \<lparr>dr_initialized = True, dr_itf_num = 1, dr_ep_in = 0x82, dr_ep_out = 2,
     dr_rhport = 0, dr_rx_len = 0, dr_rx_pending = True, dr_rx_count = 0, dr_tx_count = 0,
     dr_error_count = 0, dr_ccid = \<lparr>cc_initialized = True, cc_slot = 0, cc_seq = 0\<rparr>,
     dr_card = two_applets\<rparr>"

section \<open>Properties\<close>

text \<open>
  Every message of at least a header gets a response that is framed as CCID requires: its length
  field counts exactly the bytes behind the header, it echoes slot and sequence number, and it lies
  inside the response buffer, whatever the applets answer within their contract. The bound of 31 is
  the response to a power-on, which \<^verbatim>\<open>memcpy\<close>s the ATR without looking at the buffer's size; \<open>m\<close> is
  the room the applets need for answers they write without looking at it.
\<close>

theorem ccid_response_framed:
  assumes "scard_good W m c" and "31 \<le> n" and "10 + m \<le> n" and "n < 2 ^ 32" and "10 \<le> length msg"
  shows "framed msg n (fst (ccid_process_message msg n st c)) \<and>
    scard_good W m (snd (snd (ccid_process_message msg n st c)))"
  by (rule ccid_framed_good [OF assms])

theorem ccid_response_framed_witness:
  "framed [0x65, 0, 0, 0, 0, 0, 9, 0, 0, 0] 2058
    (fst (ccid_process_message [0x65, 0, 0, 0, 0, 0, 9, 0, 0, 0] 2058
      \<lparr>cc_initialized = True, cc_slot = 0, cc_seq = 0\<rparr> two_applets))"
  using ccid_response_framed [of "\<lambda>w. True" 2 two_applets 2058 "[0x65, 0, 0, 0, 0, 0, 9, 0, 0, 0]"] two_applets_good
  by simp

text \<open>
  A transfer block carries its APDU to the dispatcher unchanged, and the dispatcher's answer back
  unchanged behind the header; a negative result becomes a hardware error with no data. A block whose
  length field exceeds the message or the response buffer reaches no applet.
\<close>

theorem ccid_xfr_block:
  assumes "10 \<le> n" and "10 \<le> length msg" and "msg ! 0 = 0x6F"
  shows "case ccid_process_message msg n st c of ((k, resp), st', c') \<Rightarrow>
    cc_slot st' = msg ! 5 \<and> cc_seq st' = msg ! 6 \<and>
    (if 10 + unat (dwLength msg) \<le> length msg \<and> 10 + unat (dwLength msg) \<le> n then
       (case scard_dispatch_apdu (take (unat (dwLength msg)) (drop 10 msg)) (n - 10) c of
          ((len, b), d) \<Rightarrow> c' = d \<and>
            (if len < 0 then drop 10 resp = [] \<and> resp ! 7 = 0x40 \<and> resp ! 8 = 0xFB
             else drop 10 resp = b \<and> resp ! 7 = 0 \<and> resp ! 8 = 0))
     else c' = c \<and> drop 10 resp = [] \<and> resp ! 7 = 0x40 \<and> resp ! 8 = 0xFC)"
  using assms unfolding ccid_process_message_def
  by (auto simp: ccid_process_def Let_def ccid_build_header_def split: prod.splits)

theorem ccid_xfr_block_witness:
  "case ccid_process_message [0x6F, 5, 0, 0, 0, 0, 9, 0, 0, 0, 0, 0xCA, 0, 0, 0] 2058
      \<lparr>cc_initialized = True, cc_slot = 0, cc_seq = 0\<rparr> two_applets of ((k, resp), st', c') \<Rightarrow>
    drop 10 resp = [0x90, 0] \<and> s_world c' = 8"
proof -
  have len: "unat (dwLength [0x6F, 5, 0, 0, 0, 0, 9, 0, 0, 0, 0, 0xCA, 0, 0, 0]) = 5"
    by (simp add: dwLength_def be32_def)
  have "scard_dispatch_apdu [0, 0xCA, 0, 0, 0] 2048 two_applets =
      ((2, [0x90, 0]), two_applets\<lparr>s_world := 8\<rparr>)"
    by (simp add: scard_dispatch_apdu_def apdu_parse_def two_applets_def echo_applet_def
        process_def apdu_sw_def byte_at_def)
  with len show ?thesis
    using ccid_xfr_block [of 2058 "[0x6F, 5, 0, 0, 0, 0, 9, 0, 0, 0, 0, 0xCA, 0, 0, 0]" two_applets
        "\<lparr>cc_initialized = True, cc_slot = 0, cc_seq = 0\<rparr>"]
    by (auto split: prod.splits)
qed

text \<open>
  Powering the card on or off ends the session: no applet is selected afterwards, the deselect
  handler of the selected one has run, and a power-on answers with the ATR, whose check byte makes
  the exclusive or of all bytes after the first zero and which announces as many historical bytes as
  it has.
\<close>

theorem ccid_power_cycle:
  assumes "10 \<le> n" and "10 \<le> length msg" and "msg ! 0 = 0x62 \<or> msg ! 0 = 0x63"
  shows "case ccid_process_message msg n st c of ((k, resp), st', c') \<Rightarrow>
    s_current c' = - 1 \<and> s_applets c' = s_applets c \<and>
    s_world c' = (if s_current c < 0 then s_world c else s_world (deselect (s_current c) c)) \<and>
    drop 10 resp = (if msg ! 0 = 0x62 then ATR else []) \<and>
    foldr (XOR) (tl ATR) 0 = 0 \<and> unat (ATR ! 1 AND 0x0F) = length (drop 10 ATR) - 1"
proof -
  have atr: "foldr (XOR) (tl ATR) 0 = 0 \<and> unat (ATR ! 1 AND 0x0F) = length (drop 10 ATR) - 1"
    by (simp add: ATR_def)
  show ?thesis
    using assms(3)
  proof (elim disjE)
    assume "msg ! 0 = 0x62"
    with assms(1,2) atr show ?thesis
      by (simp add: ccid_process_message_def ccid_process_def Let_def ccid_get_atr_def scard_reset_def)
  next
    assume "msg ! 0 = 0x63"
    with assms(1,2) atr show ?thesis
      by (simp add: ccid_process_message_def ccid_process_def Let_def scard_reset_def)
  qed
qed

theorem ccid_power_cycle_witness:
  "s_current (snd (snd (ccid_process_message [0x62, 0, 0, 0, 0, 0, 9, 0, 0, 0] 2058
      \<lparr>cc_initialized = True, cc_slot = 0, cc_seq = 0\<rparr> two_applets))) = - 1"
  using ccid_power_cycle [of 2058 "[0x62, 0, 0, 0, 0, 0, 9, 0, 0, 0]" two_applets
      "\<lparr>cc_initialized = True, cc_slot = 0, cc_seq = 0\<rparr>"]
  by (auto split: prod.splits)

text \<open>
  The driver answers a complete message exactly once and is ready for the next one after every
  successful transfer: the receive is submitted again in every case, and at most one response goes
  out before it, over the IN endpoint and within the transmit buffer. The transport only sees bytes
  that were received.
\<close>

theorem ccid_driver_rx_once:
  assumes "scard_good W m (dr_card d)" and "m \<le> 2048" and "length rx_buf = 2058" and "unat xferred \<le> 2058"
  shows "case ccid_driver_xfer_cb edpt_xfer (dr_ep_out d) True rx_buf xferred d of (out, d') \<Rightarrow>
    scard_good W m (dr_card d') \<and> dr_ep_out d' = dr_ep_out d \<and>
    dr_rx_pending d' = edpt_xfer (Receive (dr_ep_out d) 2058) \<and>
    (if 10 \<le> unat xferred \<and> 10 + unat (dwLength rx_buf) \<le> unat xferred
     then \<exists>resp. out = [Send (dr_ep_in d) resp, Receive (dr_ep_out d) 2058] \<and>
       framed rx_buf 2058 (int (length resp), resp)
     else out = [Receive (dr_ep_out d) 2058] \<and> dr_card d' = dr_card d)"
proof -
  have len: "unat (ucast xferred :: u16) = unat xferred" using assms(4)
    by (simp add: unsigned_ucast_eq take_bit_nat_eq_self)
  let ?d = "d\<lparr>dr_rx_count := dr_rx_count d + 1, dr_rx_len := ucast xferred, dr_rx_pending := False\<rparr>"
  let ?total = "10 + unat (dwLength rx_buf)"
  show ?thesis
  proof (cases "10 \<le> unat xferred \<and> ?total \<le> unat xferred")
    case True
    let ?msg = "take ?total rx_buf"
    obtain k resp st c where r: "ccid_process_message ?msg 2058 (dr_ccid d) (dr_card d) = ((k, resp), st, c)"
      by (cases "ccid_process_message ?msg 2058 (dr_ccid d) (dr_card d)") auto
    have "framed ?msg 2058 (k, resp)" and good: "scard_good W m c"
      using ccid_framed_good [of W m "dr_card d" 2058 ?msg "dr_ccid d"] assms True r by auto
    then have k: "k = int (length resp)" "10 \<le> length resp" "length resp \<le> 2058"
      "framed rx_buf 2058 (int (length resp), resp)" by (auto simp: framed_def)
    then have "0 < k" by linarith
    have "\<not> 2048 < unat (dwLength rx_buf)" using True assms(4) by linarith
    then have "ccid_driver_rx edpt_xfer rx_buf xferred ?d =
      (let e = ?d\<lparr>dr_ccid := st, dr_card := c, dr_tx_count := dr_tx_count d + 1\<rparr>;
           tx = Send (dr_ep_in d) resp in ([tx], if edpt_xfer tx then e else count_error e))"
      using True r k \<open>0 < k\<close> len by (simp add: ccid_driver_rx_def Let_def)
    with True k good show ?thesis
      by (auto simp: ccid_driver_xfer_cb_def Let_def count_error_def)
  next
    case False
    then have "fst (ccid_driver_rx edpt_xfer rx_buf xferred ?d) = [] \<and>
        (snd (ccid_driver_rx edpt_xfer rx_buf xferred ?d) = ?d \<or>
         snd (ccid_driver_rx edpt_xfer rx_buf xferred ?d) = count_error ?d)"
      using len by (auto simp: ccid_driver_rx_def Let_def)
    with False assms(1) show ?thesis
      by (auto simp: ccid_driver_xfer_cb_def Let_def count_error_def split: prod.splits)
  qed
qed


theorem ccid_driver_rx_once_witness:
  "\<exists>resp. fst (ccid_driver_xfer_cb (\<lambda>x. True) 2 True
      ([0x65, 0, 0, 0, 0, 0, 9, 0, 0, 0] @ replicate 2048 0) 10 some_driver) =
    [Send 0x82 resp, Receive 2 2058]"
proof -
  let ?buf = "[0x65, 0, 0, 0, 0, 0, 9, 0, 0, 0] @ replicate 2048 0"
  have "unat (dwLength ?buf) = 0" by (simp add: dwLength_def be32_def)
  then show ?thesis
    using ccid_driver_rx_once [of "\<lambda>w. True" 2 some_driver ?buf 10 "\<lambda>x. True"] two_applets_good
    by (auto simp: some_driver_def split: prod.splits simp del: append_Cons)
qed

text \<open>
  C40. On the interface descriptor the badge enumerates, opening terminates, claims exactly its 77
  bytes, finds both endpoints and submits the first receive.
\<close>

theorem ccid_driver_open_own_descriptor:
  assumes "epout \<noteq> 0" and "\<not> bit epout 7" and "bit epin 7" and "\<And>e. edpt_open e"
    and "77 \<le> max_len"
  shows "\<exists>d'. ccid_driver_open edpt_open edpt_xfer rhport
      (TUD_CCID_DESCRIPTOR itf str epout epin sz @ others) max_len d =
        Some (77, [Receive epout 2058], d') \<and>
    dr_ep_in d' = epin \<and> dr_ep_out d' = epout \<and> dr_itf_num d' = itf \<and> dr_initialized d' \<and>
    dr_rx_pending d' = edpt_xfer (Receive epout 2058) \<and> dr_card d' = dr_card d"
proof -
  let ?desc = "TUD_CCID_DESCRIPTOR itf str epout epin sz @ others"
  have le: "k < max_len" if "k < 77" for k using that assms(5) by (rule less_le_trans)
  have "skip_functional ?desc max_len 63 63 = Some (63, 63)"
    by (subst skip_functional.simps) (simp add: le TUD_CCID_DESCRIPTOR_def)
  then have 1: "skip_functional ?desc max_len 9 9 = Some (63, 63)"
    by (subst skip_functional.simps) (simp add: le TUD_CCID_DESCRIPTOR_def)
  have 2: "open_endpoints edpt_open ?desc max_len 63 63 0 eps = Some (77, epin, epout)" for eps
  proof -
    have "open_endpoints edpt_open ?desc max_len 77 77 2 (epin, epout) = Some (77, epin, epout)"
      by (subst open_endpoints.simps) (simp add: TUD_CCID_DESCRIPTOR_def)
    then have "open_endpoints edpt_open ?desc max_len 70 70 1 (fst eps, epout) = Some (77, epin, epout)"
      using assms(3,4) by (subst open_endpoints.simps) (simp add: le TUD_CCID_DESCRIPTOR_def)
    then show ?thesis
      using assms(2,4) by (subst open_endpoints.simps) (simp add: le TUD_CCID_DESCRIPTOR_def)
  qed
  have 3: "?desc ! 5 = 0x0B" "?desc ! 2 = itf" by (simp_all add: TUD_CCID_DESCRIPTOR_def)
  show ?thesis using assms(1) by (simp add: ccid_driver_open_def 1 2 3 Let_def)
qed

theorem ccid_driver_open_own_descriptor_witness:
  "\<exists>d'. ccid_driver_open (\<lambda>e. True) (\<lambda>x. True) 0 (TUD_CCID_DESCRIPTOR 2 5 3 0x83 64 @ []) 77
      some_driver = Some (77, [Receive 3 2058], d')"
  using ccid_driver_open_own_descriptor [of 3 "0x83" "\<lambda>e. True" 77 "\<lambda>x. True" 0 2 5 64 "[]" some_driver]
  by (auto simp: bit_numeral_rec)

end
