(* ===== verification/Usb_Slot.thy ===== *)
theory Usb_Slot
  imports Prelude
begin

text \<open>
  The contract of one slot of the USB interface manager, as a single owner of the slot uses it: a
  claim either gets the slot or changes nothing, giving it up frees it, and what the other clients of
  the manager do (\<open>other\<close>) does not touch it.
\<close>

locale usb_slot =
  fixes good :: "'u \<Rightarrow> bool"
    and held :: "'u \<Rightarrow> bool"
    and claim :: "'u \<Rightarrow> bool \<times> 'u"
    and give_up :: "'u \<Rightarrow> 'u"
    and other :: "'u \<Rightarrow> 'u \<Rightarrow> bool"
  assumes claim_good: "good u \<Longrightarrow> good (snd (claim u))"
    and claim_held: "good u \<Longrightarrow> claim u = (True, v) \<Longrightarrow> held v"
    and claim_fail: "good u \<Longrightarrow> claim u = (False, v) \<Longrightarrow> v = u"
    and give_up_good: "good u \<Longrightarrow> good (give_up u)"
    and give_up_free: "good u \<Longrightarrow> \<not> held (give_up u)"
    and other_good: "good u \<Longrightarrow> other u v \<Longrightarrow> good v"
    and other_held: "good u \<Longrightarrow> other u v \<Longrightarrow> held v = held u"

end
