(* ===== verification/Usb_Manager.thy ===== *)
theory Usb_Manager
  imports Prelude
begin

text \<open>
  The USB interface manager (\<^verbatim>\<open>components/cdc_core/src/UsbManager.cpp\<close>) with the endpoint budget of
  the ESP32-S3 (\<^verbatim>\<open>usb_endpoint_budget.h\<close>): which interfaces are in the composite descriptor, who
  owns them, and that they never need more endpoints than the controller has.

  The TinyUSB side (\<^verbatim>\<open>usb_hid_apply_config\<close>, \<^verbatim>\<open>usb_hid_set_cdc\<close>, \<^verbatim>\<open>usb_hid_set_msc\<close>) is reached by
  calls, which the model records in order; what the first one answers is a parameter. Of an
  interface specification the manager itself reads the class and whether there is an OUT endpoint;
  the fields it only passes on are those of \<^typ>\<open>'f\<close>.
\<close>

section \<open>Endpoint budget\<close>

abbreviation (input) "USB_EP_BUDGET_MAX_IN \<equiv> (4 :: byte)"
abbreviation (input) "USB_EP_BUDGET_MAX_OUT \<equiv> (6 :: byte)"
abbreviation (input) "USB_EP_BUDGET_CDC_IN \<equiv> (2 :: byte)"
abbreviation (input) "USB_EP_BUDGET_CDC_OUT \<equiv> (1 :: byte)"
abbreviation (input) "USB_EP_BUDGET_MSC_IN \<equiv> (1 :: byte)"
abbreviation (input) "USB_EP_BUDGET_MSC_OUT \<equiv> (1 :: byte)"

record usb_ep_usage =
  in_eps :: byte
  out_eps :: byte

definition usb_ep_budget_fits :: "usb_ep_usage \<Rightarrow> usb_ep_usage \<Rightarrow> bool" where
  "usb_ep_budget_fits used add \<longleftrightarrow>
     in_eps used + in_eps add \<le> USB_EP_BUDGET_MAX_IN \<and>
     out_eps used + out_eps add \<le> USB_EP_BUDGET_MAX_OUT"

section \<open>State\<close>

datatype usb_class = Hid_Class | Ccid_Class

record 'f usb_spec =
  us_cls :: usb_class
  us_has_out :: bool
  us_rest :: 'f

record 'f usb_entry =
  ue_active :: bool
  ue_suspended :: bool
  ue_owner :: "string option"
  ue_def :: "'f usb_spec"

datatype service_state = Stopped | Initialized | Started

datatype 'f usb_call = Apply_Config "'f usb_spec list" | Set_Cdc bool | Set_Msc bool

record 'f usb_manager =
  um_state :: service_state
  um_active_mask :: byte
  um_needs_replug :: bool
  um_cdc :: bool
  um_msc :: bool
  um_msc_owner :: "string option"
  um_entries :: "'f usb_entry list"
  um_calls :: "'f usb_call list"

text \<open>An interface slot is its number: \<^verbatim>\<open>Fido\<close> 0, \<^verbatim>\<open>Keyboard\<close> 1, \<^verbatim>\<open>Ccid\<close> 2.\<close>

abbreviation (input) "If_Fido \<equiv> (0 :: nat)"
abbreviation (input) "If_Keyboard \<equiv> (1 :: nat)"
abbreviation (input) "If_Ccid \<equiv> (2 :: nat)"
abbreviation (input) "MAX_ACTIVE_HID \<equiv> (2 :: nat)"

text \<open>The specification of an empty slot is the default one, whose stored part is a parameter.\<close>

definition empty_spec :: "'f \<Rightarrow> 'f usb_spec" where
  "empty_spec z = \<lparr>us_cls = Hid_Class, us_has_out = False, us_rest = z\<rparr>"

definition empty_entry :: "'f \<Rightarrow> 'f usb_entry" where
  "empty_entry z = \<lparr>ue_active = False, ue_suspended = False, ue_owner = None, ue_def = empty_spec z\<rparr>"

definition usb_boot :: "'f \<Rightarrow> 'f usb_manager" where
  "usb_boot z = \<lparr>um_state = Stopped, um_active_mask = 0, um_needs_replug = False, um_cdc = True,
     um_msc = False, um_msc_owner = None, um_entries = replicate 3 (empty_entry z), um_calls = []\<rparr>"

section \<open>Operations\<close>

definition usb_init :: "'f usb_manager \<Rightarrow> bool \<times> 'f usb_manager" where
  "usb_init m = (True, m\<lparr>um_state := Initialized\<rparr>)"

definition usb_start :: "'f usb_manager \<Rightarrow> bool \<times> 'f usb_manager" where
  "usb_start m = (True, m\<lparr>um_state := Started\<rparr>)"

definition usb_stop :: "'f usb_manager \<Rightarrow> 'f usb_manager" where
  "usb_stop m = m\<lparr>um_state := Stopped\<rparr>"

abbreviation present :: "'f usb_entry \<Rightarrow> bool" where
  "present e \<equiv> ue_active e \<and> \<not> ue_suspended e"

definition activeHidCount :: "'f usb_manager \<Rightarrow> nat" where
  "activeHidCount m = length (filter present (um_entries m))"

definition canActivate :: "'f usb_manager \<Rightarrow> bool" where
  "canActivate m \<longleftrightarrow> activeHidCount m < MAX_ACTIVE_HID"

definition interfaceEndpoints :: "'f usb_spec \<Rightarrow> usb_ep_usage" where
  "interfaceEndpoints def =
     (if us_cls def = Ccid_Class then \<lparr>in_eps = 1, out_eps = 1\<rparr>
      else \<lparr>in_eps = 1, out_eps = if us_has_out def then 1 else 0\<rparr>)"

definition endpointsInUse :: "'f usb_manager \<Rightarrow> usb_ep_usage" where
  "endpointsInUse m =
     (let used = (if um_cdc m then \<lparr>in_eps = USB_EP_BUDGET_CDC_IN, out_eps = USB_EP_BUDGET_CDC_OUT\<rparr>
                  else \<lparr>in_eps = 0, out_eps = 0\<rparr>);
          used = foldl (\<lambda>used entry.
              if \<not> ue_active entry \<or> ue_suspended entry then used
              else let u = interfaceEndpoints (ue_def entry) in
                \<lparr>in_eps = in_eps used + in_eps u, out_eps = out_eps used + out_eps u\<rparr>)
            used (um_entries m)
      in if um_msc m then
           \<lparr>in_eps = in_eps used + USB_EP_BUDGET_MSC_IN, out_eps = out_eps used + USB_EP_BUDGET_MSC_OUT\<rparr>
         else used)"

text \<open>\<open>cfg\<close> answers \<^verbatim>\<open>usb_hid_apply_config\<close>: its result and whether a replug is needed.\<close>

definition applyConfiguration ::
    "('f usb_spec list \<Rightarrow> bool \<times> bool) \<Rightarrow> 'f usb_manager \<Rightarrow> bool \<times> 'f usb_manager" where
  "applyConfiguration cfg m =
     (let defs = map ue_def (filter present
            [um_entries m ! If_Fido, um_entries m ! If_Keyboard, um_entries m ! If_Ccid]);
          (ok, replug_needed) = cfg defs
      in (ok, m\<lparr>um_needs_replug := \<not> ok \<or> replug_needed, um_calls := um_calls m @ [Apply_Config defs]\<rparr>))"

definition set_entry :: "nat \<Rightarrow> 'f usb_entry \<Rightarrow> 'f usb_manager \<Rightarrow> 'f usb_manager" where
  "set_entry idx e m = m\<lparr>um_entries := (um_entries m)[idx := e]\<rparr>"

definition registerInterface ::
    "('f usb_spec list \<Rightarrow> bool \<times> bool) \<Rightarrow> nat \<Rightarrow> string option \<Rightarrow> 'f usb_spec \<Rightarrow>
     'f usb_manager \<Rightarrow> bool \<times> 'f usb_manager" where
  "registerInterface cfg idx moduleName def m =
     (if idx \<ge> length (um_entries m) then (False, m)
      else
        let entry = um_entries m ! idx in
        if ue_active entry then
          (ue_owner entry \<noteq> None \<and> moduleName \<noteq> None \<and> ue_owner entry = moduleName, m)
        else if \<not> canActivate m then (False, m)
        else if \<not> usb_ep_budget_fits (endpointsInUse m) (interfaceEndpoints def) then (False, m)
        else
          let m = set_entry idx (entry\<lparr>ue_active := True, ue_owner := moduleName, ue_def := def\<rparr>) m;
              m = m\<lparr>um_active_mask := um_active_mask m OR push_bit idx 1\<rparr>
          in (True, snd (applyConfiguration cfg m)))"

definition unregisterInterface ::
    "('f usb_spec list \<Rightarrow> bool \<times> bool) \<Rightarrow> 'f \<Rightarrow> nat \<Rightarrow> string option \<Rightarrow> bool \<Rightarrow>
     'f usb_manager \<Rightarrow> 'f usb_manager" where
  "unregisterInterface cfg z idx moduleName apply m =
     (if idx \<ge> length (um_entries m) then m
      else
        let entry = um_entries m ! idx in
        if \<not> ue_active entry then m
        else if ue_owner entry \<noteq> None \<and> moduleName \<noteq> None \<and> ue_owner entry \<noteq> moduleName then m
        else
          let m = set_entry idx (empty_entry z) m;
              m = m\<lparr>um_active_mask := um_active_mask m AND NOT (push_bit idx 1)\<rparr>
          in if apply then snd (applyConfiguration cfg m) else m)"

definition suspendInterface ::
    "('f usb_spec list \<Rightarrow> bool \<times> bool) \<Rightarrow> nat \<Rightarrow> bool \<Rightarrow> 'f usb_manager \<Rightarrow> bool \<times> 'f usb_manager" where
  "suspendInterface cfg idx apply m =
     (if idx \<ge> length (um_entries m) then (False, m)
      else
        let entry = um_entries m ! idx in
        if \<not> ue_active entry \<or> ue_suspended entry then (False, m)
        else
          let m = set_entry idx (entry\<lparr>ue_suspended := True\<rparr>) m;
              m = m\<lparr>um_active_mask := um_active_mask m AND NOT (push_bit idx 1)\<rparr>
          in (True, if apply then snd (applyConfiguration cfg m) else m))"

definition resumeInterface ::
    "('f usb_spec list \<Rightarrow> bool \<times> bool) \<Rightarrow> nat \<Rightarrow> bool \<Rightarrow> 'f usb_manager \<Rightarrow> bool \<times> 'f usb_manager" where
  "resumeInterface cfg idx apply m =
     (if idx \<ge> length (um_entries m) then (False, m)
      else
        let entry = um_entries m ! idx in
        if \<not> ue_active entry \<or> \<not> ue_suspended entry then (False, m)
        else if \<not> usb_ep_budget_fits (endpointsInUse m) (interfaceEndpoints (ue_def entry))
        then (False, m)
        else
          let m = set_entry idx (entry\<lparr>ue_suspended := False\<rparr>) m;
              m = m\<lparr>um_active_mask := um_active_mask m OR push_bit idx 1\<rparr>
          in (True, if apply then snd (applyConfiguration cfg m) else m))"

definition setCdcEnabled :: "bool \<Rightarrow> 'f usb_manager \<Rightarrow> bool \<times> 'f usb_manager" where
  "setCdcEnabled on m =
     (if um_cdc m = on then (True, m)
      else if on \<and> \<not> usb_ep_budget_fits (endpointsInUse m)
          \<lparr>in_eps = USB_EP_BUDGET_CDC_IN, out_eps = USB_EP_BUDGET_CDC_OUT\<rparr>
      then (False, m)
      else (True, m\<lparr>um_cdc := on, um_calls := um_calls m @ [Set_Cdc on]\<rparr>))"

definition isInterfaceSuspended :: "nat \<Rightarrow> 'f usb_manager \<Rightarrow> bool" where
  "isInterfaceSuspended idx m \<longleftrightarrow>
     idx < length (um_entries m) \<and> ue_active (um_entries m ! idx) \<and> ue_suspended (um_entries m ! idx)"

definition registerMassStorage :: "string option \<Rightarrow> 'f usb_manager \<Rightarrow> bool \<times> 'f usb_manager" where
  "registerMassStorage owner m =
     (if um_msc m then
        (um_msc_owner m \<noteq> None \<and> owner \<noteq> None \<and> um_msc_owner m = owner, m)
      else if \<not> usb_ep_budget_fits (endpointsInUse m)
          \<lparr>in_eps = USB_EP_BUDGET_MSC_IN, out_eps = USB_EP_BUDGET_MSC_OUT\<rparr>
      then (False, m)
      else (True, m\<lparr>um_msc := True, um_msc_owner := owner, um_calls := um_calls m @ [Set_Msc True]\<rparr>))"

definition unregisterMassStorage :: "string option \<Rightarrow> 'f usb_manager \<Rightarrow> 'f usb_manager" where
  "unregisterMassStorage owner m =
     (if \<not> um_msc m then m
      else if um_msc_owner m \<noteq> None \<and> owner \<noteq> None \<and> um_msc_owner m \<noteq> owner then m
      else m\<lparr>um_msc := False, um_msc_owner := None, um_calls := um_calls m @ [Set_Msc False]\<rparr>)"

section \<open>Counting endpoints\<close>

text \<open>The endpoints in use as numbers: CDC, the interfaces present, MSC.\<close>

definition out_of :: "'f usb_entry \<Rightarrow> nat" where
  "out_of e = (if present e \<and> (us_cls (ue_def e) = Ccid_Class \<or> us_has_out (ue_def e)) then 1 else 0)"

definition ep_in :: "'f usb_manager \<Rightarrow> nat" where
  "ep_in m = (if um_cdc m then 2 else 0) + (\<Sum>e\<leftarrow>um_entries m. of_bool (present e)) +
     (if um_msc m then 1 else 0)"

definition ep_out :: "'f usb_manager \<Rightarrow> nat" where
  "ep_out m = (if um_cdc m then 1 else 0) + (\<Sum>e\<leftarrow>um_entries m. out_of e) + (if um_msc m then 1 else 0)"

lemma activeHidCount_sum: "activeHidCount m = (\<Sum>e\<leftarrow>um_entries m. of_bool (present e))"
proof -
  have "length (filter P xs) = (\<Sum>x\<leftarrow>xs. of_bool (P x))" for P and xs :: "'a usb_entry list"
    by (induction xs) auto
  then show ?thesis by (simp add: activeHidCount_def)
qed

lemma sum_list_set:
  "i < length xs \<Longrightarrow> (\<Sum>x\<leftarrow>xs[i := y]. f x) + f (xs ! i) = (\<Sum>x\<leftarrow>xs. f x) + (f y :: nat)"
  by (induction xs arbitrary: i) (auto split: nat.splits)

lemma unat_add_small: "unat u + unat v < 256 \<Longrightarrow> unat (u + v :: byte) = unat u + unat v"
  by (simp add: unat_word_ariths)

lemma interfaceEndpoints_unat:
  "unat (in_eps (interfaceEndpoints d)) = 1"
  "unat (out_eps (interfaceEndpoints d)) = (if us_cls d = Ccid_Class \<or> us_has_out d then 1 else 0)"
  by (simp_all add: interfaceEndpoints_def)

text \<open>The sum over the entries does not wrap: there are at most three.\<close>

lemma endpoints_fold:
  fixes es :: "'f usb_entry list"
  defines "step \<equiv> \<lambda>used entry. if \<not> ue_active entry \<or> ue_suspended entry then used
      else let u = interfaceEndpoints (ue_def entry) in
        \<lparr>in_eps = in_eps used + in_eps u, out_eps = out_eps used + out_eps u\<rparr>"
  assumes "unat (in_eps u) + length es < 256" and "unat (out_eps u) + length es < 256"
  shows "unat (in_eps (foldl step u es)) = unat (in_eps u) + (\<Sum>e\<leftarrow>es. of_bool (present e)) \<and>
    unat (out_eps (foldl step u es)) = unat (out_eps u) + (\<Sum>e\<leftarrow>es. out_of e)"
  using assms(2,3)
proof (induction es arbitrary: u)
  case (Cons e es)
  let ?u = "step u e"
  have "unat (in_eps ?u) = unat (in_eps u) + of_bool (present e)"
    and "unat (out_eps ?u) = unat (out_eps u) + out_of e"
    using Cons.prems by (auto simp: step_def Let_def unat_add_small interfaceEndpoints_unat out_of_def)
  moreover have "out_of e \<le> 1" by (simp add: out_of_def)
  ultimately show ?case using Cons.IH [of ?u] Cons.prems by auto
qed simp

lemma sum_le_length:
  "(\<Sum>e\<leftarrow>es. of_bool (present e)) \<le> length es"
  "(\<Sum>e\<leftarrow>es. out_of e) \<le> length es"
  by (induction es) (auto simp: out_of_def)

lemma endpoints_nat:
  assumes "length (um_entries m) = 3"
  shows "unat (in_eps (endpointsInUse m)) = ep_in m \<and> unat (out_eps (endpointsInUse m)) = ep_out m"
proof -
  from assms sum_le_length [of "um_entries m"] endpoints_fold [of "\<lparr>in_eps = 2, out_eps = 1\<rparr>" "um_entries m"]
    endpoints_fold [of "\<lparr>in_eps = 0, out_eps = 0\<rparr>" "um_entries m"]
  show ?thesis
    by (auto simp: endpointsInUse_def Let_def ep_in_def ep_out_def unat_add_small)
qed

section \<open>The invariant\<close>

text \<open>
  The descriptor fits the controller; the mask has a bit for exactly the interfaces in the
  descriptor; only registered interfaces are suspended.
\<close>

definition usb_ok :: "'f usb_manager \<Rightarrow> bool" where
  "usb_ok m \<longleftrightarrow> length (um_entries m) = 3 \<and> ep_in m \<le> 4 \<and> ep_out m \<le> 6 \<and>
     (\<forall>i < 8. bit (um_active_mask m) i \<longleftrightarrow> i < 3 \<and> present (um_entries m ! i)) \<and>
     (\<forall>e \<in> set (um_entries m). ue_suspended e \<longrightarrow> ue_active e)"

lemma fits_nat:
  "length (um_entries m) = 3 \<Longrightarrow> unat (in_eps u) < 128 \<Longrightarrow> unat (out_eps u) < 128 \<Longrightarrow>
    ep_in m < 128 \<Longrightarrow> ep_out m < 128 \<Longrightarrow>
    usb_ep_budget_fits (endpointsInUse m) u \<longleftrightarrow>
      ep_in m + unat (in_eps u) \<le> 4 \<and> ep_out m + unat (out_eps u) \<le> 6"
  using endpoints_nat [of m]
  by (simp add: usb_ep_budget_fits_def word_le_nat_alt unat_add_small)

lemma apply_frame [simp]:
  "um_entries (snd (applyConfiguration cfg m)) = um_entries m"
  "um_cdc (snd (applyConfiguration cfg m)) = um_cdc m"
  "um_msc (snd (applyConfiguration cfg m)) = um_msc m"
  "um_msc_owner (snd (applyConfiguration cfg m)) = um_msc_owner m"
  "um_active_mask (snd (applyConfiguration cfg m)) = um_active_mask m"
  by (simp_all add: applyConfiguration_def Let_def split: prod.splits)

lemma set_entry_frame [simp]:
  "um_cdc (set_entry i e m) = um_cdc m" "um_msc (set_entry i e m) = um_msc m"
  "um_msc_owner (set_entry i e m) = um_msc_owner m"
  "um_active_mask (set_entry i e m) = um_active_mask m"
  "um_entries (set_entry i e m) = (um_entries m)[i := e]"
  "um_calls (set_entry i e m) = um_calls m"
  by (simp_all add: set_entry_def)

lemma usb_ok_apply [simp]: "usb_ok (snd (applyConfiguration cfg m)) = usb_ok m"
  by (simp add: usb_ok_def ep_in_def ep_out_def)

text \<open>An entry that enters the descriptor has to fit; one that leaves it always does.\<close>

lemma usb_ok_set:
  assumes ok: "usb_ok m" and i: "i < 3" and sus: "ue_suspended e \<longrightarrow> ue_active e"
    and fit: "present e \<Longrightarrow> \<not> present (um_entries m ! i) \<and>
      ep_in m + 1 \<le> 4 \<and> ep_out m + out_of e \<le> 6"
    and mask: "\<And>n. bit msk n \<longleftrightarrow> (if n = i then present e else bit (um_active_mask m) n)"
  shows "usb_ok ((set_entry i e m)\<lparr>um_active_mask := msk\<rparr>)"
proof -
  have len: "length (um_entries m) = 3" using ok by (simp add: usb_ok_def)
  let ?m = "(set_entry i e m)\<lparr>um_active_mask := msk\<rparr>"
  have sums: "ep_in ?m + of_bool (present (um_entries m ! i)) = ep_in m + of_bool (present e)"
    "ep_out ?m + out_of (um_entries m ! i) = ep_out m + out_of e"
    using sum_list_set [of i "um_entries m" "\<lambda>e. of_bool (present e)" e]
      sum_list_set [of i "um_entries m" out_of e] i len
    by (simp_all add: ep_in_def ep_out_def)
  have "ep_in m \<le> 4" "ep_out m \<le> 6" using ok by (simp_all add: usb_ok_def)
  with sums have "ep_in ?m \<le> 4 \<and> ep_out ?m \<le> 6"
  proof (cases "present e")
    case True
    then have "(of_bool (present e) :: nat) = 1" by simp
    with sums fit [OF True] show ?thesis by linarith
  next
    case False
    then have "(of_bool (present e) :: nat) = 0" "out_of e = 0" by (auto simp: out_of_def)
    with sums \<open>ep_in m \<le> 4\<close> \<open>ep_out m \<le> 6\<close> show ?thesis by linarith
  qed
  moreover have "\<forall>e \<in> set (um_entries ?m). ue_suspended e \<longrightarrow> ue_active e"
    using ok sus set_update_subset_insert [of "um_entries m" i e] by (auto simp: usb_ok_def)
  moreover have "\<forall>n < 8. bit msk n \<longleftrightarrow> n < 3 \<and> present (um_entries ?m ! n)"
    using ok i len mask by (auto simp: usb_ok_def nth_list_update)
  ultimately show ?thesis using len by (simp add: usb_ok_def)
qed

lemma mask_set: "i < 3 \<Longrightarrow> bit (msk OR push_bit i 1 :: byte) n \<longleftrightarrow> (if n = i then True else bit msk n)"
  by (auto simp: bit_simps)

lemma mask_clear:
  "i < 3 \<Longrightarrow> bit (msk AND NOT (push_bit i 1) :: byte) n \<longleftrightarrow> (if n = i then False else bit msk n)"
  by (auto simp: bit_simps dest: bit_imp_le_length)

section \<open>Every operation keeps it\<close>

lemma usb_ok_entry:
  "usb_ok m \<Longrightarrow> i < length (um_entries m) \<Longrightarrow>
    i < 3 \<and> (ue_suspended (um_entries m ! i) \<longrightarrow> ue_active (um_entries m ! i))"
  by (auto simp: usb_ok_def)

lemma usb_ok_fits:
  "usb_ok m \<Longrightarrow> usb_ep_budget_fits (endpointsInUse m) (interfaceEndpoints d) \<Longrightarrow>
    ep_in m + 1 \<le> 4 \<and> ep_out m + (if us_cls d = Ccid_Class \<or> us_has_out d then 1 else 0) \<le> 6"
  using fits_nat [of m "interfaceEndpoints d"]
  by (auto simp: usb_ok_def interfaceEndpoints_unat split: if_splits)

lemma usb_ok_register:
  assumes "usb_ok m"
  shows "usb_ok (snd (registerInterface cfg i owner d m))"
proof (cases "registerInterface cfg i owner d m = (True, m) \<or> registerInterface cfg i owner d m = (False, m)")
  case False
  let ?e = "(um_entries m ! i)\<lparr>ue_active := True, ue_owner := owner, ue_def := d\<rparr>"
  from False have i: "i < length (um_entries m)" "\<not> ue_active (um_entries m ! i)"
      and fits: "usb_ep_budget_fits (endpointsInUse m) (interfaceEndpoints d)"
      and r: "snd (registerInterface cfg i owner d m) = snd (applyConfiguration cfg
        ((set_entry i ?e m)\<lparr>um_active_mask := um_active_mask m OR push_bit i 1\<rparr>))"
    by (auto simp: registerInterface_def Let_def split: if_splits)
  have "i < 3" and sus: "\<not> ue_suspended (um_entries m ! i)"
    using usb_ok_entry [OF assms i(1)] i(2) by auto
  have "usb_ok ((set_entry i ?e m)\<lparr>um_active_mask := um_active_mask m OR push_bit i 1\<rparr>)"
    using usb_ok_fits [OF assms fits] sus i(2)
    by (intro usb_ok_set [OF assms \<open>i < 3\<close>]) (auto simp: out_of_def mask_set [simplified, OF \<open>i < 3\<close>])
  then show ?thesis by (simp add: r)
qed (use assms in auto)

lemma usb_ok_unregister:
  assumes "usb_ok m"
  shows "usb_ok (unregisterInterface cfg z i owner app m)"
proof (cases "unregisterInterface cfg z i owner app m = m")
  case False
  let ?m = "(set_entry i (empty_entry z) m)\<lparr>um_active_mask := um_active_mask m AND NOT (push_bit i 1)\<rparr>"
  from False have i: "i < length (um_entries m)"
      and r: "unregisterInterface cfg z i owner app m = (if app then snd (applyConfiguration cfg ?m) else ?m)"
    by (auto simp: unregisterInterface_def Let_def split: if_splits)
  have "i < 3" using usb_ok_entry [OF assms i(1)] by auto
  have "usb_ok ?m"
    by (intro usb_ok_set [OF assms \<open>i < 3\<close>]) (auto simp: empty_entry_def mask_clear [simplified, OF \<open>i < 3\<close>])
  then show ?thesis by (simp add: r)
qed (use assms in auto)

lemma usb_ok_suspend:
  assumes "usb_ok m"
  shows "usb_ok (snd (suspendInterface cfg i app m))"
proof (cases "suspendInterface cfg i app m = (False, m)")
  case False
  let ?e = "(um_entries m ! i)\<lparr>ue_suspended := True\<rparr>"
  let ?m = "(set_entry i ?e m)\<lparr>um_active_mask := um_active_mask m AND NOT (push_bit i 1)\<rparr>"
  from False have i: "i < length (um_entries m)" "ue_active (um_entries m ! i)"
      and r: "snd (suspendInterface cfg i app m) = (if app then snd (applyConfiguration cfg ?m) else ?m)"
    by (auto simp: suspendInterface_def Let_def split: if_splits)
  have "i < 3" using usb_ok_entry [OF assms i(1)] by auto
  have "usb_ok ?m"
    using i(2) by (intro usb_ok_set [OF assms \<open>i < 3\<close>]) (auto simp: mask_clear [simplified, OF \<open>i < 3\<close>])
  then show ?thesis by (simp add: r)
qed (use assms in auto)

lemma usb_ok_resume:
  assumes "usb_ok m"
  shows "usb_ok (snd (resumeInterface cfg i app m))"
proof (cases "resumeInterface cfg i app m = (False, m)")
  case False
  let ?e = "(um_entries m ! i)\<lparr>ue_suspended := False\<rparr>"
  let ?m = "(set_entry i ?e m)\<lparr>um_active_mask := um_active_mask m OR push_bit i 1\<rparr>"
  from False have i: "i < length (um_entries m)" "ue_active (um_entries m ! i)"
        "ue_suspended (um_entries m ! i)"
      and fits: "usb_ep_budget_fits (endpointsInUse m) (interfaceEndpoints (ue_def (um_entries m ! i)))"
      and r: "snd (resumeInterface cfg i app m) = (if app then snd (applyConfiguration cfg ?m) else ?m)"
    by (auto simp: resumeInterface_def Let_def split: if_splits)
  have "i < 3" using usb_ok_entry [OF assms i(1)] by auto
  have "usb_ok ?m"
    using usb_ok_fits [OF assms fits] i(2,3)
    by (intro usb_ok_set [OF assms \<open>i < 3\<close>]) (auto simp: out_of_def mask_set [simplified, OF \<open>i < 3\<close>])
  then show ?thesis by (simp add: r)
qed (use assms in auto)

lemma usb_ok_cdc:
  assumes "usb_ok m"
  shows "usb_ok (snd (setCdcEnabled on m))"
  using assms fits_nat [of m "\<lparr>in_eps = 2, out_eps = 1\<rparr>"]
  by (auto simp: setCdcEnabled_def usb_ok_def ep_in_def ep_out_def)

lemma usb_ok_msc: "usb_ok m \<Longrightarrow> usb_ok (snd (registerMassStorage owner m))"
  using fits_nat [of m "\<lparr>in_eps = 1, out_eps = 1\<rparr>"]
  by (auto simp: registerMassStorage_def usb_ok_def ep_in_def ep_out_def)

lemma usb_ok_no_msc: "usb_ok m \<Longrightarrow> usb_ok (unregisterMassStorage owner m)"
  by (auto simp: unregisterMassStorage_def usb_ok_def ep_in_def ep_out_def)

section \<open>Sequences of operations\<close>

datatype 'f usb_op =
    Register nat "string option" "'f usb_spec"
  | Unregister nat "string option" bool
  | Suspend nat bool
  | Resume nat bool
  | Enable_Cdc bool
  | Register_Msc "string option"
  | Unregister_Msc "string option"
  | Apply

fun usb_step :: "('f usb_spec list \<Rightarrow> bool \<times> bool) \<Rightarrow> 'f \<Rightarrow> 'f usb_manager \<Rightarrow> 'f usb_op \<Rightarrow> 'f usb_manager" where
  "usb_step cfg z m (Register i owner d) = snd (registerInterface cfg i owner d m)"
| "usb_step cfg z m (Unregister i owner app) = unregisterInterface cfg z i owner app m"
| "usb_step cfg z m (Suspend i app) = snd (suspendInterface cfg i app m)"
| "usb_step cfg z m (Resume i app) = snd (resumeInterface cfg i app m)"
| "usb_step cfg z m (Enable_Cdc on) = snd (setCdcEnabled on m)"
| "usb_step cfg z m (Register_Msc owner) = snd (registerMassStorage owner m)"
| "usb_step cfg z m (Unregister_Msc owner) = unregisterMassStorage owner m"
| "usb_step cfg z m Apply = snd (applyConfiguration cfg m)"

lemma usb_ok_step: "usb_ok m \<Longrightarrow> usb_ok (usb_step cfg z m x)"
  by (cases x) (simp_all add: usb_ok_register usb_ok_unregister usb_ok_suspend usb_ok_resume usb_ok_cdc
      usb_ok_msc usb_ok_no_msc)

lemma usb_ok_steps: "usb_ok m \<Longrightarrow> usb_ok (foldl (usb_step cfg z) m xs)"
  by (induction xs arbitrary: m) (simp_all add: usb_ok_step)

lemma usb_ok_boot: "usb_ok (usb_boot z)"
  by (auto simp: usb_ok_def usb_boot_def ep_in_def ep_out_def out_of_def empty_entry_def
      numeral_3_eq_3 nth_Cons split: nat.splits)

text \<open>
  What the USB stack was told last: the specifications of the last \<^verbatim>\<open>usb_hid_apply_config\<close>, if there
  was one, are those of the interfaces present.
\<close>

fun told :: "'f usb_call list \<Rightarrow> 'f usb_spec list" where
  "told [] = []"
| "told (Apply_Config ds # cs) = ds"
| "told (c # cs) = told cs"

definition synced :: "'f usb_manager \<Rightarrow> bool" where
  "synced m \<longleftrightarrow> length (um_entries m) = 3 \<and>
     told (rev (um_calls m)) = map ue_def (filter present (um_entries m))"

fun applied :: "'f usb_op \<Rightarrow> bool" where
  "applied (Unregister i owner app) = app"
| "applied (Suspend i app) = app"
| "applied (Resume i app) = app"
| "applied _ = True"

lemma synced_apply: "length (um_entries m) = 3 \<Longrightarrow> synced (snd (applyConfiguration cfg m))"
proof -
  assume "length (um_entries m) = 3"
  then obtain a b c where "um_entries m = [a, b, c]"
    by (auto simp: numeral_3_eq_3 length_Suc_conv)
  then show ?thesis
    by (simp add: synced_def applyConfiguration_def Let_def split: prod.splits)
qed

lemma synced_step:
  assumes "synced m" and "applied x"
  shows "synced (usb_step cfg z m x)"
proof -
  have len: "length (um_entries m) = 3" using assms(1) by (simp add: synced_def)
  show ?thesis
    using assms
  proof (cases x)
    case (Enable_Cdc on)
    with assms show ?thesis by (auto simp: setCdcEnabled_def synced_def)
  next
    case (Register_Msc owner)
    with assms show ?thesis by (auto simp: registerMassStorage_def synced_def)
  next
    case (Unregister_Msc owner)
    with assms show ?thesis by (auto simp: unregisterMassStorage_def synced_def)
  qed (auto simp: registerInterface_def unregisterInterface_def suspendInterface_def
      resumeInterface_def Let_def len intro!: synced_apply split: if_splits)
qed

lemma synced_steps:
  "synced m \<Longrightarrow> \<forall>x \<in> set xs. applied x \<Longrightarrow> synced (foldl (usb_step cfg z) m xs)"
  by (induction xs arbitrary: m) (simp_all add: synced_step)

section \<open>Properties\<close>




text \<open>
  What the code does not keep is its limit of two HID interfaces: resuming an interface checks the
  endpoints but not the number, so with CDC off three are present.
\<close>

lemma usb_resume_over_limit:
  fixes hid :: "unit usb_spec" and xs :: "unit usb_op list"
  defines "hid \<equiv> \<lparr>us_cls = Hid_Class, us_has_out = True, us_rest = ()\<rparr>"
  defines "xs \<equiv> [Enable_Cdc False, Register 0 (Some ''fido'') hid, Register 1 (Some ''kbd'') hid,
    Suspend 0 True, Register 2 (Some ''scard'') (hid\<lparr>us_cls := Ccid_Class\<rparr>), Resume 0 True]"
  shows "activeHidCount (foldl (usb_step (\<lambda>ds. (True, False)) ()) (usb_boot ()) xs) = 3"
  unfolding xs_def hid_def by code_simp

end
