(* ===== verification/Scard_Usb.thy ===== *)
theory Scard_Usb
  imports Usb_Slot Usb_Manager
begin

text \<open>
  The reference-counted CCID interface (\<^verbatim>\<open>components/cdc_scard/src/scard_usb.cpp\<close>): the applet
  modules acquire and release it, the service manager gates it, and one slot of the USB manager is
  held exactly while it is enabled and in use. The operations are written over the two calls they
  make to the manager; \<open>ccid_claim\<close> and \<open>ccid_give_up\<close> are these calls.
\<close>

section \<open>Operations\<close>

record scard_usb =
  su_refcount :: byte
  su_enabled :: bool
  su_registered :: bool

definition scard_usb_boot :: scard_usb where
  "scard_usb_boot = \<lparr>su_refcount = 0, su_enabled = True, su_registered = False\<rparr>"

definition register_interface :: "('u \<Rightarrow> bool \<times> 'u) \<Rightarrow> scard_usb \<times> 'u \<Rightarrow> bool \<times> scard_usb \<times> 'u" where
  "register_interface claim su = (case su of (s, u) \<Rightarrow>
     (case claim u of
        (False, u) \<Rightarrow> (False, s, u)
      | (True, u) \<Rightarrow> (True, s\<lparr>su_registered := True\<rparr>, u)))"

definition unregister_interface :: "('u \<Rightarrow> 'u) \<Rightarrow> scard_usb \<times> 'u \<Rightarrow> scard_usb \<times> 'u" where
  "unregister_interface give_up su = (case su of (s, u) \<Rightarrow>
     if \<not> su_registered s then (s, u) else (s\<lparr>su_registered := False\<rparr>, give_up u))"

text \<open>\<^verbatim>\<open>ccid_init\<close> cannot fail and touches nothing of this component.\<close>

definition scard_usb_acquire :: "('u \<Rightarrow> bool \<times> 'u) \<Rightarrow> scard_usb \<times> 'u \<Rightarrow> bool \<times> scard_usb \<times> 'u" where
  "scard_usb_acquire claim su = (case su of (s, u) \<Rightarrow>
     if su_refcount s > 0 then (True, s\<lparr>su_refcount := su_refcount s + 1\<rparr>, u)
     else if su_enabled s then
       (case register_interface claim (s, u) of
          (False, s, u) \<Rightarrow> (False, s, u)
        | (True, s, u) \<Rightarrow> (True, s\<lparr>su_refcount := 1\<rparr>, u))
     else (True, s\<lparr>su_refcount := 1\<rparr>, u))"

definition scard_usb_release :: "('u \<Rightarrow> 'u) \<Rightarrow> scard_usb \<times> 'u \<Rightarrow> scard_usb \<times> 'u" where
  "scard_usb_release give_up su = (case su of (s, u) \<Rightarrow>
     if su_refcount s = 0 then (s, u)
     else
       let s = s\<lparr>su_refcount := su_refcount s - 1\<rparr>
       in if su_refcount s = 0 then unregister_interface give_up (s, u) else (s, u))"

definition scard_usb_set_enabled ::
    "('u \<Rightarrow> bool \<times> 'u) \<Rightarrow> ('u \<Rightarrow> 'u) \<Rightarrow> bool \<Rightarrow> scard_usb \<times> 'u \<Rightarrow> bool \<times> scard_usb \<times> 'u" where
  "scard_usb_set_enabled claim give_up on su = (case su of (s, u) \<Rightarrow>
     if su_enabled s = on then (True, s, u)
     else if on then
       if su_refcount s > 0 then
         (case register_interface claim (s, u) of
            (False, s, u) \<Rightarrow> (False, s, u)
          | (True, s, u) \<Rightarrow> (True, s\<lparr>su_enabled := True\<rparr>, u))
       else (True, s\<lparr>su_enabled := True\<rparr>, u)
     else (True, unregister_interface give_up (s\<lparr>su_enabled := False\<rparr>, u)))"

definition scard_usb_enabled :: "scard_usb \<Rightarrow> bool" where
  "scard_usb_enabled s = su_enabled s"

definition scard_usb_in_use :: "scard_usb \<Rightarrow> bool" where
  "scard_usb_in_use s \<longleftrightarrow> su_refcount s > 0"

text \<open>The calls to the manager, with the owner name and the specification of this component.\<close>

definition kOwnerName :: string where
  "kOwnerName = ''cdc_scard''"

definition ccid_claim ::
    "('f usb_spec list \<Rightarrow> bool \<times> bool) \<Rightarrow> 'f \<Rightarrow> 'f usb_manager \<Rightarrow> bool \<times> 'f usb_manager" where
  "ccid_claim cfg z = registerInterface cfg 2 (Some kOwnerName)
     \<lparr>us_cls = Ccid_Class, us_has_out = False, us_rest = z\<rparr>"

definition ccid_give_up ::
    "('f usb_spec list \<Rightarrow> bool \<times> bool) \<Rightarrow> 'f \<Rightarrow> 'f usb_manager \<Rightarrow> 'f usb_manager" where
  "ccid_give_up cfg z = unregisterInterface cfg z 2 (Some kOwnerName) True"

section \<open>Histories\<close>

datatype scard_usb_op = Acquire | Release | Set_Enabled bool

fun scard_usb_step ::
    "('u \<Rightarrow> bool \<times> 'u) \<Rightarrow> ('u \<Rightarrow> 'u) \<Rightarrow> scard_usb_op \<Rightarrow> scard_usb \<times> 'u \<Rightarrow> scard_usb \<times> 'u" where
  "scard_usb_step claim give_up Acquire su = snd (scard_usb_acquire claim su)"
| "scard_usb_step claim give_up Release su = scard_usb_release give_up su"
| "scard_usb_step claim give_up (Set_Enabled on) su = snd (scard_usb_set_enabled claim give_up on su)"

text \<open>
  A run interleaves the calls to this component with whatever the other clients of the manager do;
  the number counts the calls to this component.
\<close>

inductive scard_usb_run ::
    "('u \<Rightarrow> bool \<times> 'u) \<Rightarrow> ('u \<Rightarrow> 'u) \<Rightarrow> ('u \<Rightarrow> 'u \<Rightarrow> bool) \<Rightarrow> 'u \<Rightarrow> nat \<Rightarrow> scard_usb \<times> 'u \<Rightarrow> bool"
  for claim give_up other u0 where
  boot: "scard_usb_run claim give_up other u0 0 (scard_usb_boot, u0)"
| own: "scard_usb_run claim give_up other u0 n su \<Longrightarrow>
    scard_usb_run claim give_up other u0 (Suc n) (scard_usb_step claim give_up x su)"
| others: "scard_usb_run claim give_up other u0 n (s, u) \<Longrightarrow> other u v \<Longrightarrow>
    scard_usb_run claim give_up other u0 n (s, v)"

text \<open>
  While fewer than 256 calls have been made the reference count, a byte, has not wrapped, and the
  slot is held exactly when the interface is enabled and somebody holds a reference.
\<close>

definition scard_usb_ok :: "('u \<Rightarrow> bool) \<Rightarrow> nat \<Rightarrow> scard_usb \<times> 'u \<Rightarrow> bool" where
  "scard_usb_ok held n su = (case su of (s, u) \<Rightarrow> unat (su_refcount s) \<le> n \<and>
     su_registered s = (su_enabled s \<and> su_refcount s \<noteq> 0) \<and> held u = su_registered s)"

lemma refcount_inc: "unat r \<le> n \<Longrightarrow> n < 255 \<Longrightarrow> unat (r + 1 :: byte) = Suc (unat r)"
  by (simp add: unat_word_ariths)

lemma refcount_dec: "r \<noteq> 0 \<Longrightarrow> unat (r - 1 :: byte) = unat r - 1"
  by (rule unat_minus_one)

context usb_slot
begin

lemma step_good:
  "good (snd su) \<Longrightarrow> good (snd (scard_usb_step claim give_up x su))"
  using claim_good [of "snd su"] give_up_good [of "snd su"]
  by (cases su; cases x)
     (auto simp: scard_usb_acquire_def scard_usb_release_def scard_usb_set_enabled_def
       register_interface_def unregister_interface_def Let_def split: prod.splits bool.splits)

lemma step_ok:
  assumes "good (snd su)" and "n < 255" and "scard_usb_ok held n su"
  shows "scard_usb_ok held (Suc n) (scard_usb_step claim give_up x su)"
proof -
  obtain s u where su: "su = (s, u)" by (cases su)
  note laws = claim_held [of u] claim_fail [of u] give_up_free [of u]
  have inc: "unat (su_refcount s + 1) = Suc (unat (su_refcount s))" "su_refcount s + 1 \<noteq> 0"
    using refcount_inc [of "su_refcount s" n] assms(2,3) su
    by (auto simp: scard_usb_ok_def dest: arg_cong [of _ _ unat])
  show ?thesis
  proof (cases x)
    case Acquire
    with assms laws inc su show ?thesis
      by (auto simp: scard_usb_ok_def scard_usb_acquire_def register_interface_def word_gt_0
          split: prod.splits bool.splits)
  next
    case Release
    with assms laws su refcount_dec [of "su_refcount s"] show ?thesis
      by (auto simp: scard_usb_ok_def scard_usb_release_def unregister_interface_def Let_def)
  next
    case (Set_Enabled on)
    with assms laws su show ?thesis
      by (auto simp: scard_usb_ok_def scard_usb_set_enabled_def register_interface_def
          unregister_interface_def word_gt_0 split: prod.splits bool.splits)
  qed
qed

lemma run_ok:
  assumes "scard_usb_run claim give_up other u0 n su" and "n < 256" and "good u0" and "\<not> held u0"
  shows "good (snd su) \<and> scard_usb_ok held n su"
  using assms
proof (induction rule: scard_usb_run.induct)
  case (own n su x)
  then show ?case using step_good step_ok by simp
next
  case (others n s u v)
  then show ?case using other_good [of u v] other_held [of u v] by (simp add: scard_usb_ok_def)
qed (simp add: scard_usb_ok_def scard_usb_boot_def)

end

section \<open>The manager provides the slot\<close>

definition ccid_held :: "'f usb_manager \<Rightarrow> bool" where
  "ccid_held m \<longleftrightarrow> ue_active (um_entries m ! 2) \<and> ue_owner (um_entries m ! 2) = Some kOwnerName"

text \<open>
  The other clients: any operation of the manager except those on the CCID slot under this owner's
  name, or under no name at all, which the manager does not check.
\<close>

fun foreign :: "'f usb_op \<Rightarrow> bool" where
  "foreign (Register i owner d) = (i \<noteq> 2 \<or> owner \<noteq> Some kOwnerName)"
| "foreign (Unregister i owner app) = (i \<noteq> 2 \<or> (owner \<noteq> None \<and> owner \<noteq> Some kOwnerName))"
| "foreign _ = True"

definition foreign_step ::
    "('f usb_spec list \<Rightarrow> bool \<times> bool) \<Rightarrow> 'f \<Rightarrow> 'f usb_manager \<Rightarrow> 'f usb_manager \<Rightarrow> bool" where
  "foreign_step cfg z m m' \<longleftrightarrow> (\<exists>x. foreign x \<and> m' = usb_step cfg z m x)"

lemma foreign_held:
  assumes "length (um_entries m) = 3" and "foreign x"
  shows "ccid_held (usb_step cfg z m x) = ccid_held m"
proof (cases x)
  case (Register i owner d)
  with assms show ?thesis
    by (auto simp: ccid_held_def registerInterface_def Let_def nth_list_update)
next
  case (Unregister i owner app)
  with assms show ?thesis
    by (auto simp: ccid_held_def unregisterInterface_def Let_def nth_list_update empty_entry_def)
next
  case (Suspend i app)
  with assms show ?thesis
    by (auto simp: ccid_held_def suspendInterface_def Let_def nth_list_update)
next
  case (Resume i app)
  with assms show ?thesis
    by (auto simp: ccid_held_def resumeInterface_def Let_def nth_list_update)
qed (auto simp: ccid_held_def setCdcEnabled_def registerMassStorage_def unregisterMassStorage_def)

lemma claim_step: "snd (ccid_claim cfg z m) =
    usb_step cfg y m (Register 2 (Some kOwnerName) \<lparr>us_cls = Ccid_Class, us_has_out = False, us_rest = z\<rparr>)"
  by (simp add: ccid_claim_def)

lemma give_up_step: "ccid_give_up cfg z m = usb_step cfg z m (Unregister 2 (Some kOwnerName) True)"
  by (simp add: ccid_give_up_def)

interpretation ccid_slot: usb_slot usb_ok ccid_held "ccid_claim cfg z" "ccid_give_up cfg z"
  "foreign_step cfg z"
proof
  fix u v :: "'a usb_manager"
  show "usb_ok u \<Longrightarrow> usb_ok (snd (ccid_claim cfg z u))"
    by (simp only: claim_step [where y = z] usb_ok_step)
  show "usb_ok u \<Longrightarrow> usb_ok (ccid_give_up cfg z u)"
    by (simp only: give_up_step usb_ok_step)
  show "usb_ok u \<Longrightarrow> ccid_claim cfg z u = (True, v) \<Longrightarrow> ccid_held v"
    by (auto simp: ccid_claim_def registerInterface_def ccid_held_def Let_def usb_ok_def split: if_splits)
  show "usb_ok u \<Longrightarrow> ccid_claim cfg z u = (False, v) \<Longrightarrow> v = u"
    by (auto simp: ccid_claim_def registerInterface_def Let_def split: if_splits)
  show "usb_ok u \<Longrightarrow> \<not> ccid_held (ccid_give_up cfg z u)"
    by (auto simp: ccid_give_up_def unregisterInterface_def ccid_held_def Let_def usb_ok_def empty_entry_def)
  show "usb_ok u \<Longrightarrow> foreign_step cfg z u v \<Longrightarrow> usb_ok v"
    by (auto simp: foreign_step_def usb_ok_step)
  show "usb_ok u \<Longrightarrow> foreign_step cfg z u v \<Longrightarrow> ccid_held v = ccid_held u"
    by (auto simp: foreign_step_def foreign_held usb_ok_def)
qed

section \<open>Property\<close>

text \<open>
  However the applet modules acquire and release the card interface (up to 255 calls, the range
  of the reference count) and the service manager gates it, and whatever the other USB clients do in
  between, the CCID slot belongs to this component exactly when it is enabled and referenced, and the
  composite descriptor stays within the endpoint budget.
\<close>

theorem scard_usb_slot_tracked:
  assumes "scard_usb_run (ccid_claim cfg z) (ccid_give_up cfg z) (foreign_step cfg z) (usb_boot z) n (s, m)"
    and "n < 256"
  shows "ccid_held m = (scard_usb_enabled s \<and> scard_usb_in_use s) \<and>
    su_registered s = ccid_held m \<and> unat (in_eps (endpointsInUse m)) \<le> 4"
proof -
  have "\<not> ccid_held (usb_boot z)" by (simp add: ccid_held_def usb_boot_def empty_entry_def)
  with ccid_slot.run_ok [OF assms usb_ok_boot]
  have "usb_ok m" and ok: "scard_usb_ok ccid_held n (s, m)" by simp_all
  then have "unat (in_eps (endpointsInUse m)) \<le> 4" using endpoints_nat [of m] by (simp add: usb_ok_def)
  with ok show ?thesis
    by (auto simp: scard_usb_ok_def scard_usb_enabled_def scard_usb_in_use_def word_gt_0)
qed

theorem scard_usb_slot_tracked_witness:
  "ccid_held (snd (scard_usb_step (ccid_claim (\<lambda>ds. (True, False)) ()) (ccid_give_up (\<lambda>ds. (True, False)) ())
      Acquire (scard_usb_boot, usb_boot ())))"
proof -
  let ?su = "scard_usb_step (ccid_claim (\<lambda>ds. (True, False)) ()) (ccid_give_up (\<lambda>ds. (True, False)) ())
      Acquire (scard_usb_boot, usb_boot ())"
  have "scard_usb_run (ccid_claim (\<lambda>ds. (True, False)) ()) (ccid_give_up (\<lambda>ds. (True, False)) ())
      (foreign_step (\<lambda>ds. (True, False)) ()) (usb_boot ()) (Suc 0) (fst ?su, snd ?su)"
    using scard_usb_run.own [OF scard_usb_run.boot, of _ _ _ _ Acquire] by simp
  moreover have "scard_usb_enabled (fst ?su) \<and> scard_usb_in_use (fst ?su)" by code_simp
  ultimately show ?thesis using scard_usb_slot_tracked by fastforce
qed

end
