(* ===== verification/Chained_Answer.thy ===== *)
theory Chained_Answer
  imports Prelude
begin

text \<open>
  The contract of an applet that gives a long answer in pieces: the command that has an answer
  (\<open>put\<close>) returns as much of it as the response may hold and keeps the rest, and a command for the
  next piece (\<open>next_piece\<close>) returns the following part of it. Each response ends in a status word
  that tells how much is left. The host only sees the responses; what it puts together from them is
  the answer, however it sizes its requests.
\<close>

text \<open>
  The host: one command for the next piece after the other, until nothing is pending. Its commands
  are given by the length they ask for and the room for the response; a response of \<open>k\<close> bytes
  carries \<open>k - 2\<close> bytes of data.
\<close>

fun fetch_rest ::
    "(u32 \<Rightarrow> nat \<Rightarrow> 's \<Rightarrow> (int \<times> bytes) \<times> 's) \<Rightarrow> ('s \<Rightarrow> bytes) \<Rightarrow> (u32 \<times> nat) list \<Rightarrow> 's \<Rightarrow> bytes \<times> 's" where
  "fetch_rest nxt pending [] s = ([], s)"
| "fetch_rest nxt pending ((le, n) # cs) s =
    (if pending s = [] then ([], s)
     else
       case nxt le n s of ((k, b), t) \<Rightarrow>
         (case fetch_rest nxt pending cs t of (bs, u) \<Rightarrow> (take (nat k - 2) b @ bs, u)))"

locale chained_answer =
  fixes good :: "'s \<Rightarrow> bool"
    and pending :: "'s \<Rightarrow> bytes"
    and put :: "bytes \<Rightarrow> u32 \<Rightarrow> nat \<Rightarrow> 's \<Rightarrow> (int \<times> bytes) \<times> 's"
    and next_piece :: "u32 \<Rightarrow> nat \<Rightarrow> 's \<Rightarrow> (int \<times> bytes) \<times> 's"
    and status :: "nat \<Rightarrow> bytes"
    and bound :: nat
  assumes put_splits: "good s \<Longrightarrow> pending s = [] \<Longrightarrow> 2 \<le> n \<Longrightarrow> length payload \<le> bound \<Longrightarrow>
      put payload le n s = ((k, b), t) \<Longrightarrow>
      good t \<and> take (nat k - 2) b @ pending t = payload \<and> drop (nat k - 2) b = status (length (pending t))"
    and next_splits: "good s \<Longrightarrow> pending s \<noteq> [] \<Longrightarrow> 2 < n \<Longrightarrow> next_piece le n s = ((k, b), t) \<Longrightarrow>
      good t \<and> length (pending t) < length (pending s) \<and> take (nat k - 2) b @ pending t = pending s \<and>
      drop (nat k - 2) b = status (length (pending t))"
begin

lemma fetch_all:
  assumes "good s" and "length (pending s) \<le> length cs" and "\<forall>(le, n) \<in> set cs. 2 < n"
  shows "fst (fetch_rest next_piece pending cs s) = pending s \<and>
    pending (snd (fetch_rest next_piece pending cs s)) = []"
  using assms
proof (induction cs arbitrary: s)
  case (Cons c cs)
  obtain le n where c: "c = (le, n)" by (cases c)
  obtain k b t where r: "next_piece le n s = ((k, b), t)" by (cases "next_piece le n s") auto
  show ?case
  proof (cases "pending s = []")
    case False
    have "2 < n" using Cons.prems(3) c by simp
    from next_splits [OF Cons.prems(1) False this r] Cons.IH [of t] Cons.prems(2,3) False c r
    show ?thesis by (auto simp: case_prod_beta)
  qed (simp add: c)
qed simp

theorem delivered:
  assumes "good s" and "pending s = []" and "2 \<le> n" and "length payload \<le> bound"
    and "length payload \<le> length cs" and "\<forall>(le, m) \<in> set cs. 2 < m"
  shows "case put payload le n s of ((k, b), t) \<Rightarrow>
    take (nat k - 2) b @ fst (fetch_rest next_piece pending cs t) = payload \<and>
    pending (snd (fetch_rest next_piece pending cs t)) = [] \<and>
    drop (nat k - 2) b = status (length (pending t))"
proof -
  obtain k b t where p: "put payload le n s = ((k, b), t)" by (cases "put payload le n s") auto
  note split = put_splits [OF assms(1-4) p]
  then have "length (pending t) \<le> length payload" by (metis length_append le_add2)
  with fetch_all [of t cs] split assms(5,6) p show ?thesis by simp
qed

end

end
