(* ===== verification/Oath.thy ===== *)
theory Oath
  imports Scard Chained_Answer
begin

text \<open>
  The YKOATH applet (\<^verbatim>\<open>components/mod_2fa/src/OathApplet.cpp\<close>): the session with its access key and
  challenge, the commands on the credential store, the mapping between stored fields and YKOATH
  names, and the chaining of answers that do not fit into one response.

  Credential store, access key and cryptography are behind the function table \<^verbatim>\<open>oath_backend_t\<close>,
  whose functions act on a state of type \<^typ>\<open>'b\<close>. A C string is the list of its bytes without
  the final zero. A null data pointer comes with a length of 0 and is the empty list.
\<close>

section \<open>Data\<close>

abbreviation (input) "INS_PUT \<equiv> (0x01 :: byte)"
abbreviation (input) "INS_DELETE \<equiv> (0x02 :: byte)"
abbreviation (input) "INS_SET_CODE \<equiv> (0x03 :: byte)"
abbreviation (input) "INS_RESET \<equiv> (0x04 :: byte)"
abbreviation (input) "INS_LIST \<equiv> (0xA1 :: byte)"
abbreviation (input) "INS_CALCULATE \<equiv> (0xA2 :: byte)"
abbreviation (input) "INS_VALIDATE \<equiv> (0xA3 :: byte)"
abbreviation (input) "INS_CALCULATE_ALL \<equiv> (0xA4 :: byte)"
abbreviation (input) "INS_SEND_REMAINING \<equiv> (0xA5 :: byte)"
abbreviation (input) "INS_ISO_SELECT \<equiv> (0xA4 :: byte)"

abbreviation (input) "TAG_NAME \<equiv> (0x71 :: byte)"
abbreviation (input) "TAG_NAME_LIST \<equiv> (0x72 :: byte)"
abbreviation (input) "TAG_KEY \<equiv> (0x73 :: byte)"
abbreviation (input) "TAG_CHALLENGE \<equiv> (0x74 :: byte)"
abbreviation (input) "TAG_FULL_RESP \<equiv> (0x75 :: byte)"
abbreviation (input) "TAG_TRUNC_RESP \<equiv> (0x76 :: byte)"
abbreviation (input) "TAG_HOTP \<equiv> (0x77 :: byte)"
abbreviation (input) "TAG_PROPERTY \<equiv> (0x78 :: byte)"
abbreviation (input) "TAG_VERSION \<equiv> (0x79 :: byte)"
abbreviation (input) "TAG_IMF \<equiv> (0x7A :: byte)"
abbreviation (input) "TAG_ALGO \<equiv> (0x7B :: byte)"
abbreviation (input) "TAG_TOUCH \<equiv> (0x7C :: byte)"

abbreviation (input) "SW_OK \<equiv> (0x9000 :: u16)"
abbreviation (input) "SW_MORE \<equiv> (0x6100 :: u16)"
abbreviation (input) "SW_NO_SPACE \<equiv> (0x6A84 :: u16)"
abbreviation (input) "SW_AUTH_REQUIRED \<equiv> (0x6982 :: u16)"
abbreviation (input) "SW_WRONG_SYNTAX \<equiv> (0x6A80 :: u16)"
abbreviation (input) "SW_NO_SUCH_OBJECT \<equiv> (0x6984 :: u16)"
abbreviation (input) "SW_NOT_SATISFIED \<equiv> (0x6985 :: u16)"
abbreviation (input) "SW_WRONG_LENGTH \<equiv> (0x6700 :: u16)"
abbreviation (input) "SW_INS_NOT_SUPPORTED \<equiv> (0x6D00 :: u16)"

abbreviation (input) "OTYPE_TOTP \<equiv> (0 :: byte)"
abbreviation (input) "OTYPE_HOTP \<equiv> (1 :: byte)"
abbreviation (input) "OTYPE_CR \<equiv> (2 :: byte)"
abbreviation (input) "OFLAG_TOUCH \<equiv> (0x01 :: byte)"
abbreviation (input) "BUILD_CAP \<equiv> (4096 :: nat)"

record oath_meta =
  m_used :: bool
  m_name :: bytes
  m_issuer :: bytes
  m_type :: byte
  m_algorithm :: byte
  m_digits :: byte
  m_period :: u32
  m_flags :: byte

text \<open>The arguments of \<^verbatim>\<open>addRaw\<close>.\<close>

record new_credential =
  n_type :: byte
  n_name :: bytes
  n_issuer :: bytes
  n_key :: bytes
  n_digits :: byte
  n_period :: u32
  n_algorithm :: byte
  n_counter :: u64
  n_flags :: byte

record 'b oath_backend =
  be_capacity :: "'b \<Rightarrow> u16"
  be_read :: "u16 \<Rightarrow> 'b \<Rightarrow> oath_meta option"
  be_calculate :: "u16 \<Rightarrow> bytes \<Rightarrow> 'b \<Rightarrow> (bytes \<times> byte) option \<times> 'b"
  be_addRaw :: "new_credential \<Rightarrow> 'b \<Rightarrow> bool \<times> 'b"
  be_remove :: "u16 \<Rightarrow> 'b \<Rightarrow> bool \<times> 'b"
  be_wipeAll :: "'b \<Rightarrow> 'b"
  be_devId :: "'b \<Rightarrow> bytes \<times> 'b"
  be_akeyGet :: "'b \<Rightarrow> bytes option"
  be_akeySet :: "bytes \<Rightarrow> 'b \<Rightarrow> bool \<times> 'b"
  be_akeyClear :: "'b \<Rightarrow> 'b"
  be_hmacSha1 :: "bytes \<Rightarrow> bytes \<Rightarrow> 'b \<Rightarrow> bytes option"
  be_rng :: "nat \<Rightarrow> 'b \<Rightarrow> bytes option \<times> 'b"
  be_touchOk :: "u16 \<Rightarrow> 'b \<Rightarrow> bool \<times> 'b"

record 'b oath =
  g_be :: "'b oath_backend option"
  g_validated :: bool
  g_sel_challenge :: bytes
  g_challenge_valid :: bool
  g_resp :: bytes
  g_resp_pos :: nat
  g_resp_remaining :: nat
  store :: 'b

type_synonym 'b reply = "(int \<times> bytes) \<times> 'b oath"

section \<open>TLV and status words\<close>

definition sw :: "u16 \<Rightarrow> 'b oath \<Rightarrow> 'b reply" where
  "sw v s = ((2, apdu_sw v), s)"

text \<open>
  The output buffer is the list of the bytes written so far, of at most \<^verbatim>\<open>sizeof(g_build)\<close>. The
  callers ignore the result, so an item that does not fit is left out.
\<close>

definition put_tlv :: "byte \<Rightarrow> bytes \<Rightarrow> bytes \<Rightarrow> bytes" where
  "put_tlv tag val buf =
    (if BUILD_CAP < length buf + 2 + length val \<or> 0xFF < length val then buf
     else buf @ [tag, of_nat (length val)] @ val)"

fun find_tlv :: "byte \<Rightarrow> bytes \<Rightarrow> bytes option" where
  "find_tlv tag (t # l # buf) =
    (if length buf < unat l then None
     else if t = tag then Some (take (unat l) buf)
     else find_tlv tag (drop (unat l) buf))"
| "find_tlv tag buf = None"

section \<open>Answers in pieces\<close>

definition more_sw :: "nat \<Rightarrow> u16" where
  "more_sw n = SW_MORE OR (if 0xFF < n then 0 else of_nat n)"

text \<open>The number of bytes asked for: 0 stands for 256.\<close>

definition requested :: "u32 \<Rightarrow> nat" where
  "requested le = (if le = 0 then 256 else unat le)"

definition emit :: "bytes \<Rightarrow> u32 \<Rightarrow> nat \<Rightarrow> 'b oath \<Rightarrow> 'b reply" where
  "emit payload le resp_max s =
    (let window = requested le;
         window = (if resp_max - 2 < window then resp_max - 2 else window) in
     if length payload \<le> window then ((int (length payload) + 2, payload @ apdu_sw SW_OK), s)
     else
       let remainder = length payload - window;
           remainder = (if 4096 < remainder then 4096 else remainder) in
       ((int window + 2, take window payload @ apdu_sw (more_sw remainder)),
        s\<lparr>g_resp := take remainder (drop window payload) @ drop remainder (g_resp s),
          g_resp_pos := 0, g_resp_remaining := remainder\<rparr>))"

definition next_piece :: "u32 \<Rightarrow> nat \<Rightarrow> nat \<Rightarrow> nat" where
  "next_piece le resp_max remaining =
    (let want = requested le;
         want = (if remaining < want then remaining else want) in
     if resp_max < want + 2 then resp_max - 2 else want)"

definition cmd_send_remaining :: "u32 \<Rightarrow> nat \<Rightarrow> 'b oath \<Rightarrow> 'b reply" where
  "cmd_send_remaining le resp_max s =
    (if g_resp_remaining s = 0 then sw SW_NOT_SATISFIED s
     else
       let want = next_piece le resp_max (g_resp_remaining s);
           body = take want (drop (g_resp_pos s) (g_resp s));
           left = g_resp_remaining s - want in
       ((int want + 2, body @ apdu_sw (if 0 < left then more_sw left else SW_OK)),
        s\<lparr>g_resp_pos := (if 0 < left then g_resp_pos s + want else 0), g_resp_remaining := left\<rparr>))"

section \<open>Names\<close>

text \<open>The digits \<^verbatim>\<open>%u\<close> prints.\<close>

fun decimal :: "nat \<Rightarrow> bytes" where
  "decimal n = (if n < 10 then [of_nat (0x30 + n)] else decimal (n div 10) @ [of_nat (0x30 + n mod 10)])"

declare decimal.simps [simp del]

text \<open>
  The fields hold at most 32 and 16 bytes, so that the name has at most 11 + 33 + 16 bytes and
  \<^verbatim>\<open>snprintf\<close> never cuts it in the buffer of 128.
\<close>

definition build_yk_name :: "oath_meta \<Rightarrow> bytes" where
  "build_yk_name m =
    (if m_type m = OTYPE_TOTP \<and> m_period m \<noteq> 0 \<and> m_period m \<noteq> 30
     then decimal (unat (m_period m)) @ [0x2F] else []) @
    (if m_issuer m \<noteq> [] then m_issuer m @ [0x3A] else []) @ m_name m"

text \<open>\<^verbatim>\<open>strchr\<close>: the text before the first occurrence of a character and behind it.\<close>

fun split_char :: "byte \<Rightarrow> bytes \<Rightarrow> (bytes \<times> bytes) option" where
  "split_char c [] = None"
| "split_char c (x # xs) =
    (if x = c then Some ([], xs) else map_option (\<lambda>(a, b). (x # a, b)) (split_char c xs))"

definition is_digit :: "byte \<Rightarrow> bool" where
  "is_digit c \<longleftrightarrow> 0x30 \<le> c \<and> c \<le> 0x39"

text \<open>\<^verbatim>\<open>strtol\<close> on digits, which stops at the largest \<^verbatim>\<open>long\<close>.\<close>

definition digits_value :: "bytes \<Rightarrow> nat" where
  "digits_value ds = foldl (\<lambda>v d. 10 * v + (unat d - 0x30)) 0 ds"

definition strtol :: "bytes \<Rightarrow> nat" where
  "strtol ds = min (2 ^ 31 - 1) (digits_value ds)"

definition parse_issuer :: "u32 \<Rightarrow> bytes \<Rightarrow> (u32 \<times> bytes \<times> bytes) option" where
  "parse_issuer period cur =
    (let (issuer, account) = (case split_char 0x3A cur of Some (a, b) \<Rightarrow> (a, b) | None \<Rightarrow> ([], cur)) in
     if 33 \<le> length issuer then None
     else if length account = 0 \<or> 17 \<le> length account then None
     else Some (period, issuer, account))"

definition parse_yk_name :: "bytes \<Rightarrow> (u32 \<times> bytes \<times> bytes) option" where
  "parse_yk_name name =
    (if 128 \<le> length name then None
     else
       let cur = takeWhile (\<lambda>c. c \<noteq> 0) name in
       case split_char 0x2F cur of
         Some (ds, rest) \<Rightarrow>
           if ds \<noteq> [] \<and> list_all is_digit ds
           then parse_issuer (if 0 < strtol ds then of_nat (strtol ds) else 30) rest
           else parse_issuer 30 cur
       | None \<Rightarrow> parse_issuer 30 cur)"

definition type_algo_byte :: "oath_meta \<Rightarrow> byte" where
  "type_algo_byte m =
    (if m_type m = OTYPE_HOTP then 0x10 else 0x20) OR ((m_algorithm m AND 0x0F) + 1)"

text \<open>The credentials the applet shows: the used slots that hold no challenge-response secret.\<close>

definition listed :: "'b oath_backend \<Rightarrow> 'b \<Rightarrow> u16 \<Rightarrow> oath_meta option" where
  "listed be b slot =
    (case be_read be slot b of
       Some m \<Rightarrow> if \<not> m_used m \<or> m_type m = OTYPE_CR then None else Some m
     | None \<Rightarrow> None)"

definition slots :: "'b oath_backend \<Rightarrow> 'b \<Rightarrow> u16 list" where
  "slots be b = map of_nat [0..<unat (be_capacity be b)]"

definition find_by_yk_name :: "'b oath_backend \<Rightarrow> bytes \<Rightarrow> 'b \<Rightarrow> u16 option" where
  "find_by_yk_name be name b =
    (if 128 \<le> length name then None
     else find (\<lambda>s. case listed be b s of Some m \<Rightarrow> build_yk_name m = name | None \<Rightarrow> False) (slots be b))"

section \<open>Commands\<close>

definition cmd_select :: "'b oath_backend \<Rightarrow> u32 \<Rightarrow> nat \<Rightarrow> 'b oath \<Rightarrow> 'b reply" where
  "cmd_select be le resp_max s =
    (let (devid, b1) = be_devId be (store s);
         locked = (be_akeyGet be b1 \<noteq> None);
         s1 = s\<lparr>store := b1, g_validated := \<not> locked\<rparr>;
         build = put_tlv TAG_NAME devid (put_tlv TAG_VERSION [0x05, 0x04, 0x03] []) in
     if locked then
       (let (r, b2) = be_rng be 8 b1;
            s2 = s1\<lparr>store := b2,
              g_sel_challenge := (case r of Some bs \<Rightarrow> bs | None \<Rightarrow> g_sel_challenge s1),
              g_challenge_valid := True\<rparr> in
        emit (put_tlv TAG_ALGO [0x21] (put_tlv TAG_CHALLENGE (g_sel_challenge s2) build)) le resp_max s2)
     else emit build le resp_max s1)"

definition cmd_put :: "'b oath_backend \<Rightarrow> bytes \<Rightarrow> 'b oath \<Rightarrow> 'b reply" where
  "cmd_put be dat s =
    (case (find_tlv TAG_NAME dat, find_tlv TAG_KEY dat) of
       (Some name, Some key) \<Rightarrow>
         if length key < 3 then sw SW_WRONG_SYNTAX s
         else
           let secret = drop 2 key; algoNib = key ! 0 AND 0x0F in
           if 64 < length secret then sw SW_WRONG_SYNTAX s
           else if algoNib < 1 \<or> 3 < algoNib then sw SW_WRONG_SYNTAX s
           else
             (case parse_yk_name name of
                None \<Rightarrow> sw SW_WRONG_SYNTAX s
              | Some (period, issuer, account) \<Rightarrow>
                  let flags = (case find_tlv TAG_PROPERTY dat of
                        Some p \<Rightarrow> if 1 \<le> length p \<and> p ! 0 AND 0x02 \<noteq> 0 then OFLAG_TOUCH else 0
                      | None \<Rightarrow> 0);
                      counter = (case find_tlv TAG_IMF dat of
                        Some i \<Rightarrow> if length i = 4 then ucast (be32 (i ! 0) (i ! 1) (i ! 2) (i ! 3)) else 0
                      | None \<Rightarrow> 0);
                      (ok, b) = be_addRaw be
                        \<lparr>n_type = (if key ! 0 AND 0xF0 = 0x10 then OTYPE_HOTP else OTYPE_TOTP),
                         n_name = account, n_issuer = issuer, n_key = secret, n_digits = key ! 1,
                         n_period = period, n_algorithm = algoNib - 1, n_counter = counter,
                         n_flags = flags\<rparr> (store s) in
                  sw (if ok then SW_OK else SW_NO_SPACE) (s\<lparr>store := b\<rparr>))
     | _ \<Rightarrow> sw SW_WRONG_SYNTAX s)"

definition cmd_delete :: "'b oath_backend \<Rightarrow> bytes \<Rightarrow> 'b oath \<Rightarrow> 'b reply" where
  "cmd_delete be dat s =
    (case find_tlv TAG_NAME dat of
       None \<Rightarrow> sw SW_WRONG_SYNTAX s
     | Some name \<Rightarrow>
        (case find_by_yk_name be name (store s) of
           None \<Rightarrow> sw SW_NO_SUCH_OBJECT s
         | Some slot \<Rightarrow>
            (case be_remove be slot (store s) of
               (ok, b) \<Rightarrow> sw (if ok then SW_OK else SW_NO_SUCH_OBJECT) (s\<lparr>store := b\<rparr>))))"

definition list_entry :: "'b oath_backend \<Rightarrow> 'b \<Rightarrow> u16 \<Rightarrow> bytes \<Rightarrow> bytes" where
  "list_entry be b slot build =
    (case listed be b slot of
       None \<Rightarrow> build
     | Some m \<Rightarrow> put_tlv TAG_NAME_LIST (type_algo_byte m # build_yk_name m) build)"

definition cmd_list :: "'b oath_backend \<Rightarrow> u32 \<Rightarrow> nat \<Rightarrow> 'b oath \<Rightarrow> 'b reply" where
  "cmd_list be le resp_max s =
    emit (fold (list_entry be (store s)) (slots be (store s)) []) le resp_max s"

definition cmd_calculate :: "'b oath_backend \<Rightarrow> bytes \<Rightarrow> u32 \<Rightarrow> nat \<Rightarrow> 'b oath \<Rightarrow> 'b reply" where
  "cmd_calculate be dat le resp_max s =
    (case (find_tlv TAG_NAME dat, find_tlv TAG_CHALLENGE dat) of
       (Some name, Some chal) \<Rightarrow>
         if length chal \<noteq> 8 then sw SW_WRONG_SYNTAX s
         else
           (case find_by_yk_name be name (store s) of
              None \<Rightarrow> sw SW_NO_SUCH_OBJECT s
            | Some slot \<Rightarrow>
               (case be_read be slot (store s) of
                  None \<Rightarrow> sw SW_NO_SUCH_OBJECT s
                | Some m \<Rightarrow>
                    let (touched, b1) = (if m_flags m AND OFLAG_TOUCH \<noteq> 0 then be_touchOk be slot (store s)
                          else (True, store s));
                        s1 = s\<lparr>store := b1\<rparr> in
                    if \<not> touched then sw SW_NOT_SATISFIED s1
                    else
                      (case be_calculate be slot chal b1 of
                         (None, b2) \<Rightarrow> sw SW_NO_SUCH_OBJECT (s1\<lparr>store := b2\<rparr>)
                       | (Some (trunc, digits), b2) \<Rightarrow>
                           emit (put_tlv TAG_TRUNC_RESP (digits # trunc) []) le resp_max (s1\<lparr>store := b2\<rparr>))))
     | _ \<Rightarrow> sw SW_WRONG_SYNTAX s)"

definition calculate_entry :: "'b oath_backend \<Rightarrow> bytes \<Rightarrow> u16 \<Rightarrow> bytes \<times> 'b \<Rightarrow> bytes \<times> 'b" where
  "calculate_entry be chal slot = (\<lambda>(build, b).
    case listed be b slot of
      None \<Rightarrow> (build, b)
    | Some m \<Rightarrow>
        let build = put_tlv TAG_NAME (build_yk_name m) build in
        if m_type m = OTYPE_HOTP then (put_tlv TAG_HOTP [] build, b)
        else if m_flags m AND OFLAG_TOUCH \<noteq> 0 then (put_tlv TAG_TOUCH [] build, b)
        else
          (case be_calculate be slot chal b of
             (Some (trunc, digits), b') \<Rightarrow> (put_tlv TAG_TRUNC_RESP (digits # trunc) build, b')
           | (None, b') \<Rightarrow> (put_tlv TAG_TOUCH [] build, b')))"

definition cmd_calculate_all :: "'b oath_backend \<Rightarrow> bytes \<Rightarrow> u32 \<Rightarrow> nat \<Rightarrow> 'b oath \<Rightarrow> 'b reply" where
  "cmd_calculate_all be dat le resp_max s =
    (case find_tlv TAG_CHALLENGE dat of
       None \<Rightarrow> sw SW_WRONG_SYNTAX s
     | Some chal \<Rightarrow>
         if length chal \<noteq> 8 then sw SW_WRONG_SYNTAX s
         else
           (case fold (calculate_entry be chal) (slots be (store s)) ([], store s) of
              (build, b) \<Rightarrow> emit build le resp_max (s\<lparr>store := b\<rparr>)))"

definition cmd_set_code :: "'b oath_backend \<Rightarrow> bytes \<Rightarrow> 'b oath \<Rightarrow> 'b reply" where
  "cmd_set_code be dat s =
    (case find_tlv TAG_KEY dat of
       None \<Rightarrow> sw SW_WRONG_SYNTAX s
     | Some key \<Rightarrow>
         if length key = 0 then
           sw SW_OK (s\<lparr>store := be_akeyClear be (store s), g_validated := True\<rparr>)
         else if length key \<noteq> 17 then sw SW_WRONG_SYNTAX s
         else
           (case (find_tlv TAG_CHALLENGE dat, find_tlv TAG_FULL_RESP dat) of
              (Some chal, Some resp) \<Rightarrow>
                if length chal \<noteq> 8 \<or> length resp \<noteq> 20 then sw SW_WRONG_SYNTAX s
                else
                  (case be_hmacSha1 be (tl key) chal (store s) of
                     None \<Rightarrow> sw SW_NOT_SATISFIED s
                   | Some expect \<Rightarrow>
                       if expect \<noteq> resp then sw SW_NOT_SATISFIED s
                       else
                         (case be_akeySet be (tl key) (store s) of
                            (ok, b) \<Rightarrow> sw (if ok then SW_OK else SW_NOT_SATISFIED) (s\<lparr>store := b\<rparr>)))
            | _ \<Rightarrow> sw SW_WRONG_SYNTAX s))"

definition cmd_validate :: "'b oath_backend \<Rightarrow> bytes \<Rightarrow> u32 \<Rightarrow> nat \<Rightarrow> 'b oath \<Rightarrow> 'b reply" where
  "cmd_validate be dat le resp_max s =
    (case be_akeyGet be (store s) of
       None \<Rightarrow> sw SW_OK s
     | Some akey \<Rightarrow>
         if \<not> g_challenge_valid s then sw SW_NOT_SATISFIED s
         else
           (case (find_tlv TAG_FULL_RESP dat, find_tlv TAG_CHALLENGE dat) of
              (Some resp, Some hostChal) \<Rightarrow>
                if length resp \<noteq> 20 \<or> length hostChal \<noteq> 8 then sw SW_WRONG_SYNTAX s
                else
                  (case be_hmacSha1 be akey (g_sel_challenge s) (store s) of
                     None \<Rightarrow> sw SW_NOT_SATISFIED s
                   | Some expect \<Rightarrow>
                       if expect \<noteq> resp then sw SW_WRONG_SYNTAX s
                       else
                         (case be_hmacSha1 be akey hostChal (store s) of
                            None \<Rightarrow> sw SW_NOT_SATISFIED s
                          | Some reply \<Rightarrow>
                              emit (put_tlv TAG_FULL_RESP reply []) le resp_max
                                (s\<lparr>g_validated := True, g_challenge_valid := False\<rparr>)))
            | _ \<Rightarrow> sw SW_WRONG_SYNTAX s))"

definition cmd_reset :: "'b oath_backend \<Rightarrow> apdu \<Rightarrow> 'b oath \<Rightarrow> 'b reply" where
  "cmd_reset be a s =
    (if a_p1 a \<noteq> 0xDE \<or> a_p2 a \<noteq> 0xAD then sw SW_WRONG_SYNTAX s
     else sw SW_OK (s\<lparr>store := be_akeyClear be (be_wipeAll be (store s)),
                     g_validated := True, g_challenge_valid := False\<rparr>))"

text \<open>The commands that need a validated session.\<close>

definition process_validated ::
    "'b oath_backend \<Rightarrow> apdu \<Rightarrow> bytes \<Rightarrow> nat \<Rightarrow> 'b oath \<Rightarrow> 'b reply" where
  "process_validated be a dat resp_max s =
    (if \<not> g_validated s then sw SW_AUTH_REQUIRED s
     else if a_ins a = INS_PUT then cmd_put be dat s
     else if a_ins a = INS_DELETE then cmd_delete be dat s
     else if a_ins a = INS_SET_CODE then cmd_set_code be dat s
     else if a_ins a = INS_LIST then cmd_list be (a_le a) resp_max s
     else if a_ins a = INS_CALCULATE then cmd_calculate be dat (a_le a) resp_max s
     else if a_ins a = INS_CALCULATE_ALL then cmd_calculate_all be dat (a_le a) resp_max s
     else sw SW_INS_NOT_SUPPORTED s)"

definition process_apdu :: "bytes \<Rightarrow> nat \<Rightarrow> 'b oath \<Rightarrow> 'b reply" where
  "process_apdu cmd resp_max s =
    (case g_be s of
       None \<Rightarrow> sw SW_INS_NOT_SUPPORTED s
     | Some be \<Rightarrow>
         if resp_max < 2 then sw SW_INS_NOT_SUPPORTED s
         else
           (case apdu_parse cmd of
              None \<Rightarrow> sw SW_WRONG_LENGTH s
            | Some a \<Rightarrow>
                if a_ins a = INS_ISO_SELECT \<and> a_p1 a = 0x04 then cmd_select be (a_le a) resp_max s
                else if a_ins a = INS_SEND_REMAINING then cmd_send_remaining (a_le a) resp_max s
                else if a_ins a = INS_RESET then cmd_reset be a s
                else if a_ins a = INS_VALIDATE then
                  cmd_validate be (apdu_data cmd a) (a_le a) resp_max s
                else process_validated be a (apdu_data cmd a) resp_max s))"

definition deselect_oath :: "'b oath \<Rightarrow> 'b oath" where
  "deselect_oath s = s\<lparr>g_validated := False, g_challenge_valid := False,
     g_sel_challenge := replicate 8 0, g_resp_pos := 0, g_resp_remaining := 0\<rparr>"

definition oath_set_backend :: "'b oath_backend option \<Rightarrow> 'b oath \<Rightarrow> 'b oath" where
  "oath_set_backend be s = s\<lparr>g_be := be\<rparr>"

definition oath_applet :: "'b oath applet" where
  "oath_applet = \<lparr>ap_name = ''oath'', ap_aid = [0xA0, 0x00, 0x00, 0x05, 0x27, 0x21, 0x01],
     ap_process = process_apdu, ap_deselect = Some deselect_oath\<rparr>"

section \<open>Responses fit\<close>

text \<open>The invariant of the applet's state: the rest of an answer lies within its buffer.\<close>

definition oath_ok :: "'b oath \<Rightarrow> bool" where
  "oath_ok s \<longleftrightarrow> length (g_resp s) = 4096 \<and> g_resp_pos s + g_resp_remaining s \<le> 4096"

definition fits :: "nat \<Rightarrow> 'b reply \<Rightarrow> bool" where
  "fits n r \<longleftrightarrow> (case r of ((k, b), s) \<Rightarrow> 0 \<le> k \<and> k \<le> int n \<and> length b = nat k \<and> oath_ok s)"

lemma sw_fits [simp]: "fits n (sw v s) \<longleftrightarrow> 2 \<le> n \<and> oath_ok s"
  by (auto simp: fits_def sw_def apdu_sw_def)

lemma oath_ok_update [simp]:
  "oath_ok (s\<lparr>store := b\<rparr>) = oath_ok s" "oath_ok (s\<lparr>g_validated := v\<rparr>) = oath_ok s"
  "oath_ok (s\<lparr>g_challenge_valid := v\<rparr>) = oath_ok s" "oath_ok (s\<lparr>g_sel_challenge := c\<rparr>) = oath_ok s"
  by (simp_all add: oath_ok_def)

lemma emit_fits: "2 \<le> n \<Longrightarrow> oath_ok s \<Longrightarrow> fits n (emit payload le n s)"
  by (auto simp: emit_def Let_def fits_def oath_ok_def apdu_sw_def)

lemma send_remaining_fits: "2 \<le> n \<Longrightarrow> oath_ok s \<Longrightarrow> fits n (cmd_send_remaining le n s)"
  by (auto simp: cmd_send_remaining_def next_piece_def Let_def fits_def oath_ok_def apdu_sw_def sw_def)

lemmas command_defs = cmd_select_def cmd_put_def cmd_delete_def cmd_list_def cmd_calculate_def
  cmd_calculate_all_def cmd_set_code_def cmd_validate_def cmd_reset_def

lemma commands_fit:
  assumes "2 \<le> n" and "oath_ok s"
  shows "fits n (cmd_select be le n s)" "fits n (cmd_put be dat s)" "fits n (cmd_delete be dat s)"
    "fits n (cmd_list be le n s)" "fits n (cmd_calculate be dat le n s)"
    "fits n (cmd_calculate_all be dat le n s)" "fits n (cmd_set_code be dat s)"
    "fits n (cmd_validate be dat le n s)" "fits n (cmd_reset be a s)"
  using assms
  by (auto simp: command_defs Let_def intro!: emit_fits split: option.splits prod.splits if_splits)

lemma process_fits: "2 \<le> n \<Longrightarrow> oath_ok s \<Longrightarrow> fits n (process_apdu cmd n s)"
  by (auto simp: process_apdu_def process_validated_def commands_fit send_remaining_fits
      split: option.splits)

lemma deselect_keeps: "oath_ok s \<Longrightarrow> oath_ok (deselect_oath s)"
  by (simp add: deselect_oath_def oath_ok_def)

lemma oath_well_behaved: "well_behaved oath_ok 2 (oath_applet :: 'b oath applet)"
proof -
  have "k \<le> int n \<and> (0 \<le> k \<longrightarrow> length b = nat k) \<and> oath_ok w'"
    if "2 \<le> n" "oath_ok w" "process_apdu cmd n w = ((k, b), w')" for cmd n k b and w w' :: "'b oath"
    using process_fits [OF that(1,2), of cmd] that(3) by (simp add: fits_def)
  then show ?thesis
    by (simp add: well_behaved_def oath_applet_def deselect_keeps)
qed

section \<open>The access key\<close>

text \<open>What reaches the applet: commands, and the end of its session.\<close>

datatype oath_op = Apdu bytes nat | Deselect

fun oath_step :: "oath_op \<Rightarrow> 'b oath \<Rightarrow> 'b oath" where
  "oath_step (Apdu cmd n) s = snd (process_apdu cmd n s)"
| "oath_step Deselect s = deselect_oath s"

text \<open>
  The commands that may end the locked state: a reset, which wipes the credentials first, and a
  VALIDATE with the response to the challenge of the last SELECT under the access key \<open>k\<close>.
\<close>

fun unlocks :: "'b oath_backend \<Rightarrow> bytes \<Rightarrow> 'b oath \<Rightarrow> oath_op \<Rightarrow> bool" where
  "unlocks be k s Deselect = False"
| "unlocks be k s (Apdu cmd n) =
    (case apdu_parse cmd of
       None \<Rightarrow> False
     | Some a \<Rightarrow>
         a_ins a = INS_RESET \<and> a_p1 a = 0xDE \<and> a_p2 a = 0xAD \<or>
         a_ins a = INS_VALIDATE \<and> g_challenge_valid s \<and>
           be_hmacSha1 be k (g_sel_challenge s) (store s) \<noteq> None \<and>
           find_tlv TAG_FULL_RESP (apdu_data cmd a) = be_hmacSha1 be k (g_sel_challenge s) (store s))"

text \<open>
  What the locked applet relies on of the back end: an observation of the store that determines the
  access key is not changed by reading the device identifier or drawing random bytes.
\<close>

definition observes :: "'b oath_backend \<Rightarrow> ('b \<Rightarrow> 'o) \<Rightarrow> bool" where
  "observes be obs \<longleftrightarrow>
     (\<forall>b. obs (snd (be_devId be b)) = obs b) \<and> (\<forall>n b. obs (snd (be_rng be n b)) = obs b) \<and>
     (\<forall>b b'. obs b = obs b' \<longrightarrow> be_akeyGet be b = be_akeyGet be b')"

definition locked :: "'b oath_backend \<Rightarrow> bytes \<Rightarrow> ('b \<Rightarrow> 'o) \<Rightarrow> 'o \<Rightarrow> 'b oath \<Rightarrow> bool" where
  "locked be k obs v s \<longleftrightarrow>
     g_be s = Some be \<and> \<not> g_validated s \<and> be_akeyGet be (store s) = Some k \<and> obs (store s) = v"

lemma emit_frame [simp]:
  "g_be (snd (emit p le n s)) = g_be s" "g_validated (snd (emit p le n s)) = g_validated s"
  "store (snd (emit p le n s)) = store s"
  by (simp_all add: emit_def Let_def)

lemma send_frame [simp]:
  "g_be (snd (cmd_send_remaining le n s)) = g_be s"
  "g_validated (snd (cmd_send_remaining le n s)) = g_validated s"
  "store (snd (cmd_send_remaining le n s)) = store s"
  by (simp_all add: cmd_send_remaining_def Let_def sw_def)

lemma sw_state [simp]: "snd (sw v s) = s"
  by (simp add: sw_def)

lemma locked_emit [simp]: "locked be k obs v (snd (emit p le n s)) = locked be k obs v s"
  by (simp add: locked_def)

lemma locked_send [simp]: "locked be k obs v (snd (cmd_send_remaining le n s)) = locked be k obs v s"
  by (simp add: locked_def)

lemma locked_select:
  assumes "observes be obs" and "locked be k obs v s"
  shows "locked be k obs v (snd (cmd_select be le n s))"
proof -
  obtain d b1 where d: "be_devId be (store s) = (d, b1)" by (cases "be_devId be (store s)")
  obtain r b2 where r: "be_rng be 8 b1 = (r, b2)" by (cases "be_rng be 8 b1")
  have "obs b1 = obs (store s)" using assms(1) d unfolding observes_def by (metis snd_conv)
  moreover have "obs b2 = obs b1" using assms(1) r unfolding observes_def by (metis snd_conv)
  ultimately have "obs b1 = v" "obs b2 = v" "be_akeyGet be b1 = Some k" "be_akeyGet be b2 = Some k"
    using assms unfolding observes_def locked_def by metis+
  with d r assms(2) show ?thesis by (simp add: cmd_select_def locked_def Let_def)
qed

lemma locked_validate:
  assumes "locked be k obs v s"
    and "\<not> (g_challenge_valid s \<and> be_hmacSha1 be k (g_sel_challenge s) (store s) \<noteq> None \<and>
      find_tlv TAG_FULL_RESP dat = be_hmacSha1 be k (g_sel_challenge s) (store s))"
  shows "locked be k obs v (snd (cmd_validate be dat le n s))"
  using assms by (auto simp: cmd_validate_def locked_def split: option.splits)

lemma locked_process:
  assumes "observes be obs" and "locked be k obs v s" and "\<not> unlocks be k s (Apdu cmd n)"
  shows "locked be k obs v (snd (process_apdu cmd n s))"
proof (cases "n < 2")
  case True
  with assms(2) show ?thesis by (simp add: process_apdu_def split: option.splits)
next
  case False
  show ?thesis
  proof (cases "apdu_parse cmd")
    case None
    with assms(2) False show ?thesis by (simp add: process_apdu_def locked_def)
  next
    case (Some a)
    have r: "a_ins a = INS_RESET \<Longrightarrow> locked be k obs v (snd (cmd_reset be a s))"
      using assms(2,3) Some by (auto simp: cmd_reset_def)
    have v: "a_ins a = INS_VALIDATE \<Longrightarrow> locked be k obs v (snd (cmd_validate be (apdu_data cmd a) le n s))" for le
      using assms(2,3) Some by (intro locked_validate) auto
    have "g_be s = Some be" "\<not> g_validated s" using assms(2) by (simp_all add: locked_def)
    then show ?thesis
      using Some False r v assms(2) locked_select [OF assms(1,2)]
      by (simp add: process_apdu_def process_validated_def)
  qed
qed

lemma locked_step:
  assumes "observes be obs" and "locked be k obs v s" and "\<not> unlocks be k s x"
  shows "locked be k obs v (oath_step x s)"
proof (cases x)
  case (Apdu cmd n)
  with locked_process [OF assms(1,2)] assms(3) show ?thesis by simp
next
  case Deselect
  with assms(2) show ?thesis by (simp add: deselect_oath_def locked_def)
qed

text \<open>Sequences of operations of which none unlocks.\<close>

fun never_unlocks :: "'b oath_backend \<Rightarrow> bytes \<Rightarrow> 'b oath \<Rightarrow> oath_op list \<Rightarrow> bool" where
  "never_unlocks be k s [] = True"
| "never_unlocks be k s (x # xs) = (\<not> unlocks be k s x \<and> never_unlocks be k (oath_step x s) xs)"

lemma locked_steps:
  assumes "observes be obs" and "locked be k obs v s" and "never_unlocks be k s xs"
  shows "locked be k obs v (fold oath_step xs s)"
  using assms(2,3)
proof (induction xs arbitrary: s)
  case (Cons x xs)
  then show ?case using locked_step [OF assms(1), of k v s x] by simp
qed simp

section \<open>Chained answers\<close>

text \<open>The part of an answer that waits for SEND REMAINING.\<close>

definition rest :: "'b oath \<Rightarrow> bytes" where
  "rest s = take (g_resp_remaining s) (drop (g_resp_pos s) (g_resp s))"

lemma piece_length: "nat (int k + 2) - 2 = k"
  by simp

lemma send_rest:
  assumes "oath_ok s" and "g_resp_remaining s \<noteq> 0" and "2 < n"
    and "cmd_send_remaining le n s = ((k, b), t)"
  shows "oath_ok t \<and> g_resp_remaining t < g_resp_remaining s \<and> rest s = take (nat k - 2) b @ rest t \<and>
    drop (nat k - 2) b = apdu_sw (if g_resp_remaining t = 0 then SW_OK else more_sw (g_resp_remaining t))"
proof -
  define want where "want = next_piece le n (g_resp_remaining s)"
  have "0 < requested le" by (simp add: requested_def unat_gt_0)
  then have want: "0 < want" "want \<le> g_resp_remaining s"
    using assms(2,3) by (auto simp: want_def next_piece_def Let_def)
  let ?body = "take want (drop (g_resp_pos s) (g_resp s))"
  have len: "length ?body = want" using assms(1) want by (auto simp: oath_ok_def min_def)
  have k: "k = int want + 2" "b = ?body @ apdu_sw (if 0 < g_resp_remaining s - want
      then more_sw (g_resp_remaining s - want) else SW_OK)"
    and t: "t = s\<lparr>g_resp_pos := (if 0 < g_resp_remaining s - want then g_resp_pos s + want else 0),
      g_resp_remaining := g_resp_remaining s - want\<rparr>"
    using assms(2,4) by (simp_all add: cmd_send_remaining_def Let_def flip: want_def)
  have "take (g_resp_remaining s) (drop (g_resp_pos s) (g_resp s)) =
      ?body @ take (g_resp_remaining s - want) (drop (g_resp_pos s + want) (g_resp s))"
    using want take_add [of want "g_resp_remaining s - want" "drop (g_resp_pos s) (g_resp s)"]
    by (simp add: add.commute)
  then show ?thesis
    using assms(1) want len by (cases "g_resp_remaining s = want") (auto simp: k t rest_def oath_ok_def piece_length)
qed

lemma rest_length: "oath_ok s \<Longrightarrow> length (rest s) = g_resp_remaining s"
  by (auto simp: rest_def oath_ok_def min_def)

lemma emit_rest:
  assumes "oath_ok s" and "2 \<le> n" and "length payload \<le> 4096" and "emit payload le n s = ((k, b), t)"
    and "g_resp_remaining s = 0"
  shows "take (nat k - 2) b @ rest t = payload \<and> oath_ok t \<and>
    drop (nat k - 2) b = apdu_sw (if g_resp_remaining t = 0 then SW_OK else more_sw (g_resp_remaining t))"
  using assms
  by (auto simp: emit_def Let_def rest_def oath_ok_def piece_length split: if_splits)

text \<open>The status word when \<open>n\<close> bytes of the answer are left.\<close>

definition oath_status :: "nat \<Rightarrow> bytes" where
  "oath_status n = apdu_sw (if n = 0 then SW_OK else more_sw n)"

interpretation oath_answers: chained_answer oath_ok rest emit cmd_send_remaining oath_status 4096
proof
  fix s t :: "'a oath" and n k b le and payload :: bytes
  assume s: "oath_ok s"
  {
    assume "rest s = []" "2 \<le> n" "length payload \<le> 4096" and e: "emit payload le n s = ((k, b), t)"
    moreover from \<open>rest s = []\<close> s have "g_resp_remaining s = 0" using rest_length [of s] by simp
    ultimately show "oath_ok t \<and> take (nat k - 2) b @ rest t = payload \<and>
        drop (nat k - 2) b = oath_status (length (rest t))"
      using emit_rest [OF s _ _ e] rest_length [of t] by (simp add: oath_status_def)
  next
    assume "rest s \<noteq> []" "2 < n" and e: "cmd_send_remaining le n s = ((k, b), t)"
    moreover from \<open>rest s \<noteq> []\<close> s have "g_resp_remaining s \<noteq> 0"
      using rest_length [of s] by (metis length_0_conv)
    ultimately show "oath_ok t \<and> length (rest t) < length (rest s) \<and> take (nat k - 2) b @ rest t = rest s \<and>
        drop (nat k - 2) b = oath_status (length (rest t))"
      using send_rest [OF s _ _ e] rest_length [of t] rest_length [OF s] by (simp add: oath_status_def)
  }
qed

section \<open>Names there and back\<close>

lemma split_char_append: "c \<notin> set a \<Longrightarrow> split_char c (a @ c # b) = Some (a, b)"
  by (induction a) auto

lemma split_char_none: "c \<notin> set a \<Longrightarrow> split_char c a = None"
  by (induction a) auto

lemma split_char_prefix: "split_char c xs = Some (a, b) \<Longrightarrow> xs = a @ c # b \<and> c \<notin> set a"
  by (induction xs arbitrary: a) (auto split: if_splits)

lemma digit_byte: "n < 10 \<Longrightarrow> unat (of_nat (0x30 + n) :: byte) = 0x30 + n"
  by (intro unat_of_nat_byte) simp

lemma digit_props:
  assumes "n < 10"
  shows "is_digit (of_nat (0x30 + n))" "(of_nat (0x30 + n) :: byte) \<noteq> 0" "(of_nat (0x30 + n) :: byte) \<noteq> 0x2F"
    "(of_nat (0x30 + n) :: byte) \<noteq> 0x3A"
  using digit_byte [OF assms] assms
  by (auto simp: is_digit_def word_le_nat_alt word_unat_eq_iff simp del: of_nat_add)

lemma decimal_less: "n < 10 \<Longrightarrow> decimal n = [of_nat (0x30 + n)]"
  by (simp add: decimal.simps)

lemma decimal_step: "10 \<le> n \<Longrightarrow> decimal n = decimal (n div 10) @ [of_nat (0x30 + n mod 10)]"
  by (subst decimal.simps) simp

lemma decimal_ne: "decimal n \<noteq> []"
  by (cases "n < 10") (simp_all add: decimal_less decimal_step not_less)

lemma decimal_digits: "list_all is_digit (decimal n) \<and> 0x2F \<notin> set (decimal n) \<and> 0 \<notin> set (decimal n)"
proof (induction n rule: less_induct)
  case (less n)
  show ?case
  proof (cases "n < 10")
    case True
    with digit_props [OF True] show ?thesis by (auto simp: decimal_less simp del: of_nat_add)
  next
    case False
    with less [of "n div 10"] digit_props [of "n mod 10"] show ?thesis
      by (auto simp: decimal_step not_less simp del: of_nat_add)
  qed
qed

lemma decimal_value: "digits_value (decimal n) = n"
proof (induction n rule: less_induct)
  case (less n)
  show ?case
  proof (cases "n < 10")
    case True
    with digit_byte [OF True] show ?thesis by (simp add: decimal_less digits_value_def del: of_nat_add)
  next
    case False
    have "digits_value (decimal n) = 10 * digits_value (decimal (n div 10)) + n mod 10"
      using False digit_byte [of "n mod 10"] by (simp add: decimal_step digits_value_def not_less del: of_nat_add)
    with less [of "n div 10"] False show ?thesis by simp
  qed
qed

lemma decimal_length: "0 < k \<Longrightarrow> n < 10 ^ k \<Longrightarrow> length (decimal n) \<le> k"
proof (induction k arbitrary: n)
  case (Suc k)
  show ?case
  proof (cases "n < 10")
    case True
    then show ?thesis by (simp add: decimal_less)
  next
    case False
    then have "k \<noteq> 0" using Suc.prems by (cases k) auto
    moreover have "n div 10 < 10 ^ k" using Suc.prems by simp
    ultimately show ?thesis using Suc.IH [of "n div 10"] False by (simp add: decimal_step not_less)
  qed
qed simp

text \<open>
  A credential whose fields fit the store and whose texts do not contain the separators: the issuer
  has no colon, the account none either if there is no issuer, and what comes before a slash is not
  a number.
\<close>

definition name_ok :: "bytes \<Rightarrow> bytes \<Rightarrow> bool" where
  "name_ok issuer account \<longleftrightarrow>
     length issuer \<le> 32 \<and> 0 < length account \<and> length account \<le> 16 \<and>
     0 \<notin> set issuer \<and> 0 \<notin> set account \<and> 0x3A \<notin> set issuer \<and> (issuer = [] \<longrightarrow> 0x3A \<notin> set account) \<and>
     (\<forall>a b. split_char 0x2F ((if issuer \<noteq> [] then issuer @ [0x3A] else []) @ account) = Some (a, b) \<longrightarrow>
        a = [] \<or> \<not> list_all is_digit a)"

lemma takeWhile_nonzero: "0 \<notin> set xs \<Longrightarrow> takeWhile (\<lambda>c. c \<noteq> 0) xs = xs" for xs :: bytes
  by (induction xs) auto

lemma parse_issuer_name:
  assumes "name_ok issuer account"
  shows "parse_issuer p ((if issuer \<noteq> [] then issuer @ [0x3A] else []) @ account) = Some (p, issuer, account)"
  using assms split_char_append [of "0x3A" issuer account] split_char_none [of "0x3A" account]
  by (auto simp: parse_issuer_def name_ok_def)

lemma parse_period:
  assumes "0 \<notin> set name" and "length name < 128" and "split_char 0x2F name = Some (ds, tail)"
    and "ds \<noteq> []" and "list_all is_digit ds"
  shows "parse_yk_name name = parse_issuer (if 0 < strtol ds then of_nat (strtol ds) else 30) tail"
  using assms by (simp add: parse_yk_name_def takeWhile_nonzero)

lemma parse_no_period:
  assumes "0 \<notin> set name" and "length name < 128"
    and "\<forall>a b. split_char 0x2F name = Some (a, b) \<longrightarrow> a = [] \<or> \<not> list_all is_digit a"
  shows "parse_yk_name name = parse_issuer 30 name"
  using assms by (auto simp: parse_yk_name_def takeWhile_nonzero split: option.splits)

lemma yk_name_parsed:
  assumes "name_ok (m_issuer m) (m_name m)" and "unat (m_period m) < 2 ^ 31"
  shows "parse_yk_name (build_yk_name m) =
    Some (if m_type m = OTYPE_TOTP \<and> m_period m \<noteq> 0 then m_period m else 30, m_issuer m, m_name m)"
proof -
  let ?tail = "(if m_issuer m \<noteq> [] then m_issuer m @ [0x3A] else []) @ m_name m"
  let ?d = "decimal (unat (m_period m))"
  have tail0: "0 \<notin> set ?tail" and tail_len: "length ?tail \<le> 49" using assms(1) by (auto simp: name_ok_def)
  note pi = parse_issuer_name [OF assms(1)] and d = decimal_digits [of "unat (m_period m)"]
  show ?thesis
  proof (cases "m_type m = OTYPE_TOTP \<and> m_period m \<noteq> 0 \<and> m_period m \<noteq> 30")
    case True
    have b: "build_yk_name m = ?d @ 0x2F # ?tail" using True by (simp add: build_yk_name_def)
    have "length ?d \<le> 10" using assms(2) by (intro decimal_length) simp_all
    then have len: "length (?d @ 0x2F # ?tail) < 128" using tail_len by simp
    have z: "0 \<notin> set (?d @ 0x2F # ?tail)" using d tail0 by auto
    have sp: "split_char 0x2F (?d @ 0x2F # ?tail) = Some (?d, ?tail)"
      using d by (intro split_char_append) simp
    have "strtol ?d = unat (m_period m)" using assms(2) by (simp add: strtol_def decimal_value)
    moreover have "0 < unat (m_period m)" using True by (simp add: unat_gt_0)
    ultimately have p: "(if 0 < strtol ?d then of_nat (strtol ?d) else 30) = m_period m" by simp
    have "list_all is_digit ?d" using d by blast
    from parse_period [OF z len sp decimal_ne this] show ?thesis
      unfolding b p pi using True by simp
  next
    case False
    then have b: "build_yk_name m = ?tail" by (auto simp: build_yk_name_def)
    have "length ?tail < 128" using tail_len by simp
    from parse_no_period [OF tail0 this] assms(1) show ?thesis
      unfolding b pi [of 30] using False by (auto simp: name_ok_def)
  qed
qed

section \<open>Properties\<close>

text \<open>A back end whose store is the access key, for the witnesses.\<close>

definition bob :: oath_meta where
  "bob = \<lparr>m_used = True, m_name = [0x62, 0x6F, 0x62], m_issuer = [0x41], m_type = OTYPE_TOTP,
    m_algorithm = 0, m_digits = 6, m_period = 60, m_flags = 0\<rparr>"

definition key_backend :: "bytes option oath_backend" where
  "key_backend =
    \<lparr>be_capacity = (\<lambda>b. 1), be_read = (\<lambda>s b. Some bob), be_calculate = (\<lambda>s c b. (Some ([1, 2, 3, 4], 6), b)),
     be_addRaw = (\<lambda>n b. (False, b)), be_remove = (\<lambda>s b. (True, b)), be_wipeAll = (\<lambda>b. b),
     be_devId = (\<lambda>b. ([1, 2, 3, 4, 5, 6, 7, 8], b)), be_akeyGet = (\<lambda>b. b),
     be_akeySet = (\<lambda>k b. (True, Some k)), be_akeyClear = (\<lambda>b. None),
     be_hmacSha1 = (\<lambda>k d b. Some (take 20 (k @ d))), be_rng = (\<lambda>n b. (Some (replicate n 7), b)),
     be_touchOk = (\<lambda>s b. (True, b))\<rparr>"

definition locked_oath :: "bytes option oath" where
  "locked_oath =
    \<lparr>g_be = Some key_backend, g_validated = False, g_sel_challenge = replicate 8 0,
     g_challenge_valid = False, g_resp = replicate 4096 0, g_resp_pos = 0, g_resp_remaining = 0,
     store = Some (replicate 16 9)\<rparr>"

definition needs_session :: "apdu \<Rightarrow> bool" where
  "needs_session a \<longleftrightarrow> \<not> (a_ins a = INS_ISO_SELECT \<and> a_p1 a = 0x04) \<and>
     a_ins a \<noteq> INS_SEND_REMAINING \<and> a_ins a \<noteq> INS_RESET \<and> a_ins a \<noteq> INS_VALIDATE"



text \<open>
  An answer that does not fit into one response is delivered completely: its first part and the
  data of enough SEND REMAINING commands, whatever lengths they ask for, are the answer, and the
  status word announces exactly whether more follows.
\<close>

theorem oath_chaining:
  assumes "oath_ok s" and "rest s = []" and "2 \<le> n" and "length payload \<le> 4096"
    and "length payload \<le> length cs" and "\<forall>(le, m) \<in> set cs. 2 < m"
  shows "case emit payload le n s of ((k, b), t) \<Rightarrow>
    take (nat k - 2) b @ fst (fetch_rest cmd_send_remaining rest cs t) = payload \<and>
    rest (snd (fetch_rest cmd_send_remaining rest cs t)) = [] \<and>
    drop (nat k - 2) b = oath_status (length (rest t))"
  by (rule oath_answers.delivered [OF assms])

theorem oath_chaining_witness:
  "case emit [1, 2, 3, 4, 5, 6, 7] 0 5 locked_oath of ((k, b), t) \<Rightarrow>
    take (nat k - 2) b @ fst (fetch_rest cmd_send_remaining rest (replicate 7 (2, 9)) t) = [1, 2, 3, 4, 5, 6, 7] \<and>
    rest (snd (fetch_rest cmd_send_remaining rest (replicate 7 (2, 9)) t)) = [] \<and>
    drop (nat k - 2) b = oath_status (length (rest t))"
  by (rule oath_chaining) (simp_all add: locked_oath_def oath_ok_def rest_def)

text \<open>
  The name shown for a credential leads back to it: period, issuer and account are read from it
  as they were stored, if the texts do not contain the separators.
\<close>

theorem oath_name_roundtrip:
  assumes "name_ok (m_issuer m) (m_name m)" and "unat (m_period m) < 2 ^ 31"
  shows "parse_yk_name (build_yk_name m) =
    Some (if m_type m = OTYPE_TOTP \<and> m_period m \<noteq> 0 then m_period m else 30, m_issuer m, m_name m)"
  by (rule yk_name_parsed [OF assms])

theorem oath_name_roundtrip_witness:
  "parse_yk_name (build_yk_name bob) = Some (60, [0x41], [0x62, 0x6F, 0x62])"
  using oath_name_roundtrip [of bob] by (simp add: bob_def name_ok_def)

section \<open>Where the code falls short\<close>

text \<open>
  The result of the random generator is ignored: when it fails, the challenge of a session is what
  the last one left, all zeros after a deselection, and a recorded VALIDATE can be replayed.
\<close>

lemma oath_stale_challenge:
  assumes "be_devId be (store s) = (d, b1)" and "be_akeyGet be b1 = Some k" and "be_rng be 8 b1 = (None, b2)"
  shows "g_sel_challenge (snd (cmd_select be le n (deselect_oath s))) = replicate 8 0 \<and>
    g_challenge_valid (snd (cmd_select be le n (deselect_oath s)))"
  using assms by (simp add: cmd_select_def deselect_oath_def emit_def Let_def)

text \<open>
  A SELECT locks the session again but leaves the rest of an earlier answer, which SEND REMAINING
  gives without a validated session.
\<close>

lemma oath_select_keeps_rest:
  assumes "be_devId be (store s) = (d, b1)" and "be_akeyGet be b1 = Some k" and "2 \<le> n"
    and "length d = 8" and "be_rng be 8 b1 = (Some c, b2)" and "length c = 8" and "27 + 4 + 2 \<le> n"
  shows "rest (snd (cmd_select be 0 n s)) = rest s \<and> \<not> g_validated (snd (cmd_select be 0 n s))"
  using assms by (auto simp: cmd_select_def emit_def Let_def put_tlv_def rest_def requested_def)

end
