(* ===== verification/Oath_Card.thy ===== *)
theory Oath_Card
  imports Oath Ccid
begin

text \<open>
  The YKOATH applet behind the reader: the applet registered with the dispatcher
  (\<^verbatim>\<open>scard_register_applet\<close>), the dispatcher behind the CCID transport. The applet keeps the contract
  of \<^verbatim>\<open>applet.h\<close> under the invariant of its own buffers, so the transport's guarantees hold for every
  sequence of messages.
\<close>

text \<open>A card with the applet alone, as \<^verbatim>\<open>mod_2fa\<close> registers it.\<close>

definition oath_descriptor :: "'b oath descriptor" where
  "oath_descriptor = \<lparr>d_name = Some (ap_name (oath_applet :: 'b oath applet)),
    d_aid = Some (ap_aid (oath_applet :: 'b oath applet)), d_process = Some process_apdu,
    d_deselect = Some deselect_oath\<rparr>"

definition oath_card :: "'b oath \<Rightarrow> 'b oath scard" where
  "oath_card w = snd (scard_register_applet oath_descriptor False (scard_init w))"

lemma oath_card_good: "oath_ok w \<Longrightarrow> scard_good oath_ok 2 (oath_card w)"
proof -
  assume w: "oath_ok w"
  have "scard_ok (scard_init w)" by (simp add: scard_init_def scard_ok_def index_ok_def)
  then have ok: "scard_ok (oath_card w)" unfolding oath_card_def by (rule register_ok)
  have "s_applets (oath_card w) = [oath_applet]"
    by (simp add: oath_card_def scard_register_applet_def oath_descriptor_def scard_init_def oath_applet_def)
  moreover have "s_world (oath_card w) = w"
    by (simp add: oath_card_def scard_register_applet_def oath_descriptor_def scard_init_def oath_applet_def)
  ultimately show ?thesis using ok w oath_well_behaved by (simp add: scard_good_def)
qed

text \<open>The responses of the reader to a sequence of messages.\<close>

fun ccid_session :: "bytes list \<Rightarrow> nat \<Rightarrow> ccid \<Rightarrow> 's scard \<Rightarrow> (int \<times> bytes) list" where
  "ccid_session [] n st c = []"
| "ccid_session (msg # msgs) n st c =
    (case ccid_process_message msg n st c of (r, st', c') \<Rightarrow> r # ccid_session msgs n st' c')"

lemma session_framed:
  assumes "scard_good W m c" and "31 \<le> n" and "10 + m \<le> n" and "n < 2 ^ 32" and "list_all (\<lambda>m. 10 \<le> length m) msgs"
  shows "list_all2 (\<lambda>m r. framed m n r) msgs (ccid_session msgs n st c)"
  using assms(1,5)
proof (induction msgs arbitrary: st c)
  case (Cons msg msgs)
  obtain r st' c' where r: "ccid_process_message msg n st c = (r, st', c')"
    by (cases "ccid_process_message msg n st c")
  with ccid_framed_good [OF Cons.prems(1) assms(2-4), of msg st] Cons.prems(2)
  have "framed msg n r" "scard_good W m c'" by simp_all
  with Cons.IH Cons.prems(2) r show ?case by simp
qed simp

text \<open>
  A host that talks to the YKOATH applet through the reader gets, for every message of any
  sequence, a well-formed response that echoes the slot and sequence number of the message and fits
  the buffer, whatever the applet is asked and whatever its store does.
\<close>

theorem oath_over_ccid:
  assumes "oath_ok w" and "31 \<le> n" and "n < 2 ^ 32" and "list_all (\<lambda>m. 10 \<le> length m) msgs"
  shows "list_all2 (\<lambda>m r. framed m n r) msgs (ccid_session msgs n st (oath_card w))"
  using session_framed [OF oath_card_good [OF assms(1)] assms(2) _ assms(3,4)] assms(2) by simp

theorem oath_over_ccid_witness:
  "list_all2 (\<lambda>m r. framed m 2058 r)
    [[0x62, 0, 0, 0, 0, 0, 1, 0, 0, 0], [0x6F, 4, 0, 0, 0, 0, 2, 0, 0, 0, 0, 0xA1, 0, 0]]
    (ccid_session [[0x62, 0, 0, 0, 0, 0, 1, 0, 0, 0], [0x6F, 4, 0, 0, 0, 0, 2, 0, 0, 0, 0, 0xA1, 0, 0]]
      2058 \<lparr>cc_initialized = True, cc_slot = 0, cc_seq = 0\<rparr> (oath_card locked_oath))"
  by (rule oath_over_ccid) (simp_all add: locked_oath_def oath_ok_def)

end
