(* ===== verification/Piv_Tlv.thy ===== *)
theory Piv_Tlv
  imports Prelude
begin

text \<open>
  The BER-TLV reader and writer, the DER encoder of signatures and the builders of the fixed data
  objects of the PIV applet (\<^verbatim>\<open>components/mod_piv/src/piv_tlv.cpp\<close> and \<^verbatim>\<open>piv_objects.cpp\<close>).

  A buffer that is read is a byte list and a pointer into it is the rest of the list from there on.
  A buffer that is written is the list of the bytes in front of the cursor, with its capacity beside
  it. A null buffer comes with the length 0 and is the empty list.
\<close>

section \<open>Reading\<close>

definition readTag :: "bytes \<Rightarrow> (u32 \<times> bytes) option" where
  "readTag p =
    (case p of
       [] \<Rightarrow> None
     | first # p \<Rightarrow>
         if first AND 0x1F = 0x1F then
           (case p of [] \<Rightarrow> None | b # p \<Rightarrow> Some (push_bit 8 (ucast first) OR ucast b, p))
         else Some (ucast first, p))"

definition readLen :: "bytes \<Rightarrow> (nat \<times> bytes) option" where
  "readLen p =
    (case p of
       [] \<Rightarrow> None
     | first # p \<Rightarrow>
         if first < 0x80 then Some (unat first, p)
         else
           let nbytes = unat (first AND 0x7F) in
           if nbytes = 0 \<or> 3 < nbytes then None
           else if length p < nbytes then None
           else Some (foldl (\<lambda>len b. 256 * len + unat b) 0 (take nbytes p), drop nbytes p))"

lemma readTag_shorter: "readTag p = Some (t, q) \<Longrightarrow> length q < length p"
  by (auto simp: readTag_def split: list.splits if_splits)

lemma readLen_shorter: "readLen p = Some (l, q) \<Longrightarrow> length q < length p"
  by (auto simp: readLen_def Let_def split: list.splits if_splits)

function tlvFind :: "bytes \<Rightarrow> u32 \<Rightarrow> bytes option" where
  "tlvFind p tag =
    (case readTag p of
       None \<Rightarrow> None
     | Some (t, q) \<Rightarrow>
         (case readLen q of
            None \<Rightarrow> None
          | Some (l, r) \<Rightarrow>
              if length r < l then None
              else if t = tag then Some (take l r)
              else tlvFind (drop l r) tag))"
  by pat_completeness auto
termination
  by (relation "measure (length o fst)") (auto dest!: readTag_shorter readLen_shorter)

declare tlvFind.simps [simp del]

section \<open>Writing\<close>

text \<open>The bytes written; none stands for the result 0 of an overflow.\<close>

definition tlvWriteTag :: "nat \<Rightarrow> u32 \<Rightarrow> bytes" where
  "tlvWriteTag cap tag =
    (if tag \<le> 0xFF then (if cap < 1 then [] else [ucast tag])
     else if cap < 2 then []
     else [byte_at 8 tag, byte_at 0 tag])"

definition tlvWriteLen :: "nat \<Rightarrow> nat \<Rightarrow> bytes" where
  "tlvWriteLen cap len =
    (if len < 0x80 then (if cap < 1 then [] else [of_nat len])
     else if len \<le> 0xFF then (if cap < 2 then [] else [0x81, of_nat len])
     else if cap < 3 then []
     else [0x82, of_nat (len div 256), of_nat len])"

definition tlvWrite :: "nat \<Rightarrow> u32 \<Rightarrow> bytes \<Rightarrow> bytes \<Rightarrow> bytes option" where
  "tlvWrite cap tag value buf =
    (let t = tlvWriteTag (cap - length buf) tag in
     if t = [] then None
     else
       let l = tlvWriteLen (cap - (length buf + length t)) (length value) in
       if l = [] then None
       else if cap < length buf + length t + length l + length value then None
       else Some (buf @ t @ l @ value))"

text \<open>\<^verbatim>\<open>if (!tlvWrite(...)) return 0;\<close> for one item after the other.\<close>

fun tlvWrites :: "nat \<Rightarrow> (u32 \<times> bytes) list \<Rightarrow> bytes \<Rightarrow> bytes option" where
  "tlvWrites cap [] buf = Some buf"
| "tlvWrites cap ((tag, value) # items) buf =
    (case tlvWrite cap tag value buf of None \<Rightarrow> None | Some buf \<Rightarrow> tlvWrites cap items buf)"

section \<open>Signatures\<close>

text \<open>\<open>der_start in32\<close> is the index at which the loop over the leading zeros stops.\<close>

definition der_start :: "bytes \<Rightarrow> nat" where
  "der_start in32 = length (takeWhile (\<lambda>b. b = 0) (take 31 in32))"

definition derInteger :: "bytes \<Rightarrow> nat \<Rightarrow> bytes" where
  "derInteger in32 outCap =
    (let start = der_start in32;
         needPad = (in32 ! start AND 0x80 \<noteq> 0);
         contentLen = 32 - start + (if needPad then 1 else 0) in
     if outCap < 2 + contentLen then []
     else [0x02, of_nat contentLen] @ (if needPad then [0x00] else []) @ drop start in32)"

definition derEncodeEcdsaSig :: "bytes \<Rightarrow> nat \<Rightarrow> bytes" where
  "derEncodeEcdsaSig rs outCap =
    (let r = derInteger (take 32 rs) 80 in
     if r = [] then []
     else
       let s = derInteger (drop 32 rs) (80 - length r) in
       if s = [] then []
       else if outCap < 2 + length (r @ s) then []
       else [0x30, of_nat (length (r @ s))] @ r @ s)"

section \<open>Data objects\<close>

abbreviation (input) "PIV_KEY_9A \<equiv> (0x9A :: byte)"
abbreviation (input) "PIV_KEY_9C \<equiv> (0x9C :: byte)"
abbreviation (input) "PIV_KEY_9D \<equiv> (0x9D :: byte)"
abbreviation (input) "PIV_KEY_9E \<equiv> (0x9E :: byte)"
abbreviation (input) "PIV_KEY_9B \<equiv> (0x9B :: byte)"
abbreviation (input) "PIV_ALG_ECC_P256 \<equiv> (0x11 :: byte)"

abbreviation (input) "PIV_TAG_APT \<equiv> (0x61 :: u32)"
abbreviation (input) "PIV_TAG_AID \<equiv> (0x4F :: u32)"
abbreviation (input) "PIV_TAG_ALLOC_AUTH \<equiv> (0x79 :: u32)"
abbreviation (input) "PIV_TAG_APP_LABEL \<equiv> (0x50 :: u32)"
abbreviation (input) "PIV_TAG_ALG_ID \<equiv> (0xAC :: u32)"
abbreviation (input) "PIV_TAG_DATA_OBJECT \<equiv> (0x53 :: u32)"
abbreviation (input) "PIV_TAG_TAG_LIST \<equiv> (0x5C :: u32)"
abbreviation (input) "PIV_TAG_DISCOVERY \<equiv> (0x7E :: u32)"
abbreviation (input) "PIV_TAG_DYN_AUTH \<equiv> (0x7C :: u32)"
abbreviation (input) "PIV_TAG_WITNESS \<equiv> (0x80 :: u32)"
abbreviation (input) "PIV_TAG_CHALLENGE \<equiv> (0x81 :: u32)"
abbreviation (input) "PIV_TAG_RESPONSE \<equiv> (0x82 :: u32)"
abbreviation (input) "PIV_TAG_EXP \<equiv> (0x85 :: u32)"
abbreviation (input) "PIV_TAG_PUBKEY \<equiv> (0x7F49 :: u32)"
abbreviation (input) "PIV_TAG_PUBKEY_POINT \<equiv> (0x86 :: u32)"

abbreviation (input) "PIV_OBJ_CHUID \<equiv> (0x5FC102 :: u32)"
abbreviation (input) "PIV_OBJ_CCC \<equiv> (0x5FC107 :: u32)"
abbreviation (input) "PIV_OBJ_CERT_9A \<equiv> (0x5FC105 :: u32)"
abbreviation (input) "PIV_OBJ_CERT_9E \<equiv> (0x5FC101 :: u32)"
abbreviation (input) "PIV_OBJ_CERT_9C \<equiv> (0x5FC10A :: u32)"
abbreviation (input) "PIV_OBJ_CERT_9D \<equiv> (0x5FC10B :: u32)"
abbreviation (input) "PIV_OBJ_DISCOVERY \<equiv> (0x7E :: u32)"

definition kPivAidFull :: bytes where
  "kPivAidFull = [0xA0, 0x00, 0x00, 0x03, 0x08, 0x00, 0x00, 0x10, 0x00, 0x01, 0x00]"

definition kNistRid :: bytes where
  "kNistRid = [0xA0, 0x00, 0x00, 0x03, 0x08]"

text \<open>The ASCII bytes of a string literal.\<close>

definition ascii :: "string \<Rightarrow> bytes" where
  "ascii s = map (\<lambda>c. of_nat (of_char c)) s"

definition certObjectToKeyRef :: "u32 \<Rightarrow> byte" where
  "certObjectToKeyRef objectTag =
    (if objectTag = PIV_OBJ_CERT_9A then PIV_KEY_9A
     else if objectTag = PIV_OBJ_CERT_9C then PIV_KEY_9C
     else if objectTag = PIV_OBJ_CERT_9D then PIV_KEY_9D
     else if objectTag = PIV_OBJ_CERT_9E then PIV_KEY_9E
     else 0)"

definition buildApt :: "nat \<Rightarrow> bytes option" where
  "buildApt outCap =
    (case tlvWrite 16 PIV_TAG_AID kNistRid [] of
       None \<Rightarrow> None
     | Some alloc \<Rightarrow>
         (case tlvWrites 64 [(PIV_TAG_AID, kPivAidFull), (PIV_TAG_ALLOC_AUTH, alloc),
             (PIV_TAG_APP_LABEL, ascii ''CDC Badge PIV''),
             (PIV_TAG_ALG_ID, [0x80, 0x01, PIV_ALG_ECC_P256, 0x06, 0x01, 0x00])] [] of
            None \<Rightarrow> None
          | Some inner \<Rightarrow> tlvWrite outCap PIV_TAG_APT inner []))"

definition kFascn :: bytes where
  "kFascn = [0xD4, 0xE7, 0x39, 0xDA, 0x73, 0x9C, 0xED, 0x39, 0xCE, 0x73, 0x9D, 0x83,
    0x68, 0x58, 0x21, 0x08, 0x42, 0x10, 0x84, 0x21, 0xC8, 0x42, 0x10, 0xC3, 0xEB]"

definition buildChuid :: "bytes \<Rightarrow> nat \<Rightarrow> bytes option" where
  "buildChuid guid outCap =
    tlvWrites outCap [(0x30, kFascn), (0x34, guid), (0x35, ascii ''20351231''), (0x3E, []), (0xFE, [])] []"

definition buildCcc :: "bytes \<Rightarrow> nat \<Rightarrow> bytes option" where
  "buildCcc cardId outCap =
    tlvWrites outCap
      [(0xF0, [0xA0, 0x00, 0x00, 0x01, 0x16, 0xFF, 0x21] @ cardId), (0xF1, [0x21]), (0xF2, [0x21]),
       (0xF3, []), (0xF4, [0x00]), (0xF5, [0x10]), (0xF6, []), (0xF7, []), (0xFA, []), (0xFB, []),
       (0xFC, []), (0xFD, []), (0xFE, [])] []"

definition buildDiscovery :: "nat \<Rightarrow> bytes option" where
  "buildDiscovery outCap =
    (case tlvWrites 32 [(PIV_TAG_AID, kPivAidFull), (0x5F2F, [0x40, 0x00])] [] of
       None \<Rightarrow> None
     | Some inner \<Rightarrow> tlvWrite outCap PIV_TAG_DISCOVERY inner [])"

section \<open>What is written is read back\<close>

text \<open>Tags the writer encodes so that the reader reads them as one tag.\<close>

definition tag_ok :: "u32 \<Rightarrow> bool" where
  "tag_ok t \<longleftrightarrow>
    (if t \<le> 0xFF then (ucast t :: byte) AND 0x1F \<noteq> 0x1F
     else t \<le> 0xFFFF \<and> byte_at 8 t AND 0x1F = 0x1F)"

definition tlv :: "u32 \<Rightarrow> bytes \<Rightarrow> bytes" where
  "tlv tag value = tlvWriteTag 2 tag @ tlvWriteLen 3 (length value) @ value"

lemma join_bytes: "t \<le> 0xFFFF \<Longrightarrow> push_bit 8 (ucast (byte_at 8 t)) OR ucast (byte_at 0 t) = t" for t :: u32
proof -
  assume "t \<le> 0xFFFF"
  then have small: "unat t < 2 ^ 16" by (simp add: word_le_nat_alt)
  show ?thesis
    by (rule bit_word_eqI) (auto simp: bit_simps bit_byte_at dest: bit_small [OF small])
qed

lemma readTag_tlvWriteTag: "tag_ok t \<Longrightarrow> readTag (tlvWriteTag 2 t @ p) = Some (t, p)"
proof (cases "t \<le> 0xFF")
  case True
  then have "unat t < 2 ^ 8" by (simp add: word_le_nat_alt)
  with ucast_narrow [where 'b = 8, of t] True show "tag_ok t \<Longrightarrow> ?thesis"
    by (simp add: tag_ok_def tlvWriteTag_def readTag_def)
next
  case False
  with join_bytes [of t] show "tag_ok t \<Longrightarrow> ?thesis"
    by (simp add: tag_ok_def tlvWriteTag_def readTag_def)
qed

lemma short_len: "l < 128 \<Longrightarrow> (of_nat l :: byte) < 0x80"
  by (simp add: word_less_nat_alt unat_of_nat_byte)

lemma readLen_tlvWriteLen: "l < 65536 \<Longrightarrow> readLen (tlvWriteLen 3 l @ p) = Some (l, p)"
  by (auto simp: tlvWriteLen_def readLen_def short_len unat_of_nat_byte unsigned_of_nat take_bit_eq_mod)

lemma written_lengths:
  "length (tlvWriteTag c t) = (if t \<le> 0xFF then if c < 1 then 0 else 1 else if c < 2 then 0 else 2)"
  "length (tlvWriteLen c l) = (if l < 128 then if c < 1 then 0 else 1
     else if l \<le> 255 then if c < 2 then 0 else 2 else if c < 3 then 0 else 3)"
  by (simp_all add: tlvWriteTag_def tlvWriteLen_def)

lemma tlvWrite_eq:
  assumes "length buf \<le> cap"
  shows "tlvWrite cap t v buf =
    (if length buf + length (tlv t v) \<le> cap then Some (buf @ tlv t v) else None)"
  using assms
  by (auto simp: tlvWrite_def tlv_def tlvWriteTag_def tlvWriteLen_def Let_def)

definition tlvs :: "(u32 \<times> bytes) list \<Rightarrow> bytes" where
  "tlvs items = concat (map (\<lambda>(t, v). tlv t v) items)"

lemma tlvs_simps [simp]: "tlvs [] = []" "tlvs ((t, v) # items) = tlv t v @ tlvs items"
  by (simp_all add: tlvs_def)

lemma tlvWrites_eq:
  assumes "length buf \<le> cap"
  shows "tlvWrites cap items buf =
    (if length buf + length (tlvs items) \<le> cap then Some (buf @ tlvs items) else None)"
  using assms
proof (induction items arbitrary: buf)
  case (Cons i items)
  obtain t v where "i = (t, v)" by (cases i)
  with Cons show ?case by (auto simp: tlvWrite_eq)
qed simp

lemma tlvFind_nil [simp]: "tlvFind [] tag = None"
  by (subst tlvFind.simps) (simp add: readTag_def)

lemma tlvFind_tlv:
  assumes "tag_ok t" and "length v < 65536"
  shows "tlvFind (tlv t v @ p) tag = (if t = tag then Some v else tlvFind p tag)"
  by (subst tlvFind.simps) (simp add: tlv_def readTag_tlvWriteTag readLen_tlvWriteLen assms)

lemma tlvFind_tlvs:
  "\<forall>(t, v) \<in> set items. tag_ok t \<and> length v < 65536 \<Longrightarrow> tlvFind (tlvs items) tag = map_of items tag"
  by (induction items) (auto simp: tlvFind_tlv)

lemma tlvFind_length: "tlvFind p tag = Some v \<Longrightarrow> length v \<le> length p"
proof (induction p tag rule: tlvFind.induct)
  case (1 p tag)
  show ?case
  proof (cases "readTag p")
    case None
    with 1(2) show ?thesis by (simp add: tlvFind.simps [of p])
  next
    case t: (Some x)
    obtain ty q where x: "x = (ty, q)" by (cases x)
    show ?thesis
    proof (cases "readLen q")
      case None
      with 1(2) t x show ?thesis by (simp add: tlvFind.simps [of p])
    next
      case l: (Some y)
      obtain k r where y: "y = (k, r)" by (cases y)
      have "length r < length p" using t l x y by (auto dest!: readTag_shorter readLen_shorter)
      moreover have "length v \<le> length r"
        using 1(1) [OF t x [symmetric] l y [symmetric]] 1(2) t l x y
        by (auto simp: tlvFind.simps [of p] split: if_splits)
      ultimately show ?thesis by simp
    qed
  qed
qed

section \<open>Signatures in DER\<close>

definition be_value :: "bytes \<Rightarrow> nat" where
  "be_value bs = foldl (\<lambda>v b. 256 * v + unat b) 0 bs"

text \<open>
  A reader of \<^verbatim>\<open>SEQUENCE { INTEGER r, INTEGER s }\<close> that takes nothing but the distinguished encoding:
  lengths of one byte that match, no sign bit, no leading zero that the sign does not require, and
  nothing behind.
\<close>

definition der_int :: "bytes \<Rightarrow> nat option" where
  "der_int v =
    (if v = [] \<or> 0x80 \<le> hd v \<or> (1 < length v \<and> hd v = 0 \<and> v ! 1 < 0x80) then None
     else Some (be_value v))"

fun der_item :: "byte \<Rightarrow> bytes \<Rightarrow> (bytes \<times> bytes) option" where
  "der_item tag (t # l # p) =
    (if t = tag \<and> l < 0x80 \<and> unat l \<le> length p then Some (take (unat l) p, drop (unat l) p) else None)"
| "der_item tag p = None"

definition der_signature :: "bytes \<Rightarrow> (nat \<times> nat) option" where
  "der_signature d =
    (case der_item 0x30 d of
       Some (body, []) \<Rightarrow>
         (case der_item 0x02 body of
            Some (r, p) \<Rightarrow>
              (case der_item 0x02 p of
                 Some (s, []) \<Rightarrow>
                   (case (der_int r, der_int s) of (Some r, Some s) \<Rightarrow> Some (r, s) | _ \<Rightarrow> None)
               | _ \<Rightarrow> None)
          | _ \<Rightarrow> None)
     | _ \<Rightarrow> None)"

lemma be_value_Nil [simp]: "be_value [] = 0"
  by (simp add: be_value_def)

lemma be_value_Cons: "be_value (b # bs) = unat b * 256 ^ length bs + be_value bs"
proof -
  have "foldl (\<lambda>v b. 256 * v + unat b) a bs = a * 256 ^ length bs + foldl (\<lambda>v b. 256 * v + unat b) 0 bs" for a
  proof (induction bs arbitrary: a)
    case (Cons c cs)
    from Cons [of "256 * a + unat c"] Cons [of "unat c"] show ?case by (simp add: algebra_simps)
  qed simp
  from this [of "unat b"] show ?thesis by (simp add: be_value_def)
qed

lemma be_value_zeros: "list_all (\<lambda>b. b = 0) zs \<Longrightarrow> be_value (zs @ bs) = be_value bs"
  by (induction zs) (simp_all add: be_value_Cons)

text \<open>The content of the integer \<^verbatim>\<open>derInteger\<close> writes.\<close>

definition der_content :: "bytes \<Rightarrow> bytes" where
  "der_content in32 =
    (if in32 ! der_start in32 AND 0x80 \<noteq> 0 then [0x00] else []) @ drop (der_start in32) in32"

lemma sign_bit: "b AND 0x80 \<noteq> 0 \<longleftrightarrow> 0x80 \<le> b" for b :: byte
proof -
  have "b AND 0x80 \<noteq> 0 \<longleftrightarrow> bit b 7"
    by (simp add: bit_iff_and_push_bit_not_eq_0 numeral_eq_Suc)
  also have "\<dots> \<longleftrightarrow> bit (unat b) 7" by (simp add: bit_unsigned_iff)
  also have "\<dots> \<longleftrightarrow> odd (unat b div 2 ^ 7)" by (rule bit_iff_odd)
  also have "\<dots> \<longleftrightarrow> 128 \<le> unat b"
  proof -
    have "unat b div 128 < 2" using unat_less [of b] by simp
    then have "odd (unat b div 128) \<longleftrightarrow> unat b div 128 = 1" by (auto simp: less_2_cases_iff)
    with \<open>unat b div 128 < 2\<close> show ?thesis by auto
  qed
  finally show ?thesis by (simp add: word_le_nat_alt)
qed

lemma der_start_less: "length in32 = 32 \<Longrightarrow> der_start in32 < 32"
  using length_takeWhile_le [of "\<lambda>b. b = 0" "take 31 in32"] by (simp add: der_start_def)

lemma der_zeros: "list_all (\<lambda>b. b = 0) (take (der_start in32) in32)"
proof -
  let ?zs = "takeWhile (\<lambda>b. b = 0) (take 31 in32)"
  have "length ?zs \<le> 31" using length_takeWhile_le [of "\<lambda>b. b = 0" "take 31 in32"] by simp
  then have "take (der_start in32) in32 = ?zs"
    using takeWhile_eq_take [of "\<lambda>b. b = 0" "take 31 in32"] by (simp add: der_start_def min_def)
  then show ?thesis by (auto simp: list_all_iff dest: set_takeWhileD)
qed

lemma der_first: "length in32 = 32 \<Longrightarrow> der_start in32 < 31 \<Longrightarrow> in32 ! der_start in32 \<noteq> 0"
  using nth_length_takeWhile [of "\<lambda>b. b = 0" "take 31 in32"] by (simp add: der_start_def)

lemma der_int_content:
  assumes "length in32 = 32"
  shows "der_int (der_content in32) = Some (be_value in32)"
proof -
  let ?k = "der_start in32"
  note k = der_start_less [OF assms]
  have split: "drop ?k in32 = in32 ! ?k # drop (Suc ?k) in32" using k assms by (simp add: Cons_nth_drop_Suc)
  have "be_value (drop ?k in32) = be_value in32"
    using be_value_zeros [OF der_zeros [of in32], of "drop ?k in32"] by simp
  moreover have "be_value (der_content in32) = be_value (drop ?k in32)"
    by (simp add: der_content_def be_value_Cons)
  moreover have "\<not> in32 ! ?k = 0" if "?k < 31" using der_first [OF assms that] .
  moreover have "length (drop ?k in32) = 32 - ?k" using assms by simp
  moreover have "?k = 31 \<Longrightarrow> drop (Suc ?k) in32 = []" using assms by simp
  moreover have "?k < 31 \<or> ?k = 31" using k by arith
  ultimately show ?thesis
    by (auto simp: der_int_def der_content_def sign_bit split not_le)
qed

lemma derInteger_eq:
  assumes "length in32 = 32"
  shows "derInteger in32 cap =
    (if cap < 2 + length (der_content in32) then []
     else [0x02, of_nat (length (der_content in32))] @ der_content in32)"
proof -
  have "length (der_content in32) = 32 - der_start in32 + (if in32 ! der_start in32 AND 0x80 \<noteq> 0 then 1 else 0)"
    using der_start_less [OF assms] assms by (simp add: der_content_def)
  then show ?thesis by (simp add: derInteger_def der_content_def Let_def)
qed

lemma der_content_length:
  assumes "length in32 = 32"
  shows "0 < length (der_content in32)" and "length (der_content in32) \<le> 33"
  using der_start_less [OF assms] assms by (auto simp: der_content_def)

lemma der_item_front:
  assumes "length v < 128"
  shows "der_item t (t # of_nat (length v) # v @ p) = Some (v, p)"
proof -
  have "unat (of_nat (length v) :: byte) = length v" using assms by (intro unat_of_nat_byte) simp
  with short_len [OF assms] show ?thesis by simp
qed

lemma der_encode_eq:
  assumes "length rs = 64"
  defines "r \<equiv> der_content (take 32 rs)" and "s \<equiv> der_content (drop 32 rs)"
  shows "derEncodeEcdsaSig rs cap =
    (let body = ([0x02, of_nat (length r)] @ r) @ ([0x02, of_nat (length s)] @ s) in
     if cap < 2 + length body then [] else [0x30, of_nat (length body)] @ body)"
proof -
  have "length r \<le> 33" "length s \<le> 33"
    using der_content_length(2) [of "take 32 rs"] der_content_length(2) [of "drop 32 rs"] assms by simp_all
  then show ?thesis
    using assms(1) by (auto simp: derEncodeEcdsaSig_def derInteger_eq Let_def simp flip: r_def s_def)
qed

lemma der_roundtrip:
  assumes "length rs = 64" and "72 \<le> cap"
  shows "der_signature (derEncodeEcdsaSig rs cap) = Some (be_value (take 32 rs), be_value (drop 32 rs)) \<and>
    length (derEncodeEcdsaSig rs cap) \<le> 72"
proof -
  define r s where rs: "r = der_content (take 32 rs)" "s = der_content (drop 32 rs)"
  have len: "length r \<le> 33" "length s \<le> 33"
    using der_content_length(2) [of "take 32 rs"] der_content_length(2) [of "drop 32 rs"] assms by (simp_all add: rs)
  define body where "body = (0x02 # of_nat (length r) # r @ (0x02 # of_nat (length s) # s @ []) :: bytes)"
  have eq: "derEncodeEcdsaSig rs cap = 0x30 # of_nat (length body) # body @ []"
    using len assms by (simp add: der_encode_eq body_def rs Let_def)
  have "length body < 128" using len by (simp add: body_def)
  note 1 = der_item_front [OF this, of "0x30" "[]"]
  have 2: "der_item 0x02 body = Some (r, 0x02 # of_nat (length s) # s @ [])"
    unfolding body_def by (rule der_item_front) (use len in simp)
  have 3: "der_item 0x02 (0x02 # of_nat (length s) # s @ []) = Some (s, [])"
    by (rule der_item_front) (use len in simp)
  have "der_int r = Some (be_value (take 32 rs))" "der_int s = Some (be_value (drop 32 rs))"
    using der_int_content [of "take 32 rs"] der_int_content [of "drop 32 rs"] assms by (simp_all add: rs)
  then have "der_signature (derEncodeEcdsaSig rs cap) = Some (be_value (take 32 rs), be_value (drop 32 rs))"
    unfolding eq der_signature_def 1 by (simp only: option.case prod.case list.case 2 3)
  moreover have "length (derEncodeEcdsaSig rs cap) \<le> 72" using len by (simp add: eq body_def)
  ultimately show ?thesis ..
qed

section \<open>Properties\<close>

text \<open>
  Items written one after the other are found again by their tags, the first of several with the
  same tag; a tag that was not written is not found, and nothing is written past the capacity.
\<close>

theorem piv_tlv_lookup:
  assumes "tlvWrites cap items [] = Some buf" and "\<forall>(t, v) \<in> set items. tag_ok t \<and> length v < 65536"
  shows "tlvFind buf tag = map_of items tag \<and> length buf \<le> cap"
  using assms tlvFind_tlvs [OF assms(2)] by (auto simp: tlvWrites_eq split: if_splits)

theorem piv_tlv_lookup_witness:
  "tlvFind [0x30, 2, 7, 8, 0x7F, 0x49, 1, 9] 0x7F49 = Some [9]"
proof -
  have "tlvWrites 20 [(0x30, [7, 8]), (0x7F49, [9])] [] = Some [0x30, 2, 7, 8, 0x7F, 0x49, 1, 9]"
    by (simp add: tlvWrite_def tlvWriteTag_def tlvWriteLen_def byte_at_def)
  from piv_tlv_lookup [OF this, of "0x7F49"] show ?thesis by (simp add: tag_ok_def byte_at_def)
qed

text \<open>
  The DER form of a signature is the distinguished encoding of its two numbers: a strict reader
  takes it, reads r and s back, and its at most 72 bytes always fit the buffer of the applet.
\<close>

theorem piv_der_signature:
  assumes "length rs = 64" and "72 \<le> cap"
  shows "der_signature (derEncodeEcdsaSig rs cap) = Some (be_value (take 32 rs), be_value (drop 32 rs)) \<and>
    length (derEncodeEcdsaSig rs cap) \<le> 72"
  by (rule der_roundtrip [OF assms])

theorem piv_der_signature_witness:
  "der_signature (derEncodeEcdsaSig (replicate 31 0 @ [5] @ 0x80 # replicate 31 0) 80) = Some (5, 128 * 256 ^ 31)"
proof -
  have z: "be_value (replicate n 0) = 0" for n by (induction n) (simp_all add: be_value_Cons)
  have "be_value (take 32 (replicate 31 0 @ [5] @ 0x80 # replicate 31 0)) = 5"
    using be_value_zeros [of "replicate 31 0" "[5]"] by (simp add: list_all_iff be_value_Cons del: replicate.simps)
  moreover have "be_value (drop 32 (replicate 31 0 @ [5] @ 0x80 # replicate 31 0)) = 128 * 256 ^ 31"
    by (simp add: be_value_Cons z)
  ultimately show ?thesis
    using piv_der_signature [of "replicate 31 0 @ [5] @ 0x80 # replicate 31 0" 80] by simp
qed

end
