(* ===== verification/Piv.thy ===== *)
theory Piv
  imports Scard Chained_Answer Piv_Tlv
begin

text \<open>
  The PIV applet (\<^verbatim>\<open>components/mod_piv/src/piv_applet.cpp\<close>): the session with its PIN and
  management-key status, every command, command chaining and the chaining of long answers.

  Keys, ciphers, the PIN and the stored objects are behind the function table \<^verbatim>\<open>piv_backend_t\<close>, whose
  functions act on a state of type \<^typ>\<open>'b\<close>. The scratch buffer \<^verbatim>\<open>g_build\<close> is written afresh by each
  command that uses it and so is a local value here; \<^verbatim>\<open>g_chain\<close> is the list of its first
  \<^verbatim>\<open>g_chain_len\<close> bytes.
\<close>

section \<open>Data\<close>

abbreviation (input) "CLA_CHAIN \<equiv> (0x10 :: byte)"
abbreviation (input) "PIV_INS_SELECT \<equiv> (0xA4 :: byte)"
abbreviation (input) "PIV_INS_GET_DATA \<equiv> (0xCB :: byte)"
abbreviation (input) "PIV_INS_VERIFY \<equiv> (0x20 :: byte)"
abbreviation (input) "PIV_INS_CHANGE_REFERENCE \<equiv> (0x24 :: byte)"
abbreviation (input) "PIV_INS_GENERAL_AUTH \<equiv> (0x87 :: byte)"
abbreviation (input) "PIV_INS_GENERATE_KEYPAIR \<equiv> (0x47 :: byte)"
abbreviation (input) "PIV_INS_PUT_DATA \<equiv> (0xDB :: byte)"
abbreviation (input) "PIV_INS_GET_RESPONSE \<equiv> (0xC0 :: byte)"
abbreviation (input) "PIV_INS_GET_METADATA \<equiv> (0xF7 :: byte)"
abbreviation (input) "PIV_INS_SET_MGMT_KEY \<equiv> (0xFF :: byte)"

abbreviation (input) "PIV_KEY_PIN \<equiv> (0x80 :: byte)"
abbreviation (input) "PIV_ALG_AES128 \<equiv> (0x08 :: byte)"
abbreviation (input) "PIV_ALG_AES192 \<equiv> (0x0A :: byte)"
abbreviation (input) "PIV_ALG_AES256 \<equiv> (0x0C :: byte)"
abbreviation (input) "PIV_MGMT_BLOCK \<equiv> (16 :: nat)"

abbreviation (input) "PIV_SW_OK \<equiv> (0x9000 :: u16)"
abbreviation (input) "PIV_SW_MORE_DATA \<equiv> (0x6100 :: u16)"
abbreviation (input) "PIV_SW_WRONG_LENGTH \<equiv> (0x6700 :: u16)"
abbreviation (input) "PIV_SW_SECURITY_STATUS \<equiv> (0x6982 :: u16)"
abbreviation (input) "PIV_SW_AUTH_BLOCKED \<equiv> (0x6983 :: u16)"
abbreviation (input) "PIV_SW_DATA_INVALID \<equiv> (0x6A80 :: u16)"
abbreviation (input) "PIV_SW_FILE_NOT_FOUND \<equiv> (0x6A82 :: u16)"
abbreviation (input) "PIV_SW_INCORRECT_P1P2 \<equiv> (0x6A86 :: u16)"
abbreviation (input) "PIV_SW_REF_NOT_FOUND \<equiv> (0x6A88 :: u16)"
abbreviation (input) "PIV_SW_INS_NOT_SUPPORTED \<equiv> (0x6D00 :: u16)"
abbreviation (input) "PIV_SW_PIN_RETRIES \<equiv> (0x63C0 :: u16)"

abbreviation (input) "G_CHAIN_SIZE \<equiv> (2600 :: nat)"
abbreviation (input) "G_BUILD_SIZE \<equiv> (2600 :: nat)"
abbreviation (input) "G_RESP_SIZE \<equiv> (2600 :: nat)"

record piv_state =
  st_version :: byte
  st_mgmt_alg :: byte
  st_mgmt_is_default :: byte
  st_mgmt_key :: bytes
  st_guid :: bytes
  st_ccc_id :: bytes
  st_key_flags :: bytes

text \<open>
  A function that fills a buffer returns its content, or nothing when it reports failure.
  \<^verbatim>\<open>object_load\<close> reports an absent object as a length of 0 or less. \<^verbatim>\<open>rng\<close> may change the buffer even
  when it fails: it takes the old content and returns the new one with the result.
\<close>

record 'b piv_backend =
  pb_key_present :: "byte \<Rightarrow> 'b \<Rightarrow> bool"
  pb_key_sign :: "byte \<Rightarrow> bytes \<Rightarrow> 'b \<Rightarrow> bytes option \<times> 'b"
  pb_key_generate :: "byte \<Rightarrow> 'b \<Rightarrow> bytes option \<times> 'b"
  pb_key_pubkey :: "byte \<Rightarrow> 'b \<Rightarrow> bytes option"
  pb_key_ecdh :: "bytes \<Rightarrow> 'b \<Rightarrow> bytes option \<times> 'b"
  pb_pin_verify :: "bytes \<Rightarrow> 'b \<Rightarrow> bool \<times> 'b"
  pb_pin_retries :: "'b \<Rightarrow> byte"
  pb_pin_blocked :: "'b \<Rightarrow> bool"
  pb_mgmt_encrypt :: "bytes \<Rightarrow> 'b \<Rightarrow> bytes option \<times> 'b"
  pb_mgmt_set_key :: "byte \<Rightarrow> bytes \<Rightarrow> 'b \<Rightarrow> bool \<times> 'b"
  pb_state_load :: "'b \<Rightarrow> piv_state option \<times> 'b"
  pb_object_load :: "u32 \<Rightarrow> nat \<Rightarrow> 'b \<Rightarrow> bytes option"
  pb_object_store :: "u32 \<Rightarrow> bytes \<Rightarrow> 'b \<Rightarrow> bool \<times> 'b"
  pb_rng :: "bytes \<Rightarrow> 'b \<Rightarrow> (bool \<times> bytes) \<times> 'b"

record 'b piv =
  pv_backend :: "'b piv_backend option"
  pv_pin_verified :: bool
  pv_mgmt_authenticated :: bool
  pv_witness_valid :: bool
  pv_witness :: bytes
  pv_chain :: bytes
  pv_chain_ins :: byte
  pv_chain_p1 :: byte
  pv_chain_p2 :: byte
  pv_resp_buf :: bytes
  pv_resp_pos :: nat
  pv_resp_remaining :: nat
  pv_store :: 'b

type_synonym 'b piv_reply = "(int \<times> bytes) \<times> 'b piv"

section \<open>Answers\<close>

definition resetChain :: "'b piv \<Rightarrow> 'b piv" where
  "resetChain s = s\<lparr>pv_chain := [], pv_chain_ins := 0, pv_chain_p1 := 0, pv_chain_p2 := 0\<rparr>"

definition piv_sw :: "u16 \<Rightarrow> 'b piv \<Rightarrow> 'b piv_reply" where
  "piv_sw v s = ((2, apdu_sw v), s)"

definition piv_more :: "nat \<Rightarrow> u16" where
  "piv_more n = PIV_SW_MORE_DATA OR (if 0xFF < n then 0 else of_nat n)"

text \<open>The number of bytes the host asks for: 0 stands for 256.\<close>

definition piv_requested :: "u32 \<Rightarrow> nat" where
  "piv_requested le = (if le = 0 then 256 else unat le)"

definition piv_emit :: "bytes \<Rightarrow> u32 \<Rightarrow> nat \<Rightarrow> 'b piv \<Rightarrow> 'b piv_reply" where
  "piv_emit payload le resp_max s =
    (let window = piv_requested le;
         window = (if resp_max - 2 < window then resp_max - 2 else window) in
     if length payload \<le> window then ((2 + int (length payload), payload @ apdu_sw PIV_SW_OK), s)
     else
       let remainder = length payload - window;
           remainder = (if G_RESP_SIZE < remainder then G_RESP_SIZE else remainder) in
       ((2 + int window, take window payload @ apdu_sw (piv_more remainder)),
        s\<lparr>pv_resp_buf := take remainder (drop window payload) @ drop remainder (pv_resp_buf s),
          pv_resp_pos := 0, pv_resp_remaining := remainder\<rparr>))"

definition piv_piece :: "u32 \<Rightarrow> nat \<Rightarrow> nat \<Rightarrow> nat" where
  "piv_piece le resp_max remaining =
    (let want = piv_requested le;
         want = (if remaining < want then remaining else want) in
     if resp_max < want + 2 then resp_max - 2 else want)"

definition cmdGetResponse :: "byte \<Rightarrow> byte \<Rightarrow> u32 \<Rightarrow> nat \<Rightarrow> 'b piv \<Rightarrow> 'b piv_reply" where
  "cmdGetResponse p1 p2 le resp_max s =
    (if p1 \<noteq> 0x00 \<or> p2 \<noteq> 0x00 then piv_sw PIV_SW_INCORRECT_P1P2 s
     else if pv_resp_remaining s = 0 then piv_sw PIV_SW_SECURITY_STATUS s
     else
       let want = piv_piece le resp_max (pv_resp_remaining s);
           body = take want (drop (pv_resp_pos s) (pv_resp_buf s));
           left = pv_resp_remaining s - want in
       ((2 + int want, body @ apdu_sw (if 0 < left then piv_more left else PIV_SW_OK)),
        s\<lparr>pv_resp_pos := (if 0 < left then pv_resp_pos s + want else 0), pv_resp_remaining := left\<rparr>))"

section \<open>Commands\<close>

definition cmdSelect :: "nat \<Rightarrow> u32 \<Rightarrow> 'b piv \<Rightarrow> 'b piv_reply" where
  "cmdSelect resp_max le s =
    (let s = s\<lparr>pv_pin_verified := False, pv_mgmt_authenticated := False, pv_witness_valid := False\<rparr> in
     case buildApt G_BUILD_SIZE of
       None \<Rightarrow> piv_sw PIV_SW_DATA_INVALID s
     | Some apt \<Rightarrow> piv_emit apt le resp_max s)"

text \<open>The object identifier of a tag list, or nothing when it has not one to three bytes.\<close>

definition object_tag :: "bytes \<Rightarrow> u32 option" where
  "object_tag dat =
    (case tlvFind dat PIV_TAG_TAG_LIST of
       None \<Rightarrow> None
     | Some tagVal \<Rightarrow>
         if length tagVal = 0 \<or> 3 < length tagVal then None
         else Some (foldl (\<lambda>obj b. push_bit 8 obj OR ucast b) 0 tagVal))"

text \<open>What stands inside the tag 53 of an object; the empty body stands for the length 0.\<close>

definition object_body :: "'b piv_backend \<Rightarrow> u32 \<Rightarrow> piv_state \<Rightarrow> 'b \<Rightarrow> bytes" where
  "object_body be obj st b =
    (if obj = PIV_OBJ_CHUID then (case buildChuid (st_guid st) 2200 of None \<Rightarrow> [] | Some body \<Rightarrow> body)
     else if obj = PIV_OBJ_CCC then (case buildCcc (st_ccc_id st) 2200 of None \<Rightarrow> [] | Some body \<Rightarrow> body)
     else if certObjectToKeyRef obj \<noteq> 0 then
       (case pb_object_load be obj 2200 b of None \<Rightarrow> [] | Some body \<Rightarrow> body)
     else [])"

definition cmdGetData :: "'b piv_backend \<Rightarrow> bytes \<Rightarrow> nat \<Rightarrow> u32 \<Rightarrow> 'b piv \<Rightarrow> 'b piv_reply" where
  "cmdGetData be dat resp_max le s =
    (case object_tag dat of
       None \<Rightarrow> piv_sw PIV_SW_DATA_INVALID s
     | Some obj \<Rightarrow>
         if obj = PIV_OBJ_DISCOVERY then
           (case buildDiscovery G_BUILD_SIZE of
              None \<Rightarrow> piv_sw PIV_SW_FILE_NOT_FOUND s
            | Some d \<Rightarrow> piv_emit d le resp_max s)
         else
           (case pb_state_load be (pv_store s) of
              (None, b) \<Rightarrow> piv_sw PIV_SW_FILE_NOT_FOUND (s\<lparr>pv_store := b\<rparr>)
            | (Some st, b) \<Rightarrow>
                let s = s\<lparr>pv_store := b\<rparr>; body = object_body be obj st b in
                if body = [] then piv_sw PIV_SW_FILE_NOT_FOUND s
                else
                  (case tlvWrite G_BUILD_SIZE PIV_TAG_DATA_OBJECT body [] of
                     None \<Rightarrow> piv_sw PIV_SW_FILE_NOT_FOUND s
                   | Some d \<Rightarrow> piv_emit d le resp_max s)))"

text \<open>The loop that strips the padding: the digits in front of the first FF, or nothing at a non-digit.\<close>

fun pin_digits :: "bytes \<Rightarrow> bytes option" where
  "pin_digits [] = Some []"
| "pin_digits (b # bs) =
    (if b = 0xFF then Some []
     else if b < 0x30 \<or> 0x39 < b then None
     else map_option ((#) b) (pin_digits bs))"

definition retries_sw :: "'b piv_backend \<Rightarrow> 'b \<Rightarrow> u16" where
  "retries_sw be b = PIV_SW_PIN_RETRIES OR ucast (pb_pin_retries be b AND 0x0F)"

definition cmdVerify :: "'b piv_backend \<Rightarrow> byte \<Rightarrow> byte \<Rightarrow> bytes \<Rightarrow> 'b piv \<Rightarrow> 'b piv_reply" where
  "cmdVerify be p1 p2 dat s =
    (if p2 \<noteq> PIV_KEY_PIN then piv_sw PIV_SW_REF_NOT_FOUND s
     else if p1 = 0xFF then piv_sw PIV_SW_OK (s\<lparr>pv_pin_verified := False\<rparr>)
     else if length dat = 0 then
       (if pv_pin_verified s then piv_sw PIV_SW_OK s
        else if pb_pin_blocked be (pv_store s) then piv_sw PIV_SW_AUTH_BLOCKED s
        else piv_sw (retries_sw be (pv_store s)) s)
     else if length dat \<noteq> 8 then piv_sw PIV_SW_DATA_INVALID s
     else if pb_pin_blocked be (pv_store s) then piv_sw PIV_SW_AUTH_BLOCKED s
     else
       case pin_digits dat of
         None \<Rightarrow> piv_sw PIV_SW_DATA_INVALID s
       | Some [] \<Rightarrow> piv_sw PIV_SW_DATA_INVALID s
       | Some pin \<Rightarrow>
           (case pb_pin_verify be pin (pv_store s) of
              (True, b) \<Rightarrow> piv_sw PIV_SW_OK (s\<lparr>pv_store := b, pv_pin_verified := True\<rparr>)
            | (False, b) \<Rightarrow>
                piv_sw (if pb_pin_blocked be b then PIV_SW_AUTH_BLOCKED else retries_sw be b)
                  (s\<lparr>pv_store := b\<rparr>)))"

definition pinGateForSign :: "byte \<Rightarrow> 'b piv \<Rightarrow> bool" where
  "pinGateForSign keyRef s =
    (if keyRef = PIV_KEY_9E then True
     else if keyRef = PIV_KEY_9A \<or> keyRef = PIV_KEY_9C \<or> keyRef = PIV_KEY_9D then pv_pin_verified s
     else False)"

text \<open>The answers of both steps of the mutual authentication: one item in the dynamic template.\<close>

definition mgmt_reply :: "u32 \<Rightarrow> bytes \<Rightarrow> 'b piv \<Rightarrow> 'b piv_reply" where
  "mgmt_reply tag enc s =
    (case tlvWrite 32 tag enc [] of
       None \<Rightarrow> piv_sw PIV_SW_SECURITY_STATUS s
     | Some tmpl \<Rightarrow>
         (case tlvWrite 256 PIV_TAG_DYN_AUTH tmpl [] of
            None \<Rightarrow> piv_sw PIV_SW_SECURITY_STATUS s
          | Some resp \<Rightarrow> ((2 + int (length resp), resp @ apdu_sw PIV_SW_OK), s)))"

definition request_witness :: "'b piv_backend \<Rightarrow> 'b piv \<Rightarrow> 'b piv_reply" where
  "request_witness be s =
    (case pb_rng be (pv_witness s) (pv_store s) of
       ((ok, w), b) \<Rightarrow>
         let s = s\<lparr>pv_witness := w, pv_store := b\<rparr> in
         if \<not> ok then piv_sw PIV_SW_SECURITY_STATUS s
         else
           (case pb_mgmt_encrypt be w b of
              (None, b) \<Rightarrow> piv_sw PIV_SW_SECURITY_STATUS (s\<lparr>pv_store := b\<rparr>)
            | (Some enc, b) \<Rightarrow>
                mgmt_reply PIV_TAG_WITNESS enc (s\<lparr>pv_store := b, pv_witness_valid := True\<rparr>)))"

definition answer_challenge :: "'b piv_backend \<Rightarrow> bytes \<Rightarrow> bytes \<Rightarrow> 'b piv \<Rightarrow> 'b piv_reply" where
  "answer_challenge be wit chal s =
    (if \<not> pv_witness_valid s \<or> wit \<noteq> take PIV_MGMT_BLOCK (pv_witness s)
     then piv_sw PIV_SW_SECURITY_STATUS (s\<lparr>pv_witness_valid := False\<rparr>)
     else
       case pb_mgmt_encrypt be chal (pv_store s) of
         (None, b) \<Rightarrow> piv_sw PIV_SW_SECURITY_STATUS (s\<lparr>pv_store := b\<rparr>)
       | (Some enc, b) \<Rightarrow>
           mgmt_reply PIV_TAG_RESPONSE enc
             (s\<lparr>pv_store := b, pv_mgmt_authenticated := True, pv_witness_valid := False\<rparr>))"

definition mgmtAuth :: "'b piv_backend \<Rightarrow> bytes \<Rightarrow> 'b piv \<Rightarrow> 'b piv_reply" where
  "mgmtAuth be inner s =
    (case (tlvFind inner PIV_TAG_WITNESS, tlvFind inner PIV_TAG_CHALLENGE) of
       (Some [], None) \<Rightarrow> request_witness be s
     | (Some wit, Some chal) \<Rightarrow>
         if length wit = PIV_MGMT_BLOCK \<and> length chal = PIV_MGMT_BLOCK
         then answer_challenge be wit chal s
         else piv_sw PIV_SW_DATA_INVALID s
     | _ \<Rightarrow> piv_sw PIV_SW_DATA_INVALID s)"

text \<open>One item in the dynamic template, through \<^verbatim>\<open>g_build\<close>.\<close>

definition emit_auth :: "nat \<Rightarrow> bytes \<Rightarrow> nat \<Rightarrow> u32 \<Rightarrow> 'b piv \<Rightarrow> 'b piv_reply" where
  "emit_auth cap value resp_max le s =
    (case tlvWrite cap PIV_TAG_RESPONSE value [] of
       None \<Rightarrow> piv_sw PIV_SW_SECURITY_STATUS s
     | Some tmpl \<Rightarrow>
         (case tlvWrite G_BUILD_SIZE PIV_TAG_DYN_AUTH tmpl [] of
            None \<Rightarrow> piv_sw PIV_SW_SECURITY_STATUS s
          | Some d \<Rightarrow> piv_emit d le resp_max s))"

definition ecdh :: "'b piv_backend \<Rightarrow> bytes \<Rightarrow> nat \<Rightarrow> u32 \<Rightarrow> 'b piv \<Rightarrow> 'b piv_reply" where
  "ecdh be point resp_max le s =
    (if \<not> pv_pin_verified s then piv_sw PIV_SW_SECURITY_STATUS s
     else if length point \<noteq> 65 \<or> point ! 0 \<noteq> 0x04 then piv_sw PIV_SW_DATA_INVALID s
     else
       case pb_key_ecdh be point (pv_store s) of
         (None, b) \<Rightarrow> piv_sw PIV_SW_SECURITY_STATUS (s\<lparr>pv_store := b\<rparr>)
       | (Some shared, b) \<Rightarrow> emit_auth 40 shared resp_max le (s\<lparr>pv_store := b\<rparr>))"

text \<open>The digest: the leftmost 32 bytes of the challenge, or the challenge behind zeros.\<close>

definition digest32 :: "bytes \<Rightarrow> bytes" where
  "digest32 chal = (if 32 \<le> length chal then take 32 chal else replicate (32 - length chal) 0 @ chal)"

definition sign_challenge :: "'b piv_backend \<Rightarrow> byte \<Rightarrow> bytes \<Rightarrow> nat \<Rightarrow> u32 \<Rightarrow> 'b piv \<Rightarrow> 'b piv_reply" where
  "sign_challenge be keyRef inner resp_max le s =
    (case tlvFind inner PIV_TAG_CHALLENGE of
       None \<Rightarrow> piv_sw PIV_SW_DATA_INVALID s
     | Some chal \<Rightarrow>
         if length chal = 0 then piv_sw PIV_SW_DATA_INVALID s
         else if \<not> pinGateForSign keyRef s then piv_sw PIV_SW_SECURITY_STATUS s
         else if \<not> pb_key_present be keyRef (pv_store s) then piv_sw PIV_SW_REF_NOT_FOUND s
         else
           case pb_key_sign be keyRef (digest32 chal) (pv_store s) of
             (None, b) \<Rightarrow> piv_sw PIV_SW_SECURITY_STATUS (s\<lparr>pv_store := b\<rparr>)
           | (Some rs, b) \<Rightarrow>
               let s = s\<lparr>pv_store := b\<rparr>;
                   s = (if keyRef = PIV_KEY_9C then s\<lparr>pv_pin_verified := False\<rparr> else s);
                   der = derEncodeEcdsaSig rs 80 in
               if length der = 0 then piv_sw PIV_SW_SECURITY_STATUS s
               else emit_auth 96 der resp_max le s)"

definition cmdGeneralAuth ::
    "'b piv_backend \<Rightarrow> byte \<Rightarrow> byte \<Rightarrow> bytes \<Rightarrow> nat \<Rightarrow> u32 \<Rightarrow> 'b piv \<Rightarrow> 'b piv_reply" where
  "cmdGeneralAuth be alg keyRef dat resp_max le s =
    (case tlvFind dat PIV_TAG_DYN_AUTH of
       None \<Rightarrow> piv_sw PIV_SW_DATA_INVALID s
     | Some inner \<Rightarrow>
         if keyRef = PIV_KEY_9B then mgmtAuth be inner s
         else if alg \<noteq> PIV_ALG_ECC_P256 then piv_sw PIV_SW_DATA_INVALID s
         else
           case (if keyRef = PIV_KEY_9D then tlvFind inner PIV_TAG_EXP else None) of
             Some point \<Rightarrow> ecdh be point resp_max le s
           | None \<Rightarrow> sign_challenge be keyRef inner resp_max le s)"

definition generate_alg :: "bytes \<Rightarrow> bytes option" where
  "generate_alg dat =
    (case tlvFind dat PIV_TAG_ALG_ID of None \<Rightarrow> None | Some alg \<Rightarrow> tlvFind alg 0x80)"

definition cmdGenerate :: "'b piv_backend \<Rightarrow> byte \<Rightarrow> bytes \<Rightarrow> nat \<Rightarrow> u32 \<Rightarrow> 'b piv \<Rightarrow> 'b piv_reply" where
  "cmdGenerate be keyRef dat resp_max le s =
    (if \<not> pv_mgmt_authenticated s then piv_sw PIV_SW_SECURITY_STATUS s
     else if keyRef \<noteq> PIV_KEY_9A \<and> keyRef \<noteq> PIV_KEY_9C \<and> keyRef \<noteq> PIV_KEY_9D \<and> keyRef \<noteq> PIV_KEY_9E
     then piv_sw PIV_SW_REF_NOT_FOUND s
     else if generate_alg dat \<noteq> Some [PIV_ALG_ECC_P256] then piv_sw PIV_SW_DATA_INVALID s
     else
       case pb_key_generate be keyRef (pv_store s) of
         (None, b) \<Rightarrow> piv_sw PIV_SW_SECURITY_STATUS (s\<lparr>pv_store := b\<rparr>)
       | (Some pub, b) \<Rightarrow>
           let s = s\<lparr>pv_store := b\<rparr> in
           (case tlvWrite 80 PIV_TAG_PUBKEY_POINT pub [] of
              None \<Rightarrow> piv_sw PIV_SW_SECURITY_STATUS s
            | Some inner \<Rightarrow>
                (case tlvWrite G_BUILD_SIZE PIV_TAG_PUBKEY inner [] of
                   None \<Rightarrow> piv_sw PIV_SW_SECURITY_STATUS s
                 | Some d \<Rightarrow> piv_emit d le resp_max s)))"

definition cmdPutData :: "'b piv_backend \<Rightarrow> bytes \<Rightarrow> 'b piv \<Rightarrow> 'b piv_reply" where
  "cmdPutData be dat s =
    (if \<not> pv_mgmt_authenticated s then piv_sw PIV_SW_SECURITY_STATUS s
     else
       case object_tag dat of
         None \<Rightarrow> piv_sw PIV_SW_DATA_INVALID s
       | Some obj \<Rightarrow>
           (case tlvFind dat PIV_TAG_DATA_OBJECT of
              None \<Rightarrow> piv_sw PIV_SW_DATA_INVALID s
            | Some body \<Rightarrow>
                if certObjectToKeyRef obj \<noteq> 0 then
                  (case pb_object_store be obj body (pv_store s) of
                     (False, b) \<Rightarrow> piv_sw PIV_SW_SECURITY_STATUS (s\<lparr>pv_store := b\<rparr>)
                   | (True, b) \<Rightarrow> piv_sw PIV_SW_OK (s\<lparr>pv_store := b\<rparr>))
                else if obj = PIV_OBJ_CHUID \<or> obj = PIV_OBJ_CCC then piv_sw PIV_SW_OK s
                else piv_sw PIV_SW_DATA_INVALID s))"

text \<open>\<^verbatim>\<open>tlvWrite\<close> with its result ignored: an item that does not fit is left out.\<close>

definition tlv_append :: "nat \<Rightarrow> u32 \<Rightarrow> bytes \<Rightarrow> bytes \<Rightarrow> bytes" where
  "tlv_append cap tag value buf = (case tlvWrite cap tag value buf of None \<Rightarrow> buf | Some b \<Rightarrow> b)"

definition key_metadata :: "'b piv_backend \<Rightarrow> byte \<Rightarrow> 'b \<Rightarrow> bytes" where
  "key_metadata be keyRef b =
    (let d = tlv_append G_BUILD_SIZE 0x01 [PIV_ALG_ECC_P256] [];
         d = tlv_append G_BUILD_SIZE 0x02 [0x01, 0x01] d;
         d = tlv_append G_BUILD_SIZE 0x03 [0x01] d in
     case pb_key_pubkey be keyRef b of
       None \<Rightarrow> d
     | Some pub \<Rightarrow> tlv_append G_BUILD_SIZE 0x04 (tlv_append 80 PIV_TAG_PUBKEY_POINT pub []) d)"

definition cmdGetMetadata :: "'b piv_backend \<Rightarrow> byte \<Rightarrow> nat \<Rightarrow> u32 \<Rightarrow> 'b piv \<Rightarrow> 'b piv_reply" where
  "cmdGetMetadata be keyRef resp_max le s =
    (case pb_state_load be (pv_store s) of
       (None, b) \<Rightarrow> piv_sw PIV_SW_FILE_NOT_FOUND (s\<lparr>pv_store := b\<rparr>)
     | (Some st, b) \<Rightarrow>
         let s = s\<lparr>pv_store := b\<rparr> in
         if keyRef = PIV_KEY_9B then
           piv_emit (tlv_append G_BUILD_SIZE 0x05 [st_mgmt_is_default st]
             (tlv_append G_BUILD_SIZE 0x01 [st_mgmt_alg st] [])) le resp_max s
         else if keyRef = PIV_KEY_9A \<or> keyRef = PIV_KEY_9C \<or> keyRef = PIV_KEY_9D \<or> keyRef = PIV_KEY_9E then
           if \<not> pb_key_present be keyRef b then piv_sw PIV_SW_REF_NOT_FOUND s
           else piv_emit (key_metadata be keyRef b) le resp_max s
         else piv_sw PIV_SW_REF_NOT_FOUND s)"

definition cmdSetMgmtKey :: "'b piv_backend \<Rightarrow> bytes \<Rightarrow> 'b piv \<Rightarrow> 'b piv_reply" where
  "cmdSetMgmtKey be dat s =
    (if \<not> pv_mgmt_authenticated s then piv_sw PIV_SW_SECURITY_STATUS s
     else if length dat < 3 then piv_sw PIV_SW_DATA_INVALID s
     else if dat ! 1 \<noteq> PIV_KEY_9B then piv_sw PIV_SW_DATA_INVALID s
     else if length dat < 3 + unat (dat ! 2) then piv_sw PIV_SW_DATA_INVALID s
     else if dat ! 0 \<noteq> PIV_ALG_AES128 \<and> dat ! 0 \<noteq> PIV_ALG_AES192 \<and> dat ! 0 \<noteq> PIV_ALG_AES256
     then piv_sw PIV_SW_DATA_INVALID s
     else
       case pb_mgmt_set_key be (dat ! 0) (take (unat (dat ! 2)) (drop 3 dat)) (pv_store s) of
         (False, b) \<Rightarrow> piv_sw PIV_SW_SECURITY_STATUS (s\<lparr>pv_store := b\<rparr>)
       | (True, b) \<Rightarrow> piv_sw PIV_SW_OK (s\<lparr>pv_store := b\<rparr>))"

section \<open>Dispatch and command chaining\<close>

definition piv_dispatch :: "'b piv_backend \<Rightarrow> apdu \<Rightarrow> bytes \<Rightarrow> nat \<Rightarrow> 'b piv \<Rightarrow> 'b piv_reply" where
  "piv_dispatch be a dat resp_max s =
    (if a_ins a = PIV_INS_SELECT then cmdSelect resp_max (a_le a) s
     else if a_ins a = PIV_INS_GET_DATA then cmdGetData be dat resp_max (a_le a) s
     else if a_ins a = PIV_INS_VERIFY then cmdVerify be (a_p1 a) (a_p2 a) dat s
     else if a_ins a = PIV_INS_GENERAL_AUTH then cmdGeneralAuth be (a_p1 a) (a_p2 a) dat resp_max (a_le a) s
     else if a_ins a = PIV_INS_GENERATE_KEYPAIR then cmdGenerate be (a_p2 a) dat resp_max (a_le a) s
     else if a_ins a = PIV_INS_PUT_DATA then cmdPutData be dat s
     else if a_ins a = PIV_INS_GET_METADATA then cmdGetMetadata be (a_p2 a) resp_max (a_le a) s
     else if a_ins a = PIV_INS_SET_MGMT_KEY then cmdSetMgmtKey be dat s
     else if a_ins a = PIV_INS_CHANGE_REFERENCE then piv_sw PIV_SW_SECURITY_STATUS s
     else piv_sw PIV_SW_INS_NOT_SUPPORTED s)"

definition same_command :: "apdu \<Rightarrow> 'b piv \<Rightarrow> bool" where
  "same_command a s \<longleftrightarrow> a_ins a = pv_chain_ins s \<and> a_p1 a = pv_chain_p1 s \<and> a_p2 a = pv_chain_p2 s"

text \<open>A block that is not the last of its command.\<close>

definition chain_block :: "apdu \<Rightarrow> bytes \<Rightarrow> 'b piv \<Rightarrow> 'b piv_reply" where
  "chain_block a dat s =
    (if length (pv_chain s) \<noteq> 0 \<and> \<not> same_command a s then piv_sw PIV_SW_DATA_INVALID (resetChain s)
     else
       let s = (if length (pv_chain s) = 0
                then s\<lparr>pv_chain_ins := a_ins a, pv_chain_p1 := a_p1 a, pv_chain_p2 := a_p2 a\<rparr> else s) in
       if G_CHAIN_SIZE < length (pv_chain s) + length dat then piv_sw PIV_SW_WRONG_LENGTH (resetChain s)
       else piv_sw PIV_SW_OK (s\<lparr>pv_chain := pv_chain s @ dat\<rparr>))"

text \<open>The last block: the command with the data of all its blocks.\<close>

definition final_block :: "'b piv_backend \<Rightarrow> apdu \<Rightarrow> bytes \<Rightarrow> nat \<Rightarrow> 'b piv \<Rightarrow> 'b piv_reply" where
  "final_block be a dat resp_max s =
    (if length (pv_chain s) > 0 \<and> \<not> same_command a s then piv_sw PIV_SW_DATA_INVALID (resetChain s)
     else if length (pv_chain s) > 0 \<and> G_CHAIN_SIZE < length (pv_chain s) + length dat
     then piv_sw PIV_SW_WRONG_LENGTH (resetChain s)
     else
       let dat = pv_chain s @ dat;
           s = (if length (pv_chain s) > 0 then s\<lparr>pv_chain := dat\<rparr> else s) in
       case piv_dispatch be a dat resp_max s of (r, s) \<Rightarrow> (r, resetChain s))"

definition processApdu :: "bytes \<Rightarrow> nat \<Rightarrow> 'b piv \<Rightarrow> 'b piv_reply" where
  "processApdu cmd resp_max s =
    (case pv_backend s of
       None \<Rightarrow> piv_sw PIV_SW_INS_NOT_SUPPORTED s
     | Some be \<Rightarrow>
         if resp_max < 2 then piv_sw PIV_SW_INS_NOT_SUPPORTED s
         else
           (case apdu_parse cmd of
              None \<Rightarrow> piv_sw PIV_SW_WRONG_LENGTH s
            | Some a \<Rightarrow>
                if a_ins a = PIV_INS_GET_RESPONSE \<and> a_cla a AND NOT CLA_CHAIN = CLA_ISO7816
                then cmdGetResponse (a_p1 a) (a_p2 a) (a_le a) resp_max s
                else if a_cla a AND CLA_CHAIN \<noteq> 0 then chain_block a (apdu_data cmd a) s
                else final_block be a (apdu_data cmd a) resp_max s))"

definition piv_deselect :: "'b piv \<Rightarrow> 'b piv" where
  "piv_deselect s =
    (resetChain (s\<lparr>pv_pin_verified := False, pv_mgmt_authenticated := False, pv_witness_valid := False,
       pv_witness := replicate 16 0\<rparr>))
     \<lparr>pv_resp_pos := 0, pv_resp_remaining := 0, pv_resp_buf := replicate G_RESP_SIZE 0\<rparr>"

definition piv_set_backend :: "'b piv_backend option \<Rightarrow> 'b piv \<Rightarrow> 'b piv" where
  "piv_set_backend be s = s\<lparr>pv_backend := be\<rparr>"

definition piv_applet :: "'b piv applet" where
  "piv_applet = \<lparr>ap_name = ''piv'', ap_aid = [0xA0, 0x00, 0x00, 0x03, 0x08, 0x00, 0x00, 0x10, 0x00],
     ap_process = processApdu, ap_deselect = Some piv_deselect\<rparr>"

section \<open>Responses fit\<close>

text \<open>
  The invariant of the applet's buffers. The two answers of the mutual authentication are written
  without a look at the size of the response buffer, but never exceed 36 bytes.
\<close>

definition piv_ok :: "'b piv \<Rightarrow> bool" where
  "piv_ok s \<longleftrightarrow> length (pv_resp_buf s) = 2600 \<and> pv_resp_pos s + pv_resp_remaining s \<le> 2600 \<and>
     length (pv_chain s) \<le> 2600"

abbreviation (input) "PIV_ROOM \<equiv> (36 :: nat)"

definition piv_fits :: "nat \<Rightarrow> 'b piv_reply \<Rightarrow> bool" where
  "piv_fits n r \<longleftrightarrow> (case r of ((k, b), s) \<Rightarrow>
     0 \<le> k \<and> (PIV_ROOM \<le> n \<longrightarrow> k \<le> int n) \<and> length b = nat k \<and> piv_ok s)"

lemma piv_sw_fits [simp]: "2 \<le> n \<Longrightarrow> piv_fits n (piv_sw v s) \<longleftrightarrow> piv_ok s"
  by (auto simp: piv_fits_def piv_sw_def apdu_sw_def)

lemma piv_ok_update [simp]:
  "piv_ok (s\<lparr>pv_store := b\<rparr>) = piv_ok s" "piv_ok (s\<lparr>pv_pin_verified := v\<rparr>) = piv_ok s"
  "piv_ok (s\<lparr>pv_mgmt_authenticated := v\<rparr>) = piv_ok s" "piv_ok (s\<lparr>pv_witness_valid := v\<rparr>) = piv_ok s"
  "piv_ok (s\<lparr>pv_witness := w\<rparr>) = piv_ok s" "piv_ok (s\<lparr>pv_chain_ins := i\<rparr>) = piv_ok s"
  "piv_ok (s\<lparr>pv_chain_p1 := i\<rparr>) = piv_ok s" "piv_ok (s\<lparr>pv_chain_p2 := i\<rparr>) = piv_ok s"
  by (simp_all add: piv_ok_def)

lemma resetChain_ok: "piv_ok s \<Longrightarrow> piv_ok (resetChain s)"
  by (simp add: piv_ok_def resetChain_def)

lemma piv_emit_fits: "2 \<le> n \<Longrightarrow> piv_ok s \<Longrightarrow> piv_fits n (piv_emit payload le n s)"
  by (auto simp: piv_emit_def Let_def piv_fits_def piv_ok_def apdu_sw_def)

lemma get_response_fits: "2 \<le> n \<Longrightarrow> piv_ok s \<Longrightarrow> piv_fits n (cmdGetResponse p1 p2 le n s)"
  by (auto simp: cmdGetResponse_def piv_piece_def Let_def piv_fits_def piv_ok_def apdu_sw_def piv_sw_def)

lemma tlvWrite_cap: "tlvWrite cap t v [] = Some d \<Longrightarrow> length d \<le> cap"
  by (auto simp: tlvWrite_eq split: if_splits)

lemma tlvWrite_short: "tlvWrite cap t v [] = Some d \<Longrightarrow> t \<le> 0xFF \<Longrightarrow> length v < 128 \<Longrightarrow> length d = length v + 2"
  by (auto simp: tlvWrite_eq tlv_def written_lengths split: if_splits)

lemma mgmt_reply_fits:
  assumes "2 \<le> n" and "piv_ok s"
  shows "piv_fits n (mgmt_reply tag enc s)"
proof (cases "tlvWrite 32 tag enc []")
  case None
  with assms show ?thesis by (simp add: mgmt_reply_def)
next
  case (Some tmpl)
  note len = tlvWrite_cap [OF Some]
  show ?thesis
  proof (cases "tlvWrite 256 PIV_TAG_DYN_AUTH tmpl []")
    case None
    with Some assms show ?thesis by (simp add: mgmt_reply_def)
  next
    case (Some resp)
    with tlvWrite_short [OF Some] len \<open>tlvWrite 32 tag enc [] = Some tmpl\<close> assms show ?thesis
      by (simp add: mgmt_reply_def piv_fits_def apdu_sw_def)
  qed
qed

lemma emit_auth_fits: "2 \<le> n \<Longrightarrow> piv_ok s \<Longrightarrow> piv_fits n (emit_auth cap v n le s)"
  by (simp add: emit_auth_def piv_emit_fits split: option.split)

lemmas piv_fit_intros = piv_emit_fits mgmt_reply_fits emit_auth_fits

lemma piv_commands_fit:
  assumes "2 \<le> n" and "piv_ok s"
  shows "piv_fits n (cmdSelect n le s)" "piv_fits n (cmdGetData be dat n le s)"
    "piv_fits n (cmdVerify be p1 p2 dat s)" "piv_fits n (cmdGenerate be p2 dat n le s)"
    "piv_fits n (cmdPutData be dat s)" "piv_fits n (cmdGetMetadata be p2 n le s)"
    "piv_fits n (cmdSetMgmtKey be dat s)"
  using assms
  by (auto simp: cmdSelect_def cmdGetData_def cmdVerify_def cmdGenerate_def cmdPutData_def
      cmdGetMetadata_def cmdSetMgmtKey_def Let_def
      intro!: piv_fit_intros split: option.splits prod.splits list.splits bool.splits if_splits)

lemma mgmtAuth_fits: "2 \<le> n \<Longrightarrow> piv_ok s \<Longrightarrow> piv_fits n (mgmtAuth be inner s)"
  by (auto simp: mgmtAuth_def request_witness_def answer_challenge_def Let_def
      intro!: piv_fit_intros split: option.splits prod.splits list.splits if_splits)

lemma ecdh_fits: "2 \<le> n \<Longrightarrow> piv_ok s \<Longrightarrow> piv_fits n (ecdh be point n le s)"
  by (simp add: ecdh_def emit_auth_fits split: option.split prod.split)

lemma sign_challenge_fits: "2 \<le> n \<Longrightarrow> piv_ok s \<Longrightarrow> piv_fits n (sign_challenge be key inner n le s)"
  by (simp add: sign_challenge_def emit_auth_fits Let_def split: option.split prod.split)

lemma general_auth_fits: "2 \<le> n \<Longrightarrow> piv_ok s \<Longrightarrow> piv_fits n (cmdGeneralAuth be alg key dat n le s)"
  by (simp add: cmdGeneralAuth_def ecdh_fits sign_challenge_fits mgmtAuth_fits split: option.split)

lemma piv_dispatch_fits: "2 \<le> n \<Longrightarrow> piv_ok s \<Longrightarrow> piv_fits n (piv_dispatch be a dat n s)"
  by (simp add: piv_dispatch_def piv_commands_fit general_auth_fits)

lemma chain_block_fits: "2 \<le> n \<Longrightarrow> piv_ok s \<Longrightarrow> piv_fits n (chain_block a dat s)"
  by (auto simp: chain_block_def Let_def resetChain_ok) (auto simp: piv_ok_def)

lemma final_block_fits:
  assumes "2 \<le> n" and "piv_ok s"
  shows "piv_fits n (final_block be a dat n s)"
proof -
  have "piv_fits n (case piv_dispatch be a dat' n s' of (r, s) \<Rightarrow> (r, resetChain s))" if "piv_ok s'" for dat' s'
    using piv_dispatch_fits [OF assms(1) that, of be a dat']
    by (auto simp: piv_fits_def resetChain_ok split: prod.splits)
  moreover have "piv_ok (s\<lparr>pv_chain := pv_chain s @ dat\<rparr>)"
    if "length (pv_chain s) + length dat \<le> 2600"
    using assms(2) that by (simp add: piv_ok_def)
  ultimately show ?thesis
    using assms by (simp add: final_block_def Let_def resetChain_ok)
qed

lemma piv_process_fits: "2 \<le> n \<Longrightarrow> piv_ok s \<Longrightarrow> piv_fits n (processApdu cmd n s)"
  by (auto simp: processApdu_def get_response_fits chain_block_fits final_block_fits split: option.splits)

lemma piv_deselect_ok: "piv_ok s \<Longrightarrow> piv_ok (piv_deselect s)"
  by (simp add: piv_deselect_def piv_ok_def resetChain_def)

lemma piv_well_behaved: "well_behaved piv_ok PIV_ROOM (piv_applet :: 'b piv applet)"
proof -
  have "(PIV_ROOM \<le> n \<longrightarrow> k \<le> int n \<and> (0 \<le> k \<longrightarrow> length b = nat k)) \<and> piv_ok w'"
    if "2 \<le> n" "piv_ok w" "processApdu cmd n w = ((k, b), w')" for cmd n k b and w w' :: "'b piv"
    using piv_process_fits [OF that(1,2), of cmd] that(3) by (simp add: piv_fits_def)
  then show ?thesis
    by (simp add: well_behaved_def piv_applet_def piv_deselect_ok)
qed

section \<open>Long answers\<close>

text \<open>The part of an answer that waits for GET RESPONSE, and the status word for \<open>n\<close> waiting bytes.\<close>

definition piv_pending :: "'b piv \<Rightarrow> bytes" where
  "piv_pending s = take (pv_resp_remaining s) (drop (pv_resp_pos s) (pv_resp_buf s))"

definition piv_status :: "nat \<Rightarrow> bytes" where
  "piv_status n = apdu_sw (if n = 0 then PIV_SW_OK else piv_more n)"

lemma piv_pending_length: "piv_ok s \<Longrightarrow> length (piv_pending s) = pv_resp_remaining s"
  by (auto simp: piv_pending_def piv_ok_def min_def)

lemma data_bytes: "nat (2 + int k) - 2 = k"
  by simp

lemma piv_emit_splits:
  assumes "piv_ok s" and "piv_pending s = []" and "2 \<le> n" and "length payload \<le> 2600"
    and "piv_emit payload le n s = ((k, b), t)"
  shows "piv_ok t \<and> take (nat k - 2) b @ piv_pending t = payload \<and>
    drop (nat k - 2) b = piv_status (length (piv_pending t))"
proof -
  have "pv_resp_remaining s = 0" using assms(1,2) piv_pending_length [of s] by simp
  with assms show ?thesis
    by (auto simp: piv_emit_def Let_def piv_pending_def piv_ok_def piv_status_def data_bytes split: if_splits)
qed

lemma get_response_splits:
  assumes "piv_ok s" and "piv_pending s \<noteq> []" and "2 < n"
    and "cmdGetResponse 0 0 le n s = ((k, b), t)"
  shows "piv_ok t \<and> length (piv_pending t) < length (piv_pending s) \<and>
    take (nat k - 2) b @ piv_pending t = piv_pending s \<and>
    drop (nat k - 2) b = piv_status (length (piv_pending t))"
proof -
  let ?r = "pv_resp_remaining s"
  have r: "?r \<noteq> 0" using assms(2) piv_pending_length [OF assms(1)] by (metis length_0_conv)
  define want where "want = piv_piece le n ?r"
  have "0 < piv_requested le" by (simp add: piv_requested_def unat_gt_0)
  then have want: "0 < want" "want \<le> ?r"
    using assms(3) r by (auto simp: want_def piv_piece_def Let_def)
  let ?body = "take want (drop (pv_resp_pos s) (pv_resp_buf s))"
  have len: "length ?body = want" using assms(1) want by (auto simp: piv_ok_def min_def)
  have k: "k = 2 + int want" "b = ?body @ apdu_sw (if 0 < ?r - want then piv_more (?r - want) else PIV_SW_OK)"
    and t: "t = s\<lparr>pv_resp_pos := (if 0 < ?r - want then pv_resp_pos s + want else 0),
      pv_resp_remaining := ?r - want\<rparr>"
    using assms(4) r by (simp_all add: cmdGetResponse_def Let_def flip: want_def)
  have "piv_pending s = ?body @ take (?r - want) (drop (pv_resp_pos s + want) (pv_resp_buf s))"
    using want take_add [of want "?r - want" "drop (pv_resp_pos s) (pv_resp_buf s)"]
    by (simp add: piv_pending_def add.commute)
  moreover have "piv_ok t" using assms(1) want by (auto simp: t piv_ok_def)
  moreover note piv_pending_length [OF assms(1)] piv_pending_length [OF \<open>piv_ok t\<close>]
  ultimately show ?thesis
    using want len by (cases "want = ?r") (auto simp: k t piv_pending_def data_bytes piv_status_def)
qed

interpretation piv_answers:
  chained_answer piv_ok piv_pending piv_emit "cmdGetResponse 0 0" piv_status 2600
  by unfold_locales (rule piv_emit_splits get_response_splits; assumption)+

end
