(* ===== verification/Piv_Session.thy ===== *)
theory Piv_Session
  imports Piv
begin

text \<open>
  What a session with the PIV applet can do: which calls of the back end the PIN and the management
  key guard, and what a chain of command blocks means.
\<close>

section \<open>Calls of the back end\<close>

text \<open>
  The calls that use a key, try the PIN or change the card, with their result, and the end of a
  session. \<open>logged be\<close> is the back end \<open>be\<close> that also writes down these calls.
\<close>

datatype piv_call =
    Pin_Tried bool
  | Signed byte bool
  | Agreed bool
  | Generated byte bool
  | Stored u32 bool
  | Key_Set byte bool
  | Session_Closed

type_synonym 'b logging = "'b \<times> piv_call list"

definition noting :: "('r \<Rightarrow> piv_call) \<Rightarrow> piv_call list \<Rightarrow> 'r \<times> 'b \<Rightarrow> 'r \<times> 'b logging" where
  "noting c l rb = (fst rb, (snd rb, l @ [c (fst rb)]))"

definition quiet :: "piv_call list \<Rightarrow> 'r \<times> 'b \<Rightarrow> 'r \<times> 'b logging" where
  "quiet l rb = (fst rb, (snd rb, l))"

definition logged :: "'b piv_backend \<Rightarrow> 'b logging piv_backend" where
  "logged be = \<lparr>
    pb_key_present = (\<lambda>k bl. pb_key_present be k (fst bl)),
    pb_key_sign = (\<lambda>k d bl. noting (\<lambda>r. Signed k (r \<noteq> None)) (snd bl) (pb_key_sign be k d (fst bl))),
    pb_key_generate = (\<lambda>k bl. noting (\<lambda>r. Generated k (r \<noteq> None)) (snd bl) (pb_key_generate be k (fst bl))),
    pb_key_pubkey = (\<lambda>k bl. pb_key_pubkey be k (fst bl)),
    pb_key_ecdh = (\<lambda>p bl. noting (\<lambda>r. Agreed (r \<noteq> None)) (snd bl) (pb_key_ecdh be p (fst bl))),
    pb_pin_verify = (\<lambda>p bl. noting Pin_Tried (snd bl) (pb_pin_verify be p (fst bl))),
    pb_pin_retries = (\<lambda>bl. pb_pin_retries be (fst bl)),
    pb_pin_blocked = (\<lambda>bl. pb_pin_blocked be (fst bl)),
    pb_mgmt_encrypt = (\<lambda>d bl. quiet (snd bl) (pb_mgmt_encrypt be d (fst bl))),
    pb_mgmt_set_key = (\<lambda>a k bl. noting (Key_Set a) (snd bl) (pb_mgmt_set_key be a k (fst bl))),
    pb_state_load = (\<lambda>bl. quiet (snd bl) (pb_state_load be (fst bl))),
    pb_object_load = (\<lambda>o' n bl. pb_object_load be o' n (fst bl)),
    pb_object_store = (\<lambda>o' d bl. noting (Stored o') (snd bl) (pb_object_store be o' d (fst bl))),
    pb_rng = (\<lambda>w bl. quiet (snd bl) (pb_rng be w (fst bl)))\<rparr>"

lemma logged_simps [simp]:
  "pb_key_present (logged be) k bl = pb_key_present be k (fst bl)"
  "pb_key_sign (logged be) k d bl = noting (\<lambda>r. Signed k (r \<noteq> None)) (snd bl) (pb_key_sign be k d (fst bl))"
  "pb_key_generate (logged be) k bl = noting (\<lambda>r. Generated k (r \<noteq> None)) (snd bl) (pb_key_generate be k (fst bl))"
  "pb_key_pubkey (logged be) k bl = pb_key_pubkey be k (fst bl)"
  "pb_key_ecdh (logged be) q bl = noting (\<lambda>r. Agreed (r \<noteq> None)) (snd bl) (pb_key_ecdh be q (fst bl))"
  "pb_pin_verify (logged be) q bl = noting Pin_Tried (snd bl) (pb_pin_verify be q (fst bl))"
  "pb_pin_retries (logged be) bl = pb_pin_retries be (fst bl)"
  "pb_pin_blocked (logged be) bl = pb_pin_blocked be (fst bl)"
  "pb_mgmt_encrypt (logged be) d bl = quiet (snd bl) (pb_mgmt_encrypt be d (fst bl))"
  "pb_mgmt_set_key (logged be) a q bl = noting (Key_Set a) (snd bl) (pb_mgmt_set_key be a q (fst bl))"
  "pb_state_load (logged be) bl = quiet (snd bl) (pb_state_load be (fst bl))"
  "pb_object_load (logged be) ob m bl = pb_object_load be ob m (fst bl)"
  "pb_object_store (logged be) ob d bl = noting (Stored ob) (snd bl) (pb_object_store be ob d (fst bl))"
  "pb_rng (logged be) w bl = quiet (snd bl) (pb_rng be w (fst bl))"
  by (simp_all add: logged_def)

abbreviation call_log :: "'b logging piv \<Rightarrow> piv_call list" where
  "call_log s \<equiv> snd (pv_store s)"

text \<open>What reaches the applet: commands with the room for the response, and the end of the session.\<close>

datatype piv_op = Command bytes nat | Close

fun piv_step :: "piv_op \<Rightarrow> 'b logging piv \<Rightarrow> 'b logging piv" where
  "piv_step (Command cmd n) s = snd (processApdu cmd n s)"
| "piv_step Close s = (piv_deselect s)\<lparr>pv_store := (fst (pv_store s), call_log s @ [Session_Closed])\<rparr>"

section \<open>The policy\<close>

text \<open>
  The PIN policy of the card as a gate that the calls pass: \<open>gate v c\<close> is nothing when the call is
  not allowed, and otherwise whether the PIN counts as verified after it. The card authentication key
  9E needs no PIN. A signature with 9C uses the verification up. A wrong try leaves an earlier
  verification standing.
\<close>

fun gate :: "bool \<Rightarrow> piv_call \<Rightarrow> bool option" where
  "gate v (Pin_Tried ok) = Some (v \<or> ok)"
| "gate v (Signed k ok) =
    (if k = PIV_KEY_9E then Some v
     else if (k = PIV_KEY_9A \<or> k = PIV_KEY_9C \<or> k = PIV_KEY_9D) \<and> v
       then Some (if k = PIV_KEY_9C \<and> ok then False else v)
     else None)"
| "gate v (Agreed ok) = (if v then Some v else None)"
| "gate v Session_Closed = Some False"
| "gate v c = Some v"

fun gates :: "bool \<Rightarrow> piv_call list \<Rightarrow> bool option" where
  "gates v [] = Some v"
| "gates v (c # cs) = (case gate v c of None \<Rightarrow> None | Some v \<Rightarrow> gates v cs)"

lemma gates_append: "gates v (xs @ ys) = (case gates v xs of None \<Rightarrow> None | Some w \<Rightarrow> gates w ys)"
  by (induction xs arbitrary: v) (auto split: option.splits)

text \<open>The calls that the management key guards.\<close>

fun guarded :: "piv_call \<Rightarrow> bool" where
  "guarded (Generated k ok) = True"
| "guarded (Stored o' ok) = True"
| "guarded (Key_Set a ok) = True"
| "guarded _ = False"

text \<open>
  A step that keeps to the policy: the calls it adds pass the gate, the applet counts the PIN as
  verified only if the gate does, and without the management key nothing it guards is called.
\<close>

definition disciplined :: "'b logging piv \<Rightarrow> 'b logging piv \<Rightarrow> bool" where
  "disciplined s t \<longleftrightarrow> (\<exists>cs. call_log t = call_log s @ cs \<and>
     (\<forall>v. (pv_pin_verified s \<longrightarrow> v) \<longrightarrow> (\<exists>w. gates v cs = Some w \<and> (pv_pin_verified t \<longrightarrow> w))) \<and>
     (\<not> pv_mgmt_authenticated s \<longrightarrow> filter guarded cs = []))"

lemma disciplined_quiet:
  "call_log t = call_log s \<Longrightarrow> (pv_pin_verified t \<Longrightarrow> pv_pin_verified s) \<Longrightarrow> disciplined s t"
  unfolding disciplined_def by (intro exI [of _ "[]"]) auto

lemma disciplined_call:
  assumes "call_log t = call_log s @ [c]"
    and "\<And>v. (pv_pin_verified s \<Longrightarrow> v) \<Longrightarrow> \<exists>w. gate v c = Some w \<and> (pv_pin_verified t \<longrightarrow> w)"
    and "guarded c \<Longrightarrow> pv_mgmt_authenticated s"
  shows "disciplined s t"
  unfolding disciplined_def
proof (intro exI [of _ "[c]"] conjI allI impI)
  fix v assume "pv_pin_verified s \<longrightarrow> v"
  with assms(2) [of v] obtain w where "gate v c = Some w \<and> (pv_pin_verified t \<longrightarrow> w)" by blast
  then show "\<exists>w. gates v [c] = Some w \<and> (pv_pin_verified t \<longrightarrow> w)" by auto
next
  assume "\<not> pv_mgmt_authenticated s"
  with assms(3) show "filter guarded [c] = []" by auto
qed (rule assms(1))

text \<open>What the answers leave alone.\<close>

lemma answers_frame [simp]:
  "pv_store (snd (piv_sw v s)) = pv_store s" "pv_pin_verified (snd (piv_sw v s)) = pv_pin_verified s"
  "pv_store (snd (piv_emit p le n s)) = pv_store s"
  "pv_pin_verified (snd (piv_emit p le n s)) = pv_pin_verified s"
  "pv_store (snd (cmdGetResponse p1 p2 le n s)) = pv_store s"
  "pv_pin_verified (snd (cmdGetResponse p1 p2 le n s)) = pv_pin_verified s"
  by (simp_all add: piv_sw_def piv_emit_def cmdGetResponse_def Let_def)

lemma answers_mgmt [simp]:
  "pv_mgmt_authenticated (snd (piv_sw v s)) = pv_mgmt_authenticated s"
  "pv_mgmt_authenticated (snd (piv_emit p le n s)) = pv_mgmt_authenticated s"
  "pv_mgmt_authenticated (snd (cmdGetResponse p1 p2 le n s)) = pv_mgmt_authenticated s"
  by (simp_all add: piv_sw_def piv_emit_def cmdGetResponse_def Let_def)

lemma replies_frame [simp]:
  "pv_store (snd (mgmt_reply tag enc s)) = pv_store s"
  "pv_pin_verified (snd (mgmt_reply tag enc s)) = pv_pin_verified s"
  "pv_mgmt_authenticated (snd (mgmt_reply tag enc s)) = pv_mgmt_authenticated s"
  "pv_store (snd (emit_auth cap value n le s)) = pv_store s"
  "pv_pin_verified (snd (emit_auth cap value n le s)) = pv_pin_verified s"
  "pv_mgmt_authenticated (snd (emit_auth cap value n le s)) = pv_mgmt_authenticated s"
  by (simp_all add: mgmt_reply_def emit_auth_def split: option.split)

lemma chain_frame [simp]:
  "pv_store (resetChain s) = pv_store s" "pv_pin_verified (resetChain s) = pv_pin_verified s"
  "pv_mgmt_authenticated (resetChain s) = pv_mgmt_authenticated s"
  by (simp_all add: resetChain_def)

text \<open>The last block of a command runs it on the state that holds the data of the whole chain.\<close>

definition spliced :: "bytes \<Rightarrow> 'b piv \<Rightarrow> 'b piv" where
  "spliced dat s = (if length (pv_chain s) > 0 then s\<lparr>pv_chain := pv_chain s @ dat\<rparr> else s)"

lemma spliced_frame [simp]:
  "pv_store (spliced dat s) = pv_store s" "pv_pin_verified (spliced dat s) = pv_pin_verified s"
  "pv_mgmt_authenticated (spliced dat s) = pv_mgmt_authenticated s"
  "pv_witness (spliced dat s) = pv_witness s" "pv_witness_valid (spliced dat s) = pv_witness_valid s"
  by (simp_all add: spliced_def)

lemma final_block_state:
  "snd (final_block be a dat n s) = resetChain s \<or>
   snd (final_block be a dat n s) = resetChain (snd (piv_dispatch be a (pv_chain s @ dat) n (spliced dat s)))"
  by (auto simp: final_block_def spliced_def Let_def case_prod_beta piv_sw_def)

text \<open>Each command keeps to the policy.\<close>

lemma snd_piv_sw [simp]: "snd (piv_sw v s) = s"
  by (simp add: piv_sw_def)

lemma sw_disciplined: "disciplined s s"
  by (rule disciplined_quiet) simp_all

lemma select_disciplined: "disciplined s (snd (cmdSelect n le s))"
  by (rule disciplined_quiet) (auto simp: cmdSelect_def Let_def split: option.splits)

lemma get_data_disciplined: "disciplined s (snd (cmdGetData (logged be) dat n le s))"
  by (rule disciplined_quiet)
    (auto simp: cmdGetData_def quiet_def Let_def split: option.splits prod.splits if_splits)

lemma metadata_disciplined: "disciplined s (snd (cmdGetMetadata (logged be) k n le s))"
  by (rule disciplined_quiet)
    (auto simp: cmdGetMetadata_def quiet_def Let_def split: option.splits prod.splits if_splits)

lemma mgmtAuth_disciplined: "disciplined s (snd (mgmtAuth (logged be) inner s))"
  by (rule disciplined_quiet)
    (auto simp: mgmtAuth_def request_witness_def answer_challenge_def quiet_def Let_def
      split: option.splits prod.splits list.splits if_splits)

lemma verify_disciplined: "disciplined s (snd (cmdVerify (logged be) p1 p2 dat s))"
proof (cases "p2 = PIV_KEY_PIN \<and> p1 \<noteq> 0xFF \<and> length dat = 8 \<and> \<not> pb_pin_blocked be (fst (pv_store s)) \<and>
    pin_digits dat \<noteq> None \<and> pin_digits dat \<noteq> Some []")
  case True
  then obtain d ds where pin: "pin_digits dat = Some (d # ds)" by (cases "pin_digits dat") (auto simp: neq_Nil_conv)
  obtain ok b where r: "pb_pin_verify be (d # ds) (fst (pv_store s)) = (ok, b)"
    by (cases "pb_pin_verify be (d # ds) (fst (pv_store s))")
  from True pin r show ?thesis
    by (intro disciplined_call [of _ _ "Pin_Tried ok"])
      (auto simp: cmdVerify_def noting_def split: bool.splits)
next
  case False
  then have "pv_store (snd (cmdVerify (logged be) p1 p2 dat s)) = pv_store s \<and>
      (pv_pin_verified (snd (cmdVerify (logged be) p1 p2 dat s)) \<longrightarrow> pv_pin_verified s)"
    by (auto simp: cmdVerify_def split: option.splits list.splits)
  then show ?thesis by (auto intro: disciplined_quiet)
qed

lemma ecdh_disciplined: "disciplined s (snd (ecdh (logged be) point n le s))"
proof (cases "pv_pin_verified s \<and> length point = 65 \<and> point ! 0 = 0x04")
  case True
  obtain r b where r: "pb_key_ecdh be point (fst (pv_store s)) = (r, b)"
    by (cases "pb_key_ecdh be point (fst (pv_store s))")
  with True show ?thesis
    by (intro disciplined_call [of _ _ "Agreed (r \<noteq> None)"])
      (auto simp: ecdh_def noting_def split: option.splits)
next
  case False
  then show ?thesis by (intro disciplined_quiet) (auto simp: ecdh_def split: if_splits)
qed

lemma sign_disciplined: "disciplined s (snd (sign_challenge (logged be) k inner n le s))"
proof (cases "tlvFind inner PIV_TAG_CHALLENGE")
  case None
  then show ?thesis by (intro disciplined_quiet) (auto simp: sign_challenge_def split: if_splits)
next
  case (Some chal)
  show ?thesis
  proof (cases "length chal \<noteq> 0 \<and> pinGateForSign k s \<and> pb_key_present be k (fst (pv_store s))")
    case True
    obtain r b where r: "pb_key_sign be k (digest32 chal) (fst (pv_store s)) = (r, b)"
      by (cases "pb_key_sign be k (digest32 chal) (fst (pv_store s))")
    have eq: "snd (sign_challenge (logged be) k inner n le s) = t \<Longrightarrow>
        call_log t = call_log s @ [Signed k (r \<noteq> None)] \<and>
        pv_pin_verified t = (pv_pin_verified s \<and> \<not> (k = PIV_KEY_9C \<and> r \<noteq> None))" for t
      using True Some r
      by (auto simp: sign_challenge_def noting_def Let_def split: option.splits if_splits)
    from eq [OF refl] True show ?thesis
      by (intro disciplined_call [of _ _ "Signed k (r \<noteq> None)"])
        (auto simp: pinGateForSign_def split: if_splits)
  next
    case False
    with Some have "snd (sign_challenge (logged be) k inner n le s) = s" by (auto simp: sign_challenge_def)
    then show ?thesis by (simp add: sw_disciplined)
  qed
qed

lemma generate_disciplined: "disciplined s (snd (cmdGenerate (logged be) k dat n le s))"
proof (cases "pv_mgmt_authenticated s \<and> (k = PIV_KEY_9A \<or> k = PIV_KEY_9C \<or> k = PIV_KEY_9D \<or> k = PIV_KEY_9E) \<and>
    generate_alg dat = Some [PIV_ALG_ECC_P256]")
  case True
  obtain r b where r: "pb_key_generate be k (fst (pv_store s)) = (r, b)"
    by (cases "pb_key_generate be k (fst (pv_store s))")
  have eq: "snd (cmdGenerate (logged be) k dat n le s) = t \<Longrightarrow>
      call_log t = call_log s @ [Generated k (r \<noteq> None)] \<and> pv_pin_verified t = pv_pin_verified s" for t
    using True r by (auto simp: cmdGenerate_def noting_def Let_def split: option.splits)
  from eq [OF refl] True show ?thesis
    by (intro disciplined_call [of _ _ "Generated k (r \<noteq> None)"]) auto
next
  case False
  then show ?thesis by (intro disciplined_quiet) (auto simp: cmdGenerate_def split: if_splits)
qed

lemma put_data_disciplined: "disciplined s (snd (cmdPutData (logged be) dat s))"
proof (cases "pv_mgmt_authenticated s \<and> object_tag dat \<noteq> None \<and> tlvFind dat PIV_TAG_DATA_OBJECT \<noteq> None \<and>
    certObjectToKeyRef (the (object_tag dat)) \<noteq> 0")
  case True
  then obtain obj body where ob: "object_tag dat = Some obj" "tlvFind dat PIV_TAG_DATA_OBJECT = Some body"
    by auto
  obtain ok b where "pb_object_store be obj body (fst (pv_store s)) = (ok, b)"
    by (cases "pb_object_store be obj body (fst (pv_store s))")
  with True ob show ?thesis
    by (intro disciplined_call [of _ _ "Stored obj ok"])
      (auto simp: cmdPutData_def noting_def split: bool.splits)
next
  case False
  then have "snd (cmdPutData (logged be) dat s) = s" by (auto simp: cmdPutData_def split: option.split)
  then show ?thesis by (simp add: sw_disciplined)
qed

lemma set_key_disciplined: "disciplined s (snd (cmdSetMgmtKey (logged be) dat s))"
proof (cases "pv_mgmt_authenticated s \<and> \<not> length dat < 3 \<and> dat ! 1 = PIV_KEY_9B \<and>
    \<not> length dat < 3 + unat (dat ! 2) \<and>
    (dat ! 0 = PIV_ALG_AES128 \<or> dat ! 0 = PIV_ALG_AES192 \<or> dat ! 0 = PIV_ALG_AES256)")
  case True
  let ?key = "take (unat (dat ! 2)) (drop 3 dat)"
  obtain ok b where "pb_mgmt_set_key be (dat ! 0) ?key (fst (pv_store s)) = (ok, b)"
    by (cases "pb_mgmt_set_key be (dat ! 0) ?key (fst (pv_store s))")
  with True show ?thesis
    by (intro disciplined_call [of _ _ "Key_Set (dat ! 0) ok"])
      (auto simp: cmdSetMgmtKey_def noting_def split: bool.splits)
next
  case False
  then show ?thesis by (intro disciplined_quiet) (auto simp: cmdSetMgmtKey_def split: if_splits)
qed

lemma general_auth_disciplined: "disciplined s (snd (cmdGeneralAuth (logged be) alg k dat n le s))"
  by (auto simp: cmdGeneralAuth_def mgmtAuth_disciplined ecdh_disciplined sign_disciplined
      intro: disciplined_quiet split: option.splits)

lemmas commands_disciplined = select_disciplined get_data_disciplined verify_disciplined
  general_auth_disciplined generate_disciplined put_data_disciplined metadata_disciplined
  set_key_disciplined

lemma dispatch_disciplined: "disciplined s (snd (piv_dispatch (logged be) a dat n s))"
  by (simp add: piv_dispatch_def commands_disciplined sw_disciplined)

lemma process_disciplined:
  assumes "pv_backend s = Some (logged be)"
  shows "disciplined s (snd (processApdu cmd n s))"
proof -
  have final: "disciplined s (snd (final_block (logged be) a dat n s))" for a dat
  proof -
    have "disciplined s (resetChain s)" by (rule disciplined_quiet) simp_all
    moreover have "disciplined s (resetChain (snd (piv_dispatch (logged be) a (pv_chain s @ dat) n (spliced dat s))))"
      using dispatch_disciplined [of "spliced dat s" be a "pv_chain s @ dat" n] by (simp add: disciplined_def)
    ultimately show ?thesis using final_block_state [of "logged be" a dat n s] by metis
  qed
  have "disciplined s (snd (chain_block a dat s))" for a dat
    by (rule disciplined_quiet) (auto simp: chain_block_def Let_def split: if_splits)
  with final assms show ?thesis
    by (auto simp: processApdu_def intro: disciplined_quiet split: option.splits)
qed

lemma step_disciplined: "pv_backend s = Some (logged be) \<Longrightarrow> disciplined s (piv_step x s)"
proof (cases x)
  case Close
  then show ?thesis
    by (intro disciplined_call [of _ _ Session_Closed]) (auto simp: piv_deselect_def resetChain_def intro!: exI [of _ False])
qed (simp add: process_disciplined)

section \<open>What no command changes\<close>

lemma backend_answers [simp]:
  "pv_backend (snd (piv_emit p le n s)) = pv_backend s"
  "pv_backend (snd (cmdGetResponse p1 p2 le n s)) = pv_backend s"
  "pv_backend (snd (mgmt_reply tag enc s)) = pv_backend s"
  "pv_backend (snd (emit_auth cap value n le s)) = pv_backend s"
  "pv_backend (resetChain s) = pv_backend s"
  by (simp_all add: piv_emit_def cmdGetResponse_def mgmt_reply_def emit_auth_def resetChain_def Let_def
      split: option.split)

lemma backend_commands [simp]:
  "pv_backend (snd (cmdSelect n le s)) = pv_backend s"
  "pv_backend (snd (cmdGetData be dat n le s)) = pv_backend s"
  "pv_backend (snd (cmdVerify be p1 p2 dat s)) = pv_backend s"
  "pv_backend (snd (mgmtAuth be dat s)) = pv_backend s"
  "pv_backend (snd (ecdh be dat n le s)) = pv_backend s"
  "pv_backend (snd (sign_challenge be k dat n le s)) = pv_backend s"
  "pv_backend (snd (cmdGenerate be k dat n le s)) = pv_backend s"
  "pv_backend (snd (cmdPutData be dat s)) = pv_backend s"
  "pv_backend (snd (cmdGetMetadata be k n le s)) = pv_backend s"
  "pv_backend (snd (cmdSetMgmtKey be dat s)) = pv_backend s"
  by (simp_all add: cmdSelect_def cmdGetData_def cmdVerify_def mgmtAuth_def request_witness_def
      answer_challenge_def ecdh_def sign_challenge_def cmdGenerate_def cmdPutData_def cmdGetMetadata_def
      cmdSetMgmtKey_def Let_def split: option.split prod.split list.split bool.split)

lemma backend_dispatch [simp]: "pv_backend (snd (piv_dispatch be a dat n s)) = pv_backend s"
  by (simp add: piv_dispatch_def cmdGeneralAuth_def split: option.split)

lemma backend_process [simp]: "pv_backend (snd (processApdu cmd n s)) = pv_backend s"
  by (auto simp: processApdu_def chain_block_def final_block_def Let_def case_prod_beta split: option.split)

lemma backend_step [simp]: "pv_backend (piv_step x s) = pv_backend s"
  by (cases x) (simp_all add: piv_deselect_def resetChain_def)

section \<open>The PIN\<close>

definition gated :: "'b logging piv \<Rightarrow> bool" where
  "gated s \<longleftrightarrow> (\<exists>w. gates False (call_log s) = Some w \<and> (pv_pin_verified s \<longrightarrow> w))"

lemma gated_step:
  assumes "gated s" and "disciplined s t"
  shows "gated t"
proof -
  obtain w where w: "gates False (call_log s) = Some w" "pv_pin_verified s \<longrightarrow> w"
    using assms(1) by (auto simp: gated_def)
  obtain cs where cs: "call_log t = call_log s @ cs"
      "\<forall>v. (pv_pin_verified s \<longrightarrow> v) \<longrightarrow> (\<exists>w. gates v cs = Some w \<and> (pv_pin_verified t \<longrightarrow> w))"
    using assms(2) unfolding disciplined_def by blast
  then obtain w' where "gates w cs = Some w'" "pv_pin_verified t \<longrightarrow> w'" using w(2) by blast
  with w(1) cs(1) show ?thesis by (simp add: gated_def gates_append)
qed

lemma gated_steps:
  assumes "pv_backend s = Some (logged be)" and "gated s"
  shows "gated (fold piv_step xs s)"
  using assms
proof (induction xs arbitrary: s)
  case (Cons x xs)
  from gated_step [OF Cons.prems(2) step_disciplined [OF Cons.prems(1)]] Cons.IH Cons.prems(1)
  show ?case by simp
qed simp

text \<open>A call that passes the gate: each signature with 9C costs a successful verification.\<close>

lemma gates_count:
  assumes "gates v cs = Some w"
  shows "length (filter (\<lambda>c. c = Signed PIV_KEY_9C True) cs) + (if w then 1 else 0) \<le>
    length (filter (\<lambda>c. c = Pin_Tried True) cs) + (if v then 1 else 0)"
  using assms
proof (induction cs arbitrary: v)
  case (Cons c cs)
  then obtain u where u: "gate v c = Some u" "gates u cs = Some w" by (auto split: option.splits)
  from Cons.IH [OF u(2)] u(1) show ?case
    by (cases c) (auto split: if_splits)
qed simp

section \<open>The management key\<close>

text \<open>The command that ends the locked state: it returns the plain witness of the last challenge.\<close>

fun presents_witness :: "'b piv \<Rightarrow> piv_op \<Rightarrow> bool" where
  "presents_witness s Close = False"
| "presents_witness s (Command cmd n) =
    (case apdu_parse cmd of
       None \<Rightarrow> False
     | Some a \<Rightarrow>
         a_ins a = PIV_INS_GENERAL_AUTH \<and> a_p2 a = PIV_KEY_9B \<and> pv_witness_valid s \<and>
         (case tlvFind (pv_chain s @ apdu_data cmd a) PIV_TAG_DYN_AUTH of
            None \<Rightarrow> False
          | Some inner \<Rightarrow> tlvFind inner PIV_TAG_WITNESS = Some (take 16 (pv_witness s))))"

fun never_presents :: "'b logging piv \<Rightarrow> piv_op list \<Rightarrow> bool" where
  "never_presents s [] = True"
| "never_presents s (x # xs) = (\<not> presents_witness s x \<and> never_presents (piv_step x s) xs)"

lemma mgmt_commands [simp]:
  "pv_mgmt_authenticated (snd (cmdSelect n le s)) = False"
  "pv_mgmt_authenticated (snd (cmdGetData be dat n le s)) = pv_mgmt_authenticated s"
  "pv_mgmt_authenticated (snd (cmdVerify be p1 p2 dat s)) = pv_mgmt_authenticated s"
  "pv_mgmt_authenticated (snd (ecdh be dat n le s)) = pv_mgmt_authenticated s"
  "pv_mgmt_authenticated (snd (sign_challenge be k dat n le s)) = pv_mgmt_authenticated s"
  "pv_mgmt_authenticated (snd (cmdGenerate be k dat n le s)) = pv_mgmt_authenticated s"
  "pv_mgmt_authenticated (snd (cmdPutData be dat s)) = pv_mgmt_authenticated s"
  "pv_mgmt_authenticated (snd (cmdGetMetadata be k n le s)) = pv_mgmt_authenticated s"
  "pv_mgmt_authenticated (snd (cmdSetMgmtKey be dat s)) = pv_mgmt_authenticated s"
  by (simp_all add: cmdSelect_def cmdGetData_def cmdVerify_def ecdh_def sign_challenge_def
      cmdGenerate_def cmdPutData_def cmdGetMetadata_def cmdSetMgmtKey_def Let_def
      split: option.split prod.split list.split bool.split)

lemma mgmtAuth_locked:
  assumes "\<not> pv_mgmt_authenticated s"
    and "\<not> (pv_witness_valid s \<and> tlvFind inner PIV_TAG_WITNESS = Some (take 16 (pv_witness s)))"
  shows "\<not> pv_mgmt_authenticated (snd (mgmtAuth be inner s))"
  using assms
  by (auto simp: mgmtAuth_def request_witness_def answer_challenge_def Let_def
      split: option.splits prod.splits list.splits if_splits)

lemma dispatch_locked:
  assumes "\<not> pv_mgmt_authenticated s"
    and "\<not> (a_ins a = PIV_INS_GENERAL_AUTH \<and> a_p2 a = PIV_KEY_9B \<and> pv_witness_valid s \<and>
      (case tlvFind dat PIV_TAG_DYN_AUTH of None \<Rightarrow> False
       | Some inner \<Rightarrow> tlvFind inner PIV_TAG_WITNESS = Some (take 16 (pv_witness s))))"
  shows "\<not> pv_mgmt_authenticated (snd (piv_dispatch be a dat n s))"
  using assms mgmtAuth_locked [OF assms(1)]
  by (auto simp: piv_dispatch_def cmdGeneralAuth_def split: option.splits)

lemma step_locked:
  assumes "\<not> pv_mgmt_authenticated s" and "\<not> presents_witness s x"
  shows "\<not> pv_mgmt_authenticated (piv_step x s)"
proof (cases x)
  case (Command cmd n)
  show ?thesis
  proof (cases "apdu_parse cmd")
    case None
    with Command assms(1) show ?thesis by (simp add: processApdu_def split: option.split)
  next
    case (Some a)
    let ?t = "spliced (apdu_data cmd a) s"
    have "\<not> pv_mgmt_authenticated (snd (piv_dispatch be a (pv_chain s @ apdu_data cmd a) n ?t))" for be
      using assms Command Some by (intro dispatch_locked) (simp_all cong: option.case_cong)
    then have "\<not> pv_mgmt_authenticated (snd (final_block be a (apdu_data cmd a) n s))" for be
      using assms(1) final_block_state [of be a "apdu_data cmd a" n s] by (metis chain_frame(3))
    moreover have "\<not> pv_mgmt_authenticated (snd (chain_block a (apdu_data cmd a) s))"
      using assms(1) by (simp add: chain_block_def Let_def)
    ultimately show ?thesis
      using Command Some assms(1) by (simp add: processApdu_def split: option.split)
  qed
qed (simp add: piv_deselect_def resetChain_def)

lemma locked_calls:
  assumes "pv_backend s = Some (logged be)" and "\<not> pv_mgmt_authenticated s" and "never_presents s xs"
  shows "\<not> pv_mgmt_authenticated (fold piv_step xs s) \<and>
    filter guarded (call_log (fold piv_step xs s)) = filter guarded (call_log s)"
  using assms
proof (induction xs arbitrary: s)
  case (Cons x xs)
  obtain cs where "call_log (piv_step x s) = call_log s @ cs" "filter guarded cs = []"
    using step_disciplined [OF Cons.prems(1), of x] Cons.prems(2) unfolding disciplined_def by blast
  then have "filter guarded (call_log (piv_step x s)) = filter guarded (call_log s)" by simp
  moreover have "\<not> pv_mgmt_authenticated (piv_step x s)"
    using Cons.prems(2,3) by (intro step_locked) simp_all
  moreover have "pv_backend (piv_step x s) = Some (logged be)" using Cons.prems(1) by simp
  moreover have "never_presents (piv_step x s) xs" using Cons.prems(3) by simp
  ultimately show ?case using Cons.IH [of "piv_step x s"] by (metis fold_simps(2))
qed simp

section \<open>Chained commands\<close>

text \<open>The chain fields travel through a command untouched.\<close>

definition with_chain :: "bytes \<Rightarrow> byte \<Rightarrow> byte \<Rightarrow> byte \<Rightarrow> 'b piv \<Rightarrow> 'b piv" where
  "with_chain c i p q s = s\<lparr>pv_chain := c, pv_chain_ins := i, pv_chain_p1 := p, pv_chain_p2 := q\<rparr>"

abbreviation (input) carries :: "('b piv \<Rightarrow> 'b piv_reply) \<Rightarrow> ('b piv \<Rightarrow> 'b piv) \<Rightarrow> bool" where
  "carries f g \<equiv> (\<forall>s. f (g s) = map_prod id g (f s))"

lemma answers_carry:
  "piv_sw v (with_chain c i p q s) = map_prod id (with_chain c i p q) (piv_sw v s)"
  "piv_emit d le n (with_chain c i p q s) = map_prod id (with_chain c i p q) (piv_emit d le n s)"
  "mgmt_reply tag d (with_chain c i p q s) = map_prod id (with_chain c i p q) (mgmt_reply tag d s)"
  "emit_auth cap d n le (with_chain c i p q s) = map_prod id (with_chain c i p q) (emit_auth cap d n le s)"
  by (simp_all add: piv_sw_def piv_emit_def mgmt_reply_def emit_auth_def with_chain_def Let_def
      split: option.split)

lemma with_chain_frame [simp]:
  "pv_store (with_chain c i p q s) = pv_store s"
  "pv_pin_verified (with_chain c i p q s) = pv_pin_verified s"
  "pv_mgmt_authenticated (with_chain c i p q s) = pv_mgmt_authenticated s"
  "pv_witness (with_chain c i p q s) = pv_witness s"
  "pv_witness_valid (with_chain c i p q s) = pv_witness_valid s"
  "pinGateForSign k (with_chain c i p q s) = pinGateForSign k s"
  by (simp_all add: with_chain_def pinGateForSign_def)

lemma with_chain_update:
  "(with_chain c i p q s)\<lparr>pv_store := b\<rparr> = with_chain c i p q (s\<lparr>pv_store := b\<rparr>)"
  "(with_chain c i p q s)\<lparr>pv_pin_verified := v\<rparr> = with_chain c i p q (s\<lparr>pv_pin_verified := v\<rparr>)"
  "(with_chain c i p q s)\<lparr>pv_mgmt_authenticated := v\<rparr> = with_chain c i p q (s\<lparr>pv_mgmt_authenticated := v\<rparr>)"
  "(with_chain c i p q s)\<lparr>pv_witness_valid := v\<rparr> = with_chain c i p q (s\<lparr>pv_witness_valid := v\<rparr>)"
  "(with_chain c i p q s)\<lparr>pv_witness := w\<rparr> = with_chain c i p q (s\<lparr>pv_witness := w\<rparr>)"
  by (simp_all add: with_chain_def)

lemmas carry_simps = answers_carry with_chain_update

lemma commands_carry:
  "cmdSelect n le (with_chain c i p q s) = map_prod id (with_chain c i p q) (cmdSelect n le s)"
  "cmdGetData be dat n le (with_chain c i p q s) = map_prod id (with_chain c i p q) (cmdGetData be dat n le s)"
  "cmdVerify be p1 p2 dat (with_chain c i p q s) = map_prod id (with_chain c i p q) (cmdVerify be p1 p2 dat s)"
  "mgmtAuth be dat (with_chain c i p q s) = map_prod id (with_chain c i p q) (mgmtAuth be dat s)"
  "ecdh be dat n le (with_chain c i p q s) = map_prod id (with_chain c i p q) (ecdh be dat n le s)"
  "sign_challenge be k dat n le (with_chain c i p q s) = map_prod id (with_chain c i p q) (sign_challenge be k dat n le s)"
  "cmdGenerate be k dat n le (with_chain c i p q s) = map_prod id (with_chain c i p q) (cmdGenerate be k dat n le s)"
  "cmdPutData be dat (with_chain c i p q s) = map_prod id (with_chain c i p q) (cmdPutData be dat s)"
  "cmdGetMetadata be k n le (with_chain c i p q s) = map_prod id (with_chain c i p q) (cmdGetMetadata be k n le s)"
  "cmdSetMgmtKey be dat (with_chain c i p q s) = map_prod id (with_chain c i p q) (cmdSetMgmtKey be dat s)"
  by (simp_all add: cmdSelect_def cmdGetData_def cmdVerify_def mgmtAuth_def request_witness_def
      answer_challenge_def ecdh_def sign_challenge_def cmdGenerate_def cmdPutData_def cmdGetMetadata_def
      cmdSetMgmtKey_def Let_def carry_simps split: option.split prod.split list.split bool.split)

lemma dispatch_carries:
  "piv_dispatch be a dat n (with_chain c i p q s) = map_prod id (with_chain c i p q) (piv_dispatch be a dat n s)"
  by (simp add: piv_dispatch_def cmdGeneralAuth_def commands_carry answers_carry split: option.split)

text \<open>A block of a chain, and the host that sends a list of them: the responses and the state after.\<close>

definition chained :: "command \<Rightarrow> bytes \<Rightarrow> bytes" where
  "chained c p = short_form (c\<lparr>c_cla := c_cla c OR CLA_CHAIN, c_data := p, c_ne := None\<rparr>)"

fun send_blocks :: "command \<Rightarrow> bytes list \<Rightarrow> nat \<Rightarrow> 'b piv \<Rightarrow> (int \<times> bytes) list \<times> 'b piv" where
  "send_blocks c [] n s = ([], s)"
| "send_blocks c (p # ps) n s =
    (case processApdu (chained c p) n s of (r, s) \<Rightarrow>
       (case send_blocks c ps n s of (rs, s) \<Rightarrow> (r # rs, s)))"

lemma parsed_fields:
  assumes "command_of raw a = c"
  shows "a_cla a = c_cla c" "a_ins a = c_ins c" "a_p1 a = c_p1 c" "a_p2 a = c_p2 c"
    "apdu_data raw a = c_data c" "c_ne c = (if a_le a = 0 then None else Some (unat (a_le a)))"
  using assms by (auto simp: command_of_def)

lemma chain_bit: "(x OR 0x10) AND 0x10 \<noteq> 0" for x :: byte
proof -
  have "(x OR 0x10) AND 0x10 = 0x10" by (rule bit_word_eqI) (auto simp: bit_simps)
  then show ?thesis by simp
qed

lemma same_le: "(if l = 0 then None else Some (unat l)) = (if m = 0 then None else Some (unat m)) \<Longrightarrow> l = m"
  for l m :: u32
  by (auto simp: word_unat_eq_iff split: if_splits)

lemma send_block:
  assumes "pv_backend s = Some be" and "2 \<le> n" and "c_ins c \<noteq> 0xC0" and "p \<noteq> []" and "length p < 256"
    and "length acc + length p \<le> 2600"
    and "acc \<noteq> [] \<Longrightarrow> (i, q, r) = (c_ins c, c_p1 c, c_p2 c)"
  shows "processApdu (chained c p) n (with_chain acc i q r s) =
    ((2, apdu_sw PIV_SW_OK), with_chain (acc @ p) (c_ins c) (c_p1 c) (c_p2 c) s)"
proof -
  let ?c = "c\<lparr>c_cla := c_cla c OR CLA_CHAIN, c_data := p, c_ne := None\<rparr>"
  have "fits_form 256 ?c" using assms(5) by (simp add: fits_form_def)
  from apdu_short_roundtrip [OF this] obtain a where a: "apdu_parse (chained c p) = Some a"
    "command_of (chained c p) a = ?c" unfolding chained_def by blast
  note f = parsed_fields [OF a(2), simplified]
  have "processApdu (chained c p) n (with_chain acc i q r s) = chain_block a p (with_chain acc i q r s)"
    using assms(1-3) a f chain_bit [of "c_cla c"] by (simp add: processApdu_def with_chain_def)
  also have "\<dots> = ((2, apdu_sw PIV_SW_OK), with_chain (acc @ p) (c_ins c) (c_p1 c) (c_p2 c) s)"
    using assms(6,7) f by (auto simp: chain_block_def with_chain_def same_command_def piv_sw_def)
  finally show ?thesis .
qed

lemma send_all:
  assumes "pv_backend s = Some be" and "2 \<le> n" and "c_ins c \<noteq> 0xC0"
    and "\<forall>p \<in> set ps. p \<noteq> [] \<and> length p < 256" and "length acc + length (concat ps) \<le> 2600"
    and "acc \<noteq> [] \<Longrightarrow> (i, q, r) = (c_ins c, c_p1 c, c_p2 c)"
  shows "send_blocks c ps n (with_chain acc i q r s) =
    (replicate (length ps) (2, apdu_sw PIV_SW_OK),
     if ps = [] then with_chain acc i q r s
     else with_chain (acc @ concat ps) (c_ins c) (c_p1 c) (c_p2 c) s)"
  using assms(4-)
proof (induction ps arbitrary: acc i q r)
  case (Cons p ps)
  have "processApdu (chained c p) n (with_chain acc i q r s) =
      ((2, apdu_sw PIV_SW_OK), with_chain (acc @ p) (c_ins c) (c_p1 c) (c_p2 c) s)"
    using Cons.prems by (intro send_block [OF assms(1-3)]) auto
  with Cons.IH [of "acc @ p" "c_ins c" "c_p1 c" "c_p2 c"] Cons.prems show ?case by auto
qed simp

lemma resetChain_with_chain [simp]: "resetChain (with_chain c i p q s) = resetChain s"
  by (simp add: resetChain_def with_chain_def)

lemma with_chain_fields [simp]:
  "pv_chain (with_chain c i p q s) = c" "pv_chain_ins (with_chain c i p q s) = i"
  "pv_chain_p1 (with_chain c i p q s) = p" "pv_chain_p2 (with_chain c i p q s) = q"
  "(with_chain c i p q s)\<lparr>pv_chain := d\<rparr> = with_chain d i p q s"
  by (cases s; simp add: with_chain_def)+

lemma dispatch_fields:
  "a_ins a = a_ins b \<Longrightarrow> a_p1 a = a_p1 b \<Longrightarrow> a_p2 a = a_p2 b \<Longrightarrow> a_le a = a_le b \<Longrightarrow>
    piv_dispatch be a dat n s = piv_dispatch be b dat n s"
  by (simp add: piv_dispatch_def)

lemma with_own_chain: "pv_chain s = [] \<Longrightarrow> s = with_chain [] (pv_chain_ins s) (pv_chain_p1 s) (pv_chain_p2 s) s"
  by (simp add: with_chain_def)

lemma chained_command:
  assumes "pv_backend s = Some be" and "2 \<le> n" and "pv_chain s = []"
    and "c_ins c \<noteq> 0xC0" and "c_cla c AND CLA_CHAIN = 0" and "fits_form 256 c"
    and "\<forall>p \<in> set ps. p \<noteq> [] \<and> length p < 256" and "length (concat ps @ c_data c) \<le> 2600"
    and "concat ps @ c_data c \<noteq> []"
  shows "send_blocks c ps n s = (replicate (length ps) (2, apdu_sw PIV_SW_OK), snd (send_blocks c ps n s))"
    and "processApdu (short_form c) n (snd (send_blocks c ps n s)) =
      processApdu (extended_form (c\<lparr>c_data := concat ps @ c_data c\<rparr>)) n s"
proof -
  let ?all = "concat ps @ c_data c" and ?w = "c\<lparr>c_data := concat ps @ c_data c\<rparr>"
  have sent: "send_blocks c ps n s = (replicate (length ps) (2, apdu_sw PIV_SW_OK),
      if ps = [] then s else with_chain (concat ps) (c_ins c) (c_p1 c) (c_p2 c) s)"
    using send_all [OF assms(1,2,4,7), of "[]" "pv_chain_ins s" "pv_chain_p1 s" "pv_chain_p2 s"]
      with_own_chain [OF assms(3)] assms(8) by simp
  then show "send_blocks c ps n s = (replicate (length ps) (2, apdu_sw PIV_SW_OK), snd (send_blocks c ps n s))"
    by simp
  from apdu_short_roundtrip [OF assms(6)] obtain a where a: "apdu_parse (short_form c) = Some a"
    "command_of (short_form c) a = c" by blast
  have "fits_form 65536 ?w" using assms(6,8) by (auto simp: fits_form_def split: option.splits)
  from apdu_extended_roundtrip [OF this] assms(9) obtain b where b: "apdu_parse (extended_form ?w) = Some b"
    "command_of (extended_form ?w) b = ?w" by auto
  note fa = parsed_fields [OF a(2)] and fb = parsed_fields [OF b(2), simplified]
  have "a_le a = a_le b" using fa(6) fb(6) by (intro same_le) simp
  then have same: "piv_dispatch be a dat n t = piv_dispatch be b dat n t" for dat t
    using fa fb by (intro dispatch_fields) simp_all
  have one: "processApdu (extended_form ?w) n s =
      map_prod id resetChain (piv_dispatch be b ?all n s)"
    using assms(1-5) b fb by (simp add: processApdu_def final_block_def Let_def case_prod_unfold map_prod_def)
  show "processApdu (short_form c) n (snd (send_blocks c ps n s)) = processApdu (extended_form ?w) n s"
  proof (cases "ps = []")
    case True
    then have "snd (send_blocks c ps n s) = s" by simp
    moreover have "processApdu (short_form c) n s = map_prod id resetChain (piv_dispatch be b ?all n s)"
      using assms(1-5) a fa same True
      by (simp add: processApdu_def final_block_def Let_def case_prod_unfold map_prod_def)
    ultimately show ?thesis by (simp only: one)
  next
    case False
    with assms(7) have ne: "concat ps \<noteq> []" by (cases ps) auto
    let ?t = "with_chain (concat ps) (c_ins c) (c_p1 c) (c_p2 c) s"
    have "processApdu (short_form c) n ?t = final_block be a (c_data c) n ?t"
      using assms(1,2,4,5) a fa by (simp add: processApdu_def with_chain_def)
    also have "\<dots> = map_prod id resetChain (piv_dispatch be a ?all n
        (with_chain ?all (c_ins c) (c_p1 c) (c_p2 c) s))"
      using assms(8) fa ne
      by (simp add: final_block_def same_command_def Let_def case_prod_unfold map_prod_def)
    also have "\<dots> = map_prod id resetChain (piv_dispatch be b ?all n s)"
      by (simp add: dispatch_carries same map_prod_def case_prod_unfold)
    finally show ?thesis using sent False by (simp add: one)
  qed
qed

section \<open>Properties\<close>

text \<open>The applet after start-up, with the back end installed.\<close>

definition piv_boot :: "'b piv_backend \<Rightarrow> 'b \<Rightarrow> 'b piv" where
  "piv_boot be b = \<lparr>pv_backend = Some be, pv_pin_verified = False, pv_mgmt_authenticated = False,
     pv_witness_valid = False, pv_witness = replicate 16 0, pv_chain = [], pv_chain_ins = 0,
     pv_chain_p1 = 0, pv_chain_p2 = 0, pv_resp_buf = replicate 2600 0, pv_resp_pos = 0,
     pv_resp_remaining = 0, pv_store = b\<rparr>"

lemma piv_boot_ok: "piv_ok (piv_boot be b)"
  by (simp add: piv_boot_def piv_ok_def)

text \<open>A back end for the witnesses: its state counts the calls.\<close>

definition counting_backend :: "nat piv_backend" where
  "counting_backend = \<lparr>
    pb_key_present = (\<lambda>k b. True), pb_key_sign = (\<lambda>k d b. (Some (replicate 64 1), b + 1)),
    pb_key_generate = (\<lambda>k b. (Some (replicate 65 4), b + 1)), pb_key_pubkey = (\<lambda>k b. None),
    pb_key_ecdh = (\<lambda>q b. (Some (replicate 32 7), b + 1)),
    pb_pin_verify = (\<lambda>q b. (q = [0x31, 0x32, 0x33, 0x34, 0x35, 0x36], b + 1)),
    pb_pin_retries = (\<lambda>b. 3), pb_pin_blocked = (\<lambda>b. False),
    pb_mgmt_encrypt = (\<lambda>d b. (Some d, b)), pb_mgmt_set_key = (\<lambda>a q b. (True, b + 1)),
    pb_state_load = (\<lambda>b. (None, b)), pb_object_load = (\<lambda>ob m b. None),
    pb_object_store = (\<lambda>ob d b. (True, b + 1)), pb_rng = (\<lambda>w b. ((True, replicate 16 9), b))\<rparr>"

text \<open>
  C2. From start-up on, whatever commands and deselections reach the applet, no key that needs the
  PIN is used without it: every signature with 9A, 9C or 9D and every key agreement comes after a
  successful verification in the same session, a signature with 9C uses the verification up, and so
  there are never more signatures with 9C than successful verifications.
\<close>

theorem piv_pin_policy:
  "let calls = call_log (fold piv_step xs (piv_boot (logged be) (b, []))) in
    gates False calls \<noteq> None \<and>
    length (filter (\<lambda>c. c = Signed PIV_KEY_9C True) calls) \<le> length (filter (\<lambda>c. c = Pin_Tried True) calls)"
proof -
  have "gated (fold piv_step xs (piv_boot (logged be) (b, [])))"
    by (rule gated_steps [where be = be]) (auto simp: piv_boot_def gated_def intro: exI [of _ False])
  then obtain w where w: "gates False (call_log (fold piv_step xs (piv_boot (logged be) (b, [])))) = Some w"
    by (auto simp: gated_def)
  from gates_count [OF w] w show ?thesis by (simp add: Let_def)
qed

text \<open>
  C5. Until the plain witness of the last challenge is presented, no sequence of commands and
  deselections generates a key, stores an object or sets the management key, and the session stays
  locked.
\<close>

theorem piv_mgmt_locked:
  assumes "pv_backend s = Some (logged be)" and "\<not> pv_mgmt_authenticated s" and "never_presents s xs"
  shows "\<not> pv_mgmt_authenticated (fold piv_step xs s) \<and>
    filter guarded (call_log (fold piv_step xs s)) = filter guarded (call_log s)"
  by (rule locked_calls [OF assms])

theorem piv_mgmt_locked_witness:
  "filter guarded (call_log (fold piv_step [Command [0, 0x47, 0, 0x9A] 256, Close]
    (piv_boot (logged counting_backend) (0, [])))) = []"
proof -
  have "never_presents (piv_boot (logged counting_backend) (0, [])) [Command [0, 0x47, 0, 0x9A] 256, Close]"
    by (simp add: apdu_parse_def)
  from piv_mgmt_locked [OF _ _ this, of counting_backend] show ?thesis by (simp add: piv_boot_def)
qed

text \<open>
  C26. A command sent as a chain of blocks is the command with all their data: each block but the
  last is acknowledged, and the last one gives the response, and leaves the applet in the state, of
  the one command of extended length that carries the whole data.
\<close>

theorem piv_command_chaining:
  assumes "pv_backend s = Some be" and "2 \<le> n" and "pv_chain s = []"
    and "c_ins c \<noteq> 0xC0" and "c_cla c AND CLA_CHAIN = 0" and "fits_form 256 c"
    and "\<forall>p \<in> set ps. p \<noteq> [] \<and> length p < 256" and "length (concat ps @ c_data c) \<le> 2600"
    and "concat ps @ c_data c \<noteq> []"
  shows "fst (send_blocks c ps n s) = replicate (length ps) (2, apdu_sw PIV_SW_OK) \<and>
    processApdu (short_form c) n (snd (send_blocks c ps n s)) =
      processApdu (extended_form (c\<lparr>c_data := concat ps @ c_data c\<rparr>)) n s"
  using chained_command [OF assms] by (metis fst_conv)

theorem piv_command_chaining_witness:
  "processApdu [0, 0xDB, 0x3F, 0xFF, 1, 9] 256
      (snd (send_blocks \<lparr>c_cla = 0, c_ins = 0xDB, c_p1 = 0x3F, c_p2 = 0xFF, c_data = [9], c_ne = None\<rparr> [[7, 8]] 256
        (piv_boot counting_backend 0))) =
    processApdu [0, 0xDB, 0x3F, 0xFF, 0, 0, 3, 7, 8, 9] 256 (piv_boot counting_backend 0)"
  using piv_command_chaining [of "piv_boot counting_backend 0" counting_backend 256
    "\<lparr>c_cla = 0, c_ins = 0xDB, c_p1 = 0x3F, c_p2 = 0xFF, c_data = [9], c_ne = None\<rparr>" "[[7, 8]]"]
  by (simp add: piv_boot_def fits_form_def short_form_def extended_form_def byte_at_def)

text \<open>
  An answer that does not fit into one response is delivered completely by GET RESPONSE, whatever
  lengths the host asks for, and the status words announce exactly whether more follows.
\<close>

theorem piv_answer_chaining:
  assumes "piv_ok s" and "piv_pending s = []" and "2 \<le> n" and "length payload \<le> 2600"
    and "length payload \<le> length cs" and "\<forall>(le, m) \<in> set cs. 2 < m"
  shows "case piv_emit payload le n s of ((k, b), t) \<Rightarrow>
    take (nat k - 2) b @ fst (fetch_rest (cmdGetResponse 0 0) piv_pending cs t) = payload \<and>
    piv_pending (snd (fetch_rest (cmdGetResponse 0 0) piv_pending cs t)) = [] \<and>
    drop (nat k - 2) b = piv_status (length (piv_pending t))"
  by (rule piv_answers.delivered [OF assms])

theorem piv_answer_chaining_witness:
  "case piv_emit [1, 2, 3, 4, 5, 6, 7] 0 5 (piv_boot counting_backend 0) of ((k, b), t) \<Rightarrow>
    take (nat k - 2) b @ fst (fetch_rest (cmdGetResponse 0 0) piv_pending (replicate 7 (2, 9)) t) = [1, 2, 3, 4, 5, 6, 7] \<and>
    piv_pending (snd (fetch_rest (cmdGetResponse 0 0) piv_pending (replicate 7 (2, 9)) t)) = [] \<and>
    drop (nat k - 2) b = piv_status (length (piv_pending t))"
  by (rule piv_answer_chaining) (simp_all add: piv_boot_ok piv_pending_def piv_boot_def piv_ok_def)

section \<open>Where the code falls short\<close>

text \<open>A wrong try leaves an earlier verification standing, where the standard has it cleared.\<close>

lemma piv_wrong_try_keeps_verified:
  assumes "pv_pin_verified s" and "pb_pin_verify be pin (pv_store s) = (False, b)"
    and "pin_digits dat = Some pin" and "pin \<noteq> []" and "length dat = 8" and "\<not> pb_pin_blocked be (pv_store s)"
  shows "pv_pin_verified (snd (cmdVerify be 0 PIV_KEY_PIN dat s))"
  using assms by (auto simp: cmdVerify_def neq_Nil_conv)

text \<open>
  A SELECT in the middle of a chain is refused with 6A80 instead of starting a new session: the
  verified PIN of the interrupted session stays.
\<close>

lemma piv_select_in_chain:
  assumes "pv_backend s = Some be" and "pv_chain s \<noteq> []" and "pv_chain_ins s \<noteq> 0xA4"
  shows "processApdu [0, 0xA4, 4, 0] 256 s = ((2, apdu_sw PIV_SW_DATA_INVALID), resetChain s)"
  using assms
  by (simp add: processApdu_def apdu_parse_def final_block_def same_command_def piv_sw_def)

text \<open>The rest of an earlier answer survives a SELECT whose answer fits into the response.\<close>

lemma piv_select_keeps_rest:
  assumes "buildApt 2600 = Some apt" and "length apt \<le> 256"
  shows "piv_pending (snd (cmdSelect 258 0 s)) = piv_pending s"
  using assms by (simp add: cmdSelect_def piv_emit_def piv_requested_def Let_def piv_pending_def)

end
