(* ===== verification/Badge_Card.thy ===== *)
theory Badge_Card
  imports Oath_Card Piv_Session
begin

text \<open>
  The badge as a card with several applets: the YKOATH and the PIV applet behind the dispatcher and
  the CCID transport. Each applet acts on its own part of the state; the dispatcher closes the session
  of an applet when another one is selected and when the card is reset. The two together give the
  isolation the applets rely on: only the selected applet has an open session.
\<close>

section \<open>Applets on their part of the state\<close>

definition on_fst :: "'a applet \<Rightarrow> ('a \<times> 'c) applet" where
  "on_fst a = \<lparr>ap_name = ap_name a, ap_aid = ap_aid a,
     ap_process = (\<lambda>cmd n wv. (case ap_process a cmd n (fst wv) of (r, w) \<Rightarrow> (r, (w, snd wv)))),
     ap_deselect = map_option (\<lambda>f wv. (f (fst wv), snd wv)) (ap_deselect a)\<rparr>"

definition on_snd :: "'c applet \<Rightarrow> ('a \<times> 'c) applet" where
  "on_snd a = \<lparr>ap_name = ap_name a, ap_aid = ap_aid a,
     ap_process = (\<lambda>cmd n wv. (case ap_process a cmd n (snd wv) of (r, v) \<Rightarrow> (r, (fst wv, v)))),
     ap_deselect = map_option (\<lambda>f wv. (fst wv, f (snd wv))) (ap_deselect a)\<rparr>"

lemma well_behaved_mono: "well_behaved W m a \<Longrightarrow> m \<le> n \<Longrightarrow> well_behaved W n a"
  unfolding well_behaved_def by (meson le_trans)

lemma well_behaved_on_fst:
  fixes a :: "'a applet" and Q :: "'c \<Rightarrow> bool"
  assumes "well_behaved P m a"
  shows "well_behaved (\<lambda>wv. P (fst wv) \<and> Q (snd wv)) m (on_fst a)"
  unfolding well_behaved_def
proof (intro conjI allI impI)
  fix cmd n wv k b wv'
  assume n: "2 \<le> n" and w: "P (fst wv) \<and> Q (snd wv)" and r: "ap_process (on_fst a) cmd n wv = ((k, b), wv')"
  obtain w where "ap_process a cmd n (fst wv) = ((k, b), w)" "wv' = (w, snd wv)"
    using r by (auto simp: on_fst_def split: prod.splits)
  with assms n w show "m \<le> n \<Longrightarrow> k \<le> int n" and "m \<le> n \<Longrightarrow> 0 \<le> k \<Longrightarrow> length b = nat k"
    and "P (fst wv')" and "Q (snd wv')"
    unfolding well_behaved_def by (metis fst_conv snd_conv)+
next
  fix f :: "'a \<times> 'c \<Rightarrow> 'a \<times> 'c" and wv assume "ap_deselect (on_fst a) = Some f" and "P (fst wv) \<and> Q (snd wv)"
  with assms show "P (fst (f wv))" and "Q (snd (f wv))"
    by (auto simp: on_fst_def well_behaved_def)
qed

lemma well_behaved_on_snd:
  fixes a :: "'c applet" and P :: "'a \<Rightarrow> bool"
  assumes "well_behaved Q m a"
  shows "well_behaved (\<lambda>wv. P (fst wv) \<and> Q (snd wv)) m (on_snd a)"
  unfolding well_behaved_def
proof (intro conjI allI impI)
  fix cmd n wv k b wv'
  assume n: "2 \<le> n" and w: "P (fst wv) \<and> Q (snd wv)" and r: "ap_process (on_snd a) cmd n wv = ((k, b), wv')"
  obtain v where "ap_process a cmd n (snd wv) = ((k, b), v)" "wv' = (fst wv, v)"
    using r by (auto simp: on_snd_def split: prod.splits)
  with assms n w show "m \<le> n \<Longrightarrow> k \<le> int n" and "m \<le> n \<Longrightarrow> 0 \<le> k \<Longrightarrow> length b = nat k"
    and "P (fst wv')" and "Q (snd wv')"
    unfolding well_behaved_def by (metis fst_conv snd_conv)+
next
  fix f :: "'a \<times> 'c \<Rightarrow> 'a \<times> 'c" and wv assume "ap_deselect (on_snd a) = Some f" and "P (fst wv) \<and> Q (snd wv)"
  with assms show "P (fst (f wv))" and "Q (snd (f wv))"
    by (auto simp: on_snd_def well_behaved_def)
qed

section \<open>The badge\<close>

text \<open>Both applets registered as \<^verbatim>\<open>mod_2fa\<close> and \<^verbatim>\<open>mod_piv\<close> do it, neither as the default.\<close>

definition badge_applets :: "('b oath \<times> 'c piv) applet list" where
  "badge_applets = [on_fst oath_applet, on_snd piv_applet]"

definition descriptor_of :: "'s applet \<Rightarrow> 's descriptor" where
  "descriptor_of a = \<lparr>d_name = Some (ap_name a), d_aid = Some (ap_aid a), d_process = Some (ap_process a),
     d_deselect = ap_deselect a\<rparr>"

definition badge_card :: "'b oath \<Rightarrow> 'c piv \<Rightarrow> ('b oath \<times> 'c piv) scard" where
  "badge_card w v = foldl (\<lambda>s a. snd (scard_register_applet (descriptor_of a) False s))
     (scard_init (w, v)) badge_applets"

definition oath_closed :: "'b oath \<Rightarrow> bool" where
  "oath_closed w \<longleftrightarrow> \<not> g_validated w \<and> \<not> g_challenge_valid w \<and> g_resp_remaining w = 0"

definition piv_closed :: "'c piv \<Rightarrow> bool" where
  "piv_closed v \<longleftrightarrow> \<not> pv_pin_verified v \<and> \<not> pv_mgmt_authenticated v \<and> \<not> pv_witness_valid v \<and>
     pv_chain v = [] \<and> pv_resp_remaining v = 0"

text \<open>The state is sound, and the applets that are not selected have no open session.\<close>

definition sound :: "'b oath \<times> 'c piv \<Rightarrow> bool" where
  "sound wv \<longleftrightarrow> oath_ok (fst wv) \<and> piv_ok (snd wv)"

definition isolated :: "('b oath \<times> 'c piv) card \<Rightarrow> bool" where
  "isolated c \<longleftrightarrow> c_applets c = badge_applets \<and> c_default c = None \<and>
     (case c_selected c of None \<Rightarrow> True | Some a \<Rightarrow> a \<in> set badge_applets) \<and>
     (map_option ap_name (c_selected c) \<noteq> Some ''oath'' \<longrightarrow> oath_closed (fst (c_world c))) \<and>
     (map_option ap_name (c_selected c) \<noteq> Some ''piv'' \<longrightarrow> piv_closed (snd (c_world c)))"

definition badge_ok :: "('b oath \<times> 'c piv) scard \<Rightarrow> bool" where
  "badge_ok s \<longleftrightarrow> scard_good sound PIV_ROOM s \<and> isolated (card_of s)"

lemma badge_applets_good:
  "\<forall>a \<in> set (badge_applets :: ('b oath \<times> 'c piv) applet list). well_behaved sound PIV_ROOM a"
proof -
  have "well_behaved oath_ok PIV_ROOM (oath_applet :: 'b oath applet)"
    by (rule well_behaved_mono [OF oath_well_behaved]) simp
  from well_behaved_on_fst [OF this, of "piv_ok :: 'c piv \<Rightarrow> bool"]
    well_behaved_on_snd [OF piv_well_behaved, of "oath_ok :: 'b oath \<Rightarrow> bool"]
  show ?thesis by (simp add: badge_applets_def sound_def [abs_def])
qed

lemma deselect_closes:
  "oath_closed (deselect_oath w)" "piv_closed (piv_deselect v)"
  by (simp_all add: oath_closed_def piv_closed_def deselect_oath_def piv_deselect_def resetChain_def)

lemma badge_members:
  "a \<in> set badge_applets \<longleftrightarrow> a = on_fst oath_applet \<or> a = on_snd piv_applet"
  by (auto simp: badge_applets_def)

lemma badge_names [simp]:
  "ap_name (on_fst oath_applet) = ''oath''" "ap_name (on_snd piv_applet) = ''piv''"
  by (simp_all add: on_fst_def on_snd_def oath_applet_def piv_applet_def)

text \<open>Closing the session of the selected applet leaves none open.\<close>

lemma closed_all:
  assumes "isolated c"
  shows "oath_closed (fst (closed_session c)) \<and> piv_closed (snd (closed_session c))"
  using assms
  by (cases "c_selected c")
    (auto simp: isolated_def closed_session_def badge_members on_fst_def on_snd_def
      oath_applet_def piv_applet_def deselect_closes)

lemma isolated_reset: "isolated c \<Longrightarrow> isolated (card_reset c)"
  using closed_all [of c] by (simp add: isolated_def card_reset_def)

text \<open>A command only opens the session of the applet that answers it.\<close>

lemma isolated_answer:
  assumes "a \<in> set badge_applets" and "c_applets c = badge_applets" and "c_default c = None"
    and "c_selected c = Some a"
    and "ap_name a \<noteq> ''oath'' \<Longrightarrow> oath_closed (fst (c_world c))"
    and "ap_name a \<noteq> ''piv'' \<Longrightarrow> piv_closed (snd (c_world c))"
  shows "isolated (snd (answer a cmd n c))"
  using assms(1)
proof (unfold badge_members, elim disjE)
  assume "a = on_fst oath_applet"
  with assms show ?thesis
    by (simp add: isolated_def answer_def on_fst_def oath_applet_def badge_members piv_applet_def case_prod_beta)
next
  assume "a = on_snd piv_applet"
  with assms show ?thesis
    by (simp add: isolated_def answer_def on_snd_def piv_applet_def badge_members oath_applet_def case_prod_beta)
qed

lemma isolated_dispatch:
  assumes "isolated c"
  shows "isolated (snd (card_dispatch cmd n c))"
proof (cases "n < 2")
  case True
  with assms show ?thesis by (simp add: card_dispatch_def)
next
  case False
  have own: "isolated (snd (answer a cmd n c))" if "c_selected c = Some a" for a
    using assms that by (intro isolated_answer) (auto simp: isolated_def)
  show ?thesis
  proof (cases "selects cmd")
    case None
    with False assms own show ?thesis
      by (cases "c_selected c") (simp_all add: card_dispatch_def isolated_def)
  next
    case (Some aid)
    show ?thesis
    proof (cases "longest (c_applets c) aid")
      case None
      with \<open>selects cmd = Some aid\<close> False assms own show ?thesis
        by (cases "c_selected c") (simp_all add: card_dispatch_def)
    next
      case (Some a)
      with assms have a: "a \<in> set badge_applets" using longest_mem [OF Some] by (simp add: isolated_def)
      let ?w = "if map_option ap_name (c_selected c) = Some (ap_name a) then c_world c else closed_session c"
      have "ap_name a \<noteq> ''oath'' \<Longrightarrow> oath_closed (fst ?w)" and "ap_name a \<noteq> ''piv'' \<Longrightarrow> piv_closed (snd ?w)"
        using assms closed_all [OF assms] by (auto simp: isolated_def)
      then have "isolated (snd (answer a cmd n (c\<lparr>c_selected := Some a, c_world := ?w\<rparr>)))"
        using assms a by (intro isolated_answer) (auto simp: isolated_def)
      with \<open>selects cmd = Some aid\<close> Some False show ?thesis by (simp add: card_dispatch_def)
    qed
  qed
qed

lemma dispatch_state:
  "scard_ok s \<Longrightarrow> card_of (snd (scard_dispatch_apdu cmd n s)) = snd (card_dispatch cmd n (card_of s))"
  by (metis (no_types, lifting) card_dispatch_refines case_prod_beta snd_conv)

interpretation badge: card_service badge_ok scard_dispatch_apdu scard_reset PIV_ROOM
proof
  fix s :: "('a oath \<times> 'b piv) scard" and cmd n k b
  show "badge_ok s \<Longrightarrow> badge_ok (scard_reset s)"
    using card.reset_good [of sound PIV_ROOM s] card_reset_refines [of s] isolated_reset [of "card_of s"]
    by (simp add: badge_ok_def scard_good_def)
  show "badge_ok s \<Longrightarrow> badge_ok (snd (scard_dispatch_apdu cmd n s))"
    using card.dispatch_good [of sound PIV_ROOM s cmd n] isolated_dispatch [of "card_of s" cmd n]
    by (simp add: badge_ok_def dispatch_state scard_good_def)
  show "badge_ok s \<Longrightarrow> PIV_ROOM \<le> n \<Longrightarrow> fst (scard_dispatch_apdu cmd n s) = (k, b) \<Longrightarrow>
      k \<le> int n \<and> (0 \<le> k \<longrightarrow> length b = nat k)"
    using card.dispatch_fits [of sound PIV_ROOM s n cmd k b] by (simp add: badge_ok_def)
qed

section \<open>A host and the badge\<close>

text \<open>The state of the card after a sequence of messages through the reader.\<close>

fun ccid_after :: "bytes list \<Rightarrow> nat \<Rightarrow> ccid \<Rightarrow> 's scard \<Rightarrow> 's scard" where
  "ccid_after [] n st c = c"
| "ccid_after (msg # msgs) n st c =
    (case ccid_process_message msg n st c of (r, st', c') \<Rightarrow> ccid_after msgs n st' c')"

lemma badge_message:
  assumes "badge_ok c" and "46 \<le> n" and "n < 2 ^ 32" and "10 \<le> length msg"
    and "ccid_process_message msg n st c = (r, st', c')"
  shows "framed msg n r \<and> badge_ok c'"
  using badge.message_framed [OF assms(1) _ _ assms(3,4), of st] badge.message_good [OF assms(1), of msg n st]
    assms(2,5) by (simp add: ccid_process_message_def)

lemma badge_session:
  assumes "badge_ok c" and "46 \<le> n" and "n < 2 ^ 32" and "list_all (\<lambda>m. 10 \<le> length m) msgs"
  shows "list_all2 (\<lambda>m r. framed m n r) msgs (ccid_session msgs n st c) \<and> badge_ok (ccid_after msgs n st c)"
  using assms(1,4)
proof (induction msgs arbitrary: st c)
  case (Cons msg msgs)
  obtain r st' c' where r: "ccid_process_message msg n st c = (r, st', c')"
    by (cases "ccid_process_message msg n st c")
  from Cons.prems(2) have msg: "10 \<le> length msg" and msgs: "list_all (\<lambda>m. 10 \<le> length m) msgs" by simp_all
  from badge_message [OF Cons.prems(1) assms(2,3) msg r]
  have "framed msg n r" "badge_ok c'" by simp_all
  with Cons.IH [OF _ msgs, of c' st'] r show ?case by simp
qed simp

lemma badge_card_eq: "s_applets (badge_card w v) = badge_applets"
    "s_current (badge_card w v) = - 1" "s_default (badge_card w v) = - 1" "s_world (badge_card w v) = (w, v)"
  by (simp_all add: badge_card_def badge_applets_def scard_register_applet_def descriptor_of_def
      scard_init_def on_fst_def on_snd_def oath_applet_def piv_applet_def)

lemma badge_card_ok:
  assumes "oath_ok w" and "piv_ok v" and "oath_closed w" and "piv_closed v"
  shows "badge_ok (badge_card w v)"
proof -
  have "scard_ok (badge_card w v)"
    by (auto simp: scard_ok_def badge_card_eq badge_applets_def index_ok_def)
      (simp_all add: on_fst_def on_snd_def oath_applet_def piv_applet_def)
  then show ?thesis
    using assms badge_applets_good
    by (simp add: badge_ok_def scard_good_def badge_card_eq sound_def isolated_def card_of_def pick_def)
qed



section \<open>Where the code falls short\<close>

text \<open>
  The default applet answers without being selected. A reset of the card only closes the session of
  the selected applet, so then it does not close that of the default applet.
\<close>

lemma scard_default_session_survives:
  assumes "s_current s = - 1"
  shows "s_world (scard_reset s) = s_world s"
  using assms by (simp add: scard_reset_def)

end
