(* ===== verification/Pin_Manager.thy ===== *)
theory Pin_Manager
  imports Prelude
begin

text \<open>
  The PIN manager (\<^verbatim>\<open>components/cdc_core/src/PinManager.cpp\<close>): the badge PIN with its recovery timer,
  the two OpenPGP PINs with their persisted retry counters, the duress PIN, and the signed record in
  slot 0 of the secure element's R-Memory that keeps them.

  What lies outside (the secure element, mbedtls, the random generators and the clock) is a record
  of functions, \<^verbatim>\<open>pin_env\<close>. Each call to it takes the number of the calls made so far, so that the
  environment may answer every call differently, fail included. The R-Memory slot is part of the
  state, since it is what a power cycle leaves.
\<close>

section \<open>Environment\<close>

datatype read_result = Slot_Empty | Read_Ok bytes | Read_Error

record pin_env =
  e_sha256 :: "bytes \<Rightarrow> bytes"
  e_active :: "nat \<Rightarrow> bool"
  e_random :: "nat \<Rightarrow> bytes option"
  e_esp_random :: "nat \<Rightarrow> bytes"
  e_read :: "nat \<Rightarrow> bytes option \<Rightarrow> read_result"
  e_pubkey :: "nat \<Rightarrow> (bytes \<times> bool) option"
  e_ecdsa_verify :: "bytes \<Rightarrow> bytes \<Rightarrow> bytes \<Rightarrow> bool"
  e_sign :: "nat \<Rightarrow> bytes \<Rightarrow> bytes option"
  e_erase :: "nat \<Rightarrow> bytes option \<Rightarrow> bytes option"
  e_write :: "nat \<Rightarrow> bytes option \<Rightarrow> bytes \<Rightarrow> bool \<times> bytes option"
  e_now_ms :: "nat \<Rightarrow> u32"

section \<open>State\<close>

abbreviation (input) "BADGE_PIN_MIN \<equiv> (4 :: nat)"
abbreviation (input) "BADGE_PIN_MAX \<equiv> (8 :: nat)"
abbreviation (input) "PW1_MIN \<equiv> (6 :: nat)"
abbreviation (input) "PW3_MIN \<equiv> (8 :: nat)"
abbreviation (input) "PIN_MAX \<equiv> (16 :: nat)"
abbreviation (input) "BADGE_HASH_SIZE \<equiv> (16 :: nat)"
abbreviation (input) "KDF_HASH_SIZE \<equiv> (32 :: nat)"
abbreviation (input) "SALT_SIZE \<equiv> (8 :: nat)"
abbreviation (input) "MAX_RETRIES \<equiv> (3 :: byte)"
abbreviation (input) "MAGIC \<equiv> (0xE0 :: byte)"
abbreviation (input) "KDF_ITERSALTED_S2K \<equiv> (0x03 :: byte)"
abbreviation (input) "HASH_SHA256 \<equiv> (0x08 :: byte)"
abbreviation (input) "PAYLOAD_SIZE \<equiv> (147 :: nat)"
abbreviation (input) "SIGNATURE_SIZE \<equiv> (64 :: nat)"
abbreviation (input) "STORAGE_SIZE \<equiv> (211 :: nat)"
abbreviation (input) "DEFAULT_ITERATIONS \<equiv> (100000 :: u32)"
abbreviation (input) "LOCKOUT_BASE_MS \<equiv> (60000 :: u32)"
abbreviation (input) "LOCKOUT_MAX_SHIFT \<equiv> (10 :: byte)"

text \<open>\<^verbatim>\<open>"123456"\<close> (the badge PIN and PW1) and \<^verbatim>\<open>"12345678"\<close> (PW3).\<close>

definition DEFAULT_BADGE_PIN :: bytes where
  "DEFAULT_BADGE_PIN = [0x31, 0x32, 0x33, 0x34, 0x35, 0x36]"

definition DEFAULT_PW1 :: bytes where
  "DEFAULT_PW1 = [0x31, 0x32, 0x33, 0x34, 0x35, 0x36]"

definition DEFAULT_PW3 :: bytes where
  "DEFAULT_PW3 = [0x31, 0x32, 0x33, 0x34, 0x35, 0x36, 0x37, 0x38]"

text \<open>The members of the class, the R-Memory slot, and the number of environment calls made.\<close>

record pins =
  p_badge_hash :: bytes
  p_badge_retries :: byte
  p_badge_lockouts :: byte
  p_min_floor :: byte
  p_iterations :: u32
  p_pw1_salt :: bytes
  p_pw3_salt :: bytes
  p_pw1_hash :: bytes
  p_pw3_hash :: bytes
  p_pw1_retries :: byte
  p_pw3_retries :: byte
  p_duress_set :: bool
  p_duress_salt :: bytes
  p_duress_hash :: bytes
  p_persisted_lockouts :: byte
  p_persisted_pw1 :: byte
  p_persisted_pw3 :: byte
  p_loaded :: bool
  p_badge_set :: bool
  p_unreadable :: bool
  p_lockout_start :: u32
  p_lockout_active :: bool
  p_slot :: "bytes option"
  p_tick :: nat

text \<open>The object as the firmware constructs it at boot, with what the chip holds.\<close>

definition pins_boot :: "bytes option \<Rightarrow> nat \<Rightarrow> pins" where
  "pins_boot slot tick = \<lparr>p_badge_hash = replicate 16 0, p_badge_retries = MAX_RETRIES,
     p_badge_lockouts = 0, p_min_floor = 4, p_iterations = DEFAULT_ITERATIONS,
     p_pw1_salt = replicate 8 0, p_pw3_salt = replicate 8 0,
     p_pw1_hash = replicate 32 0, p_pw3_hash = replicate 32 0,
     p_pw1_retries = MAX_RETRIES, p_pw3_retries = MAX_RETRIES,
     p_duress_set = False, p_duress_salt = replicate 8 0, p_duress_hash = replicate 32 0,
     p_persisted_lockouts = 0, p_persisted_pw1 = MAX_RETRIES, p_persisted_pw3 = MAX_RETRIES,
     p_loaded = False, p_badge_set = False, p_unreadable = False,
     p_lockout_start = 0, p_lockout_active = False, p_slot = slot, p_tick = tick\<rparr>"

section \<open>Calls to the environment\<close>

definition tick :: "pins \<Rightarrow> pins" where
  "tick s = s\<lparr>p_tick := Suc (p_tick s)\<rparr>"

definition session_active :: "pin_env \<Rightarrow> pins \<Rightarrow> bool \<times> pins" where
  "session_active e s = (e_active e (p_tick s), tick s)"

definition rmem_read :: "pin_env \<Rightarrow> pins \<Rightarrow> read_result \<times> pins" where
  "rmem_read e s = (e_read e (p_tick s) (p_slot s), tick s)"

definition rmem_erase :: "pin_env \<Rightarrow> pins \<Rightarrow> pins" where
  "rmem_erase e s = tick (s\<lparr>p_slot := e_erase e (p_tick s) (p_slot s)\<rparr>)"

definition rmem_write :: "pin_env \<Rightarrow> bytes \<Rightarrow> pins \<Rightarrow> bool \<times> pins" where
  "rmem_write e data s =
     (case e_write e (p_tick s) (p_slot s) data of (ok, slot) \<Rightarrow> (ok, tick (s\<lparr>p_slot := slot\<rparr>)))"

definition now_ms :: "pin_env \<Rightarrow> pins \<Rightarrow> u32 \<times> pins" where
  "now_ms e s = (e_now_ms e (p_tick s), tick s)"

definition isStorageAvailable :: "pin_env \<Rightarrow> pins \<Rightarrow> bool \<times> pins" where
  "isStorageAvailable e s = session_active e s"

definition generateSalt :: "pin_env \<Rightarrow> pins \<Rightarrow> bytes \<times> pins" where
  "generateSalt e s =
     (let (active, s) = session_active e s in
      if active then
        (case e_random e (p_tick s) of
           Some salt \<Rightarrow> (salt, tick s)
         | None \<Rightarrow> let s = tick s in (e_esp_random e (p_tick s), tick s))
      else (e_esp_random e (p_tick s), tick s))"

section \<open>Hashes\<close>

definition computeBadgeHash :: "pin_env \<Rightarrow> bytes \<Rightarrow> bytes" where
  "computeBadgeHash e pin = take BADGE_HASH_SIZE (e_sha256 e pin)"

text \<open>
  The chunks the loop of \<^verbatim>\<open>computeKdfHash\<close> feeds to the hash: whole copies of salt and input, and the
  front of one at the end.
\<close>

function kdf_chunks :: "bytes \<Rightarrow> nat \<Rightarrow> nat \<Rightarrow> bytes" where
  "kdf_chunks buffer totalBytes processed =
     (if processed < totalBytes \<and> buffer \<noteq> [] then
        let combined = length buffer;
            chunk = (if totalBytes - processed < combined then totalBytes - processed else combined)
        in take chunk buffer @ kdf_chunks buffer totalBytes (processed + chunk)
      else [])"
  by pat_completeness auto
termination by (relation "measure (\<lambda>(b, t, p). t - p)") (auto simp flip: length_greater_0_conv)

declare kdf_chunks.simps [simp del]

definition computeKdfHash :: "pin_env \<Rightarrow> u32 \<Rightarrow> bytes \<Rightarrow> bytes \<Rightarrow> bytes option" where
  "computeKdfHash e iterations data salt =
     (if length data > 64 then None
      else Some (e_sha256 e (kdf_chunks (take SALT_SIZE salt @ data) (unat iterations) 0)))"

definition compareHash :: "bytes \<Rightarrow> bytes \<Rightarrow> nat \<Rightarrow> bool" where
  "compareHash h1 h2 len = (foldl (\<lambda>diff i. diff OR (h1 ! i XOR h2 ! i)) 0 [0..<len] = 0)"

section \<open>The record in R-Memory\<close>

definition payload :: "pins \<Rightarrow> bytes" where
  "payload s =
     [MAGIC] @ p_badge_hash s @ [p_badge_lockouts s] @ [KDF_ITERSALTED_S2K, HASH_SHA256] @
     [byte_at 24 (p_iterations s), byte_at 16 (p_iterations s), byte_at 8 (p_iterations s),
      byte_at 0 (p_iterations s)] @
     p_pw1_salt s @ p_pw3_salt s @ p_pw1_hash s @ p_pw3_hash s @
     [p_pw1_retries s, p_pw3_retries s] @
     [if p_duress_set s then 1 else 0] @ p_duress_salt s @ p_duress_hash s"

definition saveToStorage :: "pin_env \<Rightarrow> pins \<Rightarrow> bool \<times> pins" where
  "saveToStorage e s =
     (let (active, s) = session_active e s in
      if \<not> active then (False, s)
      else
        let data = payload s in
        if length data \<noteq> PAYLOAD_SIZE then (False, s)
        else
          let sign_res = e_sign e (p_tick s) data; s = tick s in
          case sign_res of
            None \<Rightarrow> (False, s)
          | Some sig \<Rightarrow>
              if length sig \<noteq> SIGNATURE_SIZE then (False, s)
              else
                let s = rmem_erase e s;
                    (ok, s) = rmem_write e (data @ sig) s
                in if \<not> ok then (False, s)
                   else (True, s\<lparr>p_persisted_lockouts := p_badge_lockouts s,
                           p_persisted_pw1 := p_pw1_retries s, p_persisted_pw3 := p_pw3_retries s\<rparr>))"

definition verify_payload_signature :: "pin_env \<Rightarrow> bytes \<Rightarrow> bytes \<Rightarrow> pins \<Rightarrow> bool \<times> pins" where
  "verify_payload_signature e data sig s =
     (if length sig \<noteq> 64 then (False, s)
      else
        let key = e_pubkey e (p_tick s); s = tick s in
        case key of
          None \<Rightarrow> (False, s)
        | Some (pub_raw, is_p256) \<Rightarrow>
            if \<not> is_p256 then (False, s)
            else (e_ecdsa_verify e (0x04 # pub_raw) (e_sha256 e data) sig, s))"

text \<open>The fields of a record, in the order the code copies them out.\<close>

definition parse_record :: "bytes \<Rightarrow> pins \<Rightarrow> pins" where
  "parse_record data s =
     (let field = (\<lambda>pos n. take n (drop pos data)) in
      s\<lparr>p_badge_hash := field 1 16, p_badge_lockouts := data ! 17,
        p_iterations := be32 (data ! 20) (data ! 21) (data ! 22) (data ! 23),
        p_pw1_salt := field 24 8, p_pw3_salt := field 32 8,
        p_pw1_hash := field 40 32, p_pw3_hash := field 72 32,
        p_pw1_retries := data ! 104, p_pw3_retries := data ! 105,
        p_duress_set := data ! 106 \<noteq> 0, p_duress_salt := field 107 8, p_duress_hash := field 115 32\<rparr>)"

definition loadFromStorage :: "pin_env \<Rightarrow> pins \<Rightarrow> bool \<times> pins" where
  "loadFromStorage e s =
     (let (active, s) = session_active e s in
      if \<not> active then (False, s)
      else
        let s = s\<lparr>p_unreadable := False\<rparr>; (result, s) = rmem_read e s in
        case result of
          Slot_Empty \<Rightarrow> (False, s)
        | Read_Error \<Rightarrow> (False, s\<lparr>p_unreadable := True\<rparr>)
        | Read_Ok data \<Rightarrow>
            if length data \<noteq> STORAGE_SIZE \<or> data ! 0 \<noteq> MAGIC then (False, s)
            else
              let (ok, s) = verify_payload_signature e (take PAYLOAD_SIZE data) (drop PAYLOAD_SIZE data) s in
              if \<not> ok then (False, s\<lparr>p_unreadable := True\<rparr>)
              else
                let s = parse_record data s in
                (True, s\<lparr>p_persisted_lockouts := p_badge_lockouts s,
                  p_persisted_pw1 := p_pw1_retries s, p_persisted_pw3 := p_pw3_retries s,
                  p_badge_set := \<not> compareHash (p_badge_hash s) (computeBadgeHash e DEFAULT_BADGE_PIN)
                    BADGE_HASH_SIZE\<rparr>))"

section \<open>Initialisation and the recovery timer\<close>

definition lockoutDurationMs :: "byte \<Rightarrow> u32" where
  "lockoutDurationMs lockoutCount =
     (let shift = (if lockoutCount > 0 then lockoutCount - 1 else 0);
          shift = (if shift > LOCKOUT_MAX_SHIFT then LOCKOUT_MAX_SHIFT else shift)
      in push_bit (unat shift) LOCKOUT_BASE_MS)"

definition startLockout :: "pin_env \<Rightarrow> pins \<Rightarrow> pins" where
  "startLockout e s = (let (now, s) = now_ms e s in s\<lparr>p_lockout_start := now, p_lockout_active := True\<rparr>)"

definition getLockoutRemainingMs :: "pin_env \<Rightarrow> pins \<Rightarrow> u32 \<times> pins" where
  "getLockoutRemainingMs e s =
     (if \<not> p_lockout_active s then (0, s)
      else
        let (now, s) = now_ms e s; elapsed = now - p_lockout_start s;
            duration = lockoutDurationMs (p_badge_lockouts s)
        in if elapsed \<ge> duration then (0, s) else (duration - elapsed, s))"

definition isLockoutActive :: "pin_env \<Rightarrow> pins \<Rightarrow> bool \<times> pins" where
  "isLockoutActive e s =
     (if \<not> p_lockout_active s then (False, s)
      else let (remaining, s) = getLockoutRemainingMs e s in (remaining > 0, s))"

definition checkAndResetExpiredLockout :: "pin_env \<Rightarrow> pins \<Rightarrow> pins" where
  "checkAndResetExpiredLockout e s =
     (if \<not> p_lockout_active s then s
      else
        let (remaining, s) = getLockoutRemainingMs e s in
        if remaining > 0 then s
        else s\<lparr>p_lockout_active := False, p_badge_retries := MAX_RETRIES\<rparr>)"

definition isBadgeBlocked :: "pins \<Rightarrow> bool" where
  "isBadgeBlocked s \<longleftrightarrow> p_badge_retries s = 0"

definition loadDefaults :: "pin_env \<Rightarrow> pins \<Rightarrow> pins" where
  "loadDefaults e s =
     (let s = s\<lparr>p_badge_hash := computeBadgeHash e DEFAULT_BADGE_PIN, p_badge_retries := MAX_RETRIES,
                p_badge_lockouts := 0\<rparr>;
          (salt1, s) = generateSalt e s; s = s\<lparr>p_pw1_salt := salt1\<rparr>;
          (salt3, s) = generateSalt e s; s = s\<lparr>p_pw3_salt := salt3\<rparr>;
          kdf = (\<lambda>pin salt old. case computeKdfHash e (p_iterations s) pin salt of
                   None \<Rightarrow> old | Some h \<Rightarrow> h)
      in s\<lparr>p_pw1_hash := kdf DEFAULT_PW1 salt1 (p_pw1_hash s),
           p_pw3_hash := kdf DEFAULT_PW3 salt3 (p_pw3_hash s),
           p_iterations := DEFAULT_ITERATIONS, p_pw1_retries := MAX_RETRIES,
           p_pw3_retries := MAX_RETRIES, p_badge_set := False, p_duress_set := False,
           p_duress_salt := replicate 8 0, p_duress_hash := replicate 32 0\<rparr>)"

definition pins_init :: "pin_env \<Rightarrow> pins \<Rightarrow> bool \<times> pins" where
  "pins_init e s =
     (if p_loaded s then (True, s)
      else
        let (ok, s) = loadFromStorage e s in
        if \<not> ok \<and> p_unreadable s then (False, s\<lparr>p_badge_retries := 0\<rparr>)
        else
          let s = (if ok then s else snd (saveToStorage e (loadDefaults e s)));
              s = s\<lparr>p_loaded := True, p_badge_retries := if p_badge_lockouts s \<noteq> 0 then 0 else 1\<rparr>
          in (True, startLockout e s))"

abbreviation ensure_init :: "pin_env \<Rightarrow> pins \<Rightarrow> pins" where
  "ensure_init e s \<equiv> (if \<not> p_loaded s then snd (pins_init e s) else s)"

section \<open>Badge PIN\<close>

definition verifyBadgePinHash :: "bytes \<Rightarrow> pins \<Rightarrow> bool" where
  "verifyBadgePinHash hashIn s = compareHash (p_badge_hash s) hashIn BADGE_HASH_SIZE"

definition verifyBadgePinHashCounted :: "pin_env \<Rightarrow> bytes \<Rightarrow> pins \<Rightarrow> bool \<times> pins" where
  "verifyBadgePinHashCounted e hashIn s =
     (let s = ensure_init e s; s = checkAndResetExpiredLockout e s in
      if p_badge_retries s = 0 then (False, s)
      else
        let s = s\<lparr>p_badge_retries := p_badge_retries s - 1\<rparr> in
        if compareHash (p_badge_hash s) hashIn BADGE_HASH_SIZE then
          let s = s\<lparr>p_badge_retries := MAX_RETRIES, p_lockout_active := False, p_badge_lockouts := 0\<rparr>
          in (True, if p_persisted_lockouts s \<noteq> 0 then snd (saveToStorage e s) else s)
        else if p_badge_retries s = 0 then
          let s = (if p_badge_lockouts s < 255 then s\<lparr>p_badge_lockouts := p_badge_lockouts s + 1\<rparr> else s)
          in (False, startLockout e (snd (saveToStorage e s)))
        else (False, s))"

text \<open>\<^verbatim>\<open>verifyPin\<close> for the badge slot.\<close>

definition verifyBadgePin :: "pin_env \<Rightarrow> bytes \<Rightarrow> pins \<Rightarrow> bool \<times> pins" where
  "verifyBadgePin e pin s = verifyBadgePinHashCounted e (computeBadgeHash e pin) (ensure_init e s)"

definition all_digits :: "bytes \<Rightarrow> bool" where
  "all_digits pin = list_all (\<lambda>c. \<not> (c < 0x30 \<or> c > 0x39)) pin"

definition isDuressPin :: "pin_env \<Rightarrow> bytes \<Rightarrow> pins \<Rightarrow> bool" where
  "isDuressPin e pin s =
     (if \<not> p_duress_set s then False
      else if length pin < BADGE_PIN_MIN \<or> length pin > BADGE_PIN_MAX then False
      else case computeKdfHash e (p_iterations s) pin (p_duress_salt s) of
        None \<Rightarrow> False
      | Some inputHash \<Rightarrow> compareHash (p_duress_hash s) inputHash KDF_HASH_SIZE)"

definition setMinPinLengthFloor :: "byte \<Rightarrow> pins \<Rightarrow> pins" where
  "setMinPinLengthFloor minLen s =
     (let minLen = (if minLen > 8 then 8 else minLen); minLen = (if minLen < 4 then 4 else minLen)
      in s\<lparr>p_min_floor := minLen\<rparr>)"

definition setBadgePin :: "pin_env \<Rightarrow> bytes \<Rightarrow> pins \<Rightarrow> bool \<times> pins" where
  "setBadgePin e newPin s =
     (let minLen = (if p_min_floor s > 4 then unat (p_min_floor s) else BADGE_PIN_MIN) in
      if length newPin < minLen \<or> length newPin > BADGE_PIN_MAX then (False, s)
      else if \<not> all_digits newPin then (False, s)
      else if p_duress_set s \<and> isDuressPin e newPin s then (False, s)
      else
        let s = s\<lparr>p_badge_hash := computeBadgeHash e newPin, p_badge_retries := MAX_RETRIES,
                  p_badge_lockouts := 0, p_lockout_active := False\<rparr>;
            s = s\<lparr>p_badge_set := \<not> compareHash (p_badge_hash s) (computeBadgeHash e DEFAULT_BADGE_PIN)
                    BADGE_HASH_SIZE\<rparr>
        in (True, snd (saveToStorage e s)))"

definition changeBadgePin :: "pin_env \<Rightarrow> bytes \<Rightarrow> bytes \<Rightarrow> pins \<Rightarrow> bool \<times> pins" where
  "changeBadgePin e currentPin newPin s =
     (case verifyBadgePin e currentPin s of
        (False, s) \<Rightarrow> (False, s)
      | (True, s) \<Rightarrow> setBadgePin e newPin s)"

definition resetBadgeRetries :: "pin_env \<Rightarrow> pins \<Rightarrow> pins" where
  "resetBadgeRetries e s =
     (let s = s\<lparr>p_badge_retries := MAX_RETRIES, p_lockout_active := False\<rparr> in
      if p_badge_lockouts s \<noteq> 0 then snd (saveToStorage e (s\<lparr>p_badge_lockouts := 0\<rparr>)) else s)"

definition setDuressPin :: "pin_env \<Rightarrow> bytes \<Rightarrow> pins \<Rightarrow> bool \<times> pins" where
  "setDuressPin e pin s =
     (let s = ensure_init e s in
      if length pin < BADGE_PIN_MIN \<or> length pin > BADGE_PIN_MAX then (False, s)
      else if \<not> all_digits pin then (False, s)
      else if compareHash (p_badge_hash s) (computeBadgeHash e pin) BADGE_HASH_SIZE then (False, s)
      else
        let (salt, s) = generateSalt e s; s = s\<lparr>p_duress_salt := salt\<rparr> in
        case computeKdfHash e (p_iterations s) pin salt of
          None \<Rightarrow> (False, s)
        | Some h \<Rightarrow> (True, snd (saveToStorage e (s\<lparr>p_duress_hash := h, p_duress_set := True\<rparr>))))"

definition clearDuressPin :: "pin_env \<Rightarrow> pins \<Rightarrow> bool \<times> pins" where
  "clearDuressPin e s =
     (let s = ensure_init e s in
      if \<not> p_duress_set s then (True, s)
      else (True, snd (saveToStorage e (s\<lparr>p_duress_set := False, p_duress_salt := replicate 8 0,
             p_duress_hash := replicate 32 0\<rparr>))))"

section \<open>OpenPGP PINs\<close>

datatype pin_slot = PW1 | PW3

fun retries :: "pin_slot \<Rightarrow> pins \<Rightarrow> byte" where
  "retries PW1 s = p_pw1_retries s" | "retries PW3 s = p_pw3_retries s"

fun set_retries :: "pin_slot \<Rightarrow> byte \<Rightarrow> pins \<Rightarrow> pins" where
  "set_retries PW1 n s = s\<lparr>p_pw1_retries := n\<rparr>" | "set_retries PW3 n s = s\<lparr>p_pw3_retries := n\<rparr>"

fun mirror :: "pin_slot \<Rightarrow> pins \<Rightarrow> byte" where
  "mirror PW1 s = p_persisted_pw1 s" | "mirror PW3 s = p_persisted_pw3 s"

fun stored_hash :: "pin_slot \<Rightarrow> pins \<Rightarrow> bytes" where
  "stored_hash PW1 s = p_pw1_hash s" | "stored_hash PW3 s = p_pw3_hash s"

fun salt_of :: "pin_slot \<Rightarrow> pins \<Rightarrow> bytes" where
  "salt_of PW1 s = p_pw1_salt s" | "salt_of PW3 s = p_pw3_salt s"

fun set_reference :: "pin_slot \<Rightarrow> bytes \<Rightarrow> bytes \<Rightarrow> pins \<Rightarrow> pins" where
  "set_reference PW1 salt h s = s\<lparr>p_pw1_salt := salt, p_pw1_hash := h\<rparr>"
| "set_reference PW3 salt h s = s\<lparr>p_pw3_salt := salt, p_pw3_hash := h\<rparr>"

definition verifyPinRaw :: "pin_env \<Rightarrow> pin_slot \<Rightarrow> bytes \<Rightarrow> pins \<Rightarrow> bool \<times> pins" where
  "verifyPinRaw e slot data s =
     (let s = ensure_init e s in
      if retries slot s = 0 then (False, s)
      else case computeKdfHash e (p_iterations s) data (salt_of slot s) of
        None \<Rightarrow> (False, s)
      | Some inputHash \<Rightarrow>
          let before = retries slot s; s = set_retries slot (before - 1) s;
              (ok, s) = (if retries slot s < mirror slot s then saveToStorage e s else (True, s)) in
          if \<not> ok then (False, set_retries slot before s)
          else if compareHash (stored_hash slot s) inputHash KDF_HASH_SIZE then
            let s = set_retries slot MAX_RETRIES s
            in (True, if mirror slot s \<noteq> MAX_RETRIES then snd (saveToStorage e s) else s)
          else (False, s))"

text \<open>\<^verbatim>\<open>verifyPin\<close> for the other two slots: the cleartext PIN is its bytes.\<close>

definition verifyPW :: "pin_env \<Rightarrow> pin_slot \<Rightarrow> bytes \<Rightarrow> pins \<Rightarrow> bool \<times> pins" where
  "verifyPW e slot pin s = verifyPinRaw e slot pin (ensure_init e s)"

text \<open>
  \<^verbatim>\<open>setPW1\<close> and \<^verbatim>\<open>setPW3\<close>, which differ in the slot and its minimal length, and their raw forms;
  a failed hash leaves the old one under the new salt.
\<close>

definition setPW :: "pin_env \<Rightarrow> pin_slot \<Rightarrow> bytes \<Rightarrow> pins \<Rightarrow> bool \<times> pins" where
  "setPW e slot newPin s =
     (if length newPin < (case slot of PW1 \<Rightarrow> PW1_MIN | PW3 \<Rightarrow> PW3_MIN) \<or> length newPin > PIN_MAX
      then (False, s)
      else
        let (salt, s) = generateSalt e s;
            h = (case computeKdfHash e (p_iterations s) newPin salt of
                   None \<Rightarrow> stored_hash slot s | Some h \<Rightarrow> h);
            s = set_retries slot MAX_RETRIES (set_reference slot salt h s)
        in (True, snd (saveToStorage e s)))"

definition setPWRaw :: "pin_env \<Rightarrow> pin_slot \<Rightarrow> bytes \<Rightarrow> pins \<Rightarrow> bool \<times> pins" where
  "setPWRaw e slot data s =
     (if length data \<noteq> 32 \<and> length data \<noteq> 64 then (False, s)
      else
        let (salt, s) = generateSalt e s in
        case computeKdfHash e (p_iterations s) data salt of
          None \<Rightarrow> (False, set_reference slot salt (stored_hash slot s) s)
        | Some h \<Rightarrow> (True, snd (saveToStorage e (set_retries slot MAX_RETRIES (set_reference slot salt h s)))))"

definition changePW :: "pin_env \<Rightarrow> pin_slot \<Rightarrow> bytes \<Rightarrow> bytes \<Rightarrow> pins \<Rightarrow> bool \<times> pins" where
  "changePW e slot currentPin newPin s =
     (case verifyPW e slot currentPin s of
        (False, s) \<Rightarrow> (False, s)
      | (True, s) \<Rightarrow> setPW e slot newPin s)"

definition resetPWRetries :: "pin_env \<Rightarrow> pin_slot \<Rightarrow> pins \<Rightarrow> pins" where
  "resetPWRetries e slot s =
     (if retries slot s < MAX_RETRIES then snd (saveToStorage e (set_retries slot MAX_RETRIES s)) else s)"

text \<open>The public operations, one per slot, and the copies of hashes and salts they hand out.\<close>

definition verifyPW1 :: "pin_env \<Rightarrow> bytes \<Rightarrow> pins \<Rightarrow> bool \<times> pins" where
  "verifyPW1 e = verifyPW e PW1"

definition verifyPW3 :: "pin_env \<Rightarrow> bytes \<Rightarrow> pins \<Rightarrow> bool \<times> pins" where
  "verifyPW3 e = verifyPW e PW3"

definition verifyPW1Raw :: "pin_env \<Rightarrow> bytes \<Rightarrow> pins \<Rightarrow> bool \<times> pins" where
  "verifyPW1Raw e = verifyPinRaw e PW1"

definition verifyPW3Raw :: "pin_env \<Rightarrow> bytes \<Rightarrow> pins \<Rightarrow> bool \<times> pins" where
  "verifyPW3Raw e = verifyPinRaw e PW3"

definition setPW1 :: "pin_env \<Rightarrow> bytes \<Rightarrow> pins \<Rightarrow> bool \<times> pins" where
  "setPW1 e = setPW e PW1"

definition setPW3 :: "pin_env \<Rightarrow> bytes \<Rightarrow> pins \<Rightarrow> bool \<times> pins" where
  "setPW3 e = setPW e PW3"

definition setPW1Raw :: "pin_env \<Rightarrow> bytes \<Rightarrow> pins \<Rightarrow> bool \<times> pins" where
  "setPW1Raw e = setPWRaw e PW1"

definition setPW3Raw :: "pin_env \<Rightarrow> bytes \<Rightarrow> pins \<Rightarrow> bool \<times> pins" where
  "setPW3Raw e = setPWRaw e PW3"

definition changePW1 :: "pin_env \<Rightarrow> bytes \<Rightarrow> bytes \<Rightarrow> pins \<Rightarrow> bool \<times> pins" where
  "changePW1 e = changePW e PW1"

definition changePW3 :: "pin_env \<Rightarrow> bytes \<Rightarrow> bytes \<Rightarrow> pins \<Rightarrow> bool \<times> pins" where
  "changePW3 e = changePW e PW3"

definition resetPW1Retries :: "pin_env \<Rightarrow> pins \<Rightarrow> pins" where
  "resetPW1Retries e = resetPWRetries e PW1"

definition resetPW3Retries :: "pin_env \<Rightarrow> pins \<Rightarrow> pins" where
  "resetPW3Retries e = resetPWRetries e PW3"

definition getBadgePinHash :: "pins \<Rightarrow> bytes" where
  "getBadgePinHash s = take BADGE_HASH_SIZE (p_badge_hash s)"

definition getPW1Hash :: "pins \<Rightarrow> bytes" where
  "getPW1Hash s = take KDF_HASH_SIZE (p_pw1_hash s)"

definition getPW3Hash :: "pins \<Rightarrow> bytes" where
  "getPW3Hash s = take KDF_HASH_SIZE (p_pw3_hash s)"

definition getPW1Salt :: "pins \<Rightarrow> bytes" where
  "getPW1Salt s = take SALT_SIZE (p_pw1_salt s)"

definition getPW3Salt :: "pins \<Rightarrow> bytes" where
  "getPW3Salt s = take SALT_SIZE (p_pw3_salt s)"

text \<open>A power cycle constructs the object anew; the slot is what the chip keeps.\<close>

definition power_cycle :: "pins \<Rightarrow> pins" where
  "power_cycle s = pins_boot (p_slot s) (p_tick s)"

section \<open>Hashes: what the loops compute\<close>

lemma or_zero: "a OR b = 0 \<longleftrightarrow> a = 0 \<and> b = (0 :: 'a::len word)"
  by (metis or.left_neutral or.right_idem or.commute or.left_idem)

lemma compareHash_foldl:
  "foldl (\<lambda>diff i. diff OR (h1 ! i XOR h2 ! i)) d is = (0 :: byte) \<longleftrightarrow>
    d = 0 \<and> (\<forall>i \<in> set is. h1 ! i = h2 ! i)"
proof (induction "is" arbitrary: d)
  case (Cons i "is")
  have "a XOR b = 0 \<longleftrightarrow> a = b" for a b :: byte
    by (metis xor.assoc xor.right_neutral xor_self_eq)
  with Cons show ?case by (simp add: or_zero)
qed simp

lemma compareHash_eq:
  "length h1 = n \<Longrightarrow> length h2 = n \<Longrightarrow> compareHash h1 h2 n \<longleftrightarrow> h1 = h2"
  by (auto simp: compareHash_def compareHash_foldl intro: nth_equalityI)

text \<open>
  The iterated and salted S2K of RFC 4880: the first \<open>tot\<close> bytes of the buffer repeated without
  end.
\<close>

lemma kdf_chunks_nth:
  "buffer \<noteq> [] \<Longrightarrow> length (kdf_chunks buffer tot p) = tot - p \<and>
    (\<forall>i < tot - p. kdf_chunks buffer tot p ! i = buffer ! (i mod length buffer))"
proof (induction buffer tot p rule: kdf_chunks.induct)
  case (1 buffer tot p)
  show ?case
  proof (cases "p < tot")
    case True
    show ?thesis
    proof (cases "tot - p < length buffer")
      case False
      with 1 True have IH: "length (kdf_chunks buffer tot (p + length buffer)) = tot - (p + length buffer)"
        "\<forall>i < tot - (p + length buffer).
          kdf_chunks buffer tot (p + length buffer) ! i = buffer ! (i mod length buffer)"
        by simp_all
      have step: "kdf_chunks buffer tot p = buffer @ kdf_chunks buffer tot (p + length buffer)"
        using True False 1(2) by (subst kdf_chunks.simps) simp
      have "kdf_chunks buffer tot p ! i = buffer ! (i mod length buffer)" if "i < tot - p" for i
      proof (cases "i < length buffer")
        case False
        then have "i - length buffer < tot - (p + length buffer)" using that by simp
        with IH(2) False show ?thesis by (simp add: step nth_append mod_if)
      qed (simp add: step nth_append)
      with IH(1) False step show ?thesis by simp
    next
      case small: True
      have "kdf_chunks buffer tot (p + (tot - p)) = []"
        using True by (subst kdf_chunks.simps) simp
      then have "kdf_chunks buffer tot p = take (tot - p) buffer"
        using True small 1(2) by (subst kdf_chunks.simps) simp
      with small show ?thesis by simp
    qed
  qed (subst kdf_chunks.simps, simp)
qed

section \<open>The record\<close>

text \<open>The sizes of the arrays, which no operation changes.\<close>

definition sized :: "pins \<Rightarrow> bool" where
  "sized s \<longleftrightarrow> length (p_badge_hash s) = 16 \<and> length (p_pw1_salt s) = 8 \<and> length (p_pw3_salt s) = 8 \<and>
     length (p_pw1_hash s) = 32 \<and> length (p_pw3_hash s) = 32 \<and>
     length (p_duress_salt s) = 8 \<and> length (p_duress_hash s) = 32"

lemma payload_length: "sized s \<Longrightarrow> length (payload s) = 147"
  by (simp add: sized_def payload_def)

text \<open>What the record keeps of the state.\<close>

definition restored :: "pins \<Rightarrow> pins \<Rightarrow> pins" where
  "restored x s = s\<lparr>p_badge_hash := p_badge_hash x, p_badge_lockouts := p_badge_lockouts x,
     p_iterations := p_iterations x, p_pw1_salt := p_pw1_salt x, p_pw3_salt := p_pw3_salt x,
     p_pw1_hash := p_pw1_hash x, p_pw3_hash := p_pw3_hash x, p_pw1_retries := p_pw1_retries x,
     p_pw3_retries := p_pw3_retries x, p_duress_set := p_duress_set x,
     p_duress_salt := p_duress_salt x, p_duress_hash := p_duress_hash x\<rparr>"

lemma field_at:
  "data = pre @ f @ post \<Longrightarrow> p = length pre \<Longrightarrow> n = length f \<Longrightarrow> take n (drop p data) = f"
  by simp

lemma byte_at_pos: "data = pre @ b # post \<Longrightarrow> p = length pre \<Longrightarrow> data ! p = b"
  by simp

lemma parse_payload:
  assumes "sized x"
  shows "parse_record (payload x @ sig) s = restored x s"
proof -
  let ?it = "[byte_at 24 (p_iterations x), byte_at 16 (p_iterations x), byte_at 8 (p_iterations x),
    byte_at 0 (p_iterations x)]"
  let ?d = "payload x @ sig"
  have len: "length (p_badge_hash x) = 16" "length (p_pw1_salt x) = 8" "length (p_pw3_salt x) = 8"
    "length (p_pw1_hash x) = 32" "length (p_pw3_hash x) = 32"
    "length (p_duress_salt x) = 8" "length (p_duress_hash x) = 32"
    using assms by (simp_all add: sized_def)
  have "take 16 (drop 1 ?d) = p_badge_hash x" "take 8 (drop 24 ?d) = p_pw1_salt x"
    "take 8 (drop 32 ?d) = p_pw3_salt x" "take 32 (drop 40 ?d) = p_pw1_hash x"
    "take 32 (drop 72 ?d) = p_pw3_hash x" "take 8 (drop 107 ?d) = p_duress_salt x"
    "take 32 (drop 115 ?d) = p_duress_hash x"
    by (simp_all add: payload_def len)
  moreover have "?d ! 17 = p_badge_lockouts x" "?d ! 104 = p_pw1_retries x" "?d ! 105 = p_pw3_retries x"
    "?d ! 106 = (if p_duress_set x then 1 else 0)"
    "?d ! 20 = byte_at 24 (p_iterations x)" "?d ! 21 = byte_at 16 (p_iterations x)"
    "?d ! 22 = byte_at 8 (p_iterations x)" "?d ! 23 = byte_at 0 (p_iterations x)"
    by (simp_all add: payload_def len nth_append)
  ultimately show ?thesis
    by (simp add: parse_record_def restored_def Let_def)
qed

section \<open>A working secure element\<close>

text \<open>
  Documented behaviour of the environment: digests and salts have their sizes
  (\<open>sizes_ok\<close>); and, for the properties about power cycles, a chip without faults
  (\<open>reliable\<close>): the session is active, a slot reads back what was written to it and an erased one as
  empty, and the attestation key verifies what it signed.
\<close>

definition sizes_ok :: "pin_env \<Rightarrow> bool" where
  "sizes_ok e \<longleftrightarrow> (\<forall>m. length (e_sha256 e m) = 32) \<and> (\<forall>t. length (e_esp_random e t) = 8) \<and>
     (\<forall>t salt. e_random e t = Some salt \<longrightarrow> length salt = 8)"

definition signed :: "pin_env \<Rightarrow> bytes \<Rightarrow> bytes \<Rightarrow> bool" where
  "signed e d sig \<longleftrightarrow> length sig = 64 \<and>
     (\<exists>pub. (\<forall>t. e_pubkey e t = Some (pub, True)) \<and> e_ecdsa_verify e (0x04 # pub) (e_sha256 e d) sig)"

definition reliable :: "pin_env \<Rightarrow> bool" where
  "reliable e \<longleftrightarrow> sizes_ok e \<and>
     (\<forall>t. e_active e t) \<and>
     (\<forall>t d. e_read e t (Some d) = Read_Ok d) \<and> (\<forall>t. e_read e t None = Slot_Empty) \<and>
     (\<forall>t d. \<exists>sig. e_sign e t d = Some sig \<and> signed e d sig) \<and>
     (\<forall>t x. e_erase e t x = None) \<and> (\<forall>t d. e_write e t None d = (True, Some d))"

text \<open>The slot holds the signed record of \<open>x\<close>.\<close>

definition holds :: "pin_env \<Rightarrow> bytes option \<Rightarrow> pins \<Rightarrow> bool" where
  "holds e slot x \<longleftrightarrow> sized x \<and> (\<exists>sig. slot = Some (payload x @ sig) \<and> signed e (payload x) sig)"

lemma payload_tick [simp]: "payload (s\<lparr>p_tick := k\<rparr>) = payload s"
  by (simp add: payload_def)

lemma save_reliable:
  assumes "reliable e" and "sized s"
  obtains sig k where "signed e (payload s) sig"
    and "saveToStorage e s = (True, s\<lparr>p_slot := Some (payload s @ sig), p_tick := k,
      p_persisted_lockouts := p_badge_lockouts s, p_persisted_pw1 := p_pw1_retries s,
      p_persisted_pw3 := p_pw3_retries s\<rparr>)"
proof -
  obtain sig where sig: "e_sign e (Suc (p_tick s)) (payload s) = Some sig" "signed e (payload s) sig"
    using assms(1) unfolding reliable_def by blast
  then have "saveToStorage e s = (True, s\<lparr>p_slot := Some (payload s @ sig), p_tick := p_tick s + 4,
      p_persisted_lockouts := p_badge_lockouts s, p_persisted_pw1 := p_pw1_retries s,
      p_persisted_pw3 := p_pw3_retries s\<rparr>)"
    using assms payload_length [OF assms(2)]
    by (simp add: saveToStorage_def session_active_def tick_def rmem_erase_def rmem_write_def Let_def
        reliable_def signed_def)
  with sig(2) show thesis by (rule that)
qed

lemma load_reliable:
  assumes "reliable e" and "holds e (p_slot s) x"
  obtains k b where "loadFromStorage e s = (True, (restored x s)\<lparr>p_unreadable := False, p_tick := k,
    p_persisted_lockouts := p_badge_lockouts x, p_persisted_pw1 := p_pw1_retries x,
    p_persisted_pw3 := p_pw3_retries x, p_badge_set := b\<rparr>)"
proof -
  from assms(2) obtain sig where slot: "p_slot s = Some (payload x @ sig)" "signed e (payload x) sig"
      "sized x" by (auto simp: holds_def)
  then obtain pub where pub: "\<And>t. e_pubkey e t = Some (pub, True)" "length sig = 64"
      "e_ecdsa_verify e (0x04 # pub) (e_sha256 e (payload x)) sig" by (auto simp: signed_def)
  have len: "length (payload x @ sig) = 211" "take 147 (payload x @ sig) = payload x"
      "drop 147 (payload x @ sig) = sig"
    using payload_length [OF slot(3)] pub(2) by simp_all
  have magic: "(payload x @ sig) ! 0 = 0xE0" by (simp add: payload_def)
  let ?t = "restored x s"
  have "loadFromStorage e s = (True, ?t\<lparr>p_unreadable := False, p_tick := p_tick s + 3,
    p_persisted_lockouts := p_badge_lockouts x, p_persisted_pw1 := p_pw1_retries x,
    p_persisted_pw3 := p_pw3_retries x,
    p_badge_set := \<not> compareHash (p_badge_hash x) (computeBadgeHash e DEFAULT_BADGE_PIN) 16\<rparr>)"
    using assms(1) slot(1) pub len magic
    by (simp add: loadFromStorage_def session_active_def rmem_read_def tick_def reliable_def
        verify_payload_signature_def parse_payload [OF slot(3)] restored_def Let_def)
  then show thesis by (rule that)
qed

section \<open>What the retry counters rest on\<close>

text \<open>
  \<open>pin_inv e s x\<close>: the chip holds the record of \<open>x\<close>, and once it is loaded, the two OpenPGP references
  in RAM are those of the record, the mirrors know the record's counters, and no counter in RAM is
  below the one on the chip.
\<close>

fun reference :: "pin_slot \<Rightarrow> pins \<Rightarrow> u32 \<times> bytes \<times> bytes" where
  "reference slot s = (p_iterations s, salt_of slot s, stored_hash slot s)"

definition pin_inv :: "pin_env \<Rightarrow> pins \<Rightarrow> pins \<Rightarrow> bool" where
  "pin_inv e s x \<longleftrightarrow> holds e (p_slot s) x \<and> sized s \<and>
     (p_loaded s \<longrightarrow> (\<forall>slot. reference slot s = reference slot x \<and>
        mirror slot s = retries slot x \<and> mirror slot s \<le> retries slot s))"

text \<open>The tries left: the counter in RAM, or the one that the record will bring there.\<close>

definition chances :: "pin_slot \<Rightarrow> pins \<Rightarrow> pins \<Rightarrow> byte" where
  "chances slot s x = (if p_loaded s then retries slot s else retries slot x)"

lemma pin_slot_all: "(\<forall>slot. P slot) \<longleftrightarrow> P PW1 \<and> P PW3"
  by (metis pin_slot.exhaust)

lemma save_inv:
  assumes "reliable e" and "sized s" and "p_loaded s"
  obtains t where "saveToStorage e s = (True, t)" and "pin_inv e t s" and "p_loaded t"
    and "\<And>slot. reference slot t = reference slot s" and "\<And>slot. retries slot t = retries slot s"
proof -
  from save_reliable [OF assms(1,2)] obtain sig k where sig: "signed e (payload s) sig"
    and save: "saveToStorage e s = (True, s\<lparr>p_slot := Some (payload s @ sig), p_tick := k,
      p_persisted_lockouts := p_badge_lockouts s, p_persisted_pw1 := p_pw1_retries s,
      p_persisted_pw3 := p_pw3_retries s\<rparr>)" by blast
  let ?t = "s\<lparr>p_slot := Some (payload s @ sig), p_tick := k,
      p_persisted_lockouts := p_badge_lockouts s, p_persisted_pw1 := p_pw1_retries s,
      p_persisted_pw3 := p_pw3_retries s\<rparr>"
  have "sized ?t" using assms(2) by (simp add: sized_def)
  then have inv: "pin_inv e ?t s"
    using assms sig by (auto simp: pin_inv_def holds_def pin_slot_all)
  have same: "reference slot ?t = reference slot s" "retries slot ?t = retries slot s" for slot
    by (cases slot; simp)+
  show thesis by (rule that [OF save inv _ same]) (simp add: assms(3))
qed

lemma init_inv:
  assumes "reliable e" and "pin_inv e s x" and "\<not> p_loaded s"
  shows "pin_inv e (snd (pins_init e s)) x \<and> p_loaded (snd (pins_init e s)) \<and>
    (\<forall>slot. retries slot (snd (pins_init e s)) = retries slot x)"
proof -
  have x: "holds e (p_slot s) x" "sized x" "sized s"
    using assms(2) by (simp_all add: pin_inv_def holds_def)
  from load_reliable [OF assms(1) x(1)] obtain k b where
    load: "loadFromStorage e s = (True, (restored x s)\<lparr>p_unreadable := False, p_tick := k,
    p_persisted_lockouts := p_badge_lockouts x, p_persisted_pw1 := p_pw1_retries x,
    p_persisted_pw3 := p_pw3_retries x, p_badge_set := b\<rparr>)" by blast
  show ?thesis
    using assms(3) x
    by (simp add: pins_init_def load Let_def startLockout_def now_ms_def tick_def pin_inv_def
        pin_slot_all restored_def sized_def)
qed

section \<open>One try\<close>

lemma set_retries_frame [simp]:
  "retries slot (set_retries slot' n s) = (if slot = slot' then n else retries slot s)"
  "reference slot (set_retries slot' n s) = reference slot s"
  "mirror slot (set_retries slot' n s) = mirror slot s"
  "sized (set_retries slot' n s) = sized s" "p_loaded (set_retries slot' n s) = p_loaded s"
  "p_slot (set_retries slot' n s) = p_slot s"
  by (cases slot; cases slot'; simp add: sized_def)+

declare reference.simps [simp del]

text \<open>Whether the data is what the reference was made of, up to the hash.\<close>

definition right :: "pin_env \<Rightarrow> u32 \<times> bytes \<times> bytes \<Rightarrow> bytes \<Rightarrow> bool" where
  "right e r data = (case r of (iterations, salt, h) \<Rightarrow>
     (case computeKdfHash e iterations data salt of
        None \<Rightarrow> False
      | Some g \<Rightarrow> compareHash h g 32))"

lemma kdf_None: "computeKdfHash e it data salt = None \<longleftrightarrow> 64 < length data"
  by (simp add: computeKdfHash_def)

lemma verify_raw_inv:
  assumes e: "reliable e" and inv: "pin_inv e s x" and loaded: "p_loaded s"
    and v: "verifyPinRaw e slot data s = (ok, t)"
  shows "\<exists>y. pin_inv e t y \<and> p_loaded t \<and> (\<forall>sl. reference sl t = reference sl s) \<and>
    ok = (retries slot s \<noteq> 0 \<and> right e (reference slot s) data) \<and>
    (\<forall>sl. sl \<noteq> slot \<longrightarrow> retries sl t = retries sl s) \<and>
    retries slot t = (if retries slot s = 0 \<or> 64 < length data then retries slot s
      else if right e (reference slot s) data then 3 else retries slot s - 1)"
proof (cases "retries slot s = 0 \<or> 64 < length data")
  case True
  then have "verifyPinRaw e slot data s = (False, s)"
    using loaded kdf_None [of e _ data] by (auto simp: verifyPinRaw_def)
  moreover have "64 < length data \<Longrightarrow> \<not> right e (reference slot s) data"
    by (simp add: right_def reference.simps kdf_None [THEN iffD2])
  ultimately show ?thesis using v inv loaded True by auto
next
  case False
  then obtain h where h: "computeKdfHash e (p_iterations s) data (salt_of slot s) = Some h"
    by (auto simp: computeKdfHash_def)
  then have right: "right e (reference slot s) data = compareHash (stored_hash slot s) h 32"
    by (simp add: right_def reference.simps)
  let ?s = "set_retries slot (retries slot s - 1) s"
  have sized: "sized s" using inv by (simp add: pin_inv_def)
  text \<open>The decrement, persisted first when the chip does not know it yet.\<close>
  obtain u y where u: "(if retries slot s - 1 < mirror slot s then saveToStorage e ?s else (True, ?s)) = (True, u)"
    and uinv: "pin_inv e u y" "p_loaded u" "\<And>sl. reference sl u = reference sl s"
      "\<And>sl. retries sl u = retries sl ?s"
  proof (cases "retries slot s - 1 < mirror slot s")
    case True
    show thesis
      by (rule save_inv [OF e, of ?s]) (use sized loaded True that in auto)
  next
    case less: False
    then have "pin_inv e ?s x"
      using inv loaded by (cases slot) (auto simp: pin_inv_def pin_slot_all not_less sized_def reference.simps)
    with less that loaded show thesis by auto
  qed
  have ref: "stored_hash slot u = stored_hash slot s" using uinv(3) [of slot] by (simp add: reference.simps)
  show ?thesis
  proof (cases "compareHash (stored_hash slot s) h 32")
    case wrong: False
    then have "verifyPinRaw e slot data s = (False, u)"
      using False loaded h u ref by (simp add: verifyPinRaw_def Let_def split: prod.splits)
    with v uinv wrong right False show ?thesis by auto
  next
    case True
    let ?u = "set_retries slot 3 u"
    let ?t = "if mirror slot ?u \<noteq> 3 then snd (saveToStorage e ?u) else ?u"
    have "verifyPinRaw e slot data s = (True, ?t)"
      using True False loaded h u ref by (simp add: verifyPinRaw_def Let_def split: prod.splits)
    moreover have "\<exists>y. pin_inv e ?t y \<and> p_loaded ?t \<and> (\<forall>sl. reference sl ?t = reference sl u) \<and>
        (\<forall>sl. retries sl ?t = retries sl ?u)"
    proof (cases "mirror slot ?u = 3")
      case True
      have "pin_inv e ?u y"
        using uinv(1,2) True
        by (cases slot) (auto simp: pin_inv_def pin_slot_all sized_def reference.simps)
      with True uinv(2) show ?thesis by auto
    next
      case False
      have "sized ?u" using uinv(1) by (simp add: pin_inv_def)
      then obtain w where "saveToStorage e ?u = (True, w)" "pin_inv e w ?u" "p_loaded w"
          "\<And>sl. reference sl w = reference sl ?u" "\<And>sl. retries sl w = retries sl ?u"
        using save_inv [OF e, of ?u] uinv(2) by auto
      with False show ?thesis by auto
    qed
    ultimately show ?thesis using v uinv True right False by auto
  qed
qed

section \<open>Histories of tries and power cycles\<close>

datatype pin_event =
    Try pin_slot bytes
  | Try_Badge bytes
  | Power_Cycle

fun pin_step :: "pin_env \<Rightarrow> pins \<Rightarrow> pin_event \<Rightarrow> pins" where
  "pin_step e s (Try slot data) = snd (verifyPinRaw e slot data s)"
| "pin_step e s (Try_Badge pin) = snd (verifyBadgePin e pin s)"
| "pin_step e s Power_Cycle = power_cycle s"

lemma badge_fields_frame [simp]:
  "reference slot (s\<lparr>p_badge_retries := a\<rparr>) = reference slot s"
  "reference slot (s\<lparr>p_badge_lockouts := b\<rparr>) = reference slot s"
  "reference slot (s\<lparr>p_lockout_active := c\<rparr>) = reference slot s"
  "reference slot (s\<lparr>p_lockout_start := d\<rparr>) = reference slot s"
  "reference slot (s\<lparr>p_tick := k\<rparr>) = reference slot s"
  "retries slot (s\<lparr>p_badge_retries := a\<rparr>) = retries slot s"
  "retries slot (s\<lparr>p_badge_lockouts := b\<rparr>) = retries slot s"
  "retries slot (s\<lparr>p_lockout_active := c\<rparr>) = retries slot s"
  "retries slot (s\<lparr>p_lockout_start := d\<rparr>) = retries slot s"
  "retries slot (s\<lparr>p_tick := k\<rparr>) = retries slot s"
  "mirror slot (s\<lparr>p_badge_retries := a\<rparr>) = mirror slot s"
  "mirror slot (s\<lparr>p_badge_lockouts := b\<rparr>) = mirror slot s"
  "mirror slot (s\<lparr>p_lockout_active := c\<rparr>) = mirror slot s"
  "mirror slot (s\<lparr>p_lockout_start := d\<rparr>) = mirror slot s"
  "mirror slot (s\<lparr>p_tick := k\<rparr>) = mirror slot s"
  "sized (s\<lparr>p_badge_retries := a\<rparr>) = sized s"
  "sized (s\<lparr>p_badge_lockouts := b\<rparr>) = sized s"
  "sized (s\<lparr>p_lockout_active := c\<rparr>) = sized s"
  "sized (s\<lparr>p_lockout_start := d\<rparr>) = sized s"
  "sized (s\<lparr>p_tick := k\<rparr>) = sized s"
  by (cases slot; simp add: reference.simps sized_def)+

text \<open>\<open>like s t\<close>: \<open>t\<close> differs from \<open>s\<close> in the badge PIN's counters and timer only.\<close>

definition like :: "pins \<Rightarrow> pins \<Rightarrow> bool" where
  "like s t \<longleftrightarrow> p_slot t = p_slot s \<and> p_loaded t = p_loaded s \<and> sized t = sized s \<and>
     (\<forall>slot. reference slot t = reference slot s \<and> retries slot t = retries slot s \<and>
       mirror slot t = mirror slot s)"

lemma like_refl: "like s s"
  by (simp add: like_def)

lemma like_trans: "like s t \<Longrightarrow> like t u \<Longrightarrow> like s u"
  by (simp add: like_def)

lemma like_expired: "like s (checkAndResetExpiredLockout e s)"
  by (simp add: like_def checkAndResetExpiredLockout_def getLockoutRemainingMs_def now_ms_def tick_def Let_def)

lemma like_start: "like s (startLockout e s)"
  by (simp add: like_def startLockout_def now_ms_def tick_def Let_def)

lemma like_badge:
  "like s (s\<lparr>p_badge_retries := a\<rparr>)"
  "like s (s\<lparr>p_badge_retries := a, p_badge_lockouts := b\<rparr>)"
  "like s (s\<lparr>p_badge_retries := a, p_lockout_active := c, p_badge_lockouts := b\<rparr>)"
  by (simp_all add: like_def)

lemma like_inv: "pin_inv e s x \<Longrightarrow> like s t \<Longrightarrow> pin_inv e t x"
  unfolding pin_inv_def like_def by metis

text \<open>What a badge try does to the rest of the state: nothing, or a save of it.\<close>

definition kept :: "pin_env \<Rightarrow> pins \<Rightarrow> pins \<Rightarrow> bool" where
  "kept e s t \<longleftrightarrow> (\<exists>y. pin_inv e t y) \<and> p_loaded t \<and>
     (\<forall>slot. reference slot t = reference slot s \<and> retries slot t = retries slot s)"

lemma kept_like: "pin_inv e s x \<Longrightarrow> p_loaded s \<Longrightarrow> like s t \<Longrightarrow> kept e s t"
  using like_inv [of e s x t] by (auto simp: kept_def like_def)

lemma kept_then_like: "kept e s t \<Longrightarrow> like t u \<Longrightarrow> kept e s u"
proof -
  assume k: "kept e s t" and l: "like t u"
  from k obtain y where "pin_inv e t y" by (auto simp: kept_def)
  from like_inv [OF this l] show "kept e s u" using k l by (auto simp: kept_def like_def)
qed

lemma kept_save:
  assumes "reliable e" and "pin_inv e s x" and "p_loaded s" and "like s t"
  shows "kept e s (snd (saveToStorage e t))"
proof -
  have "sized t" "p_loaded t" using assms by (auto simp: like_def pin_inv_def)
  from save_inv [OF assms(1) this] obtain u where "saveToStorage e t = (True, u)" "pin_inv e u t"
    "p_loaded u" "\<And>slot. reference slot u = reference slot t" "\<And>slot. retries slot u = retries slot t"
    by blast
  with assms(4) show ?thesis by (auto simp: kept_def like_def)
qed

lemma badge_kept:
  assumes "reliable e" and "pin_inv e s x" and "p_loaded s"
  shows "kept e s (snd (verifyBadgePinHashCounted e h s))"
proof -
  let ?s = "checkAndResetExpiredLockout e s"
  have s1: "like s ?s" by (rule like_expired)
  have to: "like s (?s\<lparr>p_badge_retries := a\<rparr>)"
    "like s (?s\<lparr>p_badge_retries := a, p_badge_lockouts := b\<rparr>)"
    "like s (?s\<lparr>p_badge_retries := a, p_lockout_active := c, p_badge_lockouts := b\<rparr>)" for a b c
    using like_badge [of ?s] like_trans [OF s1] by blast+
  note k = kept_like [OF assms(2,3)] kept_save [OF assms]
  show ?thesis
    using assms(3) s1 to
    by (auto simp: verifyBadgePinHashCounted_def Let_def intro!: k kept_then_like [OF k(2) like_start])
qed

text \<open>
  One event: the reference stays; a wrong try that is hashed at all takes one of the chances left; no
  event adds any, as long as no right try is made.
\<close>

fun hits :: "pin_slot \<Rightarrow> pin_event \<Rightarrow> nat" where
  "hits slot (Try slot' data) = (if slot' = slot \<and> length data \<le> 64 then 1 else 0)"
| "hits slot _ = 0"

fun misses :: "pin_env \<Rightarrow> u32 \<times> bytes \<times> bytes \<Rightarrow> pin_slot \<Rightarrow> pin_event \<Rightarrow> bool" where
  "misses e r slot (Try slot' data) = (slot' = slot \<longrightarrow> \<not> right e r data)"
| "misses e r slot _ = True"

lemma ensure_init_inv:
  assumes "reliable e" and "pin_inv e s x"
  shows "pin_inv e (ensure_init e s) x \<and> p_loaded (ensure_init e s) \<and>
    (\<forall>slot. retries slot (ensure_init e s) = chances slot s x \<and>
      reference slot (ensure_init e s) = reference slot x)"
proof -
  have loaded: "pin_inv e t x \<Longrightarrow> p_loaded t \<Longrightarrow> reference slot t = reference slot x" for t slot
    by (simp add: pin_inv_def)
  show ?thesis
    using init_inv [OF assms] loaded assms(2) by (simp add: chances_def)
qed

lemma verify_raw_ensure:
  "reliable e \<Longrightarrow> pin_inv e s x \<Longrightarrow> verifyPinRaw e slot data s = verifyPinRaw e slot data (ensure_init e s)"
  using ensure_init_inv [of e s x] by (simp add: verifyPinRaw_def)

lemma byte_dec: "r \<noteq> 0 \<Longrightarrow> unat (r - 1 :: byte) = unat r - 1"
  by (rule unat_minus_one)

lemma pin_step_inv:
  assumes "reliable e" and "pin_inv e s x" and "misses e (reference slot x) slot ev"
  shows "\<exists>y. pin_inv e (pin_step e s ev) y \<and> reference slot y = reference slot x \<and>
    unat (chances slot (pin_step e s ev) y) \<le> unat (chances slot s x) - hits slot ev"
proof (cases ev)
  case (Try sl data)
  let ?s = "ensure_init e s"
  note i = ensure_init_inv [OF assms(1,2)]
  obtain ok t where v: "verifyPinRaw e sl data ?s = (ok, t)" by (cases "verifyPinRaw e sl data ?s")
  from verify_raw_inv [OF assms(1) _ _ v, of x] i obtain y where
    y: "pin_inv e t y" "p_loaded t" "\<forall>l. reference l t = reference l ?s"
      "\<forall>l. l \<noteq> sl \<longrightarrow> retries l t = retries l ?s"
      "retries sl t = (if retries sl ?s = 0 \<or> 64 < length data then retries sl ?s
        else if right e (reference sl ?s) data then 3 else retries sl ?s - 1)"
    by blast
  have step: "pin_step e s ev = t"
    using Try v verify_raw_ensure [OF assms(1,2), of sl data] by simp
  have "reference slot y = reference slot x"
    using y(1,2,3) i by (simp add: pin_inv_def)
  moreover have "unat (chances slot t y) \<le> unat (chances slot s x) - hits slot ev"
  proof (cases "sl = slot")
    case True
    with assms(3) Try have "\<not> right e (reference slot ?s) data" using i by simp
    with y(2,5) i True Try byte_dec [of "chances slot s x"] show ?thesis
      by (auto simp: chances_def)
  next
    case False
    with y(2,4) i Try show ?thesis by (auto simp: chances_def)
  qed
  ultimately show ?thesis using y(1) step by blast
next
  case (Try_Badge pin)
  let ?s = "ensure_init e s"
  note i = ensure_init_inv [OF assms(1,2)]
  have "pin_step e s ev = snd (verifyBadgePinHashCounted e (computeBadgeHash e pin) ?s)"
    using Try_Badge by (simp add: verifyBadgePin_def)
  moreover have "kept e ?s (snd (verifyBadgePinHashCounted e (computeBadgeHash e pin) ?s))"
    using badge_kept [OF assms(1)] i by blast
  ultimately obtain y where y: "pin_inv e (pin_step e s ev) y" "p_loaded (pin_step e s ev)"
      "reference slot (pin_step e s ev) = reference slot ?s" "retries slot (pin_step e s ev) = retries slot ?s"
    by (auto simp: kept_def)
  then have "reference slot y = reference slot x" using i by (simp add: pin_inv_def)
  with y i Try_Badge show ?thesis
    by (intro exI [of _ y]) (simp add: chances_def)
next
  case Power_Cycle
  have "sized (pins_boot (p_slot s) (p_tick s))" by (simp add: sized_def pins_boot_def)
  then have "pin_inv e (power_cycle s) x"
    using assms(2) by (simp add: pin_inv_def power_cycle_def) (simp add: pins_boot_def)
  moreover have "retries slot x \<le> chances slot s x"
    using assms(2) unfolding pin_inv_def chances_def by (metis order_refl)
  ultimately show ?thesis
    using Power_Cycle by (intro exI [of _ x])
      (auto simp: chances_def power_cycle_def pins_boot_def word_le_nat_alt)
qed

lemma pin_steps_inv:
  "reliable e \<Longrightarrow> pin_inv e s x \<Longrightarrow> \<forall>ev \<in> set evs. misses e (reference slot x) slot ev \<Longrightarrow>
    \<exists>y. pin_inv e (foldl (pin_step e) s evs) y \<and> reference slot y = reference slot x \<and>
      unat (chances slot (foldl (pin_step e) s evs) y) \<le>
        unat (chances slot s x) - (\<Sum>ev\<leftarrow>evs. hits slot ev)"
proof (induction evs arbitrary: s x)
  case (Cons ev evs)
  from Cons.prems pin_step_inv [of e s x slot ev] obtain z where
    z: "pin_inv e (pin_step e s ev) z" "reference slot z = reference slot x"
      "unat (chances slot (pin_step e s ev) z) \<le> unat (chances slot s x) - hits slot ev" by auto
  from Cons.IH [OF Cons.prems(1) z(1)] Cons.prems(3) z(2) obtain y where
    "pin_inv e (foldl (pin_step e) (pin_step e s ev) evs) y" "reference slot y = reference slot z"
    "unat (chances slot (foldl (pin_step e) (pin_step e s ev) evs) y) \<le>
      unat (chances slot (pin_step e s ev) z) - (\<Sum>ev\<leftarrow>evs. hits slot ev)" by auto
  with z show ?case by (intro exI [of _ y]) auto
qed auto

lemma save_keeps [simp]:
  "p_badge_lockouts (snd (saveToStorage e s)) = p_badge_lockouts s"
  "p_badge_retries (snd (saveToStorage e s)) = p_badge_retries s"
  "p_badge_hash (snd (saveToStorage e s)) = p_badge_hash s"
  "p_lockout_active (snd (saveToStorage e s)) = p_lockout_active s"
  "p_loaded (snd (saveToStorage e s)) = p_loaded s"
  "p_duress_set (snd (saveToStorage e s)) = p_duress_set s"
  "p_duress_salt (snd (saveToStorage e s)) = p_duress_salt s"
  "p_duress_hash (snd (saveToStorage e s)) = p_duress_hash s"
  "p_iterations (snd (saveToStorage e s)) = p_iterations s"
  "p_pw1_hash (snd (saveToStorage e s)) = p_pw1_hash s"
  "p_pw3_hash (snd (saveToStorage e s)) = p_pw3_hash s"
  by (simp_all add: saveToStorage_def session_active_def rmem_erase_def rmem_write_def tick_def Let_def
      case_prod_beta split: option.split)

section \<open>Properties\<close>

text \<open>An environment that works, and a record with short hashing, for the witnesses.\<close>

definition calm_env :: pin_env where
  "calm_env = \<lparr>e_sha256 = (\<lambda>m. replicate 32 9), e_active = (\<lambda>t. True), e_random = (\<lambda>t. None),
     e_esp_random = (\<lambda>t. replicate 8 5),
     e_read = (\<lambda>t slot. case slot of None \<Rightarrow> Slot_Empty | Some d \<Rightarrow> Read_Ok d),
     e_pubkey = (\<lambda>t. Some ([], True)), e_ecdsa_verify = (\<lambda>pub h sig. True),
     e_sign = (\<lambda>t d. Some (replicate 64 1)), e_erase = (\<lambda>t slot. None),
     e_write = (\<lambda>t slot d. (True, Some d)), e_now_ms = (\<lambda>t. of_nat t)\<rparr>"

lemma calm_reliable: "reliable calm_env"
  by (auto simp: reliable_def sizes_ok_def signed_def calm_env_def)

definition some_pins :: pins where
  "some_pins = (pins_boot None 0)\<lparr>p_pw1_hash := replicate 32 7, p_iterations := 10, p_loaded := True\<rparr>"

lemma some_sized: "sized some_pins"
  by (simp add: sized_def some_pins_def pins_boot_def)

text \<open>
  C31. A saved PIN record is restored: with a chip without faults, saving succeeds, and after a power
  cycle loading succeeds and brings back every field the record keeps, the hashes and salts, the
  retry counters, the lockout count, the iteration count and the duress PIN.
\<close>

theorem pin_record_roundtrip:
  assumes "reliable e" and "sized s"
  shows "case saveToStorage e s of (ok, t) \<Rightarrow> ok \<and>
    (case loadFromStorage e (power_cycle t) of (ok', u) \<Rightarrow> ok' \<and> restored s u = u)"
proof -
  from save_reliable [OF assms] obtain sig k where sig: "signed e (payload s) sig"
    and save: "saveToStorage e s = (True, s\<lparr>p_slot := Some (payload s @ sig), p_tick := k,
      p_persisted_lockouts := p_badge_lockouts s, p_persisted_pw1 := p_pw1_retries s,
      p_persisted_pw3 := p_pw3_retries s\<rparr>)" (is "_ = (True, ?t)") by blast
  have "holds e (p_slot (power_cycle ?t)) s"
    using sig assms(2) by (auto simp: holds_def power_cycle_def pins_boot_def)
  from load_reliable [OF assms(1) this] obtain j b where
    load: "loadFromStorage e (power_cycle ?t) = (True, (restored s (power_cycle ?t))\<lparr>p_unreadable := False,
      p_tick := j, p_persisted_lockouts := p_badge_lockouts s, p_persisted_pw1 := p_pw1_retries s,
      p_persisted_pw3 := p_pw3_retries s, p_badge_set := b\<rparr>)" by blast
  have same: "restored s u' = u'" if "u' = (restored s v)\<lparr>p_unreadable := False, p_tick := j,
      p_persisted_lockouts := l, p_persisted_pw1 := r1, p_persisted_pw3 := r3, p_badge_set := b\<rparr>"
    for u' v l r1 r3
    unfolding that restored_def by simp
  show ?thesis unfolding save prod.case load by (simp only: same [OF refl] simp_thms)
qed

theorem pin_record_roundtrip_witness:
  "case saveToStorage calm_env some_pins of (ok, t) \<Rightarrow> ok \<and>
    (case loadFromStorage calm_env (power_cycle t) of (ok', u) \<Rightarrow> ok' \<and> restored some_pins u = u)"
  by (rule pin_record_roundtrip [OF calm_reliable some_sized])

text \<open>
  C1. The tries of an OpenPGP PIN are bounded across power cycles: from a boot with a record on the
  chip, once as many wrong values have been tried as the record had retries, in any mix with power
  cycles, tries of the other PIN and of the badge PIN, the PIN is blocked: no value is accepted any
  more, not even the right one.
\<close>

theorem pw_tries_bounded:
  assumes "reliable e" and "holds e slot x"
    and "\<forall>ev \<in> set evs. misses e (reference k x) k ev"
    and "unat (retries k x) \<le> (\<Sum>ev\<leftarrow>evs. hits k ev)"
  shows "\<not> fst (verifyPinRaw e k data (foldl (pin_step e) (pins_boot slot t) evs))"
proof -
  let ?s = "foldl (pin_step e) (pins_boot slot t) evs"
  have "pin_inv e (pins_boot slot t) x" "chances k (pins_boot slot t) x = retries k x"
    using assms(2) by (simp_all add: pin_inv_def pins_boot_def sized_def chances_def)
  with pin_steps_inv [OF assms(1) this(1) assms(3)] assms(4) obtain y where
    y: "pin_inv e ?s y" "unat (chances k ?s y) \<le> 0" by auto
  have "retries k (ensure_init e ?s) = 0" using ensure_init_inv [OF assms(1) y(1)] y(2) by (simp add: word_unat_eq_iff)
  then show ?thesis
    using verify_raw_ensure [OF assms(1) y(1), of k data] ensure_init_inv [OF assms(1) y(1)]
    by (simp add: verifyPinRaw_def)
qed

theorem pw_tries_bounded_witness:
  "\<not> fst (verifyPinRaw calm_env PW1 [1] (foldl (pin_step calm_env)
      (pins_boot (Some (payload some_pins @ replicate 64 1)) 0)
      [Try PW1 [1], Power_Cycle, Try PW1 [2], Try_Badge [3], Try PW3 [4], Power_Cycle, Try PW1 [5]]))"
proof -
  have "holds calm_env (Some (payload some_pins @ replicate 64 1)) some_pins"
    using some_sized by (simp add: holds_def signed_def calm_env_def)
  moreover have "\<not> right calm_env (reference PW1 some_pins) d" for d
    using compareHash_eq [of "replicate 32 7" 32 "replicate 32 9"]
    by (simp add: right_def reference.simps computeKdfHash_def some_pins_def pins_boot_def calm_env_def
        replicate_eq_replicate)
  ultimately show ?thesis
    by (intro pw_tries_bounded [OF calm_reliable, of _ some_pins])
       (simp_all add: some_pins_def pins_boot_def)
qed

text \<open>
  The recovery time after the \<open>n\<close>-th consecutive lockout is 60 s doubled \<open>n - 1\<close> times, up to
  ten doublings, and the 32-bit shift never overflows.
\<close>

theorem lockout_duration:
  "unat (lockoutDurationMs n) = 60000 * 2 ^ min (unat n - 1) 10"
proof -
  define k where "k = min (unat n - 1) 10"
  have "lockoutDurationMs n = push_bit k 60000"
  proof (cases "n = 0")
    case False
    then have "unat (n - 1) = unat n - 1" by (rule byte_dec)
    moreover have "0 < n" using False by (simp add: word_gt_0)
    ultimately show ?thesis
      by (simp add: lockoutDurationMs_def Let_def k_def word_less_nat_alt [of 10] min_def)
  qed (simp add: lockoutDurationMs_def k_def)
  moreover have "unat (push_bit k 60000 :: u32) = 60000 * 2 ^ k"
  proof -
    have "k \<le> 10" by (simp add: k_def)
    then have "k = 0 \<or> k = 1 \<or> k = 2 \<or> k = 3 \<or> k = 4 \<or> k = 5 \<or> k = 6 \<or> k = 7 \<or> k = 8 \<or> k = 9 \<or> k = 10"
      by (simp add: le_Suc_eq numeral_eq_Suc)
    then show ?thesis by (elim disjE) (simp_all add: push_bit_eq_mult)
  qed
  ultimately show ?thesis by (simp add: k_def)
qed



text \<open>
  The wrong try that uses up the badge PIN's retries locks it: the lockout count goes up by one
  (255 is kept), so the next recovery time is the next longer one, the count is what the record is
  saved with, and the recovery time starts then.
\<close>

theorem badge_last_try:
  assumes "p_loaded s" and "p_badge_retries s = 1" and "\<not> p_lockout_active s"
    and "\<not> verifyBadgePinHash h s"
  shows "case verifyBadgePinHashCounted e h s of (ok, t) \<Rightarrow>
    let locked = (if p_badge_lockouts s = 255 then s\<lparr>p_badge_retries := 0\<rparr>
          else s\<lparr>p_badge_retries := 0, p_badge_lockouts := p_badge_lockouts s + 1\<rparr>) in
    \<not> ok \<and> isBadgeBlocked t \<and> p_lockout_active t \<and> p_badge_lockouts t = p_badge_lockouts locked \<and>
    t = startLockout e (snd (saveToStorage e locked))"
proof -
  have max: "l < 255 \<longleftrightarrow> l \<noteq> 255" for l :: byte
    using unat_less [of l] by (auto simp: word_less_nat_alt word_unat_eq_iff)
  show ?thesis
    using assms
    by (auto simp: verifyBadgePinHashCounted_def checkAndResetExpiredLockout_def Let_def max
        verifyBadgePinHash_def isBadgeBlocked_def startLockout_def now_ms_def tick_def)
qed

theorem badge_last_try_witness:
  "case verifyBadgePinHashCounted calm_env (replicate 16 1) (some_pins\<lparr>p_badge_retries := 1\<rparr>) of (ok, t) \<Rightarrow>
    \<not> ok \<and> isBadgeBlocked t \<and> p_badge_lockouts t = 1"
proof -
  have "\<not> verifyBadgePinHash (replicate 16 1) (some_pins\<lparr>p_badge_retries := 1\<rparr>)"
    using compareHash_eq [of "replicate 16 0" 16 "replicate 16 1"]
    by (simp add: verifyBadgePinHash_def some_pins_def pins_boot_def replicate_eq_replicate)
  then show ?thesis
    using badge_last_try [of "some_pins\<lparr>p_badge_retries := 1\<rparr>" "replicate 16 1" calm_env]
    by (auto simp: some_pins_def pins_boot_def Let_def split: prod.splits)
qed

definition record_bad :: "pin_env \<Rightarrow> bytes option \<Rightarrow> bool" where
  "record_bad e slot \<longleftrightarrow> (\<forall>t. e_active e t) \<and> (\<forall>t. e_read e t slot = Read_Error \<or>
     (\<exists>d. e_read e t slot = Read_Ok d \<and> length d = 211 \<and> d ! 0 = 0xE0 \<and>
       (\<forall>k pub. e_pubkey e k = Some (pub, True) \<longrightarrow>
         \<not> e_ecdsa_verify e (0x04 # pub) (e_sha256 e (take 147 d)) (drop 147 d))))"

lemma load_bad:
  assumes "record_bad e (p_slot s)"
  shows "\<not> fst (loadFromStorage e s) \<and> p_unreadable (snd (loadFromStorage e s)) \<and>
    p_slot (snd (loadFromStorage e s)) = p_slot s \<and> p_loaded (snd (loadFromStorage e s)) = p_loaded s \<and>
    p_lockout_active (snd (loadFromStorage e s)) = p_lockout_active s"
proof -
  have active: "e_active e t" for t using assms by (simp add: record_bad_def)
  from assms have "e_read e (Suc (p_tick s)) (p_slot s) = Read_Error \<or>
     (\<exists>d. e_read e (Suc (p_tick s)) (p_slot s) = Read_Ok d \<and> length d = 211 \<and> d ! 0 = 0xE0 \<and>
       (\<forall>k pub. e_pubkey e k = Some (pub, True) \<longrightarrow>
         \<not> e_ecdsa_verify e (0x04 # pub) (e_sha256 e (take 147 d)) (drop 147 d)))"
    by (simp add: record_bad_def)
  then consider "e_read e (Suc (p_tick s)) (p_slot s) = Read_Error"
    | d where "e_read e (Suc (p_tick s)) (p_slot s) = Read_Ok d" "length d = 211" "d ! 0 = 0xE0"
      "\<And>k pub. e_pubkey e k = Some (pub, True) \<Longrightarrow>
        \<not> e_ecdsa_verify e (0x04 # pub) (e_sha256 e (take 147 d)) (drop 147 d)"
    by blast
  then show ?thesis
  proof cases
    case 1
    with active show ?thesis
      by (simp add: loadFromStorage_def session_active_def rmem_read_def tick_def)
  next
    case 2
    with active show ?thesis
      by (auto simp: loadFromStorage_def session_active_def rmem_read_def tick_def
          verify_payload_signature_def Let_def split: option.splits)
  qed
qed

lemma init_bad:
  assumes "record_bad e (p_slot s)" and "\<not> p_loaded s" and "\<not> p_lockout_active s"
  shows "\<not> fst (pins_init e s) \<and> p_badge_retries (snd (pins_init e s)) = 0 \<and>
    p_slot (snd (pins_init e s)) = p_slot s \<and> \<not> p_loaded (snd (pins_init e s)) \<and>
    \<not> p_lockout_active (snd (pins_init e s))"
  using load_bad [OF assms(1)] assms(2,3) by (auto simp: pins_init_def Let_def split: prod.splits)



text \<open>
  Badge PIN and duress PIN are never the same: setting one is accepted only when it has the
  format (digits, the lengths of its kind) and does not match the other, and once accepted it matches
  its own reference and not the other's.
\<close>

theorem duress_differs:
  assumes "p_loaded s"
  shows "(case setDuressPin e pin s of (ok, t) \<Rightarrow> ok \<longrightarrow>
      isDuressPin e pin t \<and> \<not> verifyBadgePinHash (computeBadgeHash e pin) t \<and>
      4 \<le> length pin \<and> length pin \<le> 8 \<and> all_digits pin) \<and>
    (case setBadgePin e pin s of (ok, t) \<Rightarrow> ok \<longrightarrow>
      verifyBadgePinHash (computeBadgeHash e pin) t \<and> \<not> isDuressPin e pin t \<and>
      unat (p_min_floor s) \<le> max 4 (length pin) \<and> 4 \<le> length pin \<and> length pin \<le> 8 \<and> all_digits pin)"
    (is "?D \<and> ?B")
proof -
  have same: "compareHash h h n" for h n
    unfolding compareHash_def compareHash_foldl by simp
  have duress: ?D
  proof (cases "setDuressPin e pin s")
    case (Pair ok t)
    obtain salt u where salt: "generateSalt e s = (salt, u)" by (cases "generateSalt e s")
    then have u: "p_badge_hash u = p_badge_hash s" "p_iterations u = p_iterations s"
      by (auto simp: generateSalt_def session_active_def tick_def Let_def split: option.splits if_splits)
    show ?thesis
      using assms Pair salt u same
      by (auto simp: setDuressPin_def Let_def isDuressPin_def verifyBadgePinHash_def computeKdfHash_def
          split: if_splits)
  qed
  have ?B
    using same
    by (auto simp: setBadgePin_def Let_def isDuressPin_def verifyBadgePinHash_def word_less_nat_alt
        split: if_splits option.splits)
  with duress show ?thesis by blast
qed

theorem duress_differs_witness:
  "(case setDuressPin calm_env [0x31, 0x32, 0x33, 0x34] some_pins of (ok, t) \<Rightarrow>
      ok \<and> isDuressPin calm_env [0x31, 0x32, 0x33, 0x34] t)"
proof -
  let ?pin = "[0x31, 0x32, 0x33, 0x34]"
  have "\<not> compareHash (p_badge_hash some_pins) (computeBadgeHash calm_env ?pin) 16"
    using compareHash_eq [of "replicate 16 0" 16 "replicate 16 9"]
    by (simp add: computeBadgeHash_def some_pins_def pins_boot_def calm_env_def replicate_eq_replicate)
  then have "fst (setDuressPin calm_env ?pin some_pins)"
    by (simp add: setDuressPin_def some_pins_def pins_boot_def all_digits_def Let_def computeKdfHash_def
        split: prod.splits)
  moreover have "p_loaded some_pins" by (simp add: some_pins_def)
  ultimately show ?thesis
    using duress_differs [of some_pins calm_env ?pin] by (auto split: prod.splits)
qed



section \<open>Where the code falls short of its comments\<close>

text \<open>
  An unreadable record is ``never replaced by defaults'', but the OpenPGP path does replace it: the
  retry counters of the fresh object are 3, so a try is made against the zeroed reference, and the
  decrement is saved over the record.
\<close>

lemma pin_unreadable_overwritten:
  fixes e :: pin_env
  defines "e \<equiv> calm_env\<lparr>e_read := \<lambda>t slot. Read_Error\<rparr>"
  shows "\<exists>x. p_slot (snd (verifyPinRaw e PW1 [1] (pins_boot (Some d) 0))) = Some (payload x @ replicate 64 1) \<and>
    p_pw1_hash x = replicate 32 0 \<and> p_badge_hash x = replicate 16 0"
proof -
  define s0 where "s0 = pins_boot (Some d) 0"
  define s1 where "s1 = snd (pins_init e s0)"
  let ?x = "s1\<lparr>p_pw1_retries := 2\<rparr>"
  have s0: "\<not> p_loaded s0" by (simp add: s0_def pins_boot_def)
  have i: "\<not> p_loaded s1" "p_pw1_retries s1 = 3" "p_persisted_pw1 s1 = 3" "sized ?x"
    "p_pw1_hash s1 = replicate 32 0" "p_badge_hash s1 = replicate 16 0" "p_pw1_salt s1 = replicate 8 0"
    by (simp_all add: s1_def s0_def pins_init_def loadFromStorage_def session_active_def rmem_read_def tick_def e_def
        calm_env_def pins_boot_def sized_def)
  have "\<not> compareHash (replicate 32 0) (replicate 32 9) 32"
    using compareHash_eq [of "replicate 32 0" 32 "replicate 32 9"] by (simp add: replicate_eq_replicate)
  moreover have "saveToStorage e ?x = (True, snd (saveToStorage e ?x)) \<and>
      p_slot (snd (saveToStorage e ?x)) = Some (payload ?x @ replicate 64 1)"
    using payload_length [OF i(4)]
    by (simp add: saveToStorage_def session_active_def rmem_erase_def rmem_write_def tick_def e_def
        calm_env_def Let_def)
  then obtain w where w: "saveToStorage e ?x = (True, w)" "p_slot w = Some (payload ?x @ replicate 64 1)"
      "p_pw1_hash w = replicate 32 0"
    using save_keeps(10) [of e ?x] i(5) by auto
  moreover have "computeKdfHash e it [1] salt = Some (replicate 32 9)" for it salt
    by (simp add: computeKdfHash_def e_def calm_env_def)
  ultimately have "p_slot (snd (verifyPinRaw e PW1 [1] s0)) = Some (payload ?x @ replicate 64 1)"
    using i s0 by (simp add: verifyPinRaw_def Let_def s1_def [symmetric])
  with i(5,6) show ?thesis unfolding s0_def by (intro exI [of _ ?x]) simp
qed

text \<open>
  A save erases the slot before it writes it: a write that fails leaves an empty slot, and the next
  boot takes an empty slot for a new badge and installs the default PINs.
\<close>

lemma pin_torn_write:
  assumes "sized s" and "\<And>t. e_active e t" and "\<And>t d. e_sign e t d = Some (replicate 64 1)"
    and "\<And>t x. e_erase e t x = None" and "\<And>t x d. e_write e t x d = (False, x)"
    and "\<And>t. e_read e t None = Slot_Empty"
  shows "p_slot (snd (saveToStorage e s)) = None \<and>
    p_badge_hash (snd (pins_init e (power_cycle (snd (saveToStorage e s))))) =
      computeBadgeHash e DEFAULT_BADGE_PIN"
proof -
  have slot: "p_slot (snd (saveToStorage e s)) = None"
    using assms payload_length [OF assms(1)]
    by (simp add: saveToStorage_def session_active_def rmem_erase_def rmem_write_def tick_def Let_def)
  moreover have "p_badge_hash (loadDefaults e t) = computeBadgeHash e DEFAULT_BADGE_PIN" for t
    by (simp add: loadDefaults_def generateSalt_def session_active_def tick_def Let_def assms(2)
        split: option.splits)
  ultimately show ?thesis
    using assms by (simp add: pins_init_def loadFromStorage_def session_active_def rmem_read_def
        tick_def power_cycle_def pins_boot_def startLockout_def now_ms_def Let_def)
qed

text \<open>
  Without a secure-element session at the first use the defaults are installed as well, and the
  manager counts as loaded from then on.
\<close>

lemma pin_no_session_defaults:
  assumes "\<And>t. \<not> e_active e t"
  shows "fst (pins_init e (pins_boot slot t)) \<and> p_loaded (snd (pins_init e (pins_boot slot t))) \<and>
    p_badge_hash (snd (pins_init e (pins_boot slot t))) = computeBadgeHash e DEFAULT_BADGE_PIN"
  using assms
  by (simp add: pins_init_def loadFromStorage_def saveToStorage_def session_active_def tick_def
      pins_boot_def startLockout_def now_ms_def loadDefaults_def generateSalt_def Let_def)

end
