(* ===== verification/CtapHid.thy ===== *)
theory CtapHid
  imports Prelude
begin

text \<open>
  The CTAPHID transport of the FIDO2 module (\<^verbatim>\<open>components/mod_fido2/src/ctaphid.cpp\<close> and
  \<^verbatim>\<open>ctaphid.h\<close>): eight channels, each with a message being assembled from 64-byte HID packets and a
  response being taken apart into such packets; the command dispatch; the rate limiter; the
  time-out of a half-assembled message. From \<^verbatim>\<open>ctap2.cpp\<close> it takes the command dispatcher and the
  cancel flag, which the transport shares.

  What a CTAP2 command and a U2F request do is a parameter of the model (\<^verbatim>\<open>fido_env\<close>), a function on
  a state of its own of type \<^typ>\<open>'c\<close>. A channel pointer is the index of the channel; the static
  buffers \<^verbatim>\<open>s_msg_buffers\<close> and \<^verbatim>\<open>s_response_buffers\<close> are lists of byte lists, and slot \<open>i\<close> uses
  buffer \<open>i\<close> once \<^verbatim>\<open>init_channel_slot\<close> has given it one (its \<^verbatim>\<open>buffer_size\<close> is 0 before). The mutex
  makes every entry point one step; the tick counter is an argument.
\<close>

section \<open>State\<close>

abbreviation (input) "CTAPHID_PACKET_SIZE \<equiv> (64 :: nat)"
abbreviation (input) "CTAPHID_INIT_DATA \<equiv> (57 :: u16)"
abbreviation (input) "CTAPHID_CONT_DATA \<equiv> (59 :: u16)"
abbreviation (input) "CTAPHID_MAX_MSG_SIZE \<equiv> (2048 :: u16)"
abbreviation (input) "CTAPHID_BROADCAST_CID \<equiv> (0xFFFFFFFF :: u32)"
abbreviation (input) "CTAPHID_MAX_CHANNELS \<equiv> (8 :: nat)"
abbreviation (input) "CTAPHID_MSG_TIMEOUT_MS \<equiv> (500 :: u32)"
abbreviation (input) "CTAPHID_RATE_LIMIT_WINDOW_MS \<equiv> (1000 :: u32)"
abbreviation (input) "CTAPHID_RATE_LIMIT_MAX_CMDS \<equiv> (200 :: byte)"

abbreviation (input) "CTAPHID_PING \<equiv> (0x01 :: byte)"
abbreviation (input) "CTAPHID_MSG \<equiv> (0x03 :: byte)"
abbreviation (input) "CTAPHID_INIT \<equiv> (0x06 :: byte)"
abbreviation (input) "CTAPHID_WINK \<equiv> (0x08 :: byte)"
abbreviation (input) "CTAPHID_CBOR \<equiv> (0x10 :: byte)"
abbreviation (input) "CTAPHID_CANCEL \<equiv> (0x11 :: byte)"
abbreviation (input) "CTAPHID_KEEPALIVE \<equiv> (0x3B :: byte)"
abbreviation (input) "CTAPHID_ERROR \<equiv> (0x3F :: byte)"

abbreviation (input) "CTAPHID_ERR_INVALID_CMD \<equiv> (0x01 :: byte)"
abbreviation (input) "CTAPHID_ERR_INVALID_LEN \<equiv> (0x03 :: byte)"
abbreviation (input) "CTAPHID_ERR_INVALID_SEQ \<equiv> (0x04 :: byte)"
abbreviation (input) "CTAPHID_ERR_MSG_TIMEOUT \<equiv> (0x05 :: byte)"
abbreviation (input) "CTAPHID_ERR_CHANNEL_BUSY \<equiv> (0x06 :: byte)"
abbreviation (input) "CTAPHID_ERR_INVALID_CHANNEL \<equiv> (0x0B :: byte)"
abbreviation (input) "CTAPHID_ERR_OTHER \<equiv> (0x7F :: byte)"

record ctaphid_channel =
  ch_cid :: u32
  ch_cmd :: byte
  ch_bcnt :: u16
  ch_seq :: byte
  ch_offset :: u16
  ch_buffer_size :: u16
  ch_active :: bool
  ch_last_activity :: u32
  ch_response_buffer_size :: u16
  ch_response_len :: u16
  ch_response_offset :: u16
  ch_response_cid :: u32
  ch_response_cmd :: byte
  ch_response_pending :: bool

text \<open>Calls into the display, the prompt of the FIDO2 user interface and the USB driver.\<close>

datatype hid_effect = Wink_Backlight | Abort_Prompt | Usb_Write bytes

record 'c ctaphid =
  hid_initialized :: bool
  next_cid :: u32
  channels :: "ctaphid_channel list"
  init_buffer :: bytes
  current_cid :: u32
  response_rr_index :: nat
  rate_window_start :: u32
  rate_cmd_count :: byte
  cbor_cmd_count :: u32
  msg_cmd_count :: u32
  s_msg_buffers :: "bytes list"
  s_response_buffers :: "bytes list"
  ctap2_initialized :: bool
  ctap2_operation_pending :: bool
  ctap2_cancelled :: bool
  app :: 'c
  effects :: "hid_effect list"

text \<open>
  \<^verbatim>\<open>e_command\<close> is the handler of a CTAP2 command: it gets the command byte, the parameters, the
  response buffer and its size, and gives the status, the buffer and the length it leaves, and
  whether it was cancelled meanwhile. \<^verbatim>\<open>e_u2f\<close> is \<^verbatim>\<open>u2f_process_apdu\<close>, which answers into a buffer of
  512 bytes.
\<close>

record 'c fido_env =
  e_command :: "byte \<Rightarrow> bytes \<Rightarrow> bytes \<Rightarrow> u16 \<Rightarrow> 'c \<Rightarrow> byte \<times> bytes \<times> u16 \<times> bool \<times> 'c"
  e_u2f :: "bytes \<Rightarrow> 'c \<Rightarrow> bytes \<times> 'c"

definition zero_channel :: ctaphid_channel where
  "zero_channel =
    \<lparr>ch_cid = 0, ch_cmd = 0, ch_bcnt = 0, ch_seq = 0, ch_offset = 0, ch_buffer_size = 0,
     ch_active = False, ch_last_activity = 0, ch_response_buffer_size = 0, ch_response_len = 0,
     ch_response_offset = 0, ch_response_cid = 0, ch_response_cmd = 0, ch_response_pending = False\<rparr>"

definition upd_ch :: "nat \<Rightarrow> (ctaphid_channel \<Rightarrow> ctaphid_channel) \<Rightarrow> 'c ctaphid \<Rightarrow> 'c ctaphid" where
  "upd_ch i f s = s\<lparr>channels := (channels s)[i := f (channels s ! i)]\<rparr>"

text \<open>\<^verbatim>\<open>memcpy(dst + off, src, n)\<close>: it would grow a buffer it does not fit into.\<close>

definition overwrite :: "nat \<Rightarrow> bytes \<Rightarrow> bytes \<Rightarrow> bytes" where
  "overwrite off src dst = take off dst @ src @ drop (off + length src) dst"

definition write_msg :: "nat \<Rightarrow> nat \<Rightarrow> bytes \<Rightarrow> 'c ctaphid \<Rightarrow> 'c ctaphid" where
  "write_msg i off src s =
    s\<lparr>s_msg_buffers := (s_msg_buffers s)[i := overwrite off src (s_msg_buffers s ! i)]\<rparr>"

definition set_response :: "nat \<Rightarrow> bytes \<Rightarrow> 'c ctaphid \<Rightarrow> 'c ctaphid" where
  "set_response i b s = s\<lparr>s_response_buffers := (s_response_buffers s)[i := b]\<rparr>"

definition put_effect :: "hid_effect \<Rightarrow> 'c ctaphid \<Rightarrow> 'c ctaphid" where
  "put_effect e s = s\<lparr>effects := effects s @ [e]\<rparr>"

section \<open>The CTAP2 dispatcher and its cancel flag\<close>

definition ctap2_clear_cancel :: "'c ctaphid \<Rightarrow> 'c ctaphid" where
  "ctap2_clear_cancel s = s\<lparr>ctap2_cancelled := False\<rparr>"

definition ctap2_cancel :: "'c ctaphid \<Rightarrow> 'c ctaphid" where
  "ctap2_cancel s = s\<lparr>ctap2_cancelled := True\<rparr>"

definition ctap2_is_cancelled :: "'c ctaphid \<Rightarrow> bool" where
  "ctap2_is_cancelled s = ctap2_cancelled s"

text \<open>The commands that have a handler: makeCredential to config.\<close>

definition ctap2_commands :: "byte list" where
  "ctap2_commands = [0x01, 0x02, 0x04, 0x06, 0x07, 0x08, 0x0A, 0x0B, 0x0C, 0x0D]"

definition ctap2_process_command ::
    "'c fido_env \<Rightarrow> bytes \<Rightarrow> bytes \<Rightarrow> u16 \<Rightarrow> 'c ctaphid \<Rightarrow> byte \<times> bytes \<times> u16 \<times> 'c ctaphid" where
  "ctap2_process_command e cmd response response_len s =
    (if \<not> ctap2_initialized s \<or> length cmd < 1 then (0x01, overwrite 0 [0x01] response, 1, s)
     else
       let s1 = s\<lparr>ctap2_operation_pending := True, ctap2_cancelled := False\<rparr> in
       if hd cmd \<in> set ctap2_commands then
         case e_command e (hd cmd) (tl cmd) response response_len (app s1) of
           (status, response', len', cancelled, app') \<Rightarrow>
             (status, response', len',
              s1\<lparr>ctap2_operation_pending := False, ctap2_cancelled := cancelled, app := app'\<rparr>)
       else (0x01, overwrite 0 [0x01] response, 1, s1\<lparr>ctap2_operation_pending := False\<rparr>))"

section \<open>Channels\<close>

definition find_channel :: "'c ctaphid \<Rightarrow> u32 \<Rightarrow> nat option" where
  "find_channel s cid =
    (if cid = 0 then None
     else find (\<lambda>i. ch_cid (channels s ! i) = cid) [0..<CTAPHID_MAX_CHANNELS])"

definition fresh_slot :: "u32 \<Rightarrow> ctaphid_channel \<Rightarrow> ctaphid_channel" where
  "fresh_slot cid ch =
    ch\<lparr>ch_cid := cid, ch_active := False, ch_buffer_size := CTAPHID_MAX_MSG_SIZE,
       ch_response_buffer_size := CTAPHID_MAX_MSG_SIZE, ch_response_len := 0,
       ch_response_offset := 0, ch_response_cmd := 0, ch_response_pending := False\<rparr>"

definition init_channel_slot :: "nat \<Rightarrow> u32 \<Rightarrow> 'c ctaphid \<Rightarrow> 'c ctaphid" where
  "init_channel_slot i cid = upd_ch i (fresh_slot cid)"

text \<open>The eviction scan: the index of the oldest idle channel so far, and its time.\<close>

definition evict_step :: "'c ctaphid \<Rightarrow> nat \<Rightarrow> nat option \<times> u32 \<Rightarrow> nat option \<times> u32" where
  "evict_step s i = (\<lambda>(oldest_idx, oldest_time).
    let ch = channels s ! i in
    if \<not> ch_active ch \<and> \<not> ch_response_pending ch \<and> ch_last_activity ch < oldest_time
    then (Some i, ch_last_activity ch) else (oldest_idx, oldest_time))"

definition evict_scan :: "'c ctaphid \<Rightarrow> nat option" where
  "evict_scan s = fst (fold (evict_step s) [0..<CTAPHID_MAX_CHANNELS] (None, 0xFFFFFFFF))"

definition alloc_channel :: "u32 \<Rightarrow> 'c ctaphid \<Rightarrow> nat option \<times> 'c ctaphid" where
  "alloc_channel cid s =
    (case find_channel s cid of
       Some i \<Rightarrow> (Some i, s)
     | None \<Rightarrow>
        (case find (\<lambda>i. ch_cid (channels s ! i) = 0) [0..<CTAPHID_MAX_CHANNELS] of
           Some i \<Rightarrow> (Some i, init_channel_slot i cid s)
         | None \<Rightarrow>
            (case evict_scan s of
               Some i \<Rightarrow> (Some i, init_channel_slot i cid s)
             | None \<Rightarrow> (None, s))))"

definition skip_reserved :: "u32 \<Rightarrow> u32" where
  "skip_reserved c = (if c = 0 \<or> c = CTAPHID_BROADCAST_CID then 1 else c)"

definition allocate_cid :: "'c ctaphid \<Rightarrow> u32 \<times> 'c ctaphid" where
  "allocate_cid s =
    (let cid = skip_reserved (next_cid s) in (cid, s\<lparr>next_cid := skip_reserved (cid + 1)\<rparr>))"

section \<open>Packets\<close>

definition cid_bytes :: "u32 \<Rightarrow> bytes" where
  "cid_bytes cid = [byte_at 24 cid, byte_at 16 cid, byte_at 8 cid, byte_at 0 cid]"

definition pad :: "nat \<Rightarrow> bytes \<Rightarrow> bytes" where
  "pad n xs = xs @ replicate (n - length xs) 0"

definition build_init_packet :: "u32 \<Rightarrow> byte \<Rightarrow> u16 \<Rightarrow> bytes \<Rightarrow> u16 \<Rightarrow> bytes" where
  "build_init_packet cid cmd bcnt dat data_len =
    (let copy = (if CTAPHID_INIT_DATA < data_len then CTAPHID_INIT_DATA else data_len) in
     pad CTAPHID_PACKET_SIZE
       (cid_bytes cid @ [cmd OR 0x80, byte_at 8 bcnt, byte_at 0 bcnt] @ take (unat copy) dat))"

definition build_cont_packet :: "u32 \<Rightarrow> byte \<Rightarrow> bytes \<Rightarrow> u16 \<Rightarrow> bytes" where
  "build_cont_packet cid sq dat data_len =
    (let copy = (if CTAPHID_CONT_DATA < data_len then CTAPHID_CONT_DATA else data_len) in
     pad CTAPHID_PACKET_SIZE (cid_bytes cid @ [sq AND 0x7F] @ take (unat copy) dat))"

section \<open>Responses\<close>

text \<open>\<^verbatim>\<open>dat\<close> is \<^verbatim>\<open>None\<close> for a null pointer.\<close>

definition prepare_response_on ::
    "nat \<Rightarrow> u32 \<Rightarrow> byte \<Rightarrow> bytes option \<Rightarrow> u16 \<Rightarrow> 'c ctaphid \<Rightarrow> 'c ctaphid" where
  "prepare_response_on i send_cid cmd dat len s =
    (let copies = (dat \<noteq> None \<and> 0 < len);
         room = ch_response_buffer_size (channels s ! i);
         len' = (if copies \<and> room < len then room else len);
         s1 = (if copies then
                 set_response i (overwrite 0 (take (unat len') (the dat)) (s_response_buffers s ! i)) s
               else s) in
     upd_ch i (\<lambda>ch. ch\<lparr>ch_response_cid := send_cid, ch_response_cmd := cmd, ch_response_len := len',
                       ch_response_offset := 0, ch_response_pending := True\<rparr>) s1)"

definition prepare_response ::
    "u32 \<Rightarrow> byte \<Rightarrow> bytes option \<Rightarrow> u16 \<Rightarrow> 'c ctaphid \<Rightarrow> 'c ctaphid" where
  "prepare_response cid cmd dat len s =
    (case find_channel s cid of
       None \<Rightarrow> s
     | Some i \<Rightarrow> prepare_response_on i cid cmd dat len s)"

text \<open>The channel an error goes to: its own, a new one, or any slot that owes no response.\<close>

definition error_channel :: "u32 \<Rightarrow> 'c ctaphid \<Rightarrow> nat option \<times> 'c ctaphid" where
  "error_channel cid s =
    (case (case find_channel s cid of
             Some i \<Rightarrow> (Some i, s)
           | None \<Rightarrow> if cid \<noteq> 0 \<and> cid \<noteq> CTAPHID_BROADCAST_CID then alloc_channel cid s
                     else (None, s)) of
       (Some i, s1) \<Rightarrow> (Some i, s1)
     | (None, s1) \<Rightarrow>
         (find (\<lambda>i. \<not> ch_response_pending (channels s1 ! i)) [0..<CTAPHID_MAX_CHANNELS], s1))"

definition ctaphid_send_error :: "u32 \<Rightarrow> byte \<Rightarrow> 'c ctaphid \<Rightarrow> 'c ctaphid" where
  "ctaphid_send_error cid err s =
    (case error_channel cid s of
       (None, s1) \<Rightarrow> s1
     | (Some i, s1) \<Rightarrow> prepare_response_on i cid CTAPHID_ERROR (Some [err]) 1 s1)"

section \<open>Commands\<close>

definition init_response :: "bytes \<Rightarrow> u32 \<Rightarrow> bytes" where
  "init_response nonce new_cid = take 8 nonce @ cid_bytes new_cid @ [2, 0, 1, 0, 0x01 OR 0x04]"

definition handle_init :: "u32 \<Rightarrow> bytes \<Rightarrow> u16 \<Rightarrow> 'c ctaphid \<Rightarrow> 'c ctaphid" where
  "handle_init cid dat len s =
    (if len < 8 then ctaphid_send_error cid CTAPHID_ERR_INVALID_LEN s
     else
       let s1 = ctap2_clear_cancel s;
           (new_cid, s2) = (if cid = CTAPHID_BROADCAST_CID then allocate_cid s1 else (cid, s1)) in
       case alloc_channel new_cid s2 of
         (None, s3) \<Rightarrow> ctaphid_send_error cid CTAPHID_ERR_OTHER s3
       | (Some i, s3) \<Rightarrow>
           prepare_response_on i cid CTAPHID_INIT (Some (init_response dat new_cid)) 17 s3)"

definition handle_ping :: "u32 \<Rightarrow> bytes \<Rightarrow> u16 \<Rightarrow> 'c ctaphid \<Rightarrow> 'c ctaphid" where
  "handle_ping cid dat len = prepare_response cid CTAPHID_PING (Some dat) len"

definition handle_wink :: "u32 \<Rightarrow> 'c ctaphid \<Rightarrow> 'c ctaphid" where
  "handle_wink cid s = put_effect Wink_Backlight (prepare_response cid CTAPHID_WINK None 0 s)"

definition handle_cancel :: "u32 \<Rightarrow> 'c ctaphid \<Rightarrow> 'c ctaphid" where
  "handle_cancel cid s = put_effect Abort_Prompt (ctap2_cancel s)"

definition handle_cbor :: "'c fido_env \<Rightarrow> u32 \<Rightarrow> bytes \<Rightarrow> u16 \<Rightarrow> 'c ctaphid \<Rightarrow> 'c ctaphid" where
  "handle_cbor e cid dat len s =
    (if len < 1 then ctaphid_send_error cid CTAPHID_ERR_INVALID_LEN s
     else
       case find_channel s cid of
         None \<Rightarrow> ctaphid_send_error cid CTAPHID_ERR_INVALID_CHANNEL s
       | Some i \<Rightarrow>
           (let s1 = s\<lparr>current_cid := cid\<rparr> in
            case ctap2_process_command e (take (unat len) dat) (s_response_buffers s1 ! i)
                   (ch_response_buffer_size (channels s1 ! i)) s1 of
              (status, response', len', s2) \<Rightarrow>
                upd_ch i (\<lambda>ch. ch\<lparr>ch_response_cid := cid, ch_response_cmd := CTAPHID_CBOR,
                                  ch_response_len := len', ch_response_offset := 0,
                                  ch_response_pending := True\<rparr>)
                  (set_response i response' s2)))"

definition handle_msg :: "'c fido_env \<Rightarrow> u32 \<Rightarrow> bytes \<Rightarrow> u16 \<Rightarrow> 'c ctaphid \<Rightarrow> 'c ctaphid" where
  "handle_msg e cid dat len s =
    (let s1 = s\<lparr>msg_cmd_count := msg_cmd_count s + 1, current_cid := cid\<rparr> in
     case e_u2f e (take (unat len) dat) (app s1) of
       (resp, app') \<Rightarrow>
         prepare_response cid CTAPHID_MSG (Some resp) (of_nat (length resp)) (s1\<lparr>app := app'\<rparr>))"

text \<open>
  \<^verbatim>\<open>process_complete_message\<close>, called with a channel of the table or with the temporary channel of
  an INIT packet; \<^verbatim>\<open>slot\<close> is \<^verbatim>\<open>None\<close> for the latter, whose clearing nobody sees.
\<close>

definition dispatch_message ::
    "'c fido_env \<Rightarrow> u32 \<Rightarrow> byte \<Rightarrow> bytes \<Rightarrow> u16 \<Rightarrow> 'c ctaphid \<Rightarrow> 'c ctaphid" where
  "dispatch_message e cid cmd dat len s =
    (if cmd = CTAPHID_INIT then handle_init cid dat len s
     else if cmd = CTAPHID_PING then handle_ping cid dat len s
     else if cmd = CTAPHID_WINK then handle_wink cid s
     else if cmd = CTAPHID_CANCEL then handle_cancel cid s
     else if cmd = CTAPHID_CBOR then
       handle_cbor e cid dat len (s\<lparr>cbor_cmd_count := cbor_cmd_count s + 1\<rparr>)
     else if cmd = CTAPHID_MSG then handle_msg e cid dat len s
     else ctaphid_send_error cid CTAPHID_ERR_INVALID_CMD s)"

definition process_complete_message ::
    "'c fido_env \<Rightarrow> nat option \<Rightarrow> u32 \<Rightarrow> byte \<Rightarrow> bytes \<Rightarrow> u16 \<Rightarrow> 'c ctaphid \<Rightarrow> 'c ctaphid" where
  "process_complete_message e slot cid cmd dat len s =
    (let s1 = dispatch_message e cid cmd dat len s in
     case slot of
       None \<Rightarrow> s1
     | Some i \<Rightarrow> upd_ch i (\<lambda>ch. ch\<lparr>ch_active := False, ch_offset := 0\<rparr>) s1)"

definition process_slot :: "'c fido_env \<Rightarrow> nat \<Rightarrow> 'c ctaphid \<Rightarrow> 'c ctaphid" where
  "process_slot e i s =
    (let ch = channels s ! i in
     process_complete_message e (Some i) (ch_cid ch) (ch_cmd ch) (s_msg_buffers s ! i) (ch_bcnt ch) s)"

section \<open>Entry points\<close>

definition ctaphid_init :: "bool \<Rightarrow> 'c ctaphid \<Rightarrow> bool \<times> 'c ctaphid" where
  "ctaphid_init mutex_created s =
    (let s1 = s\<lparr>hid_initialized := False, next_cid := 1,
               channels := replicate CTAPHID_MAX_CHANNELS zero_channel,
               init_buffer := replicate 64 0, current_cid := 0, response_rr_index := 0,
               rate_window_start := 0, rate_cmd_count := 0, cbor_cmd_count := 0,
               msg_cmd_count := 0\<rparr> in
     if mutex_created then (True, s1\<lparr>hid_initialized := True\<rparr>) else (False, s1))"

definition ctaphid_get_cmd_counts :: "'c ctaphid \<Rightarrow> u32 \<times> u32" where
  "ctaphid_get_cmd_counts s = (cbor_cmd_count s, msg_cmd_count s)"

definition ctaphid_reset_cmd_counts :: "'c ctaphid \<Rightarrow> 'c ctaphid" where
  "ctaphid_reset_cmd_counts s = s\<lparr>cbor_cmd_count := 0, msg_cmd_count := 0\<rparr>"

text \<open>The limiter: whether the packet may pass, and the counters after it.\<close>

definition rate_check :: "u32 \<Rightarrow> 'c ctaphid \<Rightarrow> bool \<times> 'c ctaphid" where
  "rate_check now s =
    (if CTAPHID_RATE_LIMIT_WINDOW_MS \<le> now - rate_window_start s then
       (True, s\<lparr>rate_window_start := now, rate_cmd_count := 1\<rparr>)
     else
       let s1 = s\<lparr>rate_cmd_count := rate_cmd_count s + 1\<rparr> in
       (rate_cmd_count s1 \<le> CTAPHID_RATE_LIMIT_MAX_CMDS, s1))"

definition start_message :: "'c fido_env \<Rightarrow> u32 \<Rightarrow> nat \<Rightarrow> byte \<Rightarrow> u16 \<Rightarrow> bytes \<Rightarrow> 'c ctaphid \<Rightarrow> 'c ctaphid" where
  "start_message e now i cmd bcnt dat s =
    (let copy = (if CTAPHID_INIT_DATA < bcnt then CTAPHID_INIT_DATA else bcnt);
         s1 = upd_ch i (\<lambda>ch. ch\<lparr>ch_cmd := cmd, ch_bcnt := bcnt, ch_seq := 0, ch_offset := copy,
                               ch_active := True, ch_last_activity := now\<rparr>)
                (write_msg i 0 (take (unat copy) dat) s) in
     if bcnt \<le> copy then process_slot e i s1 else s1)"

definition continue_message :: "'c fido_env \<Rightarrow> u32 \<Rightarrow> nat \<Rightarrow> bytes \<Rightarrow> 'c ctaphid \<Rightarrow> 'c ctaphid" where
  "continue_message e now i dat s =
    (let ch = channels s ! i;
         remaining = ch_bcnt ch - ch_offset ch;
         copy = (if CTAPHID_CONT_DATA < remaining then CTAPHID_CONT_DATA else remaining);
         offset' = ch_offset ch + copy;
         s1 = upd_ch i (\<lambda>ch. ch\<lparr>ch_offset := offset', ch_seq := ch_seq ch + 1,
                               ch_last_activity := now\<rparr>)
                (write_msg i (unat (ch_offset ch)) (take (unat copy) dat) s) in
     if ch_bcnt ch \<le> offset' then process_slot e i s1 else s1)"

text \<open>
  One packet. \<^verbatim>\<open>now\<close> is the tick count read on entry, \<^verbatim>\<open>now'\<close> the one read when the activity of
  the channel is noted.
\<close>

definition process_init_packet ::
    "'c fido_env \<Rightarrow> u32 \<Rightarrow> u32 \<Rightarrow> byte \<Rightarrow> bytes \<Rightarrow> 'c ctaphid \<Rightarrow> 'c ctaphid" where
  "process_init_packet e now' cid cmd packet s =
    (let bcnt = be16 (packet ! 5) (packet ! 6) in
     if CTAPHID_MAX_MSG_SIZE < bcnt then ctaphid_send_error cid CTAPHID_ERR_INVALID_LEN s
     else if cmd = CTAPHID_INIT then
       (let s1 = s\<lparr>init_buffer := overwrite 0 (take 57 (drop 7 packet)) (init_buffer s)\<rparr> in
        process_complete_message e None cid cmd (init_buffer s1) bcnt s1)
     else
       case find_channel s cid of
         None \<Rightarrow> ctaphid_send_error cid CTAPHID_ERR_INVALID_CHANNEL s
       | Some i \<Rightarrow>
           if ch_active (channels s ! i) then ctaphid_send_error cid CTAPHID_ERR_CHANNEL_BUSY s
           else start_message e now' i cmd bcnt (drop 7 packet) s)"

definition process_cont_packet ::
    "'c fido_env \<Rightarrow> u32 \<Rightarrow> u32 \<Rightarrow> byte \<Rightarrow> bytes \<Rightarrow> 'c ctaphid \<Rightarrow> 'c ctaphid" where
  "process_cont_packet e now' cid sq packet s =
    (case find_channel s cid of
       None \<Rightarrow> ctaphid_send_error cid CTAPHID_ERR_INVALID_CHANNEL s
     | Some i \<Rightarrow>
         if \<not> ch_active (channels s ! i) then ctaphid_send_error cid CTAPHID_ERR_INVALID_CHANNEL s
         else if sq \<noteq> ch_seq (channels s ! i) then
           ctaphid_send_error cid CTAPHID_ERR_INVALID_SEQ
             (upd_ch i (\<lambda>ch. ch\<lparr>ch_active := False\<rparr>) s)
         else continue_message e now' i (drop 5 packet) s)"

definition packet_cid :: "bytes \<Rightarrow> u32" where
  "packet_cid p = be32 (p ! 0) (p ! 1) (p ! 2) (p ! 3)"

definition ctaphid_process_packet ::
    "'c fido_env \<Rightarrow> u32 \<Rightarrow> u32 \<Rightarrow> bytes \<Rightarrow> 'c ctaphid \<Rightarrow> bool \<times> 'c ctaphid" where
  "ctaphid_process_packet e now now' packet s =
    (if \<not> hid_initialized s then (False, s)
     else
       case rate_check now s of
         (False, s1) \<Rightarrow> (True, s1)
       | (True, s1) \<Rightarrow>
          (True,
           (if packet ! 4 AND 0x80 \<noteq> 0
            then process_init_packet e now' (packet_cid packet) (packet ! 4 AND 0x7F) packet s1
            else process_cont_packet e now' (packet_cid packet) (packet ! 4 AND 0x7F) packet s1)))"

definition ctaphid_has_response :: "'c ctaphid \<Rightarrow> bool" where
  "ctaphid_has_response s =
    (\<exists>i \<in> set [0..<CTAPHID_MAX_CHANNELS]. ch_response_pending (channels s ! i))"

definition pick_next_response_channel :: "'c ctaphid \<Rightarrow> nat option \<times> 'c ctaphid" where
  "pick_next_response_channel s =
    (case find (\<lambda>i. ch_response_pending (channels s ! i))
            (map (\<lambda>n. (response_rr_index s + n) mod CTAPHID_MAX_CHANNELS) [0..<CTAPHID_MAX_CHANNELS]) of
       None \<Rightarrow> (None, s)
     | Some i \<Rightarrow> (Some i, s\<lparr>response_rr_index := (i + 1) mod CTAPHID_MAX_CHANNELS\<rparr>))"

definition next_packet :: "ctaphid_channel \<Rightarrow> bytes \<Rightarrow> bytes \<times> u16" where
  "next_packet ch buf =
    (let remaining = ch_response_len ch - ch_response_offset ch in
     if ch_response_offset ch = 0 then
       (build_init_packet (ch_response_cid ch) (ch_response_cmd ch) (ch_response_len ch) buf remaining,
        if CTAPHID_INIT_DATA < remaining then CTAPHID_INIT_DATA else remaining)
     else
       (build_cont_packet (ch_response_cid ch)
          (of_nat ((unat (ch_response_offset ch) - 57) div 59))
          (drop (unat (ch_response_offset ch)) buf) remaining,
        ch_response_offset ch +
          (if CTAPHID_CONT_DATA < remaining then CTAPHID_CONT_DATA else remaining)))"

text \<open>The packet, or nothing (\<^verbatim>\<open>false\<close>).\<close>

definition ctaphid_get_response_packet :: "'c ctaphid \<Rightarrow> bytes option \<times> 'c ctaphid" where
  "ctaphid_get_response_packet s =
    (case pick_next_response_channel s of
       (None, s1) \<Rightarrow> (None, s1)
     | (Some i, s1) \<Rightarrow>
        if ctap2_is_cancelled s then
          (None, upd_ch i (\<lambda>ch. ch\<lparr>ch_response_pending := False, ch_response_offset := 0,
                                  ch_response_len := 0\<rparr>) s1)
        else
          case next_packet (channels s1 ! i) (s_response_buffers s1 ! i) of
            (packet, offset') \<Rightarrow>
              (Some packet,
               upd_ch i (\<lambda>ch. ch\<lparr>ch_response_offset := offset',
                                 ch_response_pending := (ch_response_pending ch \<and>
                                    \<not> ch_response_len ch \<le> offset')\<rparr>) s1))"

definition ctaphid_send_keepalive :: "u32 \<Rightarrow> byte \<Rightarrow> 'c ctaphid \<Rightarrow> 'c ctaphid" where
  "ctaphid_send_keepalive cid status =
    put_effect (Usb_Write (build_init_packet cid CTAPHID_KEEPALIVE 1 [status] 1))"

definition expire_channel :: "u32 \<Rightarrow> nat \<Rightarrow> 'c ctaphid \<Rightarrow> 'c ctaphid" where
  "expire_channel now i s =
    (let ch = channels s ! i in
     if ch_active ch \<and> CTAPHID_MSG_TIMEOUT_MS < now - ch_last_activity ch then
       upd_ch i (\<lambda>ch. ch\<lparr>ch_active := False\<rparr>)
         (ctaphid_send_error (ch_cid ch) CTAPHID_ERR_MSG_TIMEOUT s)
     else s)"

definition ctaphid_check_timeout :: "u32 \<Rightarrow> 'c ctaphid \<Rightarrow> 'c ctaphid" where
  "ctaphid_check_timeout now s =
    (if hid_initialized s then fold (expire_channel now) [0..<CTAPHID_MAX_CHANNELS] s else s)"

definition ctaphid_get_current_cid :: "'c ctaphid \<Rightarrow> u32" where
  "ctaphid_get_current_cid s = current_cid s"

definition ctaphid_is_busy :: "'c ctaphid \<Rightarrow> bool" where
  "ctaphid_is_busy s = (\<exists>i \<in> set [0..<CTAPHID_MAX_CHANNELS]. ch_active (channels s ! i))"

end
