(* ===== verification/CtapHid_Channels.thy ===== *)
theory CtapHid_Channels
  imports CtapHid
begin

text \<open>
  The invariants of the CTAPHID transport: well-formed channels and buffers, the relation \<^verbatim>\<open>keeps\<close>
  every operation satisfies (it preserves well-formedness and leaves the messages being assembled
  on other channels alone), the queue of packets a channel owes the host, and the time-out.
\<close>

section \<open>Well-formed states\<close>

definition channel_ok :: "ctaphid_channel \<Rightarrow> bool" where
  "channel_ok ch \<longleftrightarrow>
     ch_buffer_size ch \<in> {0, CTAPHID_MAX_MSG_SIZE} \<and>
     ch_response_buffer_size ch = ch_buffer_size ch \<and>
     (ch_cid ch \<noteq> 0 \<longrightarrow> ch_buffer_size ch = CTAPHID_MAX_MSG_SIZE) \<and>
     ch_cid ch \<noteq> CTAPHID_BROADCAST_CID \<and>
     (ch_active ch \<longrightarrow> ch_cid ch \<noteq> 0 \<and> ch_cmd ch \<noteq> CTAPHID_INIT \<and>
        ch_offset ch \<le> ch_bcnt ch \<and> ch_bcnt ch \<le> CTAPHID_MAX_MSG_SIZE) \<and>
     ch_response_len ch \<le> ch_response_buffer_size ch \<and>
     (ch_response_pending ch \<longrightarrow> ch_response_offset ch = 0 \<or>
        CTAPHID_INIT_DATA \<le> ch_response_offset ch \<and> ch_response_offset ch < ch_response_len ch)"

definition buffers_ok :: "bytes list \<Rightarrow> bool" where
  "buffers_ok bs \<longleftrightarrow> length bs = CTAPHID_MAX_CHANNELS \<and> (\<forall>b \<in> set bs. length b = 2048)"

definition cids_ok :: "ctaphid_channel list \<Rightarrow> bool" where
  "cids_ok cs \<longleftrightarrow>
     (\<forall>i < length cs. \<forall>j < length cs. ch_cid (cs ! i) = ch_cid (cs ! j) \<longrightarrow> ch_cid (cs ! i) \<noteq> 0 \<longrightarrow> i = j)"

definition hid_ok :: "'c ctaphid \<Rightarrow> bool" where
  "hid_ok s \<longleftrightarrow>
     length (channels s) = CTAPHID_MAX_CHANNELS \<and> (\<forall>ch \<in> set (channels s). channel_ok ch) \<and>
     cids_ok (channels s) \<and> buffers_ok (s_msg_buffers s) \<and> buffers_ok (s_response_buffers s) \<and>
     length (init_buffer s) = 64 \<and> next_cid s \<noteq> 0 \<and> next_cid s \<noteq> CTAPHID_BROADCAST_CID \<and>
     response_rr_index s < CTAPHID_MAX_CHANNELS"

text \<open>What the transport relies on of the command handlers: they stay within the buffer they get.\<close>

definition fido_fits :: "'c fido_env \<Rightarrow> bool" where
  "fido_fits e \<longleftrightarrow>
     (\<forall>c params buf len a st buf' len' r.
        e_command e c params buf len a = (st, buf', len', r) \<longrightarrow>
        length buf' = length buf \<and> len' \<le> len) \<and>
     (\<forall>req a. length (fst (e_u2f e req a)) \<le> 512)"

subsection \<open>Finding and updating channels\<close>

lemma find_upt_Some: "find P [0..<n] = Some i \<Longrightarrow> i < n \<and> P i \<and> (\<forall>j < i. \<not> P j)"
  by (auto simp: find_Some_iff)

lemma find_upt_None: "find P [0..<n] = None \<longleftrightarrow> (\<forall>i < n. \<not> P i)"
  by (auto simp: find_None_iff)

lemma find_channel_Some:
  "find_channel s cid = Some i \<Longrightarrow> i < 8 \<and> cid \<noteq> 0 \<and> ch_cid (channels s ! i) = cid"
  by (auto simp: find_channel_def find_Some_iff split: if_splits)

lemma find_channel_None:
  "find_channel s cid = None \<Longrightarrow> cid = 0 \<or> (\<forall>i < 8. ch_cid (channels s ! i) \<noteq> cid)"
  by (auto simp: find_channel_def find_None_iff split: if_splits)

lemma find_channel_eq:
  assumes "hid_ok s" and "i < 8" and "ch_cid (channels s ! i) = cid" and "cid \<noteq> 0"
  shows "find_channel s cid = Some i"
proof (cases "find_channel s cid")
  case None
  with find_channel_None [OF None] assms show ?thesis by auto
next
  case (Some j)
  with assms find_channel_Some [OF Some] show ?thesis by (auto simp: hid_ok_def cids_ok_def)
qed

lemma upd_ch_simps [simp]:
  "channels (upd_ch i f s) = (channels s)[i := f (channels s ! i)]"
  "s_msg_buffers (upd_ch i f s) = s_msg_buffers s"
  "s_response_buffers (upd_ch i f s) = s_response_buffers s"
  "init_buffer (upd_ch i f s) = init_buffer s"
  "next_cid (upd_ch i f s) = next_cid s"
  "response_rr_index (upd_ch i f s) = response_rr_index s"
  "hid_initialized (upd_ch i f s) = hid_initialized s"
  "rate_cmd_count (upd_ch i f s) = rate_cmd_count s"
  "ctap2_cancelled (upd_ch i f s) = ctap2_cancelled s"
  by (simp_all add: upd_ch_def)


lemma write_simps [simp]:
  "channels (write_msg i k b s) = channels s"
  "s_response_buffers (write_msg i k b s) = s_response_buffers s"
  "s_msg_buffers (write_msg i k b s) = (s_msg_buffers s)[i := overwrite k b (s_msg_buffers s ! i)]"
  "init_buffer (write_msg i k b s) = init_buffer s"
  "next_cid (write_msg i k b s) = next_cid s"
  "response_rr_index (write_msg i k b s) = response_rr_index s"
  "hid_initialized (write_msg i k b s) = hid_initialized s"
  "rate_cmd_count (write_msg i k b s) = rate_cmd_count s"
  "ctap2_cancelled (write_msg i k b s) = ctap2_cancelled s"
  "channels (set_response i b s) = channels s"
  "s_msg_buffers (set_response i b s) = s_msg_buffers s"
  "s_response_buffers (set_response i b s) = (s_response_buffers s)[i := b]"
  "init_buffer (set_response i b s) = init_buffer s"
  "next_cid (set_response i b s) = next_cid s"
  "response_rr_index (set_response i b s) = response_rr_index s"
  "hid_initialized (set_response i b s) = hid_initialized s"
  "rate_cmd_count (set_response i b s) = rate_cmd_count s"
  "ctap2_cancelled (set_response i b s) = ctap2_cancelled s"
  "channels (put_effect x s) = channels s"
  "s_msg_buffers (put_effect x s) = s_msg_buffers s"
  "s_response_buffers (put_effect x s) = s_response_buffers s"
  "init_buffer (put_effect x s) = init_buffer s"
  "next_cid (put_effect x s) = next_cid s"
  "response_rr_index (put_effect x s) = response_rr_index s"
  "hid_initialized (put_effect x s) = hid_initialized s"
  "rate_cmd_count (put_effect x s) = rate_cmd_count s"
  by (simp_all add: write_msg_def set_response_def put_effect_def)

lemma overwrite_length: "off + length src \<le> length dst \<Longrightarrow> length (overwrite off src dst) = length dst"
  by (simp add: overwrite_def)

lemma buffers_ok_set: "buffers_ok bs \<Longrightarrow> length b = 2048 \<Longrightarrow> buffers_ok (bs[i := b])"
  unfolding buffers_ok_def using set_update_subset_insert [of bs i b] by auto

lemma buffers_ok_nth: "buffers_ok bs \<Longrightarrow> i < 8 \<Longrightarrow> length (bs ! i) = 2048"
  by (simp add: buffers_ok_def)

lemma hid_ok_channel: "hid_ok s \<Longrightarrow> i < 8 \<Longrightarrow> channel_ok (channels s ! i)"
  by (simp add: hid_ok_def)

text \<open>A state whose channels are replaced, the rest kept.\<close>

lemma channels_ok_set:
  "\<forall>ch \<in> set cs. channel_ok ch \<Longrightarrow> channel_ok c \<Longrightarrow> \<forall>ch \<in> set (cs[i := c]). channel_ok ch"
  using set_update_subset_insert [of cs i c] by blast

lemma cids_ok_set:
  assumes "cids_ok cs"
    and "\<And>j. j < length cs \<Longrightarrow> j \<noteq> i \<Longrightarrow> ch_cid c \<noteq> 0 \<Longrightarrow> ch_cid (cs ! j) \<noteq> ch_cid c"
  shows "cids_ok (cs[i := c])"
  unfolding cids_ok_def
proof (intro allI impI)
  fix a b
  assume *: "a < length (cs[i := c])" "b < length (cs[i := c])"
    "ch_cid (cs[i := c] ! a) = ch_cid (cs[i := c] ! b)" "ch_cid (cs[i := c] ! a) \<noteq> 0"
  show "a = b"
  proof (cases "a = i \<or> b = i")
    case True
    with * assms(2) [of a] assms(2) [of b] show ?thesis by (cases "a = i"; cases "b = i"; simp)
  next
    case False
    with * assms(1) show ?thesis by (simp add: cids_ok_def)
  qed
qed

lemma hid_ok_channels:
  assumes "hid_ok s" and "channel_ok c"
    and "\<And>j :: nat. j < 8 \<Longrightarrow> j \<noteq> i \<Longrightarrow> ch_cid c \<noteq> 0 \<Longrightarrow> ch_cid (channels s ! j) \<noteq> ch_cid c"
  shows "hid_ok (s\<lparr>channels := (channels s)[i := c]\<rparr>)"
  using assms cids_ok_set [of "channels s" i c] channels_ok_set [of "channels s" c i]
  by (simp add: hid_ok_def)

lemma hid_ok_upd:
  assumes "hid_ok s" and "i < 8" and "channel_ok (f (channels s ! i))"
    and "ch_cid (f (channels s ! i)) = ch_cid (channels s ! i)"
  shows "hid_ok (upd_ch i f s)"
  unfolding upd_ch_def
proof (rule hid_ok_channels [OF assms(1,3)])
  fix j :: nat
  assume "j < 8" "j \<noteq> i" "ch_cid (f (channels s ! i)) \<noteq> 0"
  with assms show "ch_cid (channels s ! j) \<noteq> ch_cid (f (channels s ! i))"
    by (auto simp: hid_ok_def cids_ok_def)
qed

lemma hid_ok_slot:
  assumes "hid_ok s" and "i < 8" and "cid \<noteq> CTAPHID_BROADCAST_CID" and "find_channel s cid = None"
  shows "hid_ok (init_channel_slot i cid s)"
  unfolding init_channel_slot_def upd_ch_def
proof (rule hid_ok_channels [OF assms(1)])
  show "channel_ok (fresh_slot cid (channels s ! i))"
    using assms by (simp add: channel_ok_def fresh_slot_def)
  fix j :: nat
  assume "j < 8" "ch_cid (fresh_slot cid (channels s ! i)) \<noteq> 0"
  with find_channel_None [OF assms(4)]
  show "ch_cid (channels s ! j) \<noteq> ch_cid (fresh_slot cid (channels s ! i))"
    by (simp add: fresh_slot_def)
qed

subsection \<open>What an operation keeps\<close>

text \<open>
  The receiving half of a channel, and the relation every operation below is shown to satisfy: the
  state after it is well-formed, and the messages being assembled are untouched, except on the
  channels of \<^verbatim>\<open>X\<close>.
\<close>

definition assembly ::
    "'c ctaphid \<Rightarrow> nat \<Rightarrow> u32 \<times> byte \<times> u16 \<times> byte \<times> u16 \<times> bool \<times> u32 \<times> bytes" where
  "assembly s i =
    (let ch = channels s ! i in
     (ch_cid ch, ch_cmd ch, ch_bcnt ch, ch_seq ch, ch_offset ch, ch_active ch, ch_last_activity ch,
      s_msg_buffers s ! i))"

definition keeps :: "nat set \<Rightarrow> 'c ctaphid \<Rightarrow> 'c ctaphid \<Rightarrow> bool" where
  "keeps X s t \<longleftrightarrow>
     hid_ok t \<and> hid_initialized t = hid_initialized s \<and> rate_cmd_count t = rate_cmd_count s \<and>
     (\<forall>i < 8. i \<notin> X \<longrightarrow> ch_active (channels t ! i) = ch_active (channels s ! i) \<and>
        (ch_active (channels s ! i) \<longrightarrow> assembly t i = assembly s i))"

lemma assembly_eq:
  "assembly t i = assembly s i \<longleftrightarrow>
     ch_cid (channels t ! i) = ch_cid (channels s ! i) \<and>
     ch_cmd (channels t ! i) = ch_cmd (channels s ! i) \<and>
     ch_bcnt (channels t ! i) = ch_bcnt (channels s ! i) \<and>
     ch_seq (channels t ! i) = ch_seq (channels s ! i) \<and>
     ch_offset (channels t ! i) = ch_offset (channels s ! i) \<and>
     ch_active (channels t ! i) = ch_active (channels s ! i) \<and>
     ch_last_activity (channels t ! i) = ch_last_activity (channels s ! i) \<and>
     s_msg_buffers t ! i = s_msg_buffers s ! i"
  by (simp add: assembly_def Let_def)

lemma keeps_refl: "hid_ok s \<Longrightarrow> keeps X s s"
  by (simp add: keeps_def)

lemma keeps_trans: "keeps X s t \<Longrightarrow> keeps X t u \<Longrightarrow> keeps X s u"
  by (simp add: keeps_def assembly_eq)

lemma keeps_mono: "keeps X s t \<Longrightarrow> X \<subseteq> Y \<Longrightarrow> keeps Y s t"
  by (auto simp: keeps_def)

lemma keeps_ok: "keeps X s t \<Longrightarrow> hid_ok t"
  by (simp add: keeps_def)

lemma keeps_upd:
  assumes "hid_ok s" and "i < 8" and "channel_ok (f (channels s ! i))"
    and "ch_cid (f (channels s ! i)) = ch_cid (channels s ! i)"
  shows "keeps {i} s (upd_ch i f s)"
  using assms hid_ok_upd [of s i f] by (simp add: keeps_def assembly_eq)

text \<open>An update of the sending half alone.\<close>

lemma keeps_upd_response:
  assumes "hid_ok s" and "i < 8" and "channel_ok (f (channels s ! i))"
    and "\<And>ch. ch_cid (f ch) = ch_cid ch \<and> ch_cmd (f ch) = ch_cmd ch \<and> ch_bcnt (f ch) = ch_bcnt ch \<and>
      ch_seq (f ch) = ch_seq ch \<and> ch_offset (f ch) = ch_offset ch \<and> ch_active (f ch) = ch_active ch \<and>
      ch_last_activity (f ch) = ch_last_activity ch"
  shows "keeps {} s (upd_ch i f s)"
  using assms hid_ok_upd [of s i f] by (simp add: keeps_def assembly_eq nth_list_update hid_ok_def)

lemma keeps_set_response:
  "hid_ok s \<Longrightarrow> length b = 2048 \<Longrightarrow> keeps {} s (set_response i b s)"
  by (simp add: keeps_def hid_ok_def assembly_eq buffers_ok_set set_response_def)

lemma keeps_effect: "hid_ok s \<Longrightarrow> keeps {} s (put_effect x s)"
  by (simp add: keeps_def hid_ok_def assembly_eq put_effect_def)

lemma keeps_other:
  assumes "hid_ok s"
  shows "keeps {} s (s\<lparr>current_cid := v\<rparr>)" "keeps {} s (s\<lparr>msg_cmd_count := v\<rparr>)"
    "keeps {} s (s\<lparr>cbor_cmd_count := v\<rparr>)" "keeps {} s (s\<lparr>app := a\<rparr>)"
    "keeps {} s (ctap2_clear_cancel s)" "keeps {} s (ctap2_cancel s)"
    "keeps {} s (s\<lparr>ctap2_operation_pending := b, ctap2_cancelled := b'\<rparr>)"
    "keeps {} s (s\<lparr>ctap2_operation_pending := b\<rparr>)"
    "keeps {} s (s\<lparr>ctap2_operation_pending := b, ctap2_cancelled := b', app := a\<rparr>)"
  using assms
  by (simp_all add: keeps_def hid_ok_def assembly_eq ctap2_clear_cancel_def ctap2_cancel_def)

lemma keeps_slot:
  assumes "hid_ok s" and "i < 8" and "cid \<noteq> CTAPHID_BROADCAST_CID" and "find_channel s cid = None"
    and "\<not> ch_active (channels s ! i)"
  shows "keeps {} s (init_channel_slot i cid s)"
  using assms hid_ok_slot [OF assms(1-4)]
  by (auto simp: keeps_def assembly_eq init_channel_slot_def nth_list_update hid_ok_def fresh_slot_def)

subsection \<open>Responses, allocation and errors\<close>

lemma prepare_on_keeps:
  assumes "hid_ok s" and "i < 8" and "\<And>d. dat = Some d \<Longrightarrow> unat len \<le> length d"
    and "dat = None \<Longrightarrow> len = 0"
  shows "keeps {} s (prepare_response_on i cid cmd dat len s)"
proof -
  define copies where "copies = (dat \<noteq> None \<and> 0 < len)"
  define room where "room = ch_response_buffer_size (channels s ! i)"
  define len' where "len' = (if copies \<and> room < len then room else len)"
  define s1 where "s1 = (if copies then
      set_response i (overwrite 0 (take (unat len') (the dat)) (s_response_buffers s ! i)) s else s)"
  have ch: "channel_ok (channels s ! i)"
    using assms hid_ok_channel by blast
  then have "room \<le> 2048" by (auto simp: channel_ok_def room_def)
  have "len' \<le> room"
    using assms(3,4) by (auto simp: len'_def copies_def word_gt_0)
  with \<open>room \<le> 2048\<close> have "unat len' \<le> 2048"
    using word_le_nat_alt [of len' 2048] order_trans [of len' room 2048] by simp
  moreover have "length (s_response_buffers s ! i) = 2048"
    using assms(1,2) by (simp add: hid_ok_def buffers_ok_nth)
  ultimately have s1: "keeps {} s s1"
    using assms(1) by (simp add: s1_def keeps_refl keeps_set_response overwrite_length)
  have eq: "prepare_response_on i cid cmd dat len s =
    upd_ch i (\<lambda>ch. ch\<lparr>ch_response_cid := cid, ch_response_cmd := cmd, ch_response_len := len',
                      ch_response_offset := 0, ch_response_pending := True\<rparr>) s1"
    by (simp add: prepare_response_on_def Let_def s1_def len'_def copies_def room_def)
  have "channels s1 = channels s" by (simp add: s1_def)
  then have "keeps {} s1 (prepare_response_on i cid cmd dat len s)"
    unfolding eq using ch \<open>len' \<le> room\<close> keeps_ok [OF s1] assms(2)
    by (intro keeps_upd_response) (auto simp: channel_ok_def room_def)
  with s1 show ?thesis by (rule keeps_trans)
qed

lemma evict_scan_idle:
  assumes "evict_scan s = Some i"
  shows "i < 8 \<and> \<not> ch_active (channels s ! i) \<and> \<not> ch_response_pending (channels s ! i)"
proof -
  have "\<forall>i. fst (fold (evict_step s) xs acc) = Some i \<longrightarrow> fst acc = Some i \<or> (i \<in> set xs \<and>
      \<not> ch_active (channels s ! i) \<and> \<not> ch_response_pending (channels s ! i))" for xs acc
  proof (induction xs arbitrary: acc)
    case (Cons x xs)
    show ?case
      using Cons [of "evict_step s x acc"]
      by (auto simp: evict_step_def Let_def split: prod.splits if_splits)
  qed simp
  from this [of "[0..<8]" "(None, 0xFFFFFFFF)"] assms show ?thesis
    by (auto simp: evict_scan_def)
qed

lemma alloc_keeps:
  assumes "hid_ok s" and "cid \<noteq> CTAPHID_BROADCAST_CID" and "alloc_channel cid s = (r, t)"
  shows "keeps {} s t \<and> (\<forall>i. r = Some i \<longrightarrow> i < 8)"
proof (cases "find_channel s cid")
  case (Some i)
  with assms find_channel_Some [OF Some] keeps_refl show ?thesis by (auto simp: alloc_channel_def)
next
  case None
  note free = this
  show ?thesis
  proof (cases "find (\<lambda>i. ch_cid (channels s ! i) = 0) [0..<CTAPHID_MAX_CHANNELS]")
    case (Some i)
    with find_upt_Some [OF Some] assms(1) hid_ok_channel [of s i]
    have "i < 8" "\<not> ch_active (channels s ! i)" by (auto simp: channel_ok_def)
    with Some assms free keeps_slot [of s i cid] show ?thesis by (auto simp: alloc_channel_def)
  next
    case full: None
    show ?thesis
    proof (cases "evict_scan s")
      case None
      with full free assms show ?thesis by (auto simp: alloc_channel_def keeps_refl)
    next
      case (Some i)
      with evict_scan_idle [OF Some] full free assms keeps_slot [of s i cid]
      show ?thesis by (auto simp: alloc_channel_def)
    qed
  qed
qed

lemma error_channel_keeps:
  assumes "hid_ok s" and "error_channel cid s = (r, t)"
  shows "keeps {} s t \<and> (\<forall>i. r = Some i \<longrightarrow> i < 8)"
proof (cases "find_channel s cid")
  case (Some i)
  with assms find_channel_Some [OF Some] keeps_refl show ?thesis by (auto simp: error_channel_def)
next
  case None
  obtain r1 t1 where a: "(if cid \<noteq> 0 \<and> cid \<noteq> CTAPHID_BROADCAST_CID then alloc_channel cid s
      else (None, s)) = (r1, t1)"
    by (cases "if cid \<noteq> 0 \<and> cid \<noteq> CTAPHID_BROADCAST_CID then alloc_channel cid s else (None, s)")
  then have "keeps {} s t1 \<and> (\<forall>i. r1 = Some i \<longrightarrow> i < 8)"
    using alloc_keeps [OF assms(1), of cid r1 t1] keeps_refl [OF assms(1)] by (auto split: if_splits)
  with a None assms(2) show ?thesis
    by (cases r1) (auto simp: error_channel_def simp del: upt_rec_numeral dest!: find_upt_Some)
qed

lemma send_error_keeps: "hid_ok s \<Longrightarrow> keeps {} s (ctaphid_send_error cid err s)"
proof -
  assume ok: "hid_ok s"
  obtain r t where r: "error_channel cid s = (r, t)" by (cases "error_channel cid s")
  from error_channel_keeps [OF ok r] have t: "keeps {} s t" "\<And>i. r = Some i \<Longrightarrow> i < 8" by auto
  show ?thesis
  proof (cases r)
    case None
    with r t show ?thesis by (simp add: ctaphid_send_error_def)
  next
    case (Some i)
    from t(2) [OF Some] have "keeps {} t (prepare_response_on i cid CTAPHID_ERROR (Some [err]) 1 t)"
      using keeps_ok [OF t(1)] by (intro prepare_on_keeps) auto
    with Some r keeps_trans [OF t(1)] show ?thesis by (simp add: ctaphid_send_error_def)
  qed
qed

subsection \<open>Command handlers\<close>

lemma prepare_keeps:
  assumes "hid_ok s" and "\<And>d. dat = Some d \<Longrightarrow> unat len \<le> length d" and "dat = None \<Longrightarrow> len = 0"
  shows "keeps {} s (prepare_response cid cmd dat len s)"
proof (cases "find_channel s cid")
  case None
  with assms(1) show ?thesis by (simp add: prepare_response_def keeps_refl)
next
  case (Some i)
  with find_channel_Some [OF Some] prepare_on_keeps [OF assms(1) _ assms(2,3)]
  show ?thesis by (simp add: prepare_response_def)
qed

lemma skip_reserved: "skip_reserved c \<noteq> 0 \<and> skip_reserved c \<noteq> CTAPHID_BROADCAST_CID"
  by (simp add: skip_reserved_def)

lemma allocate_cid_keeps:
  assumes "hid_ok s" and "allocate_cid s = (cid, t)"
  shows "keeps {} s t \<and> cid \<noteq> CTAPHID_BROADCAST_CID"
  using assms skip_reserved
  by (auto simp: allocate_cid_def Let_def keeps_def hid_ok_def assembly_eq)

lemma init_response_length: "length nonce \<ge> 8 \<Longrightarrow> length (init_response nonce cid) = 17"
  by (simp add: init_response_def cid_bytes_def)

lemma init_keeps:
  assumes "hid_ok s" and "8 \<le> length dat"
  shows "keeps {} s (handle_init cid dat len s)"
proof (cases "len < 8")
  case True
  with assms(1) show ?thesis by (simp add: handle_init_def send_error_keeps)
next
  case False
  define s1 where "s1 = ctap2_clear_cancel s"
  obtain new_cid s2 where a: "(if cid = CTAPHID_BROADCAST_CID then allocate_cid s1 else (cid, s1)) = (new_cid, s2)"
    by (cases "if cid = CTAPHID_BROADCAST_CID then allocate_cid s1 else (cid, s1)")
  obtain r s3 where b: "alloc_channel new_cid s2 = (r, s3)" by (cases "alloc_channel new_cid s2")
  have s1: "keeps {} s s1" unfolding s1_def using assms(1) by (rule keeps_other)
  have s2: "keeps {} s1 s2 \<and> new_cid \<noteq> CTAPHID_BROADCAST_CID"
    using a allocate_cid_keeps [of s1 new_cid s2] keeps_ok [OF s1] keeps_refl [of s1]
    by (auto split: if_splits)
  then have s3: "keeps {} s2 s3 \<and> (\<forall>i. r = Some i \<longrightarrow> i < 8)"
    using b alloc_keeps [of s2 new_cid r s3] keeps_ok [of "{}" s1 s2] by blast
  have s13: "keeps {} s s3" using s1 s2 s3 keeps_trans by blast
  have eq: "handle_init cid dat len s = (case r of
      None \<Rightarrow> ctaphid_send_error cid CTAPHID_ERR_OTHER s3
    | Some i \<Rightarrow> prepare_response_on i cid CTAPHID_INIT (Some (init_response dat new_cid)) 17 s3)"
    using a b False by (simp add: handle_init_def Let_def flip: s1_def)
  have "keeps {} s3 (handle_init cid dat len s)"
    using s3 keeps_ok [OF s13] assms(2) unfolding eq
    by (cases r) (auto simp: send_error_keeps init_response_length intro!: prepare_on_keeps)
  with s13 show ?thesis by (rule keeps_trans)
qed

lemma ctap2_keeps:
  assumes "fido_fits e" and "hid_ok s" and "length buf = 2048"
    and "ctap2_process_command e cmd buf size0 s = (st, buf', len', t)" and "size0 = 2048"
  shows "keeps {} s t \<and> length buf' = 2048 \<and> len' \<le> 2048 \<and> channels t = channels s"
proof -
  have ow: "length (overwrite 0 [0x01] buf) = 2048" using assms(3) by (simp add: overwrite_length)
  obtain st1 b1 l1 c1 a1 where e:
    "e_command e (hd cmd) (tl cmd) buf size0 (app s) = (st1, b1, l1, c1, a1)"
    by (cases "e_command e (hd cmd) (tl cmd) buf size0 (app s)")
  have b1: "length b1 = 2048 \<and> l1 \<le> 2048"
    using e assms(1,3,5) unfolding fido_fits_def by metis
  consider "\<not> ctap2_initialized s \<or> length cmd < 1"
    | "ctap2_initialized s" "\<not> length cmd < 1" "hd cmd \<in> set ctap2_commands"
    | "ctap2_initialized s" "\<not> length cmd < 1" "hd cmd \<notin> set ctap2_commands"
    by blast
  then show ?thesis
  proof cases
    case 1
    with assms(4) ow keeps_refl [OF assms(2)] show ?thesis
      by (auto simp: ctap2_process_command_def)
  next
    case 2
    have "t = s\<lparr>ctap2_operation_pending := False, ctap2_cancelled := c1, app := a1\<rparr>"
      "buf' = b1" "len' = l1"
      using assms(4) 2 e by (simp_all add: ctap2_process_command_def)
    with b1 keeps_other(9) [OF assms(2)] show ?thesis by simp
  next
    case 3
    have "t = s\<lparr>ctap2_operation_pending := False, ctap2_cancelled := False\<rparr>"
      "buf' = overwrite 0 [0x01] buf" "len' = 1"
      using assms(4) 3 by (auto simp: ctap2_process_command_def)
    with ow keeps_other(7) [OF assms(2)] show ?thesis by simp
  qed
qed

lemma cbor_keeps:
  assumes "fido_fits e" and "hid_ok s"
  shows "keeps {} s (handle_cbor e cid dat len s)"
proof (cases "len < 1")
  case True
  with assms(2) show ?thesis by (simp add: handle_cbor_def send_error_keeps)
next
  case False
  show ?thesis
  proof (cases "find_channel s cid")
    case None
    with False assms(2) show ?thesis by (simp add: handle_cbor_def send_error_keeps)
  next
    case (Some i)
    note i = find_channel_Some [OF Some]
    define s1 where "s1 = s\<lparr>current_cid := cid\<rparr>"
    have s1: "keeps {} s s1" unfolding s1_def using assms(2) by (rule keeps_other)
    have ch: "channels s1 = channels s" by (simp add: s1_def)
    from i hid_ok_channel [OF assms(2), of i]
    have ok: "channel_ok (channels s ! i)" and sz: "ch_response_buffer_size (channels s ! i) = 2048"
      by (auto simp: channel_ok_def)
    obtain st buf' len' s2 where p: "ctap2_process_command e (take (unat len) dat)
        (s_response_buffers s1 ! i) 2048 s1 = (st, buf', len', s2)"
      by (cases "ctap2_process_command e (take (unat len) dat) (s_response_buffers s1 ! i) 2048 s1")
    have "length (s_response_buffers s1 ! i) = 2048"
      using assms(2) i by (simp add: s1_def hid_ok_def buffers_ok_nth)
    from ctap2_keeps [OF assms(1) keeps_ok [OF s1] this p]
    have s2: "keeps {} s1 s2" "length buf' = 2048" "len' \<le> 2048" "channels s2 = channels s"
      by (auto simp: ch)
    have s3: "keeps {} s2 (set_response i buf' s2)"
      using keeps_set_response keeps_ok [OF s2(1)] s2(2) by blast
    have "keeps {} (set_response i buf' s2)
      (upd_ch i (\<lambda>ch. ch\<lparr>ch_response_cid := cid, ch_response_cmd := CTAPHID_CBOR, ch_response_len := len',
         ch_response_offset := 0, ch_response_pending := True\<rparr>) (set_response i buf' s2))"
      using keeps_ok [OF s3] i s2(3,4) ok sz
      by (intro keeps_upd_response) (auto simp: channel_ok_def)
    with s1 s2(1) s3 have "keeps {} s
      (upd_ch i (\<lambda>ch. ch\<lparr>ch_response_cid := cid, ch_response_cmd := CTAPHID_CBOR, ch_response_len := len',
         ch_response_offset := 0, ch_response_pending := True\<rparr>) (set_response i buf' s2))"
      using keeps_trans by blast
    with False Some p sz ch show ?thesis
      by (simp add: handle_cbor_def Let_def flip: s1_def)
  qed
qed

lemma msg_keeps:
  assumes "fido_fits e" and "hid_ok s"
  shows "keeps {} s (handle_msg e cid dat len s)"
proof -
  define s1 where "s1 = s\<lparr>msg_cmd_count := msg_cmd_count s + 1, current_cid := cid\<rparr>"
  obtain resp a where e: "e_u2f e (take (unat len) dat) (app s1) = (resp, a)"
    by (cases "e_u2f e (take (unat len) dat) (app s1)")
  have "length resp \<le> 512"
    using assms(1) e unfolding fido_fits_def by (metis fst_conv)
  have s1: "keeps {} s (s1\<lparr>app := a\<rparr>)"
    using assms(2) by (simp add: s1_def keeps_def hid_ok_def assembly_eq)
  have "keeps {} (s1\<lparr>app := a\<rparr>)
      (prepare_response cid CTAPHID_MSG (Some resp) (of_nat (length resp)) (s1\<lparr>app := a\<rparr>))"
    using keeps_ok [OF s1] \<open>length resp \<le> 512\<close> by (intro prepare_keeps) (auto simp: unat_of_nat_u16)
  with s1 e keeps_trans show ?thesis
    by (fastforce simp: handle_msg_def Let_def simp flip: s1_def)
qed

lemma dispatch_keeps:
  assumes "fido_fits e" and "hid_ok s" and "unat len \<le> length dat" and "cmd = CTAPHID_INIT \<Longrightarrow> 8 \<le> length dat"
  shows "keeps {} s (dispatch_message e cid cmd dat len s)"
proof -
  have w: "keeps {} s (handle_wink cid s)"
    unfolding handle_wink_def
    using prepare_keeps [OF assms(2), of None 0 cid CTAPHID_WINK] keeps_effect keeps_ok keeps_trans
    by (metis option.distinct(1))
  have c: "keeps {} s (handle_cancel cid s)"
    unfolding handle_cancel_def
    using keeps_other(6) [OF assms(2)] keeps_effect keeps_ok keeps_trans by blast
  have b: "keeps {} s (handle_cbor e cid dat len (s\<lparr>cbor_cmd_count := cbor_cmd_count s + 1\<rparr>))"
    using keeps_other(3) [OF assms(2)] cbor_keeps [OF assms(1)] keeps_ok keeps_trans by blast
  have p: "keeps {} s (handle_ping cid dat len s)"
    unfolding handle_ping_def using assms by (intro prepare_keeps) auto
  show ?thesis
    unfolding dispatch_message_def
    using w c b p init_keeps [OF assms(2,4)] msg_keeps [OF assms(1,2)] send_error_keeps [OF assms(2)]
    by (simp only: split: if_split) blast
qed

subsection \<open>Packets\<close>

lemma clear_keeps: "hid_ok s \<Longrightarrow> i < 8 \<Longrightarrow> keeps {i} s (upd_ch i (\<lambda>ch. ch\<lparr>ch_active := False\<rparr>) s)"
  using hid_ok_channel [of s i] by (intro keeps_upd) (auto simp: channel_ok_def)

lemma process_slot_keeps:
  assumes "fido_fits e" and "hid_ok s" and "i < 8" and "ch_bcnt (channels s ! i) \<le> 2048"
    and "ch_cmd (channels s ! i) \<noteq> CTAPHID_INIT"
  shows "keeps {i} s (process_slot e i s)"
proof -
  let ?ch = "channels s ! i"
  let ?t = "dispatch_message e (ch_cid ?ch) (ch_cmd ?ch) (s_msg_buffers s ! i) (ch_bcnt ?ch) s"
  have "length (s_msg_buffers s ! i) = 2048"
    using assms(2,3) by (simp add: hid_ok_def buffers_ok_nth)
  moreover have "unat (ch_bcnt ?ch) \<le> 2048"
    using assms(4) word_le_nat_alt [of "ch_bcnt ?ch" 2048] by simp
  ultimately have t: "keeps {} s ?t"
    using assms by (intro dispatch_keeps) auto
  have "keeps {i} ?t (upd_ch i (\<lambda>ch. ch\<lparr>ch_active := False, ch_offset := 0\<rparr>) ?t)"
    using keeps_ok [OF t] assms(3) hid_ok_channel [OF keeps_ok [OF t], of i]
    by (intro keeps_upd) (auto simp: channel_ok_def)
  moreover have "keeps {i} s ?t" using t by (rule keeps_mono) simp
  ultimately show ?thesis
    using keeps_trans by (simp add: process_slot_def process_complete_message_def Let_def) blast
qed

lemma keeps_write:
  assumes "hid_ok s" and "i < 8" and "off + length b \<le> 2048"
  shows "keeps {i} s (write_msg i off b s)"
  using assms
  by (simp add: keeps_def hid_ok_def assembly_eq buffers_ok_set overwrite_length buffers_ok_nth write_msg_def)

lemma min57: "unat (if CTAPHID_INIT_DATA < n then CTAPHID_INIT_DATA else n) = min 57 (unat n)" for n :: u16
  by (auto simp: word_less_nat_alt)

lemma min59: "unat (if CTAPHID_CONT_DATA < n then CTAPHID_CONT_DATA else n) = min 59 (unat n)" for n :: u16
  by (auto simp: word_less_nat_alt)

lemma start_keeps:
  assumes "fido_fits e" and "hid_ok s" and "i < 8" and "ch_cid (channels s ! i) \<noteq> 0"
    and "bcnt \<le> 2048" and "cmd \<noteq> CTAPHID_INIT"
  shows "keeps {i} s (start_message e now i cmd bcnt dat s)"
proof -
  define copy where "copy = (if CTAPHID_INIT_DATA < bcnt then CTAPHID_INIT_DATA else bcnt)"
  define w where "w = write_msg i 0 (take (unat copy) dat) s"
  define s1 where "s1 = upd_ch i (\<lambda>ch. ch\<lparr>ch_cmd := cmd, ch_bcnt := bcnt, ch_seq := 0,
      ch_offset := copy, ch_active := True, ch_last_activity := now\<rparr>) w"
  have "unat copy \<le> 57" by (simp add: copy_def min57)
  then have w: "keeps {i} s w"
    unfolding w_def using assms(2,3) by (intro keeps_write) auto
  have ch: "channels w = channels s" by (simp add: w_def)
  have "copy \<le> bcnt" by (auto simp: copy_def)
  then have "keeps {i} w s1"
    unfolding s1_def using keeps_ok [OF w] assms(3-6) hid_ok_channel [OF assms(2,3)]
    by (intro keeps_upd) (auto simp: channel_ok_def ch)
  then have s1: "keeps {i} s s1" using w keeps_trans by blast
  have "ch_bcnt (channels s1 ! i) \<le> 2048" "ch_cmd (channels s1 ! i) \<noteq> CTAPHID_INIT"
    using assms keeps_ok [OF w] by (auto simp: s1_def ch hid_ok_def)
  then have "keeps {i} s (process_slot e i s1)"
    using process_slot_keeps [OF assms(1) keeps_ok [OF s1] assms(3)] keeps_trans [OF s1] by blast
  moreover have "start_message e now i cmd bcnt dat s = (if bcnt \<le> copy then process_slot e i s1 else s1)"
    by (simp add: start_message_def Let_def copy_def w_def s1_def)
  ultimately show ?thesis using s1 by simp
qed

lemma continue_keeps:
  assumes "fido_fits e" and "hid_ok s" and "i < 8" and "ch_active (channels s ! i)"
  shows "keeps {i} s (continue_message e now i dat s)"
proof -
  let ?ch = "channels s ! i"
  define remaining where "remaining = ch_bcnt ?ch - ch_offset ?ch"
  define copy where "copy = (if CTAPHID_CONT_DATA < remaining then CTAPHID_CONT_DATA else remaining)"
  define w where "w = write_msg i (unat (ch_offset ?ch)) (take (unat copy) dat) s"
  define s1 where "s1 = upd_ch i (\<lambda>ch. ch\<lparr>ch_offset := ch_offset ?ch + copy, ch_seq := ch_seq ch + 1,
      ch_last_activity := now\<rparr>) w"
  from hid_ok_channel [OF assms(2,3)] assms(4)
  have b: "ch_offset ?ch \<le> ch_bcnt ?ch" "ch_bcnt ?ch \<le> 2048" "ch_cmd ?ch \<noteq> CTAPHID_INIT"
    by (auto simp: channel_ok_def)
  have rem: "unat remaining = unat (ch_bcnt ?ch) - unat (ch_offset ?ch)"
    using b(1) by (simp add: remaining_def unat_sub)
  have "unat (ch_bcnt ?ch) \<le> 2048" using b(2) word_le_nat_alt [of "ch_bcnt ?ch" 2048] by simp
  moreover have "unat (ch_offset ?ch) \<le> unat (ch_bcnt ?ch)" using b(1) by (simp add: word_le_nat_alt)
  moreover have c: "unat copy \<le> unat remaining" by (simp add: copy_def min59)
  ultimately have fit: "unat (ch_offset ?ch) + unat copy \<le> unat (ch_bcnt ?ch)"
    "unat (ch_offset ?ch) + unat copy \<le> 2048"
    using rem by auto
  then have w: "keeps {i} s w"
    unfolding w_def using assms(2,3) by (intro keeps_write) auto
  have ch: "channels w = channels s" by (simp add: w_def)
  have "unat (ch_offset ?ch + copy) = unat (ch_offset ?ch) + unat copy"
    using fit(2) by (simp add: unat_word_ariths)
  then have "ch_offset ?ch + copy \<le> ch_bcnt ?ch"
    using fit(1) by (simp add: word_le_nat_alt)
  then have "keeps {i} w s1"
    unfolding s1_def using keeps_ok [OF w] assms(3,4) hid_ok_channel [OF assms(2,3)]
    by (intro keeps_upd) (auto simp: channel_ok_def ch)
  then have s1: "keeps {i} s s1" using w keeps_trans by blast
  have "ch_bcnt (channels s1 ! i) \<le> 2048" "ch_cmd (channels s1 ! i) \<noteq> CTAPHID_INIT"
    using assms b keeps_ok [OF w] by (auto simp: s1_def ch hid_ok_def)
  then have "keeps {i} s (process_slot e i s1)"
    using process_slot_keeps [OF assms(1) keeps_ok [OF s1] assms(3)] keeps_trans [OF s1] by blast
  moreover have "continue_message e now i dat s =
      (if ch_bcnt ?ch \<le> ch_offset ?ch + copy then process_slot e i s1 else s1)"
    by (simp add: continue_message_def Let_def copy_def w_def s1_def remaining_def)
  ultimately show ?thesis using s1 by simp
qed

text \<open>The channel a packet is addressed to: the only one whose assembly it can touch.\<close>

definition addressed :: "'c ctaphid \<Rightarrow> bytes \<Rightarrow> nat set" where
  "addressed s p = {i. i < 8 \<and> packet_cid p \<noteq> 0 \<and> ch_cid (channels s ! i) = packet_cid p}"

lemma find_addressed: "find_channel s (packet_cid p) = Some i \<Longrightarrow> {i} \<subseteq> addressed s p"
  using find_channel_Some by (auto simp: addressed_def)

lemma init_packet_keeps:
  assumes "fido_fits e" and "hid_ok s" and "length p = 64"
  shows "keeps (addressed s p) s (process_init_packet e now (packet_cid p) cmd p s)"
proof -
  let ?cid = "packet_cid p" and ?bcnt = "be16 (p ! 5) (p ! 6)"
  have err: "keeps (addressed s p) s (ctaphid_send_error ?cid er s)" for er
    using send_error_keeps [OF assms(2)] by (rule keeps_mono) simp
  consider "2048 < ?bcnt" | "?bcnt \<le> 2048" "cmd = CTAPHID_INIT"
    | "?bcnt \<le> 2048" "cmd \<noteq> CTAPHID_INIT" by fastforce
  then show ?thesis
  proof cases
    case 1
    with err show ?thesis by (simp add: process_init_packet_def Let_def)
  next
    case 2
    let ?s1 = "s\<lparr>init_buffer := overwrite 0 (take 57 (drop 7 p)) (init_buffer s)\<rparr>"
    have s1: "keeps {} s ?s1"
      using assms(2,3) by (simp add: keeps_def hid_ok_def assembly_eq overwrite_length)
    then have "8 \<le> length (init_buffer ?s1)" using keeps_ok [OF s1] by (simp only: hid_ok_def)
    then have "keeps {} ?s1 (handle_init ?cid (init_buffer ?s1) ?bcnt ?s1)"
      using init_keeps keeps_ok [OF s1] by blast
    with s1 have "keeps {} s (handle_init ?cid (init_buffer ?s1) ?bcnt ?s1)" by (rule keeps_trans)
    then have "keeps (addressed s p) s (handle_init ?cid (init_buffer ?s1) ?bcnt ?s1)"
      by (rule keeps_mono) simp
    with 2 err show ?thesis
      by (simp add: process_init_packet_def process_complete_message_def dispatch_message_def Let_def not_less)
  next
    case 3
    show ?thesis
    proof (cases "find_channel s ?cid")
      case None
      with 3 err show ?thesis by (simp add: process_init_packet_def Let_def)
    next
      case (Some i)
      with find_channel_Some [OF Some]
      have "keeps {i} s (start_message e now i cmd ?bcnt (drop 7 p) s)"
        using 3 assms by (intro start_keeps) auto
      then have "keeps (addressed s p) s (start_message e now i cmd ?bcnt (drop 7 p) s)"
        using find_addressed [OF Some] by (rule keeps_mono)
      with 3 Some err show ?thesis by (simp add: process_init_packet_def Let_def)
    qed
  qed
qed

lemma cont_packet_keeps:
  assumes "fido_fits e" and "hid_ok s"
  shows "keeps (addressed s p) s (process_cont_packet e now (packet_cid p) sq p s)"
proof -
  let ?cid = "packet_cid p"
  have err: "keeps (addressed s p) s (ctaphid_send_error ?cid er s)" for er
    using send_error_keeps [OF assms(2)] by (rule keeps_mono) simp
  show ?thesis
  proof (cases "find_channel s ?cid")
    case None
    with err show ?thesis by (simp add: process_cont_packet_def)
  next
    case (Some i)
    then have i: "i < 8" using find_channel_Some by blast
    note X = find_addressed [OF Some]
    have c: "keeps {i} s (upd_ch i (\<lambda>ch. ch\<lparr>ch_active := False\<rparr>) s)"
      using assms(2) i by (rule clear_keeps)
    then have "keeps {i} s (ctaphid_send_error ?cid er (upd_ch i (\<lambda>ch. ch\<lparr>ch_active := False\<rparr>) s))" for er
      using keeps_trans [OF c keeps_mono [OF send_error_keeps [OF keeps_ok [OF c]]]] by blast
    moreover have "ch_active (channels s ! i) \<Longrightarrow> keeps {i} s (continue_message e now i (drop 5 p) s)"
      using assms i by (rule continue_keeps)
    ultimately show ?thesis
      using Some err X keeps_mono [of "{i}" s _ "addressed s p"]
      by (simp add: process_cont_packet_def)
  qed
qed

lemma rate_check_ok: "hid_ok s \<Longrightarrow> rate_check now s = (b, t) \<Longrightarrow>
    hid_ok t \<and> hid_initialized t = hid_initialized s \<and> (\<forall>i. assembly t i = assembly s i) \<and>
    channels t = channels s"
  by (auto simp: rate_check_def Let_def hid_ok_def assembly_eq split: if_splits)

lemma packet_hid_ok:
  assumes "fido_fits e" and "hid_ok s" and "length p = 64"
  shows "hid_ok (snd (ctaphid_process_packet e now now' p s))"
proof (cases "hid_initialized s")
  case True
  obtain b t where r: "rate_check now s = (b, t)" by (cases "rate_check now s")
  with rate_check_ok [OF assms(2) r] keeps_ok [OF init_packet_keeps [OF assms(1) _ assms(3), of t]]
    keeps_ok [OF cont_packet_keeps [OF assms(1), of t]] True
  show ?thesis by (cases b) (auto simp: ctaphid_process_packet_def)
qed (simp add: ctaphid_process_packet_def assms(2))

section \<open>The queue of a channel\<close>

text \<open>
  What the host should receive of a message: the packets of the CTAPHID specification, one
  initialisation packet and then continuation packets numbered from 0.
\<close>

fun cont_frames :: "u32 \<Rightarrow> nat \<Rightarrow> bytes \<Rightarrow> bytes list" where
  "cont_frames c k m =
    (if m = [] then []
     else pad 64 (cid_bytes c @ [of_nat k AND 0x7F] @ take 59 m) # cont_frames c (Suc k) (drop 59 m))"

declare cont_frames.simps [simp del]

definition frames :: "u32 \<Rightarrow> byte \<Rightarrow> bytes \<Rightarrow> bytes list" where
  "frames c cmd m =
    pad 64 (cid_bytes c @ [cmd OR 0x80, byte_at 8 (of_nat (length m) :: u16),
      byte_at 0 (of_nat (length m) :: u16)] @ take 57 m) # cont_frames c 0 (drop 57 m)"

text \<open>The packets a channel still owes the host.\<close>

definition owed_by :: "ctaphid_channel \<Rightarrow> bytes \<Rightarrow> bytes list" where
  "owed_by ch buf =
    (let m = take (unat (ch_response_len ch)) buf; off = unat (ch_response_offset ch) in
     if \<not> ch_response_pending ch then []
     else if off = 0 then frames (ch_response_cid ch) (ch_response_cmd ch) m
     else cont_frames (ch_response_cid ch) ((off - 57) div 59) (drop off m))"

definition owed :: "'c ctaphid \<Rightarrow> nat \<Rightarrow> bytes list" where
  "owed s i = owed_by (channels s ! i) (s_response_buffers s ! i)"

lemma cont_frames_Nil [simp]: "cont_frames c k [] = []"
  by (simp add: cont_frames.simps)

lemma cont_frames_cons:
  "m \<noteq> [] \<Longrightarrow> cont_frames c k m =
    pad 64 (cid_bytes c @ [of_nat k AND 0x7F] @ take 59 m) # cont_frames c (Suc k) (drop 59 m)"
  by (subst cont_frames.simps) simp

lemma take_min_drop: "take (min n (l - off)) (drop off buf) = take n (drop off (take l buf))"
  by (simp only: drop_take take_take)

text \<open>Taking the next packet off a channel's queue.\<close>

lemma next_packet_owed:
  assumes "channel_ok ch" and "length buf = 2048" and "ch_response_pending ch"
    and "next_packet ch buf = (p, off')"
  shows "owed_by ch buf = p # owed_by (ch\<lparr>ch_response_offset := off',
      ch_response_pending := (ch_response_pending ch \<and> \<not> ch_response_len ch \<le> off')\<rparr>) buf"
proof -
  let ?l = "ch_response_len ch" and ?o = "ch_response_offset ch"
  from assms(1,3) have ol: "?o = 0 \<or> 57 \<le> ?o \<and> ?o < ?l" and "?l \<le> ch_response_buffer_size ch"
    "ch_response_buffer_size ch = 0 \<or> ch_response_buffer_size ch = 2048"
    by (auto simp: channel_ok_def)
  then have l: "unat ?l \<le> 2048" by (auto simp: word_le_nat_alt)
  have o: "unat ?o = 0 \<or> 57 \<le> unat ?o \<and> unat ?o < unat ?l"
    using ol by (auto simp: word_le_nat_alt word_less_nat_alt)
  define rem where "rem = ?l - ?o"
  have "?o \<le> ?l" using ol by auto
  then have rem: "unat rem = unat ?l - unat ?o" by (simp add: rem_def unat_sub)
  have len: "length (take (unat ?l) buf) = unat ?l" using assms(2) l by simp
  show ?thesis
  proof (cases "?o = 0")
    case True
    then have p: "p = build_init_packet (ch_response_cid ch) (ch_response_cmd ch) ?l buf ?l"
      and off': "off' = (if CTAPHID_INIT_DATA < ?l then CTAPHID_INIT_DATA else ?l)"
      using assms(4) by (simp_all add: next_packet_def Let_def)
    have "unat off' = min 57 (unat ?l)" unfolding off' by (rule min57)
    moreover have "(?l \<le> off') = (unat ?l \<le> unat off')" by (rule word_le_nat_alt)
    moreover have "take (min 57 (unat ?l)) buf = take 57 (take (unat ?l) buf)" by simp
    then have "p # cont_frames (ch_response_cid ch) 0 (drop 57 (take (unat ?l) buf)) =
        frames (ch_response_cid ch) (ch_response_cmd ch) (take (unat ?l) buf)"
      unfolding p build_init_packet_def frames_def Let_def min57 len by simp
    ultimately show ?thesis
      using True assms(3) by (cases "unat ?l \<le> 57") (auto simp: owed_by_def Let_def)
  next
    case False
    with o have o': "57 \<le> unat ?o" "unat ?o < unat ?l" by (auto simp: unat_eq_0)
    have p: "p = build_cont_packet (ch_response_cid ch) (of_nat ((unat ?o - 57) div 59))
        (drop (unat ?o) buf) rem"
      and off': "off' = ?o + (if CTAPHID_CONT_DATA < rem then CTAPHID_CONT_DATA else rem)"
      using assms(4) False by (auto simp: next_packet_def Let_def rem_def)
    have "unat off' = unat ?o + min 59 (unat rem)"
      unfolding off' using l rem o' by (subst unat_word_ariths) (auto simp: min59)
    then have uo: "unat off' = min (unat ?o + 59) (unat ?l)" using rem o' by auto
    have le: "(?l \<le> off') = (unat ?l \<le> unat off')" by (rule word_le_nat_alt)
    have ne: "drop (unat ?o) (take (unat ?l) buf) \<noteq> []" using len o' by simp
    have "p # cont_frames (ch_response_cid ch) (Suc ((unat ?o - 57) div 59))
          (drop 59 (drop (unat ?o) (take (unat ?l) buf))) =
        cont_frames (ch_response_cid ch) ((unat ?o - 57) div 59) (drop (unat ?o) (take (unat ?l) buf))"
      unfolding cont_frames_cons [OF ne] p build_cont_packet_def Let_def min59 rem take_min_drop by simp
    moreover have "(unat ?o + 59 - 57) div 59 = Suc ((unat ?o - 57) div 59)"
    proof -
      have "unat ?o + 59 - 57 = (unat ?o - 57) + 59" using o' by simp
      then show ?thesis by (simp only: div_add_self2)
    qed
    ultimately show ?thesis
      using False o' assms(3) uo le
      by (cases "unat ?l \<le> unat ?o + 59") (auto simp: owed_by_def Let_def unat_eq_0 add.commute)
  qed
qed

lemma next_packet_ok:
  assumes "channel_ok ch" and "ch_response_pending ch" and "next_packet ch buf = (p, off')"
  shows "channel_ok (ch\<lparr>ch_response_offset := off',
      ch_response_pending := (ch_response_pending ch \<and> \<not> ch_response_len ch \<le> off')\<rparr>)"
proof -
  let ?l = "ch_response_len ch" and ?o = "ch_response_offset ch"
  define rem where "rem = ?l - ?o"
  from assms(1,2) have o: "?o = 0 \<or> 57 \<le> ?o \<and> ?o < ?l" "?l \<le> 2048"
    by (auto simp: channel_ok_def)
  have "\<not> ?l \<le> off' \<Longrightarrow> 57 \<le> off'"
  proof (cases "?o = 0")
    case True
    then have "off' = (if CTAPHID_INIT_DATA < ?l then CTAPHID_INIT_DATA else ?l)"
      using assms(3) by (simp add: next_packet_def Let_def)
    then show "\<not> ?l \<le> off' \<Longrightarrow> 57 \<le> off'" by (auto split: if_splits)
  next
    case False
    then have off': "off' = ?o + (if CTAPHID_CONT_DATA < rem then CTAPHID_CONT_DATA else rem)"
      using assms(3) by (auto simp: next_packet_def Let_def rem_def)
    have "unat ?l \<le> 2048" "57 \<le> unat ?o" "unat ?o < unat ?l"
      using o False by (auto simp: word_le_nat_alt word_less_nat_alt)
    then have "unat off' = unat ?o + min 59 (unat rem)"
      unfolding off' using o(1) False
      by (subst unat_word_ariths) (auto simp: min59 rem_def unat_sub word_le_nat_alt word_less_nat_alt)
    with \<open>57 \<le> unat ?o\<close> show "57 \<le> off'" by (simp add: word_le_nat_alt)
  qed
  with assms(1) show ?thesis by (auto simp: channel_ok_def not_le)
qed

subsection \<open>Fetching a packet\<close>

lemma rr_covers: "(r :: nat) < 8 \<Longrightarrow> i < 8 \<Longrightarrow> \<exists>n < 8. (r + n) mod 8 = i"
proof (cases "r \<le> i")
  case True
  moreover assume "r < 8" "i < 8"
  ultimately show ?thesis by (intro exI [of _ "i - r"]) auto
next
  case False
  moreover assume "r < 8" "i < 8"
  ultimately show ?thesis by (intro exI [of _ "i + 8 - r"]) auto
qed

lemma pick_None:
  assumes "hid_ok s" and "pick_next_response_channel s = (None, t)"
  shows "t = s \<and> (\<forall>i < 8. \<not> ch_response_pending (channels s ! i))"
proof -
  have none: "find (\<lambda>i. ch_response_pending (channels s ! i))
      (map (\<lambda>n. (response_rr_index s + n) mod 8) [0..<8]) = None" and "t = s"
    using assms(2) by (auto simp: pick_next_response_channel_def split: option.splits)
  moreover have "\<not> ch_response_pending (channels s ! i)" if i: "i < 8" for i
  proof -
    have "response_rr_index s < 8" using assms(1) by (simp add: hid_ok_def)
    from rr_covers [OF this i] obtain n where "n < 8" "(response_rr_index s + n) mod 8 = i" by blast
    then have "i \<in> set (map (\<lambda>n. (response_rr_index s + n) mod 8) [0..<8])" by force
    with none show ?thesis unfolding find_None_iff by blast
  qed
  ultimately show ?thesis by simp
qed

lemma pick_Some:
  assumes "pick_next_response_channel s = (Some i, t)"
  shows "i < 8 \<and> ch_response_pending (channels s ! i) \<and>
    t = s\<lparr>response_rr_index := (i + 1) mod 8\<rparr>"
proof -
  have "find (\<lambda>i. ch_response_pending (channels s ! i))
      (map (\<lambda>n. (response_rr_index s + n) mod 8) [0..<8]) = Some i"
    and "t = s\<lparr>response_rr_index := (i + 1) mod 8\<rparr>"
    using assms by (auto simp: pick_next_response_channel_def split: option.splits)
  moreover from this(1) have "ch_response_pending (channels s ! i) \<and>
      i \<in> set (map (\<lambda>n. (response_rr_index s + n) mod 8) [0..<8])"
    by (auto simp: find_Some_iff)
  ultimately show ?thesis by auto
qed

lemma owed_Nil: "owed s i = [] \<longleftrightarrow> \<not> ch_response_pending (channels s ! i)"
  if "hid_ok s" "i < 8"
proof
  have ok: "channel_ok (channels s ! i)" "length (s_response_buffers s ! i) = 2048"
    using that by (simp_all add: hid_ok_def buffers_ok_nth)
  assume "owed s i = []"
  moreover obtain p off where "next_packet (channels s ! i) (s_response_buffers s ! i) = (p, off)"
    by (cases "next_packet (channels s ! i) (s_response_buffers s ! i)")
  ultimately show "\<not> ch_response_pending (channels s ! i)"
    using next_packet_owed [OF ok] by (auto simp: owed_def)
qed (simp add: owed_def owed_by_def)

lemma fetch_cases:
  assumes "hid_ok s" and "ctaphid_get_response_packet s = (r, t)"
  shows "keeps {} s t \<and>
    (case r of
       None \<Rightarrow> (\<forall>i < 8. owed s i = []) \<and> t = s \<or> ctap2_cancelled s
     | Some p \<Rightarrow> \<not> ctap2_cancelled s \<and>
         (\<exists>i < 8. owed s i = p # owed t i \<and> (\<forall>j < 8. j \<noteq> i \<longrightarrow> owed t j = owed s j)))"
proof (cases "pick_next_response_channel s")
  case (Pair o1 s1)
  note pick = this
  show ?thesis
  proof (cases o1)
    case None
    then have p: "pick_next_response_channel s = (None, s1)" using pick by simp
    from pick_None [OF assms(1) p] owed_Nil [OF assms(1)] assms p
    show ?thesis by (auto simp: ctaphid_get_response_packet_def keeps_refl)
  next
    case (Some i)
    then have p: "pick_next_response_channel s = (Some i, s1)" using pick by simp
    from pick_Some [OF p] have i: "i < 8" "ch_response_pending (channels s ! i)"
      and s1: "s1 = s\<lparr>response_rr_index := (i + 1) mod 8\<rparr>" by auto
    have k1: "keeps {} s s1" using assms(1) by (simp add: s1 keeps_def hid_ok_def assembly_eq)
    have ok: "channel_ok (channels s ! i)" "length (s_response_buffers s ! i) = 2048"
      using assms(1) i(1) by (simp_all add: hid_ok_def buffers_ok_nth)
    show ?thesis
    proof (cases "ctap2_cancelled s")
      case True
      have "keeps {} s1 (upd_ch i (\<lambda>ch. ch\<lparr>ch_response_pending := False, ch_response_offset := 0,
          ch_response_len := 0\<rparr>) s1)"
        using keeps_ok [OF k1] i(1) ok(1) by (intro keeps_upd_response) (auto simp: channel_ok_def s1)
      with assms(2) p True keeps_trans [OF k1] show ?thesis
        by (auto simp: ctaphid_get_response_packet_def ctap2_is_cancelled_def)
    next
      case False
      obtain p' off where n: "next_packet (channels s ! i) (s_response_buffers s ! i) = (p', off)"
        by (cases "next_packet (channels s ! i) (s_response_buffers s ! i)")
      let ?f = "\<lambda>ch. ch\<lparr>ch_response_offset := off,
          ch_response_pending := (ch_response_pending ch \<and> \<not> ch_response_len ch \<le> off)\<rparr>"
      have r: "r = Some p'" and t: "t = upd_ch i ?f s1"
        using assms(2) p False n by (auto simp: ctaphid_get_response_packet_def ctap2_is_cancelled_def s1)
      have "keeps {} s1 t"
        unfolding t using keeps_ok [OF k1] i(1) next_packet_ok [OF ok(1) i(2) n]
        by (intro keeps_upd_response) (auto simp: s1)
      moreover have "owed s i = p' # owed t i"
        using next_packet_owed [OF ok i(2) n] i(1) assms(1) by (simp add: owed_def t s1 hid_ok_def)
      moreover have "\<forall>j < 8. j \<noteq> i \<longrightarrow> owed t j = owed s j"
        by (simp add: owed_def t s1)
      ultimately show ?thesis using r False i(1) keeps_trans [OF k1] by auto
    qed
  qed
qed

subsection \<open>The time-out\<close>

lemma expire_keeps:
  assumes "hid_ok s" and "i < 8"
  shows "keeps {i} s (expire_channel now i s)"
proof -
  have e: "keeps {i} s (ctaphid_send_error c er s)" for c er
    using send_error_keeps [OF assms(1)] by (rule keeps_mono) simp
  have "keeps {i} s (upd_ch i (\<lambda>ch. ch\<lparr>ch_active := False\<rparr>) (ctaphid_send_error c er s))" for c er
    using keeps_trans [OF e clear_keeps [OF keeps_ok [OF e] assms(2)]] .
  then show ?thesis
    using assms(1) by (simp add: expire_channel_def Let_def keeps_refl)
qed

definition overdue :: "u32 \<Rightarrow> 'c ctaphid \<Rightarrow> nat \<Rightarrow> bool" where
  "overdue now s i \<longleftrightarrow>
     ch_active (channels s ! i) \<and> CTAPHID_MSG_TIMEOUT_MS < now - ch_last_activity (channels s ! i)"

lemma expire_overdue:
  assumes "hid_ok s" and "i < 8" and "j < 8"
  shows "overdue now (expire_channel now i s) j \<longleftrightarrow> overdue now s j \<and> j \<noteq> i"
    and "\<not> overdue now s j \<Longrightarrow> ch_active (channels s ! j) \<Longrightarrow>
      assembly (expire_channel now i s) j = assembly s j"
proof -
  have len: "length (channels (ctaphid_send_error c er s)) = 8" for c er
    using keeps_ok [OF send_error_keeps [OF assms(1)]] by (simp add: hid_ok_def)
  note k = expire_keeps [OF assms(1,2), of now]
  show "overdue now (expire_channel now i s) j \<longleftrightarrow> overdue now s j \<and> j \<noteq> i"
  proof (cases "j = i")
    case True
    with len assms(2) show ?thesis by (auto simp: overdue_def expire_channel_def Let_def)
  next
    case False
    with k assms(3) show ?thesis by (auto simp: overdue_def keeps_def assembly_eq)
  qed
  assume "\<not> overdue now s j" "ch_active (channels s ! j)"
  moreover from this k assms(3) have "j \<noteq> i \<Longrightarrow> assembly (expire_channel now i s) j = assembly s j"
    by (simp add: keeps_def)
  ultimately show "assembly (expire_channel now i s) j = assembly s j"
    by (cases "j = i") (auto simp: overdue_def expire_channel_def Let_def)
qed

lemma expire_all:
  assumes "hid_ok s" and "set xs \<subseteq> {..<8}"
  shows "hid_ok (fold (expire_channel now) xs s) \<and>
    (\<forall>j < 8. (overdue now (fold (expire_channel now) xs s) j \<longleftrightarrow> overdue now s j \<and> j \<notin> set xs) \<and>
      (\<not> overdue now s j \<longrightarrow> ch_active (channels s ! j) \<longrightarrow>
        assembly (fold (expire_channel now) xs s) j = assembly s j))"
  using assms
proof (induction xs arbitrary: s)
  case (Cons i xs)
  let ?t = "expire_channel now i s"
  have i: "i < 8" using Cons.prems(2) by simp
  have "hid_ok ?t" using keeps_ok [OF expire_keeps [OF Cons.prems(1) i]] .
  note IH = Cons.IH [OF this] and e = expire_overdue [OF Cons.prems(1) i, of _ now]
  show ?case
  proof (intro conjI allI impI)
    show "hid_ok (fold (expire_channel now) (i # xs) s)" using IH Cons.prems(2) by simp
    fix j :: nat
    assume j: "j < 8"
    show "overdue now (fold (expire_channel now) (i # xs) s) j \<longleftrightarrow> overdue now s j \<and> j \<notin> set (i # xs)"
      using IH e(1) [OF j] j Cons.prems(2) by auto
    assume "\<not> overdue now s j" "ch_active (channels s ! j)"
    then show "assembly (fold (expire_channel now) (i # xs) s) j = assembly s j"
      using IH e [OF j] j Cons.prems(2) by (simp add: assembly_eq)
  qed
qed simp

lemma timeout_ok: "hid_ok s \<Longrightarrow> hid_ok (ctaphid_check_timeout now s)"
  using expire_all [of s "[0..<8]" now] by (simp add: ctaphid_check_timeout_def subset_iff)

end
