(* ===== verification/Fetch_Queue.thy ===== *)
theory Fetch_Queue
  imports Main "HOL-Library.Multiset"
begin

text \<open>
  The contract between a device that owes packets on several queues and the driver that fetches
  them one at a time: a fetch takes the head of one queue and leaves the others alone, and it fails
  only when all queues are empty. A driver that fetches long enough then gets every packet exactly
  once. \<^verbatim>\<open>backlog\<close> is the number of packets owed, and the measure of the draining.
\<close>

text \<open>The driver's loop: at most \<open>n\<close> fetches, ended by the first that fails.\<close>

primrec fetches :: "('s \<Rightarrow> 'p option \<times> 's) \<Rightarrow> nat \<Rightarrow> 's \<Rightarrow> 'p list \<times> 's" where
  "fetches f 0 s = ([], s)"
| "fetches f (Suc n) s = (case f s of
     (None, t) \<Rightarrow> ([], t)
   | (Some p, t) \<Rightarrow> (case fetches f n t of (ps, u) \<Rightarrow> (p # ps, u)))"

locale fetch_queue =
  fixes good :: "'s \<Rightarrow> bool"
    and slots :: nat
    and owed :: "'s \<Rightarrow> nat \<Rightarrow> 'p list"
    and fetch :: "'s \<Rightarrow> 'p option \<times> 's"
  assumes fetch_good: "good s \<Longrightarrow> good (snd (fetch s))"
    and fetch_pop: "good s \<Longrightarrow> fetch s = (Some p, t) \<Longrightarrow>
      \<exists>i < slots. owed s i = p # owed t i \<and> (\<forall>j < slots. j \<noteq> i \<longrightarrow> owed t j = owed s j)"
    and fetch_none: "good s \<Longrightarrow> fetch s = (None, t) \<Longrightarrow> t = s \<and> (\<forall>i < slots. owed s i = [])"
begin

definition backlog :: "'s \<Rightarrow> nat" where
  "backlog s = (\<Sum>i < slots. length (owed s i))"

definition owed_mset :: "'s \<Rightarrow> 'p multiset" where
  "owed_mset s = (\<Sum>i < slots. mset (owed s i))"

lemma backlog_0: "backlog s = 0 \<longleftrightarrow> (\<forall>i < slots. owed s i = [])"
  by (auto simp: backlog_def)

lemma pop_measure:
  assumes "good s" and "fetch s = (Some p, t)"
  shows "backlog s = Suc (backlog t)" and "owed_mset s = add_mset p (owed_mset t)"
proof -
  from fetch_pop [OF assms] obtain i where i: "i < slots" "owed s i = p # owed t i"
    and other: "\<And>j. j < slots \<Longrightarrow> j \<noteq> i \<Longrightarrow> owed t j = owed s j" by blast
  have split: "(\<Sum>j < slots. g j) = g i + (\<Sum>j \<in> {..<slots} - {i}. g j)" for g :: "nat \<Rightarrow> 'a::comm_monoid_add"
    using i(1) by (simp add: sum.remove)
  have "(\<Sum>j \<in> {..<slots} - {i}. length (owed t j)) = (\<Sum>j \<in> {..<slots} - {i}. length (owed s j))"
    using other by (intro sum.cong) auto
  with i(2) show "backlog s = Suc (backlog t)" by (simp add: backlog_def split)
  have "(\<Sum>j \<in> {..<slots} - {i}. mset (owed t j)) = (\<Sum>j \<in> {..<slots} - {i}. mset (owed s j))"
    using other by (intro sum.cong) auto
  with i(2) show "owed_mset s = add_mset p (owed_mset t)" by (simp add: owed_mset_def split)
qed

lemma drained:
  assumes "good s" and "backlog s \<le> n"
  shows "mset (fst (fetches fetch n s)) = owed_mset s \<and> (\<forall>i < slots. owed (snd (fetches fetch n s)) i = []) \<and>
    length (fst (fetches fetch n s)) = backlog s"
  using assms
proof (induction n arbitrary: s)
  case 0
  then show ?case by (simp add: backlog_0 owed_mset_def)
next
  case (Suc n)
  obtain r t where r: "fetch s = (r, t)" by (cases "fetch s")
  show ?case
  proof (cases r)
    case None
    with r fetch_none [OF Suc.prems(1)] have t: "t = s" and none: "\<forall>i < slots. owed s i = []" by auto
    from none have "backlog s = 0" by (simp add: backlog_0)
    with r t none None show ?thesis by (simp add: owed_mset_def)
  next
    case (Some p)
    with r have f: "fetch s = (Some p, t)" by simp
    have "good t" using fetch_good [OF Suc.prems(1)] f by simp
    with Suc.IH [of t] pop_measure [OF Suc.prems(1) f] Suc.prems(2) f
    show ?thesis by (simp add: case_prod_beta)
  qed
qed

end

end
