(* ===== verification/CtapHid_Protocol.thy ===== *)
theory CtapHid_Protocol
  imports CtapHid_Channels Fetch_Queue
begin

text \<open>
  The CTAPHID transport as a protocol: events and reachable states, the assembly of a message from
  its packets under interleaving, the queues as an instance of the fetch-queue contract, the error
  behaviour, and the properties of the transport.
\<close>

section \<open>Events and reachable states\<close>

datatype hid_event = Packet u32 u32 bytes | Fetch | Timeout u32

definition hid_step :: "'c fido_env \<Rightarrow> hid_event \<Rightarrow> 'c ctaphid \<Rightarrow> 'c ctaphid" where
  "hid_step e ev s = (case ev of
     Packet now now' p \<Rightarrow> snd (ctaphid_process_packet e now now' p s)
   | Fetch \<Rightarrow> snd (ctaphid_get_response_packet s)
   | Timeout now \<Rightarrow> ctaphid_check_timeout now s)"

text \<open>A packet of the USB driver has 64 bytes.\<close>

fun event_ok :: "hid_event \<Rightarrow> bool" where
  "event_ok (Packet now now' p) = (length p = 64)"
| "event_ok _ = True"

inductive hid_reach :: "'c fido_env \<Rightarrow> 'c ctaphid \<Rightarrow> bool" for e where
  boot: "buffers_ok (s_msg_buffers s) \<Longrightarrow> buffers_ok (s_response_buffers s) \<Longrightarrow>
     hid_reach e (snd (ctaphid_init b s))"
| step: "hid_reach e s \<Longrightarrow> event_ok ev \<Longrightarrow> hid_reach e (hid_step e ev s)"
| keepalive: "hid_reach e s \<Longrightarrow> hid_reach e (ctaphid_send_keepalive c st s)"
| reset_counts: "hid_reach e s \<Longrightarrow> hid_reach e (ctaphid_reset_cmd_counts s)"

lemma zero_channel_ok: "channel_ok zero_channel"
  by (simp add: channel_ok_def zero_channel_def)

lemma init_hid_ok:
  assumes "buffers_ok (s_msg_buffers s)" and "buffers_ok (s_response_buffers s)"
  shows "hid_ok (snd (ctaphid_init b s))"
proof -
  have "cids_ok (replicate 8 zero_channel)" by (simp add: cids_ok_def zero_channel_def)
  then show ?thesis
    using assms zero_channel_ok by (simp add: ctaphid_init_def Let_def hid_ok_def)
qed

lemma step_hid_ok:
  assumes "fido_fits e" and "hid_ok s" and "event_ok ev"
  shows "hid_ok (hid_step e ev s)"
proof (cases ev)
  case (Packet now now' p)
  with assms packet_hid_ok show ?thesis by (simp add: hid_step_def)
next
  case Fetch
  obtain r t where "ctaphid_get_response_packet s = (r, t)" by (cases "ctaphid_get_response_packet s")
  with Fetch fetch_cases [OF assms(2)] keeps_ok show ?thesis by (fastforce simp: hid_step_def)
next
  case (Timeout now)
  with assms timeout_ok show ?thesis by (simp add: hid_step_def)
qed

lemma reach_hid_ok:
  assumes "hid_reach e s" and "fido_fits e"
  shows "hid_ok s"
  using assms(1)
proof induction
  case (boot s b)
  then show ?case by (rule init_hid_ok)
next
  case (step s ev)
  with assms(2) show ?case by (simp add: step_hid_ok)
next
  case (keepalive s c st)
  then show ?case using keeps_effect keeps_ok by (simp add: ctaphid_send_keepalive_def) blast
next
  case (reset_counts s)
  then show ?case by (simp add: ctaphid_reset_cmd_counts_def hid_ok_def)
qed

section \<open>Putting a message together\<close>

subsection \<open>Reading the header of a packet\<close>

lemma and_7F: "x AND 0x7F = take_bit 7 x" for x :: byte
  by (simp add: take_bit_eq_mask mask_eq_exp_minus_1)

lemma and_80: "x AND 0x80 = 0 \<longleftrightarrow> \<not> bit x 7" for x :: byte
  using and_exp_eq_0_iff_not_bit [of x 7] by simp

lemma small_bits: "unat x < 128 \<Longrightarrow> take_bit 7 x = x" for x :: byte
  by (rule bit_word_eqI) (auto simp: bit_simps dest: bit_small [of x 7, simplified])

lemma command_byte:
  fixes cmd :: byte
  assumes "unat cmd < 128"
  shows "(cmd OR 0x80) AND 0x80 \<noteq> 0" "(cmd OR 0x80) AND 0x7F = cmd"
proof -
  have b: "bit (0x80 :: byte) n \<longleftrightarrow> n = 7" for n
    using bit_exp_iff [of 7 n, where 'a = byte] by auto
  show "(cmd OR 0x80) AND 0x80 \<noteq> 0" by (simp add: and_80 bit_or_iff b)
  show "(cmd OR 0x80) AND 0x7F = cmd"
    using assms unfolding and_7F
    by (intro bit_word_eqI) (auto simp: bit_simps b dest: bit_small [of cmd 7, simplified])
qed

lemma sequence_byte:
  assumes "k < 128"
  shows "(of_nat k AND 0x7F) AND 0x80 = (0 :: byte)" "(of_nat k AND 0x7F) AND 0x7F = (of_nat k :: byte)"
proof -
  have u: "unat (of_nat k :: byte) < 128" using assms by (simp add: unat_of_nat_byte)
  then have eq: "(of_nat k :: byte) AND 0x7F = of_nat k" unfolding and_7F by (rule small_bits)
  show "(of_nat k AND 0x7F) AND 0x7F = (of_nat k :: byte)" by (simp only: eq)
  show "(of_nat k AND 0x7F) AND 0x80 = (0 :: byte)"
    unfolding eq and_80 using u bit_small [of "of_nat k :: byte" 7 7] by auto
qed

lemma pad_length: "length xs \<le> n \<Longrightarrow> length (pad n xs) = n"
  by (simp add: pad_def)

lemma frame_cid: "packet_cid (pad 64 (cid_bytes c @ xs)) = c"
  by (simp add: packet_cid_def pad_def cid_bytes_def nth_append)

lemma frame_byte: "pad 64 (cid_bytes c @ x # xs) ! 4 = x"
  by (simp add: pad_def cid_bytes_def)

lemma frame_count:
  "be16 (pad 64 (cid_bytes c @ x # byte_at 8 n # byte_at 0 n # xs) ! 5)
    (pad 64 (cid_bytes c @ x # byte_at 8 n # byte_at 0 n # xs) ! 6) = n" for n :: u16
  by (simp add: pad_def cid_bytes_def)

lemma frame_data7: "k \<le> length xs \<Longrightarrow> take k (drop 7 (pad 64 (cid_bytes c @ x # y # z # xs))) = take k xs"
  by (simp add: pad_def cid_bytes_def)

lemma frame_data5: "k \<le> length xs \<Longrightarrow> take k (drop 5 (pad 64 (cid_bytes c @ x # xs))) = take k xs"
  by (simp add: pad_def cid_bytes_def)

lemma cont_frames_cid: "\<forall>p \<in> set (cont_frames c k m). packet_cid p = c \<and> length p = 64"
proof (induction c k m rule: cont_frames.induct)
  case (1 c k m)
  show ?case
  proof (cases "m = []")
    case False
    have "length (cid_bytes c @ [of_nat k AND 0x7F] @ take 59 m) \<le> 64" by (simp add: cid_bytes_def)
    from pad_length [OF this] 1 [OF False] show ?thesis
      unfolding cont_frames_cons [OF False] by (simp add: frame_cid)
  qed simp
qed

subsection \<open>The state of a half-received message\<close>

text \<open>Channel \<open>i\<close> has the initialisation packet and \<open>k\<close> continuation packets of the message \<open>m\<close>.\<close>

definition receiving :: "'c ctaphid \<Rightarrow> nat \<Rightarrow> u32 \<Rightarrow> byte \<Rightarrow> bytes \<Rightarrow> nat \<Rightarrow> bool" where
  "receiving s i c cmd m k \<longleftrightarrow>
     hid_ok s \<and> hid_initialized s \<and> i < 8 \<and> 57 + 59 * k < length m \<and>
     (let ch = channels s ! i in
      ch_cid ch = c \<and> ch_cmd ch = cmd \<and> ch_active ch \<and> ch_bcnt ch = of_nat (length m) \<and>
      ch_seq ch = of_nat k \<and> ch_offset ch = of_nat (57 + 59 * k) \<and>
      take (57 + 59 * k) (s_msg_buffers s ! i) = take (57 + 59 * k) m)"

text \<open>The state in which the message is handed to its handler.\<close>

definition received :: "'c ctaphid \<Rightarrow> nat \<Rightarrow> u32 \<Rightarrow> byte \<Rightarrow> bytes \<Rightarrow> bool" where
  "received s i c cmd m \<longleftrightarrow>
     hid_ok s \<and> i < 8 \<and>
     (let ch = channels s ! i in
      ch_cid ch = c \<and> ch_cmd ch = cmd \<and> ch_bcnt ch = of_nat (length m) \<and>
      take (length m) (s_msg_buffers s ! i) = m)"

lemma receiving_keeps: "receiving s i c cmd m k \<Longrightarrow> keeps X s t \<Longrightarrow> i \<notin> X \<Longrightarrow> receiving t i c cmd m k"
  by (auto simp: receiving_def keeps_def assembly_eq Let_def)

lemma take_overwrite:
  "off + length src \<le> length buf \<Longrightarrow> take off buf = take off m \<Longrightarrow> off \<le> length m \<Longrightarrow>
    src = take (length src) (drop off m) \<Longrightarrow>
    take (off + length src) (overwrite off src buf) = take (off + length src) m"
  by (simp add: overwrite_def take_add)

lemma rate_passes:
  assumes "hid_ok s" and "unat (rate_cmd_count s) < 200"
  obtains t where "rate_check now s = (True, t)" and "keeps {} (s\<lparr>rate_cmd_count := rate_cmd_count t\<rparr>) t"
    and "unat (rate_cmd_count t) \<le> unat (rate_cmd_count s) + 1" and "channels t = channels s"
    and "hid_ok t" and "\<And>i. assembly t i = assembly s i" and "hid_initialized t = hid_initialized s"
    and "s_response_buffers t = s_response_buffers s"
proof -
  have "unat (rate_cmd_count s + 1) = unat (rate_cmd_count s) + 1"
    using assms(2) by (simp add: unat_word_ariths)
  then have "rate_cmd_count s + 1 \<le> 200" using assms(2) by (simp add: word_le_nat_alt)
  with assms that show ?thesis
    by (cases "CTAPHID_RATE_LIMIT_WINDOW_MS \<le> now - rate_window_start s")
      (auto simp: rate_check_def Let_def keeps_def hid_ok_def assembly_eq unat_word_ariths)
qed

subsection \<open>One packet of the message\<close>

lemma start_receives:
  assumes "hid_ok s" and "hid_initialized s" and "find_channel s c = Some i" and "length m \<le> 2048"
    and "57 \<le> length dat" and "take (min 57 (length m)) dat = take 57 m" and "cmd \<noteq> CTAPHID_INIT"
    and "fido_fits e"
  shows "if length m \<le> 57
    then \<exists>t. start_message e now i cmd (of_nat (length m)) dat s = process_slot e i t \<and> received t i c cmd m
    else receiving (start_message e now i cmd (of_nat (length m)) dat s) i c cmd m 0"
proof -
  let ?n = "of_nat (length m) :: u16"
  have n: "unat ?n = length m" using assms(4) by (intro unat_of_nat_u16) simp
  define copy where "copy = (if CTAPHID_INIT_DATA < ?n then CTAPHID_INIT_DATA else ?n)"
  define t where "t = upd_ch i (\<lambda>ch. ch\<lparr>ch_cmd := cmd, ch_bcnt := ?n, ch_seq := 0, ch_offset := copy,
      ch_active := True, ch_last_activity := now\<rparr>) (write_msg i 0 (take (unat copy) dat) s)"
  from find_channel_Some [OF assms(3)] have i: "i < 8" "c \<noteq> 0" "ch_cid (channels s ! i) = c" by auto
  have copy: "unat copy = min 57 (length m)" by (simp add: copy_def min57 n)
  have le: "?n \<le> copy \<longleftrightarrow> length m \<le> 57" by (simp add: word_le_nat_alt copy n)
  have eq: "start_message e now i cmd ?n dat s = (if length m \<le> 57 then process_slot e i t else t)"
    by (simp add: start_message_def Let_def t_def flip: copy_def le)
  have len: "length (channels s) = 8" "length (s_msg_buffers s) = 8" "length (s_msg_buffers s ! i) = 2048"
    using assms(1) i(1) by (simp_all add: hid_ok_def buffers_ok_def)
  have buf: "take (unat copy) (s_msg_buffers t ! i) = take 57 m"
    using len i(1) assms(5,6) by (simp add: t_def overwrite_def copy min_def split: if_splits)
  have "keeps {i} s (write_msg i 0 (take (unat copy) dat) s)"
    using assms(1) i(1) by (intro keeps_write) (auto simp: copy)
  moreover have "keeps {i} (write_msg i 0 (take (unat copy) dat) s) t"
    unfolding t_def using calculation assms(4,7) i keeps_ok [OF calculation] hid_ok_channel [OF assms(1) i(1)]
    by (intro keeps_upd) (auto simp: channel_ok_def word_le_nat_alt copy n)
  ultimately have t: "keeps {i} s t" by (rule keeps_trans)
  have ch: "channels t ! i = (channels s ! i)\<lparr>ch_cmd := cmd, ch_bcnt := ?n, ch_seq := 0,
      ch_offset := copy, ch_active := True, ch_last_activity := now\<rparr>"
    using i(1) len by (simp add: t_def)
  show ?thesis
  proof (cases "length m \<le> 57")
    case True
    then have "received t i c cmd m"
      using buf copy keeps_ok [OF t] i ch by (simp add: received_def)
    with True eq show ?thesis by auto
  next
    case False
    then have "copy = 57" using copy word_unat_eq_iff [of copy 57] by simp
    with False have "receiving t i c cmd m 0"
      using buf t assms(2) keeps_ok [OF t] i ch by (simp add: receiving_def keeps_def)
    with False eq show ?thesis by simp
  qed
qed

lemma continue_receives:
  assumes "receiving s i c cmd m k" and "length m \<le> 2048" and "fido_fits e"
    and "59 \<le> length dat" and "take (min 59 (length m - (57 + 59 * k))) dat = take 59 (drop (57 + 59 * k) m)"
  shows "if length m \<le> 57 + 59 * Suc k
    then \<exists>t. continue_message e now i dat s = process_slot e i t \<and> received t i c cmd m
    else receiving (continue_message e now i dat s) i c cmd m (Suc k)"
proof -
  let ?ch = "channels s ! i"
  let ?off = "57 + 59 * k"
  from assms(1) have r: "hid_ok s" "hid_initialized s" "i < 8" "?off < length m" "ch_cid ?ch = c"
    "ch_cmd ?ch = cmd" "ch_active ?ch" "ch_bcnt ?ch = of_nat (length m)" "ch_seq ?ch = of_nat k"
    "ch_offset ?ch = of_nat ?off" "take ?off (s_msg_buffers s ! i) = take ?off m"
    by (auto simp: receiving_def Let_def)
  have n: "unat (of_nat (length m) :: u16) = length m" using assms(2) by (intro unat_of_nat_u16) simp
  have o: "unat (of_nat ?off :: u16) = ?off" using assms(2) r(4) by (intro unat_of_nat_u16) simp
  define remaining where "remaining = ch_bcnt ?ch - ch_offset ?ch"
  define copy where "copy = (if CTAPHID_CONT_DATA < remaining then CTAPHID_CONT_DATA else remaining)"
  define off' where "off' = ch_offset ?ch + copy"
  define t where "t = upd_ch i (\<lambda>ch. ch\<lparr>ch_offset := off', ch_seq := ch_seq ch + 1,
      ch_last_activity := now\<rparr>) (write_msg i (unat (ch_offset ?ch)) (take (unat copy) dat) s)"
  have "(of_nat ?off :: u16) \<le> of_nat (length m)"
    using r(4) n o by (simp only: word_le_nat_alt)
  then have "unat remaining = unat (of_nat (length m) :: u16) - unat (of_nat ?off :: u16)"
    unfolding remaining_def r(8) r(10) by (rule unat_sub)
  then have rem: "unat remaining = length m - ?off" by (simp only: n o)
  have copy: "unat copy = min 59 (length m - ?off)" by (simp only: copy_def min59 rem)
  have "unat off' = unat (of_nat ?off :: u16) + unat copy"
    unfolding off'_def r(10) using o copy assms(2) r(4) by (subst unat_word_ariths) (simp add: min_def)
  then have off': "unat off' = min (?off + 59) (length m)" unfolding o copy using r(4) by simp
  have le: "ch_bcnt ?ch \<le> off' \<longleftrightarrow> length m \<le> 57 + 59 * Suc k"
    unfolding word_le_nat_alt r(8) n off' by auto
  have eq: "continue_message e now i dat s = (if length m \<le> 57 + 59 * Suc k then process_slot e i t else t)"
    unfolding le [symmetric]
    by (simp add: continue_message_def Let_def t_def copy_def remaining_def off'_def)
  have len: "length (channels s) = 8" "length (s_msg_buffers s) = 8" "length (s_msg_buffers s ! i) = 2048"
    using r(1,3) by (simp_all add: hid_ok_def buffers_ok_def)
  have src: "take (unat copy) dat = take (unat copy) (drop ?off m)"
    using assms(5) unfolding copy by (simp add: min_def)
  have lsrc: "length (take (unat copy) dat) = unat copy" using assms(4) copy by simp
  have buf: "take (?off + unat copy) (s_msg_buffers t ! i) = take (?off + unat copy) m"
  proof -
    have "?off + unat copy \<le> length m" using r(4) by (simp only: copy)
    then have 1: "?off + length (take (unat copy) dat) \<le> length (s_msg_buffers s ! i)"
      using assms(2) by (simp only: len lsrc)
    have 2: "take (unat copy) dat = take (length (take (unat copy) dat)) (drop ?off m)"
      unfolding lsrc by (rule src)
    have "take (?off + unat copy) (overwrite ?off (take (unat copy) dat) (s_msg_buffers s ! i)) =
        take (?off + unat copy) m"
      using take_overwrite [OF 1 r(11) less_imp_le [OF r(4)] 2] unfolding lsrc .
    moreover have "s_msg_buffers t ! i = overwrite ?off (take (unat copy) dat) (s_msg_buffers s ! i)"
      unfolding t_def r(10) o using r(3) len by simp
    ultimately show ?thesis by simp
  qed
  have oc: "?off + unat copy = min (?off + 59) (length m)" using copy r(4) by simp
  have w: "keeps {i} s (write_msg i (unat (ch_offset ?ch)) (take (unat copy) dat) s)"
    using r(1,3,4) assms(2) unfolding r(10) o by (intro keeps_write) (auto simp: copy)
  have "off' \<le> ch_bcnt ?ch" unfolding word_le_nat_alt r(8) n off' by simp
  have "keeps {i} (write_msg i (unat (ch_offset ?ch)) (take (unat copy) dat) s) t"
    unfolding t_def using \<open>off' \<le> ch_bcnt ?ch\<close> r(3,7) keeps_ok [OF w] hid_ok_channel [OF r(1,3)]
    by (intro keeps_upd) (auto simp: channel_ok_def)
  with w have t: "keeps {i} s t" by (rule keeps_trans)
  have ch: "channels t ! i = ?ch\<lparr>ch_offset := off', ch_seq := ch_seq ?ch + 1, ch_last_activity := now\<rparr>"
    using r(3) len by (simp add: t_def)
  show ?thesis
  proof (cases "length m \<le> 57 + 59 * Suc k")
    case True
    then have "take (length m) (s_msg_buffers t ! i) = m" using buf oc by (simp add: min_absorb2)
    then have "received t i c cmd m"
      using keeps_ok [OF t] r ch by (simp add: received_def)
    with True eq show ?thesis by auto
  next
    case False
    then have "unat off' = ?off + 59" using off' by simp
    moreover have "unat (of_nat (57 + 59 * Suc k) :: u16) = 57 + 59 * Suc k"
      using False assms(2) by (intro unat_of_nat_u16) simp
    ultimately have "off' = of_nat (57 + 59 * Suc k)" by (simp only: word_unat_eq_iff) simp
    moreover have "take (57 + 59 * Suc k) (s_msg_buffers t ! i) = take (57 + 59 * Suc k) m"
      using buf oc False by (simp add: min_absorb1 add.assoc add.commute)
    ultimately have "receiving t i c cmd m (Suc k)"
      using False t keeps_ok [OF t] r ch by (simp add: receiving_def keeps_def)
    with False eq show ?thesis by simp
  qed
qed

subsection \<open>A message among other traffic\<close>

text \<open>The packets of a channel among the events, and events without a look at the clock.\<close>

fun own_packets :: "u32 \<Rightarrow> hid_event list \<Rightarrow> bytes list" where
  "own_packets c [] = []"
| "own_packets c (Packet now now' p # evs) =
    (if packet_cid p = c then p # own_packets c evs else own_packets c evs)"
| "own_packets c (ev # evs) = own_packets c evs"

fun untimed :: "hid_event \<Rightarrow> bool" where
  "untimed (Timeout now) = False"
| "untimed ev = event_ok ev"

text \<open>How a packet that passes the limiter is treated.\<close>

lemma packet_step:
  assumes "hid_ok s" and "hid_initialized s" and "unat (rate_cmd_count s) < 200"
  obtains t where "hid_ok t" and "hid_initialized t" and "channels t = channels s"
    and "\<And>i. assembly t i = assembly s i" and "s_response_buffers t = s_response_buffers s"
    and "unat (rate_cmd_count t) \<le> unat (rate_cmd_count s) + 1"
    and "hid_step e (Packet now now' p) s =
      (if p ! 4 AND 0x80 \<noteq> 0 then process_init_packet e now' (packet_cid p) (p ! 4 AND 0x7F) p t
       else process_cont_packet e now' (packet_cid p) (p ! 4 AND 0x7F) p t)"
proof -
  from rate_passes [OF assms(1,3), of now] obtain t where t: "rate_check now s = (True, t)"
    "unat (rate_cmd_count t) \<le> unat (rate_cmd_count s) + 1" "channels t = channels s" "hid_ok t"
    "\<And>i. assembly t i = assembly s i" "hid_initialized t = hid_initialized s"
    "s_response_buffers t = s_response_buffers s" by metis
  with assms(2) show ?thesis
    by (intro that [of t]) (simp_all add: hid_step_def ctaphid_process_packet_def)
qed

lemma other_event:
  assumes "fido_fits e" and "receiving s i c cmd m k" and "untimed ev" and "own_packets c [ev] = []"
    and "unat (rate_cmd_count s) < 200"
  shows "receiving (hid_step e ev s) i c cmd m k \<and>
    unat (rate_cmd_count (hid_step e ev s)) \<le> unat (rate_cmd_count s) + 1"
proof (cases ev)
  case (Packet now now' p)
  with assms(3,4) have p: "length p = 64" "packet_cid p \<noteq> c" by (auto split: if_splits)
  from assms(2) have s: "hid_ok s" "hid_initialized s" by (auto simp: receiving_def)
  from packet_step [OF s assms(5), of e now now' p] obtain t where t: "hid_ok t" "hid_initialized t"
    "channels t = channels s" "\<And>i. assembly t i = assembly s i"
    "unat (rate_cmd_count t) \<le> unat (rate_cmd_count s) + 1"
    and st: "hid_step e (Packet now now' p) s =
      (if p ! 4 AND 0x80 \<noteq> 0 then process_init_packet e now' (packet_cid p) (p ! 4 AND 0x7F) p t
       else process_cont_packet e now' (packet_cid p) (p ! 4 AND 0x7F) p t)" by metis
  have rt: "receiving t i c cmd m k"
    using assms(2) t(1,2,3) t(4) [of i] by (simp add: receiving_def assembly_eq)
  have "keeps (addressed t p) t (hid_step e (Packet now now' p) s)"
    unfolding st using init_packet_keeps [OF assms(1) t(1) p(1)] cont_packet_keeps [OF assms(1) t(1)]
    by simp
  moreover have "i \<notin> addressed t p"
    using rt p(2) by (auto simp: addressed_def receiving_def Let_def)
  ultimately show ?thesis
    using receiving_keeps [OF rt] t(5) Packet by (auto simp: keeps_def)
next
  case Fetch
  obtain r t where f: "ctaphid_get_response_packet s = (r, t)" by (cases "ctaphid_get_response_packet s")
  from assms(2) have "hid_ok s" by (simp add: receiving_def)
  with fetch_cases [OF _ f] have k: "keeps {} s t" by blast
  from receiving_keeps [OF assms(2) k] k f Fetch show ?thesis by (simp add: hid_step_def keeps_def)
next
  case (Timeout now)
  with assms(3) show ?thesis by simp
qed

lemma own_event:
  assumes "fido_fits e" and "receiving s i c cmd m k" and "length m \<le> 2048"
    and "p = pad 64 (cid_bytes c @ [of_nat k AND 0x7F] @ take 59 (drop (57 + 59 * k) m))"
    and "unat (rate_cmd_count s) < 200"
  shows "if length m \<le> 57 + 59 * Suc k
    then \<exists>t. hid_step e (Packet now now' p) s = process_slot e i t \<and> received t i c cmd m
    else receiving (hid_step e (Packet now now' p) s) i c cmd m (Suc k) \<and>
      unat (rate_cmd_count (hid_step e (Packet now now' p) s)) \<le> unat (rate_cmd_count s) + 1"
proof -
  from assms(2) have s: "hid_ok s" "hid_initialized s" by (auto simp: receiving_def)
  from packet_step [OF s assms(5), of e now now' p] obtain t where t: "hid_ok t" "hid_initialized t"
    "channels t = channels s" "\<And>i. assembly t i = assembly s i"
    "unat (rate_cmd_count t) \<le> unat (rate_cmd_count s) + 1"
    and st: "hid_step e (Packet now now' p) s =
      (if p ! 4 AND 0x80 \<noteq> 0 then process_init_packet e now' (packet_cid p) (p ! 4 AND 0x7F) p t
       else process_cont_packet e now' (packet_cid p) (p ! 4 AND 0x7F) p t)" by metis
  have rt: "receiving t i c cmd m k"
    using assms(2) t(1,2,3) t(4) [of i] by (simp add: receiving_def assembly_eq)
  then have r: "i < 8" "ch_cid (channels t ! i) = c" "ch_active (channels t ! i)"
    "ch_seq (channels t ! i) = of_nat k" "57 + 59 * k < length m" by (auto simp: receiving_def Let_def)
  from r(5) assms(3) have k: "k < 128" by simp
  let ?xs = "take 59 (drop (57 + 59 * k) m)"
  have p4: "p ! 4 = of_nat k AND 0x7F" and pc: "packet_cid p = c"
    unfolding assms(4) using frame_byte frame_cid by simp_all
  have "c \<noteq> 0" using hid_ok_channel [OF t(1) r(1)] r(2,3) by (auto simp: channel_ok_def)
  then have f: "find_channel t c = Some i" using find_channel_eq [OF t(1) r(1,2)] by simp
  have lp: "length p = 64" unfolding assms(4) by (intro pad_length) (simp add: cid_bytes_def)
  have st': "hid_step e (Packet now now' p) s = continue_message e now' i (drop 5 p) t"
    unfolding st p4 pc using sequence_byte [OF k] f r(3,4) by (simp add: process_cont_packet_def)
  have "take (min 59 (length m - (57 + 59 * k))) (drop 5 p) = ?xs"
    unfolding assms(4) using frame_data5 [of "min 59 (length m - (57 + 59 * k))" ?xs]
    by (simp add: min_def)
  from continue_receives [OF rt assms(3,1) _ this, of now'] lp
  have c: "if length m \<le> 57 + 59 * Suc k
    then \<exists>u. hid_step e (Packet now now' p) s = process_slot e i u \<and> received u i c cmd m
    else receiving (hid_step e (Packet now now' p) s) i c cmd m (Suc k)"
    unfolding st' by simp
  have "keeps {i} t (hid_step e (Packet now now' p) s)"
    unfolding st' by (rule continue_keeps [OF assms(1) t(1) r(1,3)])
  with c t(5) show ?thesis by (auto simp: keeps_def split: if_splits)
qed

lemma own_packets_last: "own_packets c evs = [] \<Longrightarrow> evs \<noteq> [] \<Longrightarrow> own_packets c [last evs] = []"
proof (induction evs)
  case (Cons a evs)
  then show ?case by (cases a; cases evs) (auto split: if_splits)
qed simp

lemma rest_of_message:
  assumes "fido_fits e" and "receiving s i c cmd m k" and "length m \<le> 2048"
    and "own_packets c evs = cont_frames c k (drop (57 + 59 * k) m)"
    and "list_all untimed evs" and "own_packets c [last evs] \<noteq> []"
    and "unat (rate_cmd_count s) + length evs \<le> 200"
  shows "\<exists>t. fold (hid_step e) evs s = process_slot e i t \<and> received t i c cmd m"
  using assms(2,4-7)
proof (induction evs arbitrary: s k)
  case Nil
  then have "drop (57 + 59 * k) m \<noteq> []" by (simp add: receiving_def)
  with Nil show ?case by (simp add: cont_frames_cons)
next
  case (Cons ev evs)
  have ne: "drop (57 + 59 * k) m \<noteq> []" using Cons.prems(1) by (simp add: receiving_def)
  have few: "unat (rate_cmd_count s) < 200" using Cons.prems(5) by simp
  have app: "own_packets c (ev # evs) = own_packets c [ev] @ own_packets c evs"
    by (cases ev) auto
  show ?case
  proof (cases "own_packets c [ev] = []")
    case True
    have "evs \<noteq> []" using Cons.prems(4) True by (cases evs) auto
    moreover have "untimed ev" using Cons.prems(3) by simp
    note other = other_event [OF assms(1) Cons.prems(1) this True few]
    ultimately show ?thesis
      using Cons.IH [of "hid_step e ev s" k] other Cons.prems(2-5) app True by simp
  next
    case False
    then obtain now now' p where ev: "ev = Packet now now' p" "packet_cid p = c"
      by (cases ev) (auto split: if_splits)
    let ?n = "57 + 59 * k"
    from Cons.prems(2) ev have p: "p = pad 64 (cid_bytes c @ [of_nat k AND 0x7F] @ take 59 (drop ?n m))"
      and rest: "own_packets c evs = cont_frames c (Suc k) (drop (57 + 59 * Suc k) m)"
      by (simp_all add: cont_frames_cons [OF ne] add.commute)
    note own = own_event [OF assms(1) Cons.prems(1) assms(3) p few, of now now']
    show ?thesis
    proof (cases "length m \<le> 57 + 59 * Suc k")
      case True
      then have "own_packets c evs = []" using rest by simp
      have "evs = []"
      proof (rule ccontr)
        assume ne: "evs \<noteq> []"
        with own_packets_last [OF \<open>own_packets c evs = []\<close> this] Cons.prems(4) show False by simp
      qed
      with own True ev show ?thesis by auto
    next
      case False
      then have "own_packets c evs \<noteq> []" using rest by (simp add: cont_frames_cons)
      then have "evs \<noteq> []" by auto
      with False own ev Cons.IH [of "hid_step e ev s" "Suc k"] Cons.prems(3-5) rest
      show ?thesis by simp
    qed
  qed
qed

text \<open>The initialisation packet starts the message, and the rest follows it.\<close>

lemma first_event:
  assumes "fido_fits e" and "hid_ok s" and "hid_initialized s" and "find_channel s c = Some i"
    and "\<not> ch_active (channels s ! i)" and "length m \<le> 2048" and "unat cmd < 128"
    and "cmd \<noteq> CTAPHID_INIT" and "unat (rate_cmd_count s) < 200" and "p = hd (frames c cmd m)"
  shows "if length m \<le> 57
    then \<exists>t. hid_step e (Packet now now' p) s = process_slot e i t \<and> received t i c cmd m
    else receiving (hid_step e (Packet now now' p) s) i c cmd m 0 \<and>
      unat (rate_cmd_count (hid_step e (Packet now now' p) s)) \<le> unat (rate_cmd_count s) + 1"
proof -
  let ?n = "of_nat (length m) :: u16"
  have n: "unat ?n = length m" using assms(6) by (intro unat_of_nat_u16) simp
  from packet_step [OF assms(2,3,9), of e now now' p] obtain t where t: "hid_ok t" "hid_initialized t"
    "channels t = channels s" "unat (rate_cmd_count t) \<le> unat (rate_cmd_count s) + 1"
    and st: "hid_step e (Packet now now' p) s =
      (if p ! 4 AND 0x80 \<noteq> 0 then process_init_packet e now' (packet_cid p) (p ! 4 AND 0x7F) p t
       else process_cont_packet e now' (packet_cid p) (p ! 4 AND 0x7F) p t)" by metis
  have p: "p = pad 64 (cid_bytes c @ (cmd OR 0x80) # byte_at 8 ?n # byte_at 0 ?n # take 57 m)"
    unfolding assms(10) frames_def by simp
  have f: "find_channel t c = Some i" using assms(4) t(3) by (simp add: find_channel_def split: if_splits)
  have lp: "length p = 64" unfolding p by (intro pad_length) (simp add: cid_bytes_def)
  have p4: "p ! 4 = cmd OR 0x80" unfolding p by (rule frame_byte)
  have pc: "packet_cid p = c" unfolding p by (rule frame_cid)
  have bc: "be16 (p ! 5) (p ! 6) = ?n" unfolding p by (rule frame_count)
  have "\<not> 2048 < ?n" using assms(6) by (simp add: word_less_nat_alt n)
  then have st': "hid_step e (Packet now now' p) s = start_message e now' i cmd ?n (drop 7 p) t"
    unfolding st p4 pc using command_byte [OF assms(7)] f assms(5,8) bc t(3)
    by (simp add: process_init_packet_def Let_def)
  have "take (min 57 (length m)) (drop 7 p) = take 57 m"
    unfolding p using frame_data7 [of "min 57 (length m)" "take 57 m"] by (simp add: min_def)
  note r = start_receives [OF t(1,2) f assms(6) _ this assms(8,1), of now']
  from find_channel_Some [OF f] have i: "i < 8" "ch_cid (channels t ! i) \<noteq> 0" by auto
  have "keeps {i} t (hid_step e (Packet now now' p) s)"
    unfolding st' using \<open>\<not> 2048 < ?n\<close> assms(8) i by (intro start_keeps [OF assms(1) t(1)]) auto
  then have "unat (rate_cmd_count (hid_step e (Packet now now' p) s)) \<le> unat (rate_cmd_count s) + 1"
    using t(4) by (simp add: keeps_def)
  with r lp show ?thesis unfolding st' by (auto split: if_splits)
qed

text \<open>All of it: the first event is the first packet, the last event the last one.\<close>

lemma whole_message:
  assumes "fido_fits e" and "hid_ok s" and "hid_initialized s" and "find_channel s c = Some i"
    and "\<not> ch_active (channels s ! i)" and "length m \<le> 2048" and "unat cmd < 128"
    and "cmd \<noteq> CTAPHID_INIT" and "own_packets c evs = frames c cmd m" and "list_all untimed evs"
    and "own_packets c [hd evs] \<noteq> []" and "own_packets c [last evs] \<noteq> []"
    and "unat (rate_cmd_count s) + length evs \<le> 200"
  shows "\<exists>t. fold (hid_step e) evs s = process_slot e i t \<and> received t i c cmd m"
proof -
  from assms(9) obtain ev es where evs: "evs = ev # es" by (cases evs) (auto simp: frames_def)
  with assms(11) obtain now now' p where ev: "ev = Packet now now' p" "packet_cid p = c"
    by (cases ev) (auto split: if_splits)
  with assms(9) evs have p: "p = hd (frames c cmd m)"
    and es: "own_packets c es = cont_frames c 0 (drop 57 m)" by (auto simp: frames_def)
  have few: "unat (rate_cmd_count s) < 200" using assms(13) evs by simp
  note first = first_event [OF assms(1-8) few p, of now now']
  show ?thesis
  proof (cases "length m \<le> 57")
    case True
    then have "own_packets c es = []" using es by simp
    then have "es = []" using own_packets_last [of c es] assms(12) evs by (cases "es = []") auto
    with True first ev evs show ?thesis by simp
  next
    case False
    then have "es \<noteq> []" using es by (auto simp: cont_frames_cons)
    with False first rest_of_message [OF assms(1) _ assms(6), of "hid_step e ev s" i c cmd 0 es]
      assms(10,12,13) ev evs es
    show ?thesis by simp
  qed
qed

section \<open>What is queued\<close>

text \<open>A response on a channel that has its buffers.\<close>

lemma owed_prepare:
  assumes "hid_ok s" and "i < 8" and "ch_response_buffer_size (channels s ! i) = 2048"
    and "length m \<le> 2048" and "take (length m) d = m"
  shows "owed (prepare_response_on i c cmd (Some d) (of_nat (length m)) s) i = frames c cmd m"
    and "j < 8 \<Longrightarrow> j \<noteq> i \<Longrightarrow>
      owed (prepare_response_on i c cmd (Some d) (of_nat (length m)) s) j = owed s j"
proof -
  let ?n = "of_nat (length m) :: u16"
  have n: "unat ?n = length m" using assms(4) by (intro unat_of_nat_u16) simp
  have big: "\<not> 2048 < ?n" using assms(4) by (simp add: word_less_nat_alt n)
  have z: "0 < ?n \<longleftrightarrow> m \<noteq> []" by (simp add: word_less_nat_alt n)
  have len: "length (channels s) = 8" "length (s_response_buffers s) = 8"
    "length (s_response_buffers s ! i) = 2048"
    using assms(1,2) by (simp_all add: hid_ok_def buffers_ok_def)
  show "owed (prepare_response_on i c cmd (Some d) ?n s) i = frames c cmd m"
    using len assms(2,3,4,5) n big z
    by (cases "m = []") (auto simp: owed_def owed_by_def prepare_response_on_def Let_def overwrite_def)
  show "j < 8 \<Longrightarrow> j \<noteq> i \<Longrightarrow> owed (prepare_response_on i c cmd (Some d) ?n s) j = owed s j"
    using len by (simp add: owed_def prepare_response_on_def Let_def)
qed

lemma buffer_size: "hid_ok s \<Longrightarrow> i < 8 \<Longrightarrow> ch_cid (channels s ! i) \<noteq> 0 \<Longrightarrow>
    ch_response_buffer_size (channels s ! i) = 2048"
  using hid_ok_channel [of s i] by (simp add: channel_ok_def)

lemma owed_upd:
  assumes "\<And>ch. ch_response_len (f ch) = ch_response_len ch \<and> ch_response_cmd (f ch) = ch_response_cmd ch \<and>
      ch_response_offset (f ch) = ch_response_offset ch \<and> ch_response_cid (f ch) = ch_response_cid ch \<and>
      ch_response_pending (f ch) = ch_response_pending ch"
  shows "owed (upd_ch i f s) j = owed s j"
  using assms
  by (cases "j = i"; cases "i < length (channels s)")
    (simp_all add: owed_def owed_by_def Let_def list_update_beyond)

text \<open>An error on an existing channel.\<close>

lemma owed_error:
  assumes "hid_ok s" and "find_channel s c = Some i"
  shows "owed (ctaphid_send_error c er s) i = frames c CTAPHID_ERROR [er]"
    and "j < 8 \<Longrightarrow> j \<noteq> i \<Longrightarrow> owed (ctaphid_send_error c er s) j = owed s j"
    and "channels (ctaphid_send_error c er s) = (channels s)[i := (channels s ! i)
      \<lparr>ch_response_cid := c, ch_response_cmd := CTAPHID_ERROR, ch_response_len := 1,
       ch_response_offset := 0, ch_response_pending := True\<rparr>]"
proof -
  from find_channel_Some [OF assms(2)] have i: "i < 8" "ch_cid (channels s ! i) \<noteq> 0" by auto
  have b: "ch_response_buffer_size (channels s ! i) = 2048" using buffer_size assms(1) i by blast
  have eq: "ctaphid_send_error c er s = prepare_response_on i c CTAPHID_ERROR (Some [er]) 1 s"
    using assms(2) by (simp add: ctaphid_send_error_def error_channel_def)
  show "owed (ctaphid_send_error c er s) i = frames c CTAPHID_ERROR [er]"
    using owed_prepare(1) [OF assms(1) i(1) b, of "[er]" "[er]"] by (simp add: eq)
  show "j < 8 \<Longrightarrow> j \<noteq> i \<Longrightarrow> owed (ctaphid_send_error c er s) j = owed s j"
    using owed_prepare(2) [OF assms(1) i(1) b, of "[er]" "[er]"] by (simp add: eq)
  show "channels (ctaphid_send_error c er s) = (channels s)[i := (channels s ! i)
      \<lparr>ch_response_cid := c, ch_response_cmd := CTAPHID_ERROR, ch_response_len := 1,
       ch_response_offset := 0, ch_response_pending := True\<rparr>]"
    by (simp add: eq prepare_response_on_def Let_def b)
qed

text \<open>A ping is queued as it came.\<close>

lemma owed_ping:
  assumes "received t i c CTAPHID_PING m" and "length m \<le> 2048" and "c \<noteq> 0"
  shows "owed (process_slot e i t) i = frames c CTAPHID_PING m"
proof -
  from assms(1) have r: "hid_ok t" "i < 8" "ch_cid (channels t ! i) = c"
    "ch_cmd (channels t ! i) = CTAPHID_PING" "ch_bcnt (channels t ! i) = of_nat (length m)"
    "take (length m) (s_msg_buffers t ! i) = m" by (auto simp: received_def Let_def)
  have f: "find_channel t c = Some i" using find_channel_eq [OF r(1-3) assms(3)] .
  have b: "ch_response_buffer_size (channels t ! i) = 2048" using buffer_size r(1-3) assms(3) by blast
  have "process_slot e i t = upd_ch i (\<lambda>ch. ch\<lparr>ch_active := False, ch_offset := 0\<rparr>)
      (prepare_response_on i c CTAPHID_PING (Some (s_msg_buffers t ! i)) (of_nat (length m)) t)"
    using r f by (simp add: process_slot_def process_complete_message_def dispatch_message_def
        handle_ping_def prepare_response_def)
  then show ?thesis using owed_prepare(1) [OF r(1,2) b assms(2) r(6)] by (simp add: owed_upd)
qed

section \<open>Refused packets\<close>

text \<open>
  The error a packet of an existing channel is answered with, or \<^verbatim>\<open>None\<close> when it is taken: the
  rules of the CTAPHID specification, over the channel's state alone.
\<close>

definition refusal :: "ctaphid_channel \<Rightarrow> bytes \<Rightarrow> byte option" where
  "refusal ch p =
    (if bit (p ! 4) 7 then
       if 2048 < unat (be16 (p ! 5) (p ! 6)) then Some CTAPHID_ERR_INVALID_LEN
       else if take_bit 7 (p ! 4) = CTAPHID_INIT then None
       else if ch_active ch then Some CTAPHID_ERR_CHANNEL_BUSY
       else None
     else if \<not> ch_active ch then Some CTAPHID_ERR_INVALID_CHANNEL
     else if take_bit 7 (p ! 4) \<noteq> ch_seq ch then Some CTAPHID_ERR_INVALID_SEQ
     else None)"

lemma refused:
  assumes "hid_ok t" and "find_channel t c = Some i" and "refusal (channels t ! i) p = Some er"
    and "c = packet_cid p"
  shows "(if p ! 4 AND 0x80 \<noteq> 0 then process_init_packet e now' c (p ! 4 AND 0x7F) p t
     else process_cont_packet e now' c (p ! 4 AND 0x7F) p t) =
    ctaphid_send_error c er
      (if er = CTAPHID_ERR_INVALID_SEQ then upd_ch i (\<lambda>ch. ch\<lparr>ch_active := False\<rparr>) t else t)"
  using assms(2,3)
  by (auto simp: refusal_def and_80 and_7F process_init_packet_def process_cont_packet_def Let_def
      word_less_nat_alt split: if_splits)

lemma refused_effect:
  fixes er :: byte
  assumes "hid_ok t" and "find_channel t c = Some i"
  defines "u \<equiv> ctaphid_send_error c er
      (if er = CTAPHID_ERR_INVALID_SEQ then upd_ch i (\<lambda>ch. ch\<lparr>ch_active := False\<rparr>) t else t)"
  shows "owed u i = frames c CTAPHID_ERROR [er]"
    and "ch_active (channels u ! i) \<longleftrightarrow> ch_active (channels t ! i) \<and> er \<noteq> CTAPHID_ERR_INVALID_SEQ"
    and "j < 8 \<Longrightarrow> j \<noteq> i \<Longrightarrow> owed u j = owed t j"
proof -
  let ?t = "if er = CTAPHID_ERR_INVALID_SEQ then upd_ch i (\<lambda>ch. ch\<lparr>ch_active := False\<rparr>) t else t"
  from find_channel_Some [OF assms(2)] have i: "i < 8" "c \<noteq> 0" "ch_cid (channels t ! i) = c" by auto
  have ok: "hid_ok ?t" using keeps_ok [OF clear_keeps [OF assms(1) i(1)]] assms(1) by simp
  have l: "length (channels t) = 8" using assms(1) by (simp add: hid_ok_def)
  have f: "find_channel ?t c = Some i" using find_channel_eq [OF ok i(1) _ i(2)] i l by simp
  have o: "owed ?t j = owed t j" for j by (simp add: owed_upd)
  note e = owed_error [OF ok f, where er = er]
  show "owed u i = frames c CTAPHID_ERROR [er]" unfolding u_def by (rule e(1))
  show "ch_active (channels u ! i) \<longleftrightarrow> ch_active (channels t ! i) \<and> er \<noteq> CTAPHID_ERR_INVALID_SEQ"
    unfolding u_def e(3) using i l by simp
  show "j < 8 \<Longrightarrow> j \<noteq> i \<Longrightarrow> owed u j = owed t j" unfolding u_def using e(2) o by simp
qed

section \<open>Draining the queues\<close>

text \<open>The transport keeps the contract of a device with eight queues as long as nothing is cancelled.\<close>

interpretation hid_queues: fetch_queue "\<lambda>s. hid_ok s \<and> \<not> ctap2_cancelled s" 8 owed
  ctaphid_get_response_packet
proof unfold_locales
  fix s :: "'a ctaphid"
  assume s: "hid_ok s \<and> \<not> ctap2_cancelled s"
  obtain r t where r: "ctaphid_get_response_packet s = (r, t)" by (cases "ctaphid_get_response_packet s")
  have "ctap2_cancelled t = ctap2_cancelled s"
    using r by (auto simp: ctaphid_get_response_packet_def pick_next_response_channel_def
        split: option.splits prod.splits if_splits)
  with fetch_cases [OF _ r] keeps_ok [of "{}" s t] s r
  show "hid_ok (snd (ctaphid_get_response_packet s)) \<and>
      \<not> ctap2_cancelled (snd (ctaphid_get_response_packet s))" by auto
next
  fix s t :: "'a ctaphid" and p
  assume "hid_ok s \<and> \<not> ctap2_cancelled s" "ctaphid_get_response_packet s = (Some p, t)"
  with fetch_cases [of s "Some p" t]
  show "\<exists>i < 8. owed s i = p # owed t i \<and> (\<forall>j < 8. j \<noteq> i \<longrightarrow> owed t j = owed s j)" by simp
next
  fix s t :: "'a ctaphid"
  assume "hid_ok s \<and> \<not> ctap2_cancelled s" "ctaphid_get_response_packet s = (None, t)"
  with fetch_cases [of s None t] show "t = s \<and> (\<forall>i < 8. owed s i = [])" by simp
qed

section \<open>A state to start from\<close>

definition quiet :: "unit ctaphid" where
  "quiet =
    \<lparr>hid_initialized = False, next_cid = 0, channels = [], init_buffer = [], current_cid = 0,
     response_rr_index = 0, rate_window_start = 0, rate_cmd_count = 0, cbor_cmd_count = 0,
     msg_cmd_count = 0, s_msg_buffers = replicate 8 (replicate 2048 0),
     s_response_buffers = replicate 8 (replicate 2048 0), ctap2_initialized = True,
     ctap2_operation_pending = False, ctap2_cancelled = False, app = (), effects = []\<rparr>"

definition quiet_env :: "unit fido_env" where
  "quiet_env = \<lparr>e_command = (\<lambda>c params buf len a. (0, buf, min 1 len, False, a)),
    e_u2f = (\<lambda>req a. ([0x6D, 0x00], a))\<rparr>"

definition booted :: "unit ctaphid" where
  "booted = snd (ctaphid_init True quiet)"

definition one_channel :: "unit ctaphid" where
  "one_channel = init_channel_slot 0 1 booted"

lemma quiet_fits: "fido_fits quiet_env"
  by (simp add: fido_fits_def quiet_env_def)

lemma quiet_buffers: "buffers_ok (s_msg_buffers quiet)" "buffers_ok (s_response_buffers quiet)"
  by (simp_all add: quiet_def buffers_ok_def)

lemma booted_ok: "hid_ok booted"
  unfolding booted_def using quiet_buffers by (rule init_hid_ok)

lemma booted_channels: "channels booted = replicate 8 zero_channel"
  by (simp add: booted_def ctaphid_init_def)

lemma booted_find: "find_channel booted c = None"
  by (simp add: find_channel_def booted_channels find_None_iff zero_channel_def)

lemma one_channel_ok: "hid_ok one_channel"
  unfolding one_channel_def using booted_ok booted_find by (intro hid_ok_slot) auto

lemma one_channel_slot: "channels one_channel ! 0 = fresh_slot 1 zero_channel"
  by (simp add: one_channel_def init_channel_slot_def booted_channels)

lemma one_channel_find: "find_channel one_channel 1 = Some 0"
  by (rule find_channel_eq [OF one_channel_ok]) (simp_all add: one_channel_slot fresh_slot_def)

lemma one_channel_fields:
  "hid_initialized one_channel" "\<not> ch_active (channels one_channel ! 0)" "rate_cmd_count one_channel = 0"
  "\<not> ctap2_cancelled one_channel"
  by (simp_all add: one_channel_slot fresh_slot_def zero_channel_def)
    (simp_all add: one_channel_def init_channel_slot_def booted_def ctaphid_init_def quiet_def)

section \<open>Properties\<close>

text \<open>
  C24. Whatever the host sends, and however packets, fetches and time-out checks are interleaved, the
  transport stays well-formed: every message being assembled lies within its buffer of 2048 bytes,
  every response within its own, no two channels have the same identifier, and none has the
  broadcast identifier.
\<close>

theorem hid_bounded:
  assumes "fido_fits e" and "hid_reach e s"
  shows "hid_ok s"
  using assms by (intro reach_hid_ok)

theorem hid_bounded_witness:
  "hid_ok (hid_step quiet_env (Packet 5 6 (hd (frames 0xFFFFFFFF CTAPHID_INIT [1, 2, 3, 4, 5, 6, 7, 8]))) booted)"
proof (rule hid_bounded [OF quiet_fits])
  have "length (hd (frames 0xFFFFFFFF CTAPHID_INIT [1, 2, 3, 4, 5, 6, 7, 8])) = 64"
    by (simp add: frames_def pad_def cid_bytes_def)
  then show "hid_reach quiet_env (hid_step quiet_env
      (Packet 5 6 (hd (frames 0xFFFFFFFF CTAPHID_INIT [1, 2, 3, 4, 5, 6, 7, 8]))) booted)"
    unfolding booted_def using quiet_buffers by (intro hid_reach.step hid_reach.boot) simp_all
qed

text \<open>
  C4. A message is put together from its packets whatever else goes on: if the packets of a message
  arrive on a channel in order, among any packets of other channels and any fetches, the handler of
  its command is called with exactly this message, once the last packet is there.
\<close>

theorem hid_assembly:
  assumes "fido_fits e" and "hid_ok s" and "hid_initialized s" and "find_channel s c = Some i"
    and "\<not> ch_active (channels s ! i)" and "length m \<le> 2048" and "unat cmd < 128"
    and "cmd \<noteq> CTAPHID_INIT" and "own_packets c evs = frames c cmd m" and "list_all untimed evs"
    and "own_packets c [hd evs] \<noteq> []" and "own_packets c [last evs] \<noteq> []"
    and "unat (rate_cmd_count s) + length evs \<le> 200"
  shows "\<exists>t. fold (hid_step e) evs s = process_slot e i t \<and>
    ch_cid (channels t ! i) = c \<and> ch_cmd (channels t ! i) = cmd \<and>
    take (unat (ch_bcnt (channels t ! i))) (s_msg_buffers t ! i) = m"
proof -
  from whole_message [OF assms] obtain t where
    t: "fold (hid_step e) evs s = process_slot e i t" "received t i c cmd m" by blast
  then show ?thesis
    using assms(6) by (auto simp: received_def Let_def unat_of_nat_u16 intro!: exI [of _ t])
qed

definition two_packets :: bytes where
  "two_packets = replicate 57 7 @ [8, 9, 10]"

definition mixed_events :: "hid_event list" where
  "mixed_events =
    [Packet 1 1 (frames 1 CTAPHID_PING two_packets ! 0), Fetch, Packet 2 2 (pad 64 (cid_bytes 2)),
     Packet 3 3 (frames 1 CTAPHID_PING two_packets ! 1)]"

lemma two_frames: "frames 1 cmd two_packets =
    [pad 64 (cid_bytes 1 @ (cmd OR 0x80) # 0 # 60 # replicate 57 7), pad 64 (cid_bytes 1 @ [0, 8, 9, 10])]"
  by (simp add: frames_def two_packets_def cont_frames_cons byte_at_def)

lemma mixed_own: "own_packets 1 mixed_events = frames 1 CTAPHID_PING two_packets"
  "own_packets 1 [hd mixed_events] \<noteq> []" "own_packets 1 [last mixed_events] \<noteq> []"
  using frame_cid [of 2 "[]"]
  by (simp_all add: mixed_events_def two_frames frame_cid)

lemma mixed_untimed: "list_all untimed mixed_events"
  by (simp add: mixed_events_def two_frames pad_length cid_bytes_def)

theorem hid_assembly_witness:
  "\<exists>t. fold (hid_step quiet_env) mixed_events one_channel = process_slot quiet_env 0 t \<and>
    ch_cid (channels t ! 0) = 1 \<and> ch_cmd (channels t ! 0) = CTAPHID_PING \<and>
    take (unat (ch_bcnt (channels t ! 0))) (s_msg_buffers t ! 0) = two_packets"
  by (rule hid_assembly [OF quiet_fits one_channel_ok _ one_channel_find _ _ _ _ mixed_own(1) mixed_untimed
        mixed_own(2,3)])
    (simp_all add: one_channel_fields two_packets_def mixed_events_def)

text \<open>
  A ping comes back packet for packet: when its packets have arrived, among any other traffic,
  the channel owes the host exactly the packets the host has sent.
\<close>

theorem hid_ping_echo:
  assumes "fido_fits e" and "hid_ok s" and "hid_initialized s" and "find_channel s c = Some i"
    and "\<not> ch_active (channels s ! i)" and "length m \<le> 2048"
    and "own_packets c evs = frames c CTAPHID_PING m" and "list_all untimed evs"
    and "own_packets c [hd evs] \<noteq> []" and "own_packets c [last evs] \<noteq> []"
    and "unat (rate_cmd_count s) + length evs \<le> 200"
  shows "owed (fold (hid_step e) evs s) i = own_packets c evs"
proof -
  have "c \<noteq> 0" using find_channel_Some [OF assms(4)] by simp
  moreover from whole_message [OF assms(1-6) _ _ assms(7-11)] obtain t where
    "fold (hid_step e) evs s = process_slot e i t" "received t i c CTAPHID_PING m" by auto
  ultimately show ?thesis using owed_ping [OF _ assms(6)] assms(7) by simp
qed

theorem hid_ping_echo_witness:
  "owed (fold (hid_step quiet_env) mixed_events one_channel) 0 = own_packets 1 mixed_events"
  by (rule hid_ping_echo [OF quiet_fits one_channel_ok _ one_channel_find _ _ mixed_own(1) mixed_untimed
        mixed_own(2,3)])
    (simp_all add: one_channel_fields two_packets_def mixed_events_def)

text \<open>
  C25. Fetching a packet pops the queue of one channel: the packet is the next one of the response
  of that channel in the numbering of the specification, no other channel's queue changes, and no
  message being assembled is touched. A fetch without a packet means that nothing is owed, or that
  the host has cancelled.
\<close>

theorem hid_fetch_pops:
  assumes "hid_ok s"
  shows "case ctaphid_get_response_packet s of
      (None, t) \<Rightarrow> (\<forall>i < 8. owed s i = []) \<and> t = s \<or> ctap2_cancelled s
    | (Some p, t) \<Rightarrow> keeps {} s t \<and>
        (\<exists>i < 8. owed s i = p # owed t i \<and> (\<forall>j < 8. j \<noteq> i \<longrightarrow> owed t j = owed s j))"
  using fetch_cases [OF assms] by (auto split: option.splits prod.splits)

theorem hid_fetch_pops_witness:
  "case ctaphid_get_response_packet one_channel of
      (None, t) \<Rightarrow> (\<forall>i < 8. owed one_channel i = []) \<and> t = one_channel \<or> ctap2_cancelled one_channel
    | (Some p, t) \<Rightarrow> keeps {} one_channel t \<and>
        (\<exists>i < 8. owed one_channel i = p # owed t i \<and> (\<forall>j < 8. j \<noteq> i \<longrightarrow> owed t j = owed one_channel j))"
  by (rule hid_fetch_pops [OF one_channel_ok])





text \<open>An overdue message is given up, and nothing in the check starts it again.\<close>

lemma expire_inactive:
  assumes "hid_ok s" and "i < 8" and "j < 8" and "\<not> ch_active (channels s ! j)"
  shows "\<not> ch_active (channels (expire_channel now i s) ! j)"
proof (cases "j = i")
  case True
  with assms(4) show ?thesis by (simp add: expire_channel_def Let_def)
next
  case False
  with expire_keeps [OF assms(1,2)] assms(3,4) show ?thesis by (simp add: keeps_def)
qed

lemma expire_overdue_inactive:
  assumes "hid_ok s" and "i < 8" and "overdue now s i"
  shows "\<not> ch_active (channels (expire_channel now i s) ! i)"
proof -
  have "length (channels (ctaphid_send_error c er s)) = 8" for c er
    using keeps_ok [OF send_error_keeps [OF assms(1)]] by (simp add: hid_ok_def)
  with assms(2,3) show ?thesis by (simp add: expire_channel_def Let_def overdue_def)
qed

lemma expired_inactive:
  assumes "hid_ok s" and "set xs \<subseteq> {..<8}" and "j < 8"
    and "\<not> ch_active (channels s ! j) \<or> overdue now s j \<and> j \<in> set xs"
  shows "\<not> ch_active (channels (fold (expire_channel now) xs s) ! j)"
  using assms
proof (induction xs arbitrary: s)
  case (Cons i xs)
  have i: "i < 8" using Cons.prems(2) by simp
  have "hid_ok (expire_channel now i s)" using keeps_ok [OF expire_keeps [OF Cons.prems(1) i]] .
  moreover have "\<not> ch_active (channels (expire_channel now i s) ! j) \<or>
      overdue now (expire_channel now i s) j \<and> j \<in> set xs"
    using Cons.prems(3,4) expire_inactive [OF Cons.prems(1) i Cons.prems(3)]
      expire_overdue_inactive [OF Cons.prems(1) i] expire_overdue(1) [OF Cons.prems(1) i Cons.prems(3), of now]
    by (cases "j = i") auto
  ultimately show ?case using Cons.IH Cons.prems(2,3) by simp
qed simp

text \<open>
  After a time-out check no message that has been waiting for its next packet for more than
  500 ms is in progress, and the younger ones are untouched.
\<close>

theorem hid_timeout:
  assumes "hid_ok s" and "hid_initialized s"
  shows "\<forall>i < 8. let t = ctaphid_check_timeout now s in
    (if overdue now s i then \<not> ch_active (channels t ! i)
     else ch_active (channels s ! i) \<longrightarrow> assembly t i = assembly s i) \<and> \<not> overdue now t i"
proof (intro allI impI)
  fix i :: nat
  assume i: "i < 8"
  let ?t = "ctaphid_check_timeout now s"
  have t: "?t = fold (expire_channel now) [0..<8] s" using assms(2) by (simp add: ctaphid_check_timeout_def)
  have all: "\<not> overdue now ?t i \<and> (\<not> overdue now s i \<longrightarrow> ch_active (channels s ! i) \<longrightarrow>
      assembly ?t i = assembly s i)"
    using expire_all [OF assms(1), of "[0..<8]" now] i by (simp add: t subset_iff)
  moreover have "overdue now s i \<longrightarrow> \<not> ch_active (channels ?t ! i)"
    using expired_inactive [OF assms(1) _ i, of "[0..<8]" now] i by (simp add: t subset_iff)
  ultimately show "let t = ?t in
    (if overdue now s i then \<not> ch_active (channels t ! i)
     else ch_active (channels s ! i) \<longrightarrow> assembly t i = assembly s i) \<and> \<not> overdue now t i"
    by (simp add: Let_def)
qed

definition waiting :: "unit ctaphid" where
  "waiting = upd_ch 0 (\<lambda>ch. ch\<lparr>ch_cmd := CTAPHID_PING, ch_bcnt := 100, ch_offset := 57,
    ch_active := True\<rparr>) one_channel"

lemma waiting_ok: "hid_ok waiting"
  unfolding waiting_def
  by (rule hid_ok_upd [OF one_channel_ok])
    (simp_all add: one_channel_slot channel_ok_def fresh_slot_def zero_channel_def)

theorem hid_timeout_witness:
  "overdue 700 waiting 0 \<and> \<not> ch_active (channels (ctaphid_check_timeout 700 waiting) ! 0)"
proof -
  have "length (channels one_channel) = 8" using one_channel_ok by (simp add: hid_ok_def)
  then have o: "overdue 700 waiting 0"
    by (simp add: overdue_def waiting_def one_channel_slot fresh_slot_def zero_channel_def)
  have i: "hid_initialized waiting" using one_channel_fields(1) by (simp add: waiting_def)
  from o hid_timeout [OF waiting_ok i, of 700] show ?thesis by (simp add: Let_def)
qed

section \<open>Where the code falls short\<close>

text \<open>
  A cancel stays latched until the next INIT or CBOR command: every response fetched meanwhile is
  dropped, a ping's or a U2F response's too, although nothing of theirs was cancelled.
\<close>

lemma hid_cancel_drops_responses:
  assumes "ctap2_cancelled s"
  shows "fst (ctaphid_get_response_packet (dispatch_message e c CTAPHID_PING dat len s)) = None"
proof -
  have "ctap2_cancelled (dispatch_message e c CTAPHID_PING dat len s)"
    using assms
    by (simp add: dispatch_message_def handle_ping_def prepare_response_def prepare_response_on_def
        Let_def split: option.splits)
  then show ?thesis
    by (simp add: ctaphid_get_response_packet_def ctap2_is_cancelled_def split: option.splits prod.splits)
qed

text \<open>
  An INIT on a channel with a message in progress does not end that message, so the next command
  on the channel is refused as busy until the time-out.
\<close>

lemma hid_init_no_resync:
  assumes "hid_ok s" and "length p = 64" and "i < 8" and "ch_active (channels s ! i)"
    and "be16 (p ! 5) (p ! 6) \<le> 2048" and "c = ch_cid (channels s ! i)"
  shows "ch_active (channels (process_init_packet e now c CTAPHID_INIT p s) ! i)"
proof -
  let ?s1 = "s\<lparr>init_buffer := overwrite 0 (take 57 (drop 7 p)) (init_buffer s)\<rparr>"
  have ok: "hid_ok ?s1" using assms(1,2) by (simp add: hid_ok_def overwrite_length)
  then have "8 \<le> length (init_buffer ?s1)" by (simp only: hid_ok_def)
  from init_keeps [OF ok this, of c "be16 (p ! 5) (p ! 6)"] assms
  show ?thesis
    by (simp add: process_init_packet_def process_complete_message_def dispatch_message_def Let_def
        keeps_def not_less [symmetric])
qed

text \<open>The error for an unknown channel opens that channel, so that its next packet is accepted.\<close>

lemma hid_error_opens_channel:
  assumes "hid_ok s" and "find_channel s c = None" and "c \<noteq> 0" and "c \<noteq> CTAPHID_BROADCAST_CID"
    and "alloc_channel c s = (Some i, t)"
  shows "find_channel (ctaphid_send_error c er s) c = Some i"
proof -
  have k: "keeps {} s t" and i: "i < 8" using alloc_keeps [OF assms(1,4,5)] by auto
  have ok: "hid_ok (ctaphid_send_error c er s)" using send_error_keeps [OF assms(1)] by (rule keeps_ok)
  have l: "length (channels s) = 8" using assms(1) by (simp add: hid_ok_def)
  have "ch_cid (channels t ! i) = c"
    using assms(2,5) i l
    by (auto simp: alloc_channel_def init_channel_slot_def fresh_slot_def split: option.splits)
  moreover have "ctaphid_send_error c er s = prepare_response_on i c CTAPHID_ERROR (Some [er]) 1 t"
    using assms by (simp add: ctaphid_send_error_def error_channel_def)
  moreover have "length (channels t) = 8" using keeps_ok [OF k] by (simp add: hid_ok_def)
  ultimately have "ch_cid (channels (ctaphid_send_error c er s) ! i) = c"
    using i by (simp add: prepare_response_on_def Let_def)
  then show ?thesis by (rule find_channel_eq [OF ok i _ assms(3)])
qed

text \<open>The counter of the limiter is a byte: the 256th packet of a window passes again.\<close>

lemma hid_rate_wraps: "rate_cmd_count s = 255 \<Longrightarrow> fst (rate_check now s)"
  by (simp add: rate_check_def)

end
