(* ===== verification/Fido2_Storage.thy ===== *)
theory Fido2_Storage
  imports Prelude
begin

text \<open>
  The credential store of the FIDO2 module (\<^verbatim>\<open>components/mod_fido2/src/fido2_storage.cpp\<close>): the cache of
  the credentials, their records in the R-Memory of the secure element, their keys in its ECC slots,
  and the counter and settings in the flash.

  The secure element and the flash are a record of functions (\<^verbatim>\<open>fido2_hw\<close>) on a state of type \<^typ>\<open>'e\<close>,
  which may answer every call differently, fail included. An array of characters that holds a C
  string is the list of all its bytes where it is copied as it is, and the string (\<^verbatim>\<open>cstr\<close>) where it is
  read as one. A slot is a natural number; the narrow integers the code passes it in hold it, since
  there are at most 32 slots.
\<close>

section \<open>Hardware\<close>

text \<open>A blob in the flash that is read into a buffer: absent, there, or not readable.\<close>

datatype nvs_blob = Blob_Missing | Blob bytes | Blob_Failed

record 'e fido2_hw =
  hw_present :: bool
  hw_rmemRead :: "u16 \<Rightarrow> 'e \<Rightarrow> bytes option \<times> 'e"
  hw_rmemErase :: "u16 \<Rightarrow> 'e \<Rightarrow> 'e"
  hw_rmemWrite :: "u16 \<Rightarrow> bytes \<Rightarrow> 'e \<Rightarrow> bool \<times> 'e"
  hw_eccDelete :: "byte \<Rightarrow> 'e \<Rightarrow> 'e"
  hw_eccGenerate :: "byte \<Rightarrow> byte \<Rightarrow> 'e \<Rightarrow> bool \<times> 'e"
  hw_eccGetPublicKey :: "byte \<Rightarrow> 'e \<Rightarrow> bytes option \<times> 'e"
  hw_eccSlotUsed :: "byte \<Rightarrow> 'e \<Rightarrow> bool \<times> 'e"
  hw_ecdsaSign :: "byte \<Rightarrow> bytes \<Rightarrow> 'e \<Rightarrow> bytes option \<times> 'e"
  hw_eddsaSign :: "byte \<Rightarrow> bytes \<Rightarrow> 'e \<Rightarrow> bytes option \<times> 'e"
  hw_getRandom :: "nat \<Rightarrow> 'e \<Rightarrow> bytes option \<times> 'e"
  hw_nvs_counter :: "'e \<Rightarrow> u32 option \<times> 'e"
  hw_nvs_set_counter :: "u32 \<Rightarrow> 'e \<Rightarrow> bool \<times> 'e"
  hw_nvs_u8 :: "string \<Rightarrow> 'e \<Rightarrow> byte option \<times> 'e"
  hw_nvs_set_u8 :: "string \<Rightarrow> byte \<Rightarrow> 'e \<Rightarrow> bool \<times> 'e"
  hw_nvs_blob :: "nat \<Rightarrow> 'e \<Rightarrow> nvs_blob \<times> 'e"
  hw_nvs_blob_length :: "'e \<Rightarrow> nat option \<times> 'e"
  hw_nvs_set_blob :: "bytes \<Rightarrow> 'e \<Rightarrow> bool \<times> 'e"
  hw_nvs_erase :: "'e \<Rightarrow> 'e"

section \<open>State\<close>

abbreviation (input) "FIDO2_MAX_CREDENTIALS \<equiv> (32 :: nat)"
abbreviation (input) "FIDO2_RP_ID_MAX_LEN \<equiv> (64 :: nat)"
abbreviation (input) "FIDO2_USER_ID_MAX_LEN \<equiv> (64 :: nat)"
abbreviation (input) "FIDO2_USER_NAME_MAX_LEN \<equiv> (32 :: nat)"
abbreviation (input) "FIDO2_CRED_ID_LEN \<equiv> (64 :: nat)"
abbreviation (input) "FIDO2_STORED_SIZE \<equiv> (227 :: nat)"
abbreviation (input) "FIDO2_FLAG_RESIDENT \<equiv> (0x01 :: byte)"
abbreviation (input) "CDC_CURVE_ED25519 \<equiv> (0 :: byte)"
abbreviation (input) "CDC_CURVE_P256 \<equiv> (1 :: byte)"

definition FIDO2_RMEM_MAGIC :: bytes where
  "FIDO2_RMEM_MAGIC = [0x46, 0x49, 0x44, 0x32]"

text \<open>The packed record of a credential, without its constant magic.\<close>

record stored_cred =
  sc_rp_id_hash :: bytes
  sc_rp_id :: bytes
  sc_user_id :: bytes
  sc_user_id_len :: byte
  sc_user_name :: bytes
  sc_sign_count :: u32
  sc_nonce :: bytes
  sc_flags :: byte
  sc_protect :: byte
  sc_curve :: byte
  sc_reserved :: bytes

record cred =
  cr_valid :: bool
  cr_rp_id_hash :: bytes
  cr_rp_id :: bytes
  cr_user_name :: bytes
  cr_user_id :: bytes
  cr_user_id_len :: byte
  cr_sign_count :: u32
  cr_resident :: bool
  cr_protect :: byte
  cr_curve :: byte

record 'e fido2_store =
  fs_initialized :: bool
  fs_auth_counter :: u32
  fs_counter_loaded :: bool
  fs_creds :: "cred list"
  fs_cred_count :: byte
  fs_ecc_start :: byte
  fs_ecc_end :: byte
  fs_rmem_start :: u16
  fs_rmem_end :: u16
  fs_hw :: 'e

record cred_info =
  ci_slot :: nat
  ci_rp_id_hash :: bytes
  ci_rp_id :: bytes
  ci_user_id :: bytes
  ci_user_name :: bytes
  ci_sign_count :: u32
  ci_resident :: bool
  ci_protect :: byte
  ci_curve :: byte

definition zero_cred :: cred where
  "zero_cred = \<lparr>cr_valid = False, cr_rp_id_hash = replicate 32 0, cr_rp_id = [], cr_user_name = [],
     cr_user_id = replicate 64 0, cr_user_id_len = 0, cr_sign_count = 0, cr_resident = False,
     cr_protect = 0, cr_curve = 0\<rparr>"

definition on_hw :: "('e \<Rightarrow> 'a \<times> 'e) \<Rightarrow> 'e fido2_store \<Rightarrow> 'a \<times> 'e fido2_store" where
  "on_hw f s = (case f (fs_hw s) of (r, e) \<Rightarrow> (r, s\<lparr>fs_hw := e\<rparr>))"

definition hw_do :: "('e \<Rightarrow> 'e) \<Rightarrow> 'e fido2_store \<Rightarrow> 'e fido2_store" where
  "hw_do f s = s\<lparr>fs_hw := f (fs_hw s)\<rparr>"

definition set_cred :: "nat \<Rightarrow> (cred \<Rightarrow> cred) \<Rightarrow> 'e fido2_store \<Rightarrow> 'e fido2_store" where
  "set_cred i f s = s\<lparr>fs_creds := (fs_creds s)[i := f (fs_creds s ! i)]\<rparr>"

section \<open>Slots\<close>

definition fido2_storage_set_slot_range ::
    "byte \<Rightarrow> byte \<Rightarrow> u16 \<Rightarrow> u16 \<Rightarrow> 'e fido2_store \<Rightarrow> 'e fido2_store" where
  "fido2_storage_set_slot_range ecc_start ecc_end rmem_start rmem_end s =
     s\<lparr>fs_ecc_start := ecc_start, fs_ecc_end := ecc_end, fs_rmem_start := rmem_start,
       fs_rmem_end := rmem_end\<rparr>"

definition slot_range_valid :: "'e fido2_store \<Rightarrow> bool" where
  "slot_range_valid s \<longleftrightarrow> fs_ecc_start s \<le> fs_ecc_end s \<and> fs_rmem_start s \<le> fs_rmem_end s"

definition ecc_count :: "'e fido2_store \<Rightarrow> nat" where
  "ecc_count s = (if \<not> slot_range_valid s then 0 else unat (fs_ecc_end s) - unat (fs_ecc_start s) + 1)"

definition rmem_count :: "'e fido2_store \<Rightarrow> u16" where
  "rmem_count s = (if \<not> slot_range_valid s then 0 else fs_rmem_end s - fs_rmem_start s + 1)"

definition slot_logical_valid :: "nat \<Rightarrow> 'e fido2_store \<Rightarrow> bool" where
  "slot_logical_valid slot s \<longleftrightarrow> 0 < ecc_count s \<and> slot < ecc_count s"

definition ecc_slot_for_logical :: "'e fido2_store \<Rightarrow> nat \<Rightarrow> byte" where
  "ecc_slot_for_logical s slot = fs_ecc_start s + of_nat slot"

definition rmem_slot_for_logical :: "'e fido2_store \<Rightarrow> nat \<Rightarrow> u16" where
  "rmem_slot_for_logical s slot = (if \<not> slot_range_valid s then 0 else fs_rmem_start s + of_nat slot)"

section \<open>Records in R-Memory\<close>

text \<open>The fields of the packed structure; the counter is stored with its low byte first.\<close>

definition stored_bytes :: "stored_cred \<Rightarrow> bytes" where
  "stored_bytes c = FIDO2_RMEM_MAGIC @ sc_rp_id_hash c @ sc_rp_id c @ sc_user_id c @ [sc_user_id_len c] @
     sc_user_name c @ [byte_at 0 (sc_sign_count c), byte_at 8 (sc_sign_count c),
       byte_at 16 (sc_sign_count c), byte_at 24 (sc_sign_count c)] @
     sc_nonce c @ [sc_flags c, sc_protect c, sc_curve c] @ sc_reserved c"

definition parse_stored :: "bytes \<Rightarrow> stored_cred" where
  "parse_stored d =
     (let field = (\<lambda>pos n. take n (drop pos d)) in
      \<lparr>sc_rp_id_hash = field 4 32, sc_rp_id = field 36 64, sc_user_id = field 100 64,
       sc_user_id_len = d ! 164, sc_user_name = field 165 32,
       sc_sign_count = be32 (d ! 200) (d ! 199) (d ! 198) (d ! 197), sc_nonce = field 201 16,
       sc_flags = d ! 217, sc_protect = d ! 218, sc_curve = d ! 219, sc_reserved = field 220 7\<rparr>)"

definition read_rmem_credential ::
    "'e fido2_hw \<Rightarrow> nat \<Rightarrow> 'e fido2_store \<Rightarrow> stored_cred option \<times> 'e fido2_store" where
  "read_rmem_credential h i s =
     (if \<not> hw_present h then (None, s)
      else
        case on_hw (hw_rmemRead h (rmem_slot_for_logical s i)) s of
          (None, s) \<Rightarrow> (None, s)
        | (Some d, s) \<Rightarrow>
            if length d < FIDO2_STORED_SIZE \<or> take 4 d \<noteq> FIDO2_RMEM_MAGIC then (None, s)
            else (Some (parse_stored d), s))"

definition update_cache_from_stored ::
    "nat \<Rightarrow> stored_cred \<Rightarrow> bool \<Rightarrow> 'e fido2_store \<Rightarrow> 'e fido2_store" where
  "update_cache_from_stored i stored is_resident s =
     set_cred i (\<lambda>c. c\<lparr>cr_valid := True, cr_rp_id_hash := sc_rp_id_hash stored,
         cr_rp_id := take (FIDO2_RP_ID_MAX_LEN - 1) (cstr (sc_rp_id stored)),
         cr_user_name := take (FIDO2_USER_NAME_MAX_LEN - 1) (cstr (sc_user_name stored)),
         cr_user_id_len := sc_user_id_len stored,
         cr_user_id := take (unat (sc_user_id_len stored)) (sc_user_id stored) @
           drop (unat (sc_user_id_len stored)) (cr_user_id c),
         cr_sign_count := sc_sign_count stored, cr_resident := is_resident,
         cr_protect := sc_protect stored, cr_curve := sc_curve stored\<rparr>) s"

definition erase_slot_data :: "'e fido2_hw \<Rightarrow> nat \<Rightarrow> 'e fido2_store \<Rightarrow> 'e fido2_store" where
  "erase_slot_data h i s =
     (if \<not> hw_present h then s
      else hw_do (hw_rmemErase h (rmem_slot_for_logical s i))
        (hw_do (hw_eccDelete h (ecc_slot_for_logical s i)) s))"

definition write_rmem_credential ::
    "'e fido2_hw \<Rightarrow> nat \<Rightarrow> stored_cred \<Rightarrow> 'e fido2_store \<Rightarrow> bool \<times> 'e fido2_store" where
  "write_rmem_credential h i stored s =
     (if \<not> hw_present h then (False, s)
      else on_hw (hw_rmemWrite h (rmem_slot_for_logical s i) (stored_bytes stored))
        (hw_do (hw_rmemErase h (rmem_slot_for_logical s i)) s))"

section \<open>Signatures in DER\<close>

text \<open>The index at which the loop over the leading zeros stops.\<close>

function der_skip :: "bytes \<Rightarrow> nat \<Rightarrow> nat" where
  "der_skip mpi skip =
     (if skip + 1 < 32 \<and> mpi ! skip = 0 \<and> mpi ! (skip + 1) AND 0x80 = 0 then der_skip mpi (skip + 1)
      else skip)"
  by pat_completeness auto
termination by (relation "measure (\<lambda>(m, k). 32 - k)") auto

declare der_skip.simps [simp del]

definition encode_der_integer :: "bytes \<Rightarrow> bytes" where
  "encode_der_integer mpi =
     (let skip = der_skip mpi 0;
          pad = (mpi ! skip AND 0x80 \<noteq> 0);
          actual_len = 32 - skip in
      [0x02, of_nat ((if pad then 1 else 0) + actual_len)] @ (if pad then [0x00] else []) @
        take actual_len (drop skip mpi))"

definition raw_sig_to_der :: "bytes \<Rightarrow> bytes" where
  "raw_sig_to_der raw_sig =
     (let body = encode_der_integer (take 32 raw_sig) @ encode_der_integer (drop 32 raw_sig) in
      [0x30, of_nat (length body)] @ body)"

section \<open>Counter and settings\<close>

definition fido2_storage_counter_load :: "'e fido2_hw \<Rightarrow> 'e fido2_store \<Rightarrow> 'e fido2_store" where
  "fido2_storage_counter_load h s =
     (case on_hw (hw_nvs_counter h) s of
        (v, s) \<Rightarrow> s\<lparr>fs_auth_counter := (case v of None \<Rightarrow> 0 | Some c \<Rightarrow> c), fs_counter_loaded := True\<rparr>)"

definition fido2_storage_counter_get :: "'e fido2_hw \<Rightarrow> 'e fido2_store \<Rightarrow> u32 \<times> 'e fido2_store" where
  "fido2_storage_counter_get h s =
     (let s = (if \<not> fs_counter_loaded s then fido2_storage_counter_load h s else s) in
      (fs_auth_counter s, s))"

definition fido2_storage_counter_increment :: "'e fido2_hw \<Rightarrow> 'e fido2_store \<Rightarrow> bool \<times> 'e fido2_store" where
  "fido2_storage_counter_increment h s =
     (let s = (if \<not> fs_counter_loaded s then fido2_storage_counter_load h s else s);
          new_value = fs_auth_counter s + 1 in
      case on_hw (hw_nvs_set_counter h new_value) s of
        (False, s) \<Rightarrow> (False, s)
      | (True, s) \<Rightarrow> (True, s\<lparr>fs_auth_counter := new_value\<rparr>))"

abbreviation (input) "LARGE_BLOB_MAX_ARRAY \<equiv> (1024 :: nat)"

definition kLargeBlobEmpty :: bytes where
  "kLargeBlobEmpty = [0x80, 0x76, 0xbe, 0x8b, 0x52, 0x8d, 0x00, 0x75, 0xf7,
     0xaa, 0xe9, 0x8d, 0x6f, 0xa5, 0x7a, 0x6d, 0x3c]"

definition fido2_storage_largeblob_length :: "'e fido2_hw \<Rightarrow> 'e fido2_store \<Rightarrow> nat \<times> 'e fido2_store" where
  "fido2_storage_largeblob_length h s =
     (case on_hw (hw_nvs_blob_length h) s of
        (None, s) \<Rightarrow> (length kLargeBlobEmpty, s)
      | (Some sz, s) \<Rightarrow> (if sz = 0 then length kLargeBlobEmpty else sz, s))"

text \<open>The bytes at the front of the output buffer, whose number is \<^verbatim>\<open>out_len\<close>.\<close>

definition fido2_storage_largeblob_get ::
    "'e fido2_hw \<Rightarrow> nat \<Rightarrow> 'e fido2_store \<Rightarrow> bytes option \<times> 'e fido2_store" where
  "fido2_storage_largeblob_get h max_len s =
     (case on_hw (hw_nvs_blob h max_len) s of
        (Blob d, s) \<Rightarrow> (Some d, s)
      | (Blob_Failed, s) \<Rightarrow> (None, s)
      | (Blob_Missing, s) \<Rightarrow> (if max_len < length kLargeBlobEmpty then None else Some kLargeBlobEmpty, s))"

definition fido2_storage_largeblob_set ::
    "'e fido2_hw \<Rightarrow> bytes \<Rightarrow> 'e fido2_store \<Rightarrow> bool \<times> 'e fido2_store" where
  "fido2_storage_largeblob_set h d s =
     (if length d = 0 \<or> LARGE_BLOB_MAX_ARRAY < length d then (False, s) else on_hw (hw_nvs_set_blob h d) s)"

definition fido2_storage_get_always_uv :: "'e fido2_hw \<Rightarrow> 'e fido2_store \<Rightarrow> bool \<times> 'e fido2_store" where
  "fido2_storage_get_always_uv h s =
     (case on_hw (hw_nvs_u8 h ''always_uv'') s of
        (None, s) \<Rightarrow> (False, s) | (Some v, s) \<Rightarrow> (v \<noteq> 0, s))"

definition fido2_storage_set_always_uv ::
    "'e fido2_hw \<Rightarrow> bool \<Rightarrow> 'e fido2_store \<Rightarrow> bool \<times> 'e fido2_store" where
  "fido2_storage_set_always_uv h enabled s = on_hw (hw_nvs_set_u8 h ''always_uv'' (if enabled then 1 else 0)) s"

definition fido2_storage_get_min_pin_len :: "'e fido2_hw \<Rightarrow> 'e fido2_store \<Rightarrow> byte \<times> 'e fido2_store" where
  "fido2_storage_get_min_pin_len h s =
     (case on_hw (hw_nvs_u8 h ''min_pin'') s of (None, s) \<Rightarrow> (0, s) | (Some v, s) \<Rightarrow> (v, s))"

definition fido2_storage_set_min_pin_len ::
    "'e fido2_hw \<Rightarrow> byte \<Rightarrow> 'e fido2_store \<Rightarrow> bool \<times> 'e fido2_store" where
  "fido2_storage_set_min_pin_len h min_len s = on_hw (hw_nvs_set_u8 h ''min_pin'' min_len) s"

definition fido2_storage_config_reset :: "'e fido2_hw \<Rightarrow> 'e fido2_store \<Rightarrow> 'e fido2_store" where
  "fido2_storage_config_reset h s = hw_do (hw_nvs_erase h) s"

section \<open>Start-up\<close>

text \<open>One round of the loop that fills the cache.\<close>

definition load_slot :: "'e fido2_hw \<Rightarrow> nat \<Rightarrow> 'e fido2_store \<Rightarrow> 'e fido2_store" where
  "load_slot h i s =
     (case read_rmem_credential h i s of
        (None, s) \<Rightarrow> s
      | (Some stored, s) \<Rightarrow>
          let s = update_cache_from_stored i stored (sc_flags stored AND FIDO2_FLAG_RESIDENT \<noteq> 0) s in
          s\<lparr>fs_cred_count := fs_cred_count s + 1\<rparr>)"

definition fido2_storage_init :: "'e fido2_hw \<Rightarrow> 'e fido2_store \<Rightarrow> byte \<times> 'e fido2_store" where
  "fido2_storage_init h s =
     (let s = s\<lparr>fs_initialized := False, fs_auth_counter := 0, fs_counter_loaded := False,
            fs_creds := replicate FIDO2_MAX_CREDENTIALS zero_cred, fs_cred_count := 0\<rparr>;
          s = fido2_storage_counter_load h s in
      if \<not> hw_present h then (0, s)
      else if \<not> slot_range_valid s then (0, s)
      else if unat (rmem_count s) < ecc_count s then (0, s)
      else
        let s = fold (load_slot h) [0..<min (ecc_count s) FIDO2_MAX_CREDENTIALS] s;
            s = s\<lparr>fs_initialized := True\<rparr> in
        (fs_cred_count s, s))"

section \<open>Lookup\<close>

definition fido2_storage_count :: "'e fido2_store \<Rightarrow> byte" where
  "fido2_storage_count s = fs_cred_count s"

definition fido2_storage_slot_used :: "nat \<Rightarrow> 'e fido2_store \<Rightarrow> bool" where
  "fido2_storage_slot_used slot s \<longleftrightarrow> slot_logical_valid slot s \<and> cr_valid (fs_creds s ! slot)"

text \<open>The slots the loops over the cache visit.\<close>

definition cache_slots :: "'e fido2_store \<Rightarrow> nat list" where
  "cache_slots s = [0..<min (ecc_count s) FIDO2_MAX_CREDENTIALS]"

definition fido2_storage_find_free_slot :: "'e fido2_store \<Rightarrow> nat option" where
  "fido2_storage_find_free_slot s = find (\<lambda>i. \<not> cr_valid (fs_creds s ! i)) (cache_slots s)"

text \<open>What the loops write to \<^verbatim>\<open>out_slots\<close>; the result of the functions is its length.\<close>

definition fido2_storage_find_by_rp :: "bytes \<Rightarrow> nat \<Rightarrow> 'e fido2_store \<Rightarrow> nat list" where
  "fido2_storage_find_by_rp rp_id_hash max_slots s =
     take max_slots (filter (\<lambda>i. cr_valid (fs_creds s ! i) \<and> cr_rp_id_hash (fs_creds s ! i) = rp_id_hash)
       (cache_slots s))"

definition fido2_storage_find_by_rp_resident :: "bytes \<Rightarrow> nat \<Rightarrow> 'e fido2_store \<Rightarrow> nat list" where
  "fido2_storage_find_by_rp_resident rp_id_hash max_slots s =
     take max_slots (filter (\<lambda>i. cr_valid (fs_creds s ! i) \<and>
         (cr_resident (fs_creds s ! i) \<and> cr_rp_id_hash (fs_creds s ! i) = rp_id_hash)) (cache_slots s))"

definition fido2_storage_is_resident :: "nat \<Rightarrow> 'e fido2_store \<Rightarrow> bool" where
  "fido2_storage_is_resident slot s \<longleftrightarrow>
     slot_logical_valid slot s \<and> cr_valid (fs_creds s ! slot) \<and> cr_resident (fs_creds s ! slot)"

definition same_user :: "bytes \<Rightarrow> byte \<Rightarrow> cred \<Rightarrow> bool" where
  "same_user user_id user_id_len c \<longleftrightarrow> cr_user_id_len c = user_id_len \<and>
     (user_id_len = 0 \<or> take (unat user_id_len) (cr_user_id c) = take (unat user_id_len) user_id)"

definition fido2_storage_find_by_rp_user :: "bytes \<Rightarrow> bytes \<Rightarrow> byte \<Rightarrow> 'e fido2_store \<Rightarrow> nat option" where
  "fido2_storage_find_by_rp_user rp_id_hash user_id user_id_len s =
     find (\<lambda>i. cr_valid (fs_creds s ! i) \<and> cr_rp_id_hash (fs_creds s ! i) = rp_id_hash \<and>
       same_user user_id user_id_len (fs_creds s ! i)) (cache_slots s)"

text \<open>A credential identifier: the slot, the nonce, zeros.\<close>

definition cred_id_of :: "nat \<Rightarrow> bytes \<Rightarrow> bytes" where
  "cred_id_of slot nonce = of_nat slot # nonce @ replicate (FIDO2_CRED_ID_LEN - 17) 0"

definition fido2_storage_get_cred_id ::
    "'e fido2_hw \<Rightarrow> nat \<Rightarrow> 'e fido2_store \<Rightarrow> bytes option \<times> 'e fido2_store" where
  "fido2_storage_get_cred_id h slot s =
     (if \<not> fido2_storage_slot_used slot s then (None, s)
      else
        case read_rmem_credential h slot s of
          (None, s) \<Rightarrow> (None, s)
        | (Some stored, s) \<Rightarrow> (Some (cred_id_of slot (sc_nonce stored)), s))"

definition fido2_storage_verify_cred_id ::
    "'e fido2_hw \<Rightarrow> nat \<Rightarrow> bytes \<Rightarrow> 'e fido2_store \<Rightarrow> bool \<times> 'e fido2_store" where
  "fido2_storage_verify_cred_id h slot cred_id s =
     (case fido2_storage_get_cred_id h slot s of
        (None, s) \<Rightarrow> (False, s)
      | (Some stored_id, s) \<Rightarrow> (stored_id = cred_id, s))"

definition fido2_storage_find_slot_by_cred_id ::
    "'e fido2_hw \<Rightarrow> bytes \<Rightarrow> 'e fido2_store \<Rightarrow> nat option \<times> 'e fido2_store" where
  "fido2_storage_find_slot_by_cred_id h cred_id s =
     (if length cred_id \<noteq> FIDO2_CRED_ID_LEN then (None, s)
      else
        let slot = unat (hd cred_id) in
        if \<not> fido2_storage_slot_used slot s then (None, s)
        else
          case fido2_storage_get_cred_id h slot s of
            (None, s) \<Rightarrow> (None, s)
          | (Some stored_id, s) \<Rightarrow> (if stored_id \<noteq> cred_id then None else Some slot, s))"

text \<open>The user handle and the name, which is cut to the size of the caller's buffer.\<close>

definition fido2_storage_get_user ::
    "'e fido2_hw \<Rightarrow> nat \<Rightarrow> nat \<Rightarrow> 'e fido2_store \<Rightarrow> (bytes \<times> bytes) option \<times> 'e fido2_store" where
  "fido2_storage_get_user h slot user_name_max s =
     (if \<not> fido2_storage_slot_used slot s then (None, s)
      else
        case read_rmem_credential h slot s of
          (None, s) \<Rightarrow> (None, s)
        | (Some stored, s) \<Rightarrow>
            let len = unat (sc_user_id_len stored);
                len = (if FIDO2_USER_ID_MAX_LEN < len then FIDO2_USER_ID_MAX_LEN else len);
                copy_len = length (cstr (take FIDO2_USER_NAME_MAX_LEN (sc_user_name stored)));
                copy_len = (if user_name_max \<le> copy_len then user_name_max - 1 else copy_len) in
            (Some (take len (sc_user_id stored), take copy_len (sc_user_name stored)), s))"

section \<open>Credentials\<close>

definition fido2_storage_get_credential ::
    "'e fido2_hw \<Rightarrow> nat \<Rightarrow> 'e fido2_store \<Rightarrow> cred_info option \<times> 'e fido2_store" where
  "fido2_storage_get_credential h slot s =
     (if \<not> fido2_storage_slot_used slot s then (None, s)
      else
        let c = fs_creds s ! slot;
            info = \<lparr>ci_slot = slot, ci_rp_id_hash = cr_rp_id_hash c,
              ci_rp_id = take (FIDO2_RP_ID_MAX_LEN - 1) (cr_rp_id c), ci_user_id = [],
              ci_user_name = take (FIDO2_USER_NAME_MAX_LEN - 1) (cr_user_name c),
              ci_sign_count = cr_sign_count c, ci_resident = cr_resident c,
              ci_protect = cr_protect c, ci_curve = cr_curve c\<rparr> in
        case fido2_storage_get_user h slot FIDO2_USER_NAME_MAX_LEN s of
          (None, s) \<Rightarrow> (Some info, s)
        | (Some (user_id, user_name), s) \<Rightarrow>
            (Some (info\<lparr>ci_user_id := user_id, ci_user_name := user_name\<rparr>), s))"

definition fido2_storage_get_curve :: "nat \<Rightarrow> 'e fido2_store \<Rightarrow> byte" where
  "fido2_storage_get_curve slot s =
     (if \<not> fido2_storage_slot_used slot s then 0xFF else cr_curve (fs_creds s ! slot))"

text \<open>
  The slot of a new credential: that of the one it replaces, which is erased first, or a free one.
\<close>

definition choose_slot ::
    "'e fido2_hw \<Rightarrow> bytes \<Rightarrow> bytes \<Rightarrow> byte \<Rightarrow> 'e fido2_store \<Rightarrow> nat option \<times> 'e fido2_store" where
  "choose_slot h rp_id_hash user_id user_id_len s =
     (case fido2_storage_find_by_rp_user rp_id_hash user_id user_id_len s of
        Some slot \<Rightarrow>
          let s = set_cred slot (\<lambda>c. c\<lparr>cr_valid := False\<rparr>) (erase_slot_data h slot s) in
          (Some slot, s\<lparr>fs_cred_count := fs_cred_count s - 1\<rparr>)
      | None \<Rightarrow> (fido2_storage_find_free_slot s, s))"

text \<open>A new key in the ECC slot, with its public half and the nonce of the identifier.\<close>

definition new_key ::
    "'e fido2_hw \<Rightarrow> byte \<Rightarrow> byte \<Rightarrow> 'e fido2_store \<Rightarrow> (bytes \<times> bytes) option \<times> 'e fido2_store" where
  "new_key h phys_slot curve s =
     (if \<not> hw_present h then (None, s)
      else
        let s = hw_do (hw_eccDelete h phys_slot) s in
        case on_hw (hw_eccGenerate h phys_slot
            (if curve = CDC_CURVE_ED25519 then CDC_CURVE_ED25519 else CDC_CURVE_P256)) s of
          (False, s) \<Rightarrow> (None, s)
        | (True, s) \<Rightarrow>
            (case on_hw (hw_eccGetPublicKey h phys_slot) s of
               (None, s) \<Rightarrow> (None, hw_do (hw_eccDelete h phys_slot) s)
             | (Some pubkey, s) \<Rightarrow>
                 (case on_hw (hw_getRandom h 16) s of
                    (None, s) \<Rightarrow> (None, hw_do (hw_eccDelete h phys_slot) s)
                  | (Some nonce, s) \<Rightarrow> (Some (pubkey, nonce), s))))"

definition new_stored ::
    "bytes \<Rightarrow> bytes \<Rightarrow> bytes \<Rightarrow> byte \<Rightarrow> bytes \<Rightarrow> bool \<Rightarrow> byte \<Rightarrow> byte \<Rightarrow> bytes \<Rightarrow> stored_cred" where
  "new_stored rp_id rp_id_hash user_id user_id_len user_name resident_key cred_protect curve nonce =
     \<lparr>sc_rp_id_hash = rp_id_hash, sc_rp_id = char_field FIDO2_RP_ID_MAX_LEN rp_id,
      sc_user_id = take (unat user_id_len) user_id @ replicate (FIDO2_USER_ID_MAX_LEN - unat user_id_len) 0,
      sc_user_id_len = user_id_len, sc_user_name = char_field FIDO2_USER_NAME_MAX_LEN user_name,
      sc_sign_count = 0, sc_nonce = nonce, sc_flags = (if resident_key then FIDO2_FLAG_RESIDENT else 0),
      sc_protect = cred_protect, sc_curve = curve, sc_reserved = replicate 7 0\<rparr>"

definition fido2_storage_create_credential ::
    "'e fido2_hw \<Rightarrow> bytes \<Rightarrow> bytes \<Rightarrow> bytes \<Rightarrow> byte \<Rightarrow> bytes \<Rightarrow> bool \<Rightarrow> byte \<Rightarrow> byte \<Rightarrow>
      'e fido2_store \<Rightarrow> (nat \<times> bytes \<times> bytes) option \<times> 'e fido2_store" where
  "fido2_storage_create_credential h rp_id rp_id_hash user_id user_id_len user_name resident_key
       cred_protect curve s =
     (if FIDO2_USER_ID_MAX_LEN < unat user_id_len then (None, s)
      else
        case choose_slot h rp_id_hash user_id user_id_len s of
          (None, s) \<Rightarrow> (None, s)
        | (Some slot, s) \<Rightarrow>
            let phys_slot = ecc_slot_for_logical s slot in
            (case new_key h phys_slot curve s of
               (None, s) \<Rightarrow> (None, s)
             | (Some (pubkey, nonce), s) \<Rightarrow>
                 let stored = new_stored rp_id rp_id_hash user_id user_id_len user_name resident_key
                       cred_protect curve nonce in
                 (case write_rmem_credential h slot stored s of
                    (False, s) \<Rightarrow> (None, hw_do (hw_eccDelete h phys_slot) s)
                  | (True, s) \<Rightarrow>
                      let s = update_cache_from_stored slot stored resident_key s in
                      (Some (slot, cred_id_of slot nonce,
                          take (if curve = CDC_CURVE_ED25519 then 32 else 64) pubkey),
                       s\<lparr>fs_cred_count := fs_cred_count s + 1\<rparr>))))"

definition fido2_storage_delete_credential ::
    "'e fido2_hw \<Rightarrow> nat \<Rightarrow> 'e fido2_store \<Rightarrow> bool \<times> 'e fido2_store" where
  "fido2_storage_delete_credential h slot s =
     (if \<not> fido2_storage_slot_used slot s then (False, s)
      else
        let s = set_cred slot (\<lambda>c. c\<lparr>cr_valid := False\<rparr>) (erase_slot_data h slot s) in
        (True, s\<lparr>fs_cred_count := fs_cred_count s - 1\<rparr>))"

definition fido2_storage_increment_sign_count ::
    "'e fido2_hw \<Rightarrow> nat \<Rightarrow> 'e fido2_store \<Rightarrow> u32 \<times> 'e fido2_store" where
  "fido2_storage_increment_sign_count h slot s =
     (if \<not> fido2_storage_slot_used slot s then (0, s)
      else
        let s = set_cred slot (\<lambda>c. c\<lparr>cr_sign_count := cr_sign_count c + 1\<rparr>) s;
            new_count = cr_sign_count (fs_creds s ! slot) in
        case read_rmem_credential h slot s of
          (None, s) \<Rightarrow> (new_count, s)
        | (Some stored, s) \<Rightarrow>
            (new_count, snd (write_rmem_credential h slot (stored\<lparr>sc_sign_count := new_count\<rparr>) s)))"

section \<open>Signing\<close>

definition raw_ecdsa :: "'e fido2_hw \<Rightarrow> nat \<Rightarrow> bytes \<Rightarrow> 'e fido2_store \<Rightarrow> bytes option \<times> 'e fido2_store" where
  "raw_ecdsa h slot msg s =
     (case on_hw (hw_ecdsaSign h (ecc_slot_for_logical s slot) msg) s of
        (None, s) \<Rightarrow> (None, s)
      | (Some raw, s) \<Rightarrow> (if length raw \<noteq> 64 then None else Some raw, s))"

definition fido2_storage_sign ::
    "'e fido2_hw \<Rightarrow> nat \<Rightarrow> bytes \<Rightarrow> 'e fido2_store \<Rightarrow> bytes option \<times> 'e fido2_store" where
  "fido2_storage_sign h slot msg s =
     (if \<not> fido2_storage_slot_used slot s then (None, s)
      else if \<not> hw_present h then (None, s)
      else
        case raw_ecdsa h slot msg s of
          (None, s) \<Rightarrow> (None, s)
        | (Some raw, s) \<Rightarrow> (Some (raw_sig_to_der raw), s))"

definition fido2_storage_sign_raw ::
    "'e fido2_hw \<Rightarrow> nat \<Rightarrow> bytes \<Rightarrow> 'e fido2_store \<Rightarrow> bytes option \<times> 'e fido2_store" where
  "fido2_storage_sign_raw h slot msg s =
     (if \<not> fido2_storage_slot_used slot s then (None, s)
      else if cr_curve (fs_creds s ! slot) = CDC_CURVE_ED25519 then
        if \<not> hw_present h then (None, s) else on_hw (hw_eddsaSign h (ecc_slot_for_logical s slot) msg) s
      else if \<not> hw_present h then (None, s)
      else raw_ecdsa h slot msg s)"

definition fido2_storage_sign_der ::
    "'e fido2_hw \<Rightarrow> nat \<Rightarrow> bytes \<Rightarrow> 'e fido2_store \<Rightarrow> bytes option \<times> 'e fido2_store" where
  "fido2_storage_sign_der h slot msg s =
     (if \<not> fido2_storage_slot_used slot s then (None, s)
      else if \<not> hw_present h then (None, s)
      else
        case raw_ecdsa h slot msg s of
          (None, s) \<Rightarrow> (None, s)
        | (Some raw, s) \<Rightarrow> (Some (raw_sig_to_der raw), s))"

definition fido2_storage_get_pubkey ::
    "'e fido2_hw \<Rightarrow> nat \<Rightarrow> 'e fido2_store \<Rightarrow> bytes option \<times> 'e fido2_store" where
  "fido2_storage_get_pubkey h slot s =
     (if \<not> slot_logical_valid slot s then (None, s)
      else if \<not> hw_present h then (None, s)
      else
        case on_hw (hw_eccSlotUsed h (ecc_slot_for_logical s slot)) s of
          (False, s) \<Rightarrow> (None, s)
        | (True, s) \<Rightarrow> on_hw (hw_eccGetPublicKey h (ecc_slot_for_logical s slot)) s)"

end
