(* ===== verification/Fido2_Accounts.thy ===== *)
theory Fido2_Accounts
  imports Fido2_Storage
begin

text \<open>
  The credential store as a map from accounts to credentials: the invariant of the cache, which holds
  whatever the hardware does, its coherence with the records in the R-Memory of a chip that keeps
  them, and what follows for restarts, creation, lookup and the signature counters.
\<close>

section \<open>Fields the operations leave alone\<close>

text \<open>Two states with the same cache: only the hardware may differ.\<close>

definition same_cache :: "'e fido2_store \<Rightarrow> 'e fido2_store \<Rightarrow> bool" where
  "same_cache s t \<longleftrightarrow> (\<exists>e. t = s\<lparr>fs_hw := e\<rparr>)"

lemma same_cache_refl [simp, intro]: "same_cache s s"
  unfolding same_cache_def by (rule exI [of _ "fs_hw s"]) simp

lemma same_cache_trans: "same_cache s t \<Longrightarrow> same_cache t u \<Longrightarrow> same_cache s u"
  by (auto simp: same_cache_def)

lemma slots_hw [simp]:
  "ecc_count (s\<lparr>fs_hw := e\<rparr>) = ecc_count s"
  "slot_range_valid (s\<lparr>fs_hw := e\<rparr>) = slot_range_valid s"
  "slot_logical_valid i (s\<lparr>fs_hw := e\<rparr>) = slot_logical_valid i s"
  "rmem_slot_for_logical (s\<lparr>fs_hw := e\<rparr>) i = rmem_slot_for_logical s i"
  "ecc_slot_for_logical (s\<lparr>fs_hw := e\<rparr>) i = ecc_slot_for_logical s i"
  "rmem_count (s\<lparr>fs_hw := e\<rparr>) = rmem_count s"
  "cache_slots (s\<lparr>fs_hw := e\<rparr>) = cache_slots s"
  "fido2_storage_slot_used i (s\<lparr>fs_hw := e\<rparr>) = fido2_storage_slot_used i s"
  by (simp_all add: ecc_count_def slot_range_valid_def slot_logical_valid_def rmem_slot_for_logical_def
      ecc_slot_for_logical_def rmem_count_def cache_slots_def fido2_storage_slot_used_def)

lemma same_cacheD:
  assumes "same_cache s t"
  shows "fs_creds t = fs_creds s" "fs_cred_count t = fs_cred_count s" "ecc_count t = ecc_count s"
    "slot_range_valid t = slot_range_valid s" "slot_logical_valid i t = slot_logical_valid i s"
    "rmem_slot_for_logical t i = rmem_slot_for_logical s i" "ecc_slot_for_logical t i = ecc_slot_for_logical s i"
    "rmem_count t = rmem_count s" "cache_slots t = cache_slots s"
    "fido2_storage_slot_used i t = fido2_storage_slot_used i s"
  using assms by (auto simp: same_cache_def)

lemma same_cache_iff:
  "same_cache s t \<longleftrightarrow> fs_initialized t = fs_initialized s \<and> fs_auth_counter t = fs_auth_counter s \<and>
     fs_counter_loaded t = fs_counter_loaded s \<and> fs_creds t = fs_creds s \<and> fs_cred_count t = fs_cred_count s \<and>
     fs_ecc_start t = fs_ecc_start s \<and> fs_ecc_end t = fs_ecc_end s \<and> fs_rmem_start t = fs_rmem_start s \<and>
     fs_rmem_end t = fs_rmem_end s"
  by (cases s; cases t) (auto simp: same_cache_def)

lemma same_cache_hw_do [simp]: "same_cache s (hw_do f t) = same_cache s t"
proof -
  have "same_cache (hw_do f t) t"
    unfolding same_cache_def hw_do_def by (rule exI [of _ "fs_hw t"]) simp
  moreover have "same_cache t (hw_do f t)" by (auto simp: same_cache_def hw_do_def)
  ultimately show ?thesis using same_cache_trans by blast
qed

lemma same_cache_on_hw: "on_hw g s = (r, t) \<Longrightarrow> same_cache u t = same_cache u s"
  using same_cache_hw_do [of u "\<lambda>e. snd (g e)" s] by (auto simp: on_hw_def hw_do_def split: prod.splits)

lemma same_cache_read: "same_cache s (snd (read_rmem_credential h i s))"
  by (auto simp: read_rmem_credential_def same_cache_on_hw [of _ s] split: prod.split option.split)

lemma same_cache_write: "same_cache s (snd (write_rmem_credential h i st s))"
  using same_cache_on_hw [of "hw_rmemWrite h (rmem_slot_for_logical s i) (stored_bytes st)"
    "hw_do (hw_rmemErase h (rmem_slot_for_logical s i)) s"]
  by (auto simp: write_rmem_credential_def) (metis prod.collapse same_cache_hw_do same_cache_refl)

lemma same_cache_erase: "same_cache s (erase_slot_data h i s)"
  by (simp add: erase_slot_data_def)

lemma same_cache_new_key: "same_cache s (snd (new_key h p c s))"
  by (auto simp: new_key_def Let_def same_cache_on_hw split: prod.split option.split bool.split)

section \<open>The cache\<close>

definition cred_ok :: "cred \<Rightarrow> bool" where
  "cred_ok c \<longleftrightarrow> length (cr_user_id c) = 64 \<and> unat (cr_user_id_len c) \<le> 64"

text \<open>The account a credential is for: the relying party and the user handle.\<close>

definition account :: "cred \<Rightarrow> bytes \<times> bytes" where
  "account c = (cr_rp_id_hash c, take (unat (cr_user_id_len c)) (cr_user_id c))"

text \<open>
  The invariant of the cache: the counter counts the credentials, which all lie in the configured
  range, and no two are for the same account.
\<close>

definition store_ok :: "'e fido2_store \<Rightarrow> bool" where
  "store_ok s \<longleftrightarrow> length (fs_creds s) = 32 \<and> ecc_count s \<le> 32 \<and>
     unat (fs_cred_count s) = length (filter cr_valid (fs_creds s)) \<and>
     (\<forall>i < 32. cred_ok (fs_creds s ! i)) \<and> (\<forall>i < 32. cr_valid (fs_creds s ! i) \<longrightarrow> i < ecc_count s) \<and>
     (\<forall>i < 32. cr_valid (fs_creds s ! i) \<longrightarrow> (\<forall>j < 32. cr_valid (fs_creds s ! j) \<longrightarrow>
       account (fs_creds s ! i) = account (fs_creds s ! j) \<longrightarrow> i = j))"

lemma store_ok_cache: "same_cache s t \<Longrightarrow> store_ok t = store_ok s"
  by (auto simp: same_cache_def store_ok_def)

lemma length_filter_update:
  "i < length xs \<Longrightarrow> length (filter P (xs[i := y])) + (if P (xs ! i) then 1 else 0) =
    length (filter P xs) + (if P y then 1 else 0)"
proof (induction xs arbitrary: i)
  case (Cons x xs)
  then show ?case using Cons.IH [of "i - 1"] by (cases i) auto
qed simp

lemma slots_set_cred [simp]:
  "ecc_count (set_cred i f s) = ecc_count s"
  "slot_range_valid (set_cred i f s) = slot_range_valid s"
  "slot_logical_valid j (set_cred i f s) = slot_logical_valid j s"
  "rmem_slot_for_logical (set_cred i f s) j = rmem_slot_for_logical s j"
  "ecc_slot_for_logical (set_cred i f s) j = ecc_slot_for_logical s j"
  "rmem_count (set_cred i f s) = rmem_count s"
  "cache_slots (set_cred i f s) = cache_slots s"
  "fs_hw (set_cred i f s) = fs_hw s"
  "fs_cred_count (set_cred i f s) = fs_cred_count s"
  "fs_creds (set_cred i f s) = (fs_creds s)[i := f (fs_creds s ! i)]"
  by (simp_all add: set_cred_def ecc_count_def slot_range_valid_def slot_logical_valid_def rmem_slot_for_logical_def
      ecc_slot_for_logical_def rmem_count_def cache_slots_def)

lemma slots_count [simp]:
  "ecc_count (s\<lparr>fs_cred_count := n\<rparr>) = ecc_count s"
  "slot_range_valid (s\<lparr>fs_cred_count := n\<rparr>) = slot_range_valid s"
  "slot_logical_valid j (s\<lparr>fs_cred_count := n\<rparr>) = slot_logical_valid j s"
  "rmem_slot_for_logical (s\<lparr>fs_cred_count := n\<rparr>) j = rmem_slot_for_logical s j"
  "ecc_slot_for_logical (s\<lparr>fs_cred_count := n\<rparr>) j = ecc_slot_for_logical s j"
  "rmem_count (s\<lparr>fs_cred_count := n\<rparr>) = rmem_count s"
  "cache_slots (s\<lparr>fs_cred_count := n\<rparr>) = cache_slots s"
  by (simp_all add: ecc_count_def slot_range_valid_def slot_logical_valid_def rmem_slot_for_logical_def
      ecc_slot_for_logical_def rmem_count_def cache_slots_def)

lemma slots_creds [simp]:
  "ecc_count (s\<lparr>fs_creds := x\<rparr>) = ecc_count s"
  "slot_range_valid (s\<lparr>fs_creds := x\<rparr>) = slot_range_valid s"
  "rmem_slot_for_logical (s\<lparr>fs_creds := x\<rparr>) j = rmem_slot_for_logical s j"
  "rmem_count (s\<lparr>fs_creds := x\<rparr>) = rmem_count s"
  by (simp_all add: ecc_count_def slot_range_valid_def rmem_slot_for_logical_def rmem_count_def)

lemma slots_initialized [simp]:
  "ecc_count (s\<lparr>fs_initialized := x\<rparr>) = ecc_count s"
  "slot_range_valid (s\<lparr>fs_initialized := x\<rparr>) = slot_range_valid s"
  "rmem_slot_for_logical (s\<lparr>fs_initialized := x\<rparr>) j = rmem_slot_for_logical s j"
  "rmem_count (s\<lparr>fs_initialized := x\<rparr>) = rmem_count s"
  by (simp_all add: ecc_count_def slot_range_valid_def rmem_slot_for_logical_def rmem_count_def)

lemma store_ok_drop:
  assumes "store_ok s" and "i < 32" and "cr_valid (fs_creds s ! i)"
  shows "store_ok ((set_cred i (\<lambda>c. c\<lparr>cr_valid := False\<rparr>) s)\<lparr>fs_cred_count := fs_cred_count s - 1\<rparr>)"
proof -
  have len: "length (fs_creds s) = 32" using assms(1) by (simp add: store_ok_def)
  have "length (filter cr_valid (fs_creds s)) =
      Suc (length (filter cr_valid ((fs_creds s)[i := (fs_creds s ! i)\<lparr>cr_valid := False\<rparr>])))"
    using length_filter_update [of i "fs_creds s" cr_valid "(fs_creds s ! i)\<lparr>cr_valid := False\<rparr>"] len assms(2,3)
    by simp
  moreover from this have "unat (fs_cred_count s - 1) = unat (fs_cred_count s) - 1"
    using assms(1) by (intro unat_minus_one) (auto simp: store_ok_def)
  ultimately have "unat (fs_cred_count s - 1) =
      length (filter cr_valid ((fs_creds s)[i := (fs_creds s ! i)\<lparr>cr_valid := False\<rparr>]))"
    using assms(1) by (simp add: store_ok_def)
  with assms(1,2) len show ?thesis
    unfolding store_ok_def by (simp add: nth_list_update cred_ok_def)
qed

lemma store_ok_put:
  assumes "store_ok s" and "i < 32" and "i < ecc_count s" and "\<not> cr_valid (fs_creds s ! i)"
    and "cr_valid (f (fs_creds s ! i))" and "cred_ok (f (fs_creds s ! i))"
    and "\<And>j. j < 32 \<Longrightarrow> cr_valid (fs_creds s ! j) \<Longrightarrow> account (fs_creds s ! j) \<noteq> account (f (fs_creds s ! i))"
  shows "store_ok ((set_cred i f s)\<lparr>fs_cred_count := fs_cred_count s + 1\<rparr>)"
proof -
  have len: "length (fs_creds s) = 32" using assms(1) by (simp add: store_ok_def)
  have count: "Suc (length (filter cr_valid (fs_creds s))) =
      length (filter cr_valid ((fs_creds s)[i := f (fs_creds s ! i)]))"
    using length_filter_update [of i "fs_creds s" cr_valid "f (fs_creds s ! i)"] len assms(2,4,5) by simp
  have "length (filter cr_valid (fs_creds s)) \<le> 32"
    using length_filter_le [of cr_valid "fs_creds s"] len by simp
  then have "unat (fs_cred_count s) + unat (1 :: byte) < 2 ^ LENGTH(8)"
    using assms(1) by (simp add: store_ok_def)
  then have "unat (fs_cred_count s + 1) = Suc (unat (fs_cred_count s))"
    by (simp add: unat_word_ariths)
  with count assms(1) have "unat (fs_cred_count s + 1) =
      length (filter cr_valid ((fs_creds s)[i := f (fs_creds s ! i)]))"
    by (simp add: store_ok_def)
  with assms(1-6) assms(7) assms(7) [THEN not_sym] show ?thesis
    unfolding store_ok_def by (simp add: nth_list_update)
qed

lemma find_SomeD: "find P xs = Some x \<Longrightarrow> x \<in> set xs \<and> P x"
  by (induction xs) (auto split: if_splits)

lemma cache_slots_iff: "i \<in> set (cache_slots s) \<longleftrightarrow> i < ecc_count s \<and> i < 32"
  by (auto simp: cache_slots_def)

text \<open>The test for the same user compares accounts.\<close>

lemma same_user_account:
  assumes "cred_ok c" and "unat l \<le> length u"
  shows "cr_rp_id_hash c = rp \<and> same_user u l c \<longleftrightarrow> account c = (rp, take (unat l) u)"
proof -
  have "cr_user_id_len c = l" if "take (unat (cr_user_id_len c)) (cr_user_id c) = take (unat l) u"
  proof -
    from that have "length (take (unat (cr_user_id_len c)) (cr_user_id c)) = length (take (unat l) u)" by simp
    with assms show ?thesis by (simp add: cred_ok_def word_unat_eq_iff)
  qed
  then show ?thesis by (auto simp: account_def same_user_def)
qed

lemma choose_slot_ok:
  assumes "store_ok s" and "unat l \<le> length u" and "choose_slot h rp u l s = (Some i, t)"
  shows "store_ok t \<and> i < 32 \<and> i < ecc_count t \<and> ecc_count t = ecc_count s \<and> \<not> cr_valid (fs_creds t ! i) \<and>
    (\<forall>j < 32. cr_valid (fs_creds t ! j) \<longrightarrow> account (fs_creds t ! j) \<noteq> (rp, take (unat l) u))"
proof (cases "fido2_storage_find_by_rp_user rp u l s")
  case None
  with assms(3) have "(fido2_storage_find_free_slot s, s) = (Some i, t)"
    by (simp only: choose_slot_def option.case)
  then have t: "t = s" and free: "fido2_storage_find_free_slot s = Some i" by blast+
  have "account (fs_creds s ! j) \<noteq> (rp, take (unat l) u)" if "j < 32" "cr_valid (fs_creds s ! j)" for j
    using None that assms(1) same_user_account [OF _ assms(2), of "fs_creds s ! j" rp]
    by (auto simp: fido2_storage_find_by_rp_user_def find_None_iff cache_slots_iff store_ok_def)
  moreover have "i < ecc_count s \<and> i < 32 \<and> \<not> cr_valid (fs_creds s ! i)"
    using free by (auto simp: fido2_storage_find_free_slot_def cache_slots_iff dest!: find_SomeD)
  ultimately show ?thesis using assms(1) t by simp
next
  case (Some k)
  let ?e = "erase_slot_data h k s"
  have k: "k < ecc_count s" "k < 32" "cr_valid (fs_creds s ! k)" "cr_rp_id_hash (fs_creds s ! k) = rp"
      "same_user u l (fs_creds s ! k)"
    using Some by (auto simp: fido2_storage_find_by_rp_user_def cache_slots_iff dest!: find_SomeD)
  have acc: "account (fs_creds s ! k) = (rp, take (unat l) u)"
    using same_user_account [OF _ assms(2), of "fs_creds s ! k" rp] k assms(1) by (auto simp: store_ok_def)
  note same = same_cacheD [OF same_cache_erase [of s h k]]
  have t: "i = k" "t = (set_cred k (\<lambda>c. c\<lparr>cr_valid := False\<rparr>) ?e)\<lparr>fs_cred_count := fs_cred_count ?e - 1\<rparr>"
    using Some assms(3) by (auto simp: choose_slot_def Let_def)
  have "store_ok ?e" using assms(1) store_ok_cache [OF same_cache_erase] by blast
  then have ok: "store_ok t" using store_ok_drop [of ?e k] k same t by simp
  have "length (fs_creds s) = 32" using assms(1) by (simp add: store_ok_def)
  then have creds: "fs_creds t ! j = (if j = k then (fs_creds s ! k)\<lparr>cr_valid := False\<rparr> else fs_creds s ! j)" for j
    using k(2) t same by (simp add: nth_list_update)
  have "account (fs_creds t ! j) \<noteq> (rp, take (unat l) u)" if "j < 32" "cr_valid (fs_creds t ! j)" for j
  proof (cases "j = k")
    case False
    with that creds have "cr_valid (fs_creds s ! j)" by simp
    with assms(1) k that False have "account (fs_creds s ! j) \<noteq> account (fs_creds s ! k)"
      unfolding store_ok_def by blast
    with False creds acc show ?thesis by simp
  qed (use that creds in simp)
  with ok k t creds same show ?thesis by simp
qed

lemma choose_slot_None: "choose_slot h rp u l s = (None, t) \<Longrightarrow> t = s"
  by (auto simp: choose_slot_def Let_def split: option.splits)

text \<open>The credential the cache holds for a record.\<close>

lemma store_ok_update:
  assumes "store_ok s" and "i < 32" and "i < ecc_count s" and "\<not> cr_valid (fs_creds s ! i)"
    and "length (sc_user_id st) = 64" and "unat (sc_user_id_len st) \<le> 64"
    and "\<And>j. j < 32 \<Longrightarrow> cr_valid (fs_creds s ! j) \<Longrightarrow>
      account (fs_creds s ! j) \<noteq> (sc_rp_id_hash st, take (unat (sc_user_id_len st)) (sc_user_id st))"
  shows "store_ok ((update_cache_from_stored i st r s)\<lparr>fs_cred_count := fs_cred_count s + 1\<rparr>)"
  unfolding update_cache_from_stored_def
  using assms by (intro store_ok_put) (auto simp: cred_ok_def account_def store_ok_def)

section \<open>The cache and the records\<close>

text \<open>
  A chip whose R-Memory keeps what is written to it: \<open>mem e n\<close> is what slot \<open>n\<close> holds in the state
  \<open>e\<close>. Keys and signatures may fail, but they do not touch the R-Memory.
\<close>

definition rmem_reliable :: "'e fido2_hw \<Rightarrow> ('e \<Rightarrow> u16 \<Rightarrow> bytes option) \<Rightarrow> bool" where
  "rmem_reliable h mem \<longleftrightarrow> hw_present h \<and>
     (\<forall>n e. fst (hw_rmemRead h n e) = mem e n \<and> mem (snd (hw_rmemRead h n e)) = mem e) \<and>
     (\<forall>n e. mem (hw_rmemErase h n e) = (mem e)(n := None)) \<and>
     (\<forall>n d e. fst (hw_rmemWrite h n d e) \<and> mem (snd (hw_rmemWrite h n d e)) = (mem e)(n := Some d)) \<and>
     (\<forall>n e. mem (hw_eccDelete h n e) = mem e) \<and>
     (\<forall>n c e. mem (snd (hw_eccGenerate h n c e)) = mem e) \<and>
     (\<forall>n e. mem (snd (hw_eccGetPublicKey h n e)) = mem e) \<and>
     (\<forall>n e. mem (snd (hw_getRandom h n e)) = mem e \<and>
       (\<forall>d. fst (hw_getRandom h n e) = Some d \<longrightarrow> length d = n)) \<and>
     (\<forall>e. mem (snd (hw_nvs_counter h e)) = mem e)"

definition stored_ok :: "stored_cred \<Rightarrow> bool" where
  "stored_ok st \<longleftrightarrow> length (sc_rp_id_hash st) = 32 \<and> length (sc_rp_id st) = 64 \<and> length (sc_user_id st) = 64 \<and>
     length (sc_user_name st) = 32 \<and> length (sc_nonce st) = 16 \<and> length (sc_reserved st) = 7 \<and>
     unat (sc_user_id_len st) \<le> 64"

lemma stored_roundtrip:
  assumes "stored_ok st"
  shows "length (stored_bytes st) = 227" "take 4 (stored_bytes st) = FIDO2_RMEM_MAGIC"
    "parse_stored (stored_bytes st) = st"
proof -
  note len = assms [unfolded stored_ok_def]
  show "length (stored_bytes st) = 227" "take 4 (stored_bytes st) = FIDO2_RMEM_MAGIC"
    using len by (simp_all add: stored_bytes_def FIDO2_RMEM_MAGIC_def)
  show "parse_stored (stored_bytes st) = st"
    using len by (simp add: parse_stored_def stored_bytes_def FIDO2_RMEM_MAGIC_def Let_def nth_append)
qed

text \<open>What the cache holds of a record, and a credential without what an earlier one left in its buffer.\<close>

definition cache_view :: "stored_cred \<Rightarrow> cred" where
  "cache_view st = \<lparr>cr_valid = True, cr_rp_id_hash = sc_rp_id_hash st, cr_rp_id = take 63 (cstr (sc_rp_id st)),
     cr_user_name = take 31 (cstr (sc_user_name st)),
     cr_user_id = take (unat (sc_user_id_len st)) (sc_user_id st), cr_user_id_len = sc_user_id_len st,
     cr_sign_count = sc_sign_count st, cr_resident = (sc_flags st AND FIDO2_FLAG_RESIDENT \<noteq> 0),
     cr_protect = sc_protect st, cr_curve = sc_curve st\<rparr>"

definition cred_view :: "cred \<Rightarrow> cred" where
  "cred_view c = c\<lparr>cr_user_id := take (unat (cr_user_id_len c)) (cr_user_id c)\<rparr>"

definition visible :: "'e fido2_store \<Rightarrow> cred option list" where
  "visible s = map (\<lambda>c. if cr_valid c then Some (cred_view c) else None) (fs_creds s)"

definition no_record :: "bytes option \<Rightarrow> bool" where
  "no_record m \<longleftrightarrow> (case m of None \<Rightarrow> True | Some d \<Rightarrow> length d < 227 \<or> take 4 d \<noteq> FIDO2_RMEM_MAGIC)"

definition slot_ok :: "bytes option \<Rightarrow> cred \<Rightarrow> bool" where
  "slot_ok m c \<longleftrightarrow>
     (if cr_valid c then \<exists>st. stored_ok st \<and> m = Some (stored_bytes st) \<and> cred_view c = cache_view st
      else no_record m)"

definition coherent :: "('e \<Rightarrow> u16 \<Rightarrow> bytes option) \<Rightarrow> 'e fido2_store \<Rightarrow> bool" where
  "coherent mem s \<longleftrightarrow> slot_range_valid s \<and> ecc_count s \<le> unat (rmem_count s) \<and>
     (\<forall>i < ecc_count s. slot_ok (mem (fs_hw s) (rmem_slot_for_logical s i)) (fs_creds s ! i))"

lemma rmem_slot_inj:
  assumes "slot_range_valid s" and "rmem_slot_for_logical s i = rmem_slot_for_logical s j" and "i < 256" and "j < 256"
  shows "i = j"
proof -
  have "(of_nat i :: u16) = of_nat j" using assms(1,2) by (simp add: rmem_slot_for_logical_def)
  then have "unat (of_nat i :: u16) = unat (of_nat j :: u16)" by simp
  with assms(3,4) show ?thesis by (simp add: unat_of_nat_u16)
qed

lemma ecc_count_256: "ecc_count s \<le> 256"
  using unat_less [of "fs_ecc_end s"] by (simp add: ecc_count_def) linarith

lemma coherent_same:
  "same_cache s t \<Longrightarrow> mem (fs_hw t) = mem (fs_hw s) \<Longrightarrow> coherent mem t = coherent mem s"
  by (auto simp: same_cache_def coherent_def)

lemma on_hw_mem:
  assumes "on_hw g s = (r, t)"
  shows "fst (g (fs_hw s)) = r \<and> fs_hw t = snd (g (fs_hw s))"
  using assms by (auto simp: on_hw_def split: prod.splits)

lemma hw_do_hw [simp]: "fs_hw (hw_do f s) = f (fs_hw s)"
  by (simp add: hw_do_def)

text \<open>Reading the record of a slot.\<close>

lemma read_coherent:
  assumes "rmem_reliable h mem" and "slot_ok (mem (fs_hw s) (rmem_slot_for_logical s i)) c"
  obtains t where "same_cache s t" "mem (fs_hw t) = mem (fs_hw s)"
    "\<not> cr_valid c \<Longrightarrow> read_rmem_credential h i s = (None, t)"
    "cr_valid c \<Longrightarrow> \<exists>st. read_rmem_credential h i s = (Some st, t) \<and> stored_ok st \<and>
      mem (fs_hw s) (rmem_slot_for_logical s i) = Some (stored_bytes st) \<and> cred_view c = cache_view st"
proof -
  obtain d t where r: "on_hw (hw_rmemRead h (rmem_slot_for_logical s i)) s = (d, t)"
    by (cases "on_hw (hw_rmemRead h (rmem_slot_for_logical s i)) s")
  have d: "d = mem (fs_hw s) (rmem_slot_for_logical s i)" and m: "mem (fs_hw t) = mem (fs_hw s)"
    using on_hw_mem [OF r] assms(1) by (auto simp: rmem_reliable_def)
  have same: "same_cache s t" using same_cache_on_hw [OF r, of s] by simp
  have present: "hw_present h" using assms(1) by (simp add: rmem_reliable_def)
  have "read_rmem_credential h i s = (None, t)" if "\<not> cr_valid c"
    using that assms(2) present r d
    by (auto simp: read_rmem_credential_def slot_ok_def no_record_def split: option.splits)
  moreover have "\<exists>st. read_rmem_credential h i s = (Some st, t) \<and> stored_ok st \<and>
      mem (fs_hw s) (rmem_slot_for_logical s i) = Some (stored_bytes st) \<and> cred_view c = cache_view st"
    if "cr_valid c"
    using that assms(2) present r d
    by (auto simp: read_rmem_credential_def slot_ok_def stored_roundtrip)
  ultimately show ?thesis using that same m by blast
qed

lemma erase_mem:
  "rmem_reliable h mem \<Longrightarrow>
    mem (fs_hw (erase_slot_data h i s)) = (mem (fs_hw s))(rmem_slot_for_logical s i := None)"
  by (simp add: erase_slot_data_def rmem_reliable_def hw_do_def)

lemma write_mem:
  assumes "rmem_reliable h mem"
  obtains t where "write_rmem_credential h i st s = (True, t)" "same_cache s t"
    "mem (fs_hw t) = (mem (fs_hw s))(rmem_slot_for_logical s i := Some (stored_bytes st))"
proof -
  let ?u = "hw_do (hw_rmemErase h (rmem_slot_for_logical s i)) s"
  obtain ok t where r: "on_hw (hw_rmemWrite h (rmem_slot_for_logical s i) (stored_bytes st)) ?u = (ok, t)"
    by (cases "on_hw (hw_rmemWrite h (rmem_slot_for_logical s i) (stored_bytes st)) ?u")
  have "same_cache s t" using same_cache_on_hw [OF r, of s] by simp
  then show ?thesis
    using that [of t] on_hw_mem [OF r] r assms by (auto simp: write_rmem_credential_def rmem_reliable_def)
qed

lemma new_key_mem:
  assumes "rmem_reliable h mem" and "new_key h p c s = (r, t)"
  shows "mem (fs_hw t) = mem (fs_hw s) \<and> (\<forall>pub nonce. r = Some (pub, nonce) \<longrightarrow> length nonce = 16)"
  using assms
  by (auto simp: new_key_def Let_def rmem_reliable_def dest!: on_hw_mem split: prod.splits option.splits bool.splits if_splits)

text \<open>A change of one slot, in the cache and in the R-Memory.\<close>

lemma coherent_update:
  assumes "coherent mem s" and "i < ecc_count s" and "i < length (fs_creds s)"
    and "same_cache (s\<lparr>fs_creds := (fs_creds s)[i := c], fs_cred_count := n\<rparr>) t"
    and "mem (fs_hw t) = (mem (fs_hw s))(rmem_slot_for_logical s i := m)" and "slot_ok m c"
  shows "coherent mem t"
proof -
  note same = same_cacheD [OF assms(4)]
  have "slot_ok (mem (fs_hw t) (rmem_slot_for_logical s j)) (fs_creds t ! j)" if "j < ecc_count s" for j
  proof (cases "j = i")
    case True
    with assms(3,5,6) same show ?thesis by simp
  next
    case False
    then have "rmem_slot_for_logical s j \<noteq> rmem_slot_for_logical s i"
      using rmem_slot_inj [of s j i] assms(1,2) that ecc_count_256 [of s] by (auto simp: coherent_def)
    with False assms(1,5) that same show ?thesis by (simp add: coherent_def)
  qed
  with assms(1) same show ?thesis by (simp add: coherent_def)
qed

lemma set_cred_eq:
  "(set_cred i f s)\<lparr>fs_cred_count := n\<rparr> = s\<lparr>fs_creds := (fs_creds s)[i := f (fs_creds s ! i)], fs_cred_count := n\<rparr>"
  by (simp add: set_cred_def)

text \<open>Both invariants together.\<close>

definition store_inv :: "('e \<Rightarrow> u16 \<Rightarrow> bytes option) \<Rightarrow> 'e fido2_store \<Rightarrow> bool" where
  "store_inv mem s \<longleftrightarrow> store_ok s \<and> coherent mem s"

lemma store_inv_same:
  "same_cache s t \<Longrightarrow> mem (fs_hw t) = mem (fs_hw s) \<Longrightarrow> store_inv mem t = store_inv mem s"
  by (simp add: store_inv_def store_ok_cache coherent_same)

lemma invalidate_inv:
  assumes "rmem_reliable h mem" and "store_inv mem s" and "i < 32" and "cr_valid (fs_creds s ! i)"
  shows "store_inv mem ((set_cred i (\<lambda>c. c\<lparr>cr_valid := False\<rparr>) (erase_slot_data h i s))
    \<lparr>fs_cred_count := fs_cred_count s - 1\<rparr>)" (is "store_inv mem ?t")
proof -
  let ?e = "erase_slot_data h i s"
  note same = same_cacheD [OF same_cache_erase [of s h i]]
  have ok: "store_ok s" and co: "coherent mem s" and i: "i < ecc_count s" and len: "length (fs_creds s) = 32"
    using assms by (auto simp: store_inv_def store_ok_def)
  have "store_ok ?e" using ok store_ok_cache [OF same_cache_erase] by blast
  from store_ok_drop [OF this assms(3)] assms(4) same have "store_ok ?t" by simp
  moreover have "coherent mem ?t"
  proof (rule coherent_update [OF co i])
    show "same_cache (s\<lparr>fs_creds := (fs_creds s)[i := (fs_creds s ! i)\<lparr>cr_valid := False\<rparr>],
        fs_cred_count := fs_cred_count s - 1\<rparr>) ?t"
      using same_cache_erase [of s h i] by (simp add: same_cache_iff set_cred_def)
    show "mem (fs_hw ?t) = (mem (fs_hw s))(rmem_slot_for_logical s i := None)"
      using erase_mem [OF assms(1)] by simp
  qed (use assms(3) len in \<open>simp_all add: slot_ok_def no_record_def\<close>)
  ultimately show ?thesis by (simp add: store_inv_def)
qed

lemma choose_slot_inv:
  assumes "rmem_reliable h mem" and "store_inv mem s" and "choose_slot h rp u l s = (r, t)"
  shows "store_inv mem t"
proof (cases "fido2_storage_find_by_rp_user rp u l s")
  case None
  with assms show ?thesis by (auto simp: choose_slot_def)
next
  case (Some k)
  then have "k < 32" "cr_valid (fs_creds s ! k)"
    by (auto simp: fido2_storage_find_by_rp_user_def cache_slots_iff dest!: find_SomeD)
  from invalidate_inv [OF assms(1,2) this] Some assms(3) same_cacheD [OF same_cache_erase [of s h k]]
  show ?thesis by (auto simp: choose_slot_def Let_def)
qed

lemma new_stored_ok:
  assumes "length hash = 32" and "unat l \<le> length u" and "unat l \<le> 64" and "length nonce = 16"
  shows "stored_ok (new_stored rp hash u l name rk prot curve nonce)"
  using assms by (auto simp: stored_ok_def new_stored_def char_field_def)

text \<open>Writing a record and taking it into the cache.\<close>

lemma update_view:
  assumes "i < length (fs_creds s)" and "stored_ok st" and "r = (sc_flags st AND FIDO2_FLAG_RESIDENT \<noteq> 0)"
  shows "cred_view (fs_creds (update_cache_from_stored i st r s) ! i) = cache_view st"
    and "cr_valid (fs_creds (update_cache_from_stored i st r s) ! i)"
  using assms by (simp_all add: update_cache_from_stored_def cred_view_def cache_view_def stored_ok_def)

lemma put_inv:
  assumes "rmem_reliable h mem" and "store_inv mem s" and "i < 32" and "i < ecc_count s"
    and "\<not> cr_valid (fs_creds s ! i)" and "stored_ok st" and "r = (sc_flags st AND FIDO2_FLAG_RESIDENT \<noteq> 0)"
    and "\<And>j. j < 32 \<Longrightarrow> cr_valid (fs_creds s ! j) \<Longrightarrow>
      account (fs_creds s ! j) \<noteq> (sc_rp_id_hash st, take (unat (sc_user_id_len st)) (sc_user_id st))"
    and "write_rmem_credential h i st s = (ok, t)"
  shows "ok \<and> store_inv mem ((update_cache_from_stored i st r t)\<lparr>fs_cred_count := fs_cred_count t + 1\<rparr>)"
proof -
  let ?v = "(update_cache_from_stored i st r t)\<lparr>fs_cred_count := fs_cred_count t + 1\<rparr>"
  from write_mem [OF assms(1), of i st s] assms(9) have ok: ok and same: "same_cache s t"
    and m: "mem (fs_hw t) = (mem (fs_hw s))(rmem_slot_for_logical s i := Some (stored_bytes st))" by auto
  note eqs = same_cacheD [OF same]
  have inv: "store_ok s" "coherent mem s" and len: "length (fs_creds s) = 32"
    using assms(2) by (simp_all add: store_inv_def store_ok_def)
  have uid: "length (cr_user_id (fs_creds s ! i)) = 64" using inv(1) assms(3) by (simp add: store_ok_def cred_ok_def)
  have "store_ok t" using inv(1) store_ok_cache [OF same] by simp
  then have "store_ok ?v"
    by (rule store_ok_update) (use assms(3-6,8) eqs in \<open>auto simp: stored_ok_def\<close>)
  moreover have "coherent mem ?v"
  proof (rule coherent_update [OF inv(2) assms(4)])
    show "same_cache (s\<lparr>fs_creds := (fs_creds s)[i := fs_creds ?v ! i], fs_cred_count := fs_cred_count ?v\<rparr>) ?v"
      using same assms(3) len by (simp add: same_cache_iff update_cache_from_stored_def set_cred_def)
    show "mem (fs_hw ?v) = (mem (fs_hw s))(rmem_slot_for_logical s i := Some (stored_bytes st))"
      using m by (simp add: update_cache_from_stored_def)
    have "cred_view (fs_creds ?v ! i) = cache_view st"
      using update_view [OF _ assms(6,7), of i t] assms(3) len eqs(1) by simp
    moreover have "cr_valid (fs_creds ?v ! i)"
      using update_view [OF _ assms(6,7), of i t] assms(3) len eqs(1) by simp
    ultimately show "slot_ok (Some (stored_bytes st)) (fs_creds ?v ! i)"
      using assms(6) by (auto simp: slot_ok_def)
  qed (use assms(3) len in simp)
  ultimately show ?thesis using ok by (simp add: store_inv_def)
qed

lemma create_inv:
  assumes "rmem_reliable h mem" and "store_inv mem s" and "length hash = 32" and "unat l \<le> length u"
    and "fido2_storage_create_credential h rp hash u l name rk prot curve s = (r, t)"
  shows "store_inv mem t"
proof (cases "unat l \<le> 64")
  case False
  with assms(2,5) show ?thesis by (simp add: fido2_storage_create_credential_def)
next
  case True
  obtain c s1 where c: "choose_slot h hash u l s = (c, s1)" by (cases "choose_slot h hash u l s")
  have inv1: "store_inv mem s1" by (rule choose_slot_inv [OF assms(1,2) c])
  show ?thesis
  proof (cases c)
    case None
    with assms(5) c inv1 True show ?thesis by (simp add: fido2_storage_create_credential_def not_less [symmetric])
  next
    case (Some i)
    from choose_slot_ok [OF _ assms(4), of s h hash i s1] c Some assms(2)
    have slot: "i < 32" "i < ecc_count s1" "\<not> cr_valid (fs_creds s1 ! i)"
      and other: "\<And>j. j < 32 \<Longrightarrow> cr_valid (fs_creds s1 ! j) \<Longrightarrow> account (fs_creds s1 ! j) \<noteq> (hash, take (unat l) u)"
      by (auto simp: store_inv_def)
    let ?p = "ecc_slot_for_logical s1 i"
    obtain k s2 where k: "new_key h ?p curve s1 = (k, s2)" by (cases "new_key h ?p curve s1")
    have same: "same_cache s1 s2" using same_cache_new_key [of s1 h ?p curve] k by simp
    have inv2: "store_inv mem s2"
      using inv1 store_inv_same [OF same] new_key_mem [OF assms(1) k] by simp
    show ?thesis
    proof (cases k)
      case None
      with assms(5) c Some k inv2 True show ?thesis by (simp add: fido2_storage_create_credential_def Let_def)
    next
      case (Some pn)
      obtain pub nonce where pn: "k = Some (pub, nonce)" using Some by (cases pn) auto
      let ?st = "new_stored rp hash u l name rk prot curve nonce"
      have st: "stored_ok ?st"
        using new_stored_ok [OF assms(3,4) True] new_key_mem [OF assms(1) k] pn by simp
      obtain ok s3 where w: "write_rmem_credential h i ?st s2 = (ok, s3)"
        by (cases "write_rmem_credential h i ?st s2")
      have "ok \<and> store_inv mem ((update_cache_from_stored i ?st rk s3)\<lparr>fs_cred_count := fs_cred_count s3 + 1\<rparr>)"
      proof (rule put_inv [OF assms(1) inv2 _ _ _ st _ _ w])
        show "rk = (sc_flags ?st AND FIDO2_FLAG_RESIDENT \<noteq> 0)" by (simp add: new_stored_def)
        fix j assume "j < 32" "cr_valid (fs_creds s2 ! j)"
        then show "account (fs_creds s2 ! j) \<noteq> (sc_rp_id_hash ?st, take (unat (sc_user_id_len ?st)) (sc_user_id ?st))"
          using other [of j] same_cacheD [OF same] assms(4) by (simp add: new_stored_def)
      qed (use slot same_cacheD [OF same] in simp_all)
      with assms(5) c \<open>c = Some i\<close> k pn w True show ?thesis
        by (auto simp: fido2_storage_create_credential_def Let_def update_cache_from_stored_def)
    qed
  qed
qed

lemma delete_inv:
  assumes "rmem_reliable h mem" and "store_inv mem s"
  shows "store_inv mem (snd (fido2_storage_delete_credential h i s))"
proof (cases "fido2_storage_slot_used i s")
  case True
  then have "i < 32" "cr_valid (fs_creds s ! i)"
    using assms(2) by (auto simp: fido2_storage_slot_used_def slot_logical_valid_def store_inv_def store_ok_def)
  from invalidate_inv [OF assms this] True same_cacheD [OF same_cache_erase [of s h i]]
  show ?thesis by (simp add: fido2_storage_delete_credential_def Let_def)
qed (use assms in \<open>simp add: fido2_storage_delete_credential_def\<close>)

lemma store_ok_accounts:
  assumes "store_ok s" and "length (fs_creds t) = 32" and "ecc_count t = ecc_count s"
    and "unat (fs_cred_count t) = length (filter cr_valid (fs_creds t))"
    and "\<forall>i < 32. cr_valid (fs_creds t ! i) = cr_valid (fs_creds s ! i) \<and>
      account (fs_creds t ! i) = account (fs_creds s ! i) \<and> cred_ok (fs_creds t ! i)"
  shows "store_ok t"
  using assms unfolding store_ok_def by simp

lemma store_ok_distinct:
  "store_ok s \<Longrightarrow> i < 32 \<Longrightarrow> j < 32 \<Longrightarrow> cr_valid (fs_creds s ! i) \<Longrightarrow> cr_valid (fs_creds s ! j) \<Longrightarrow>
    account (fs_creds s ! i) = account (fs_creds s ! j) \<Longrightarrow> i = j"
  unfolding store_ok_def by blast

lemma count_inv:
  assumes "rmem_reliable h mem" and "store_inv mem s"
  shows "store_inv mem (snd (fido2_storage_increment_sign_count h i s))"
proof (cases "fido2_storage_slot_used i s")
  case False
  with assms show ?thesis by (simp add: fido2_storage_increment_sign_count_def)
next
  case True
  have inv: "store_ok s" "coherent mem s" and len: "length (fs_creds s) = 32"
    using assms(2) by (simp_all add: store_inv_def store_ok_def)
  have i: "i < 32" "i < ecc_count s" and valid: "cr_valid (fs_creds s ! i)"
    using True inv(1) by (auto simp: fido2_storage_slot_used_def slot_logical_valid_def store_ok_def)
  let ?c = "(fs_creds s ! i)\<lparr>cr_sign_count := cr_sign_count (fs_creds s ! i) + 1\<rparr>"
  let ?s1 = "set_cred i (\<lambda>c. c\<lparr>cr_sign_count := cr_sign_count c + 1\<rparr>) s"
  have "slot_ok (mem (fs_hw ?s1) (rmem_slot_for_logical ?s1 i)) (fs_creds s ! i)"
    using inv(2) i by (simp add: coherent_def)
  then obtain s2 where same2: "same_cache ?s1 s2" and m2: "mem (fs_hw s2) = mem (fs_hw ?s1)"
    and some: "cr_valid (fs_creds s ! i) \<Longrightarrow> \<exists>st. read_rmem_credential h i ?s1 = (Some st, s2) \<and> stored_ok st \<and>
      mem (fs_hw ?s1) (rmem_slot_for_logical ?s1 i) = Some (stored_bytes st) \<and> cred_view (fs_creds s ! i) = cache_view st"
    by (rule read_coherent [OF assms(1)]) blast
  from some [OF valid] obtain st where r: "read_rmem_credential h i ?s1 = (Some st, s2)"
    and st: "stored_ok st" "cred_view (fs_creds s ! i) = cache_view st" by blast
  let ?st = "st\<lparr>sc_sign_count := cr_sign_count (fs_creds ?s1 ! i)\<rparr>"
  obtain s3 where w: "write_rmem_credential h i ?st s2 = (True, s3)" and same3: "same_cache s2 s3"
    and m3: "mem (fs_hw s3) = (mem (fs_hw s2))(rmem_slot_for_logical s2 i := Some (stored_bytes ?st))"
    by (rule write_mem [OF assms(1)])
  have fin: "snd (fido2_storage_increment_sign_count h i s) = s3"
    using True r w by (simp add: fido2_storage_increment_sign_count_def Let_def)
  have same: "same_cache ?s1 s3" by (rule same_cache_trans [OF same2 same3])
  have creds: "fs_creds s3 = (fs_creds s)[i := ?c]" using same_cacheD [OF same] by simp
  have "account (fs_creds s3 ! j) = account (fs_creds s ! j) \<and> cr_valid (fs_creds s3 ! j) = cr_valid (fs_creds s ! j) \<and>
      cred_ok (fs_creds s3 ! j)" if "j < 32" for j
    using that inv(1) len creds by (cases "j = i") (simp_all add: account_def store_ok_def cred_ok_def)
  then have "store_ok s3"
    using inv(1) i(1) len same creds length_filter_update [of i "fs_creds s" cr_valid ?c] valid
    by (intro store_ok_accounts [OF inv(1)]) (simp_all add: same_cacheD [OF same] store_ok_def)
  moreover have "coherent mem s3"
  proof (rule coherent_update [OF inv(2) i(2)])
    show "same_cache (s\<lparr>fs_creds := (fs_creds s)[i := ?c], fs_cred_count := fs_cred_count s\<rparr>) s3"
      using same by (simp add: same_cache_iff set_cred_def)
    show "mem (fs_hw s3) = (mem (fs_hw s))(rmem_slot_for_logical s i := Some (stored_bytes ?st))"
      using m2 m3 same_cacheD [OF same2] by simp
    have "cr_sign_count (cred_view (fs_creds s ! i)) = sc_sign_count st" using st(2) by (simp add: cache_view_def)
    moreover have "cred_view ?c = cred_view (fs_creds s ! i)\<lparr>cr_sign_count := cr_sign_count (fs_creds s ! i) + 1\<rparr>"
      by (simp add: cred_view_def)
    ultimately have "cred_view ?c = cache_view ?st" using st(2) i(1) len by (simp add: cache_view_def)
    moreover have "stored_ok ?st" using st(1) by (simp add: stored_ok_def)
    ultimately show "slot_ok (Some (stored_bytes ?st)) ?c" using valid by (auto simp: slot_ok_def)
  qed (use i(1) len in simp)
  ultimately show ?thesis using fin by (simp add: store_inv_def)
qed

lemma read_inv:
  assumes "rmem_reliable h mem" and "store_inv mem s"
  shows "store_inv mem (snd (read_rmem_credential h i s))"
proof -
  have "mem (fs_hw (snd (read_rmem_credential h i s))) = mem (fs_hw s)"
    using assms(1) on_hw_mem [of "hw_rmemRead h (rmem_slot_for_logical s i)" s]
    by (auto simp: read_rmem_credential_def rmem_reliable_def split: prod.splits option.splits)
  then show ?thesis using assms(2) store_inv_same [OF same_cache_read [of s h i], of mem] by simp
qed

lemma find_inv:
  assumes "rmem_reliable h mem" and "store_inv mem s"
  shows "store_inv mem (snd (fido2_storage_find_slot_by_cred_id h d s))"
  using assms read_inv [OF assms]
  by (auto simp: fido2_storage_find_slot_by_cred_id_def fido2_storage_get_cred_id_def Let_def
      split: prod.splits option.splits) (metis snd_conv)+

section \<open>Start-up\<close>

lemma account_view: "cred_view c = cred_view d \<Longrightarrow> account c = account d"
proof -
  assume eq: "cred_view c = cred_view d"
  have "account x = (cr_rp_id_hash (cred_view x), cr_user_id (cred_view x))" for x
    by (simp add: account_def cred_view_def)
  with eq show ?thesis by simp
qed

text \<open>
  The cache after the first \<open>n\<close> rounds of the loop, against a store \<open>s\<close> that is coherent with the
  records.
\<close>

definition loaded :: "('e \<Rightarrow> u16 \<Rightarrow> bytes option) \<Rightarrow> 'e fido2_store \<Rightarrow> nat \<Rightarrow> 'e fido2_store \<Rightarrow> bool" where
  "loaded mem s n t \<longleftrightarrow> store_ok t \<and> mem (fs_hw t) = mem (fs_hw s) \<and> ecc_count t = ecc_count s \<and>
     slot_range_valid t = slot_range_valid s \<and> rmem_count t = rmem_count s \<and>
     (\<forall>i. rmem_slot_for_logical t i = rmem_slot_for_logical s i) \<and>
     (\<forall>i < 32. cr_valid (fs_creds t ! i) \<longleftrightarrow> i < n \<and> cr_valid (fs_creds s ! i)) \<and>
     (\<forall>i < n. cr_valid (fs_creds s ! i) \<longrightarrow> cred_view (fs_creds t ! i) = cred_view (fs_creds s ! i))"

lemma load_slot_loaded:
  assumes "rmem_reliable h mem" and "store_inv mem s" and "loaded mem s n t" and "n < ecc_count s" and "n < 32"
  shows "loaded mem s (Suc n) (load_slot h n t)"
proof -
  have ok: "store_ok t" and hw: "mem (fs_hw t) = mem (fs_hw s)"
    and slots: "rmem_slot_for_logical t n = rmem_slot_for_logical s n"
    using assms(3) unfolding loaded_def by blast+
  have len: "length (fs_creds t) = 32" using ok by (simp add: store_ok_def)
  have "slot_ok (mem (fs_hw t) (rmem_slot_for_logical t n)) (fs_creds s ! n)"
    using assms(2,4) hw slots by (simp add: store_inv_def coherent_def)
  then obtain u where same: "same_cache t u" and m: "mem (fs_hw u) = mem (fs_hw t)"
    and none: "\<not> cr_valid (fs_creds s ! n) \<Longrightarrow> read_rmem_credential h n t = (None, u)"
    and some: "cr_valid (fs_creds s ! n) \<Longrightarrow> \<exists>st. read_rmem_credential h n t = (Some st, u) \<and> stored_ok st \<and>
      mem (fs_hw t) (rmem_slot_for_logical t n) = Some (stored_bytes st) \<and> cred_view (fs_creds s ! n) = cache_view st"
    by (rule read_coherent [OF assms(1)]) blast
  note eqs = same_cacheD [OF same]
  show ?thesis
  proof (cases "cr_valid (fs_creds s ! n)")
    case False
    with none have "load_slot h n t = u" by (simp add: load_slot_def)
    with assms(3) False m eqs store_ok_cache [OF same] show ?thesis
      by (auto simp: loaded_def less_Suc_eq)
  next
    case True
    from some [OF True] obtain st where st: "read_rmem_credential h n t = (Some st, u)" "stored_ok st"
      "cred_view (fs_creds s ! n) = cache_view st" by blast
    let ?r = "sc_flags st AND FIDO2_FLAG_RESIDENT \<noteq> 0"
    let ?v = "(update_cache_from_stored n st ?r u)\<lparr>fs_cred_count := fs_cred_count u + 1\<rparr>"
    have v: "load_slot h n t = ?v"
      using st(1) by (simp add: load_slot_def Let_def update_cache_from_stored_def)
    have cn: "\<not> cr_valid (fs_creds u ! n)" using assms(3,5) eqs by (simp add: loaded_def)
    have creds: "fs_creds ?v ! i = (if i = n then fs_creds ?v ! n else fs_creds t ! i)" for i
      using eqs(1) by (simp add: update_cache_from_stored_def)
    have view: "cred_view (fs_creds ?v ! n) = cache_view st" and valid: "cr_valid (fs_creds ?v ! n)"
      using update_view [OF _ st(2) refl, of n u] assms(5) len eqs(1) by simp_all
    have acc: "account (fs_creds s ! n) = (sc_rp_id_hash st, take (unat (sc_user_id_len st)) (sc_user_id st))"
      using account_view [of "fs_creds s ! n" "cache_view st"] st(3)
      by (simp add: account_def cache_view_def cred_view_def)
    have "store_ok ?v"
    proof (rule store_ok_update)
      fix j assume j: "j < 32" "cr_valid (fs_creds u ! j)"
      with assms(3) eqs have "j < n" "cr_valid (fs_creds s ! j)"
        "account (fs_creds u ! j) = account (fs_creds s ! j)"
        using account_view [of "fs_creds t ! j" "fs_creds s ! j"] by (auto simp: loaded_def)
      moreover have "account (fs_creds s ! j) \<noteq> account (fs_creds s ! n)"
        using store_ok_distinct [of s j n] assms(2,5) True calculation(1,2) j(1) by (auto simp: store_inv_def)
      ultimately show "account (fs_creds u ! j) \<noteq> (sc_rp_id_hash st, take (unat (sc_user_id_len st)) (sc_user_id st))"
        using acc by simp
    qed (use assms(3-5) ok st(2) cn eqs store_ok_cache [OF same] in \<open>simp_all add: loaded_def stored_ok_def\<close>)
    moreover have "rmem_slot_for_logical ?v i = rmem_slot_for_logical s i" "mem (fs_hw ?v) = mem (fs_hw s)"
      "ecc_count ?v = ecc_count s" "slot_range_valid ?v = slot_range_valid s" "rmem_count ?v = rmem_count s" for i
      using assms(3) eqs m hw by (simp_all add: loaded_def update_cache_from_stored_def)
    moreover have "cr_valid (fs_creds ?v ! i) \<longleftrightarrow> i < Suc n \<and> cr_valid (fs_creds s ! i)" if "i < 32" for i
      using that assms(3) True valid creds [of i] by (auto simp: loaded_def less_Suc_eq)
    moreover have "cred_view (fs_creds ?v ! i) = cred_view (fs_creds s ! i)" if "i < Suc n" "cr_valid (fs_creds s ! i)" for i
      using that assms(3) view st(3) creds [of i] by (cases "i = n") (auto simp: loaded_def)
    ultimately show ?thesis unfolding v loaded_def by blast
  qed
qed

lemma zero_store_ok:
  "ecc_count s \<le> 32 \<Longrightarrow> store_ok (s\<lparr>fs_creds := replicate 32 zero_cred, fs_cred_count := 0\<rparr>)"
  by (simp add: store_ok_def zero_cred_def cred_ok_def filter_replicate)

text \<open>The cleared state in which start-up fills the cache.\<close>

definition cleared :: "'e fido2_hw \<Rightarrow> 'e fido2_store \<Rightarrow> 'e fido2_store" where
  "cleared h s = fido2_storage_counter_load h
     (s\<lparr>fs_initialized := False, fs_auth_counter := 0, fs_counter_loaded := False,
        fs_creds := replicate 32 zero_cred, fs_cred_count := 0\<rparr>)"

lemma cleared_loaded:
  assumes "rmem_reliable h mem" and "ecc_count s \<le> 32"
  shows "loaded mem s 0 (cleared h s)"
proof -
  let ?z = "s\<lparr>fs_initialized := False, fs_auth_counter := 0, fs_counter_loaded := False,
    fs_creds := replicate 32 zero_cred, fs_cred_count := 0\<rparr>"
  obtain v u where r: "on_hw (hw_nvs_counter h) ?z = (v, u)" by (cases "on_hw (hw_nvs_counter h) ?z")
  have m: "mem (fs_hw u) = mem (fs_hw s)" using on_hw_mem [OF r] assms(1) by (simp add: rmem_reliable_def)
  have same: "same_cache ?z u" using same_cache_on_hw [OF r, of ?z] by simp
  have t: "cleared h s = u\<lparr>fs_auth_counter := (case v of None \<Rightarrow> 0 | Some c \<Rightarrow> c), fs_counter_loaded := True\<rparr>"
    using r by (simp add: cleared_def fido2_storage_counter_load_def)
  have slots: "ecc_count (cleared h s) = ecc_count s" "slot_range_valid (cleared h s) = slot_range_valid s"
      "rmem_count (cleared h s) = rmem_count s" "rmem_slot_for_logical (cleared h s) i = rmem_slot_for_logical s i"
      "fs_creds (cleared h s) = replicate 32 zero_cred" "fs_cred_count (cleared h s) = 0" for i
    using same
    by (simp_all add: t same_cache_iff ecc_count_def slot_range_valid_def rmem_count_def rmem_slot_for_logical_def)
  have "store_ok (cleared h s)"
    using assms(2) slots by (simp add: store_ok_def filter_replicate zero_cred_def cred_ok_def)
  with m slots show ?thesis by (simp add: loaded_def t zero_cred_def)
qed

lemma init_loads:
  assumes "rmem_reliable h mem" and "store_inv mem s"
  shows "store_inv mem (snd (fido2_storage_init h s)) \<and> visible (snd (fido2_storage_init h s)) = visible s"
proof -
  have inv: "store_ok s" "coherent mem s" and n32: "ecc_count s \<le> 32"
    using assms(2) by (simp_all add: store_inv_def store_ok_def)
  let ?t = "fold (load_slot h) [0..<ecc_count s] (cleared h s)"
  have "loaded mem s n (fold (load_slot h) [0..<n] (cleared h s))" if "n \<le> ecc_count s" for n
    using that
  proof (induction n)
    case 0
    then show ?case using cleared_loaded [OF assms(1) n32] by simp
  next
    case (Suc n)
    then show ?case using load_slot_loaded [OF assms] n32 by simp
  qed
  from this [of "ecc_count s"] have l: "loaded mem s (ecc_count s) ?t" by simp
  have c: "ecc_count (cleared h s) = ecc_count s" "slot_range_valid (cleared h s)"
      "ecc_count s \<le> unat (rmem_count (cleared h s))" "hw_present h"
    using cleared_loaded [OF assms(1) n32] inv(2) assms(1)
    by (simp_all add: loaded_def coherent_def rmem_reliable_def)
  have t: "snd (fido2_storage_init h s) = ?t\<lparr>fs_initialized := True\<rparr>"
    using c n32 by (simp add: fido2_storage_init_def Let_def not_less min_absorb1 flip: cleared_def)
  have range: "cr_valid (fs_creds s ! i) \<Longrightarrow> i < 32 \<Longrightarrow> i < ecc_count s" for i
    using inv(1) by (simp add: store_ok_def)
  have valid: "cr_valid (fs_creds ?t ! i) = cr_valid (fs_creds s ! i)" if "i < 32" for i
    using l that range [of i] by (auto simp: loaded_def)
  have view: "cred_view (fs_creds ?t ! i) = cred_view (fs_creds s ! i)" if "i < 32" "cr_valid (fs_creds s ! i)" for i
    using l that range [of i] by (auto simp: loaded_def)
  have "store_ok ?t" and len: "length (fs_creds ?t) = 32" "length (fs_creds s) = 32"
    using l inv(1) by (simp_all add: loaded_def store_ok_def)
  moreover have "coherent mem ?t"
  proof -
    have "slot_ok m (fs_creds ?t ! i) = slot_ok m (fs_creds s ! i)" if "i < ecc_count s" for i m
      using valid [of i] view [of i] that n32 by (simp add: slot_ok_def)
    with l inv(2) show ?thesis by (simp add: coherent_def loaded_def)
  qed
  ultimately have "store_inv mem (?t\<lparr>fs_initialized := True\<rparr>)"
    by (simp add: store_inv_def store_ok_def coherent_def)
  moreover have "visible (?t\<lparr>fs_initialized := True\<rparr>) = visible s"
    using len valid view by (simp add: visible_def list_eq_iff_nth_eq)
  ultimately show ?thesis unfolding t by blast
qed

text \<open>A chip without credentials in the slots of the module.\<close>

definition fresh :: "('e \<Rightarrow> u16 \<Rightarrow> bytes option) \<Rightarrow> 'e fido2_store \<Rightarrow> bool" where
  "fresh mem s \<longleftrightarrow> slot_range_valid s \<and> ecc_count s \<le> 32 \<and> ecc_count s \<le> unat (rmem_count s) \<and>
     (\<forall>i < ecc_count s. no_record (mem (fs_hw s) (rmem_slot_for_logical s i)))"

lemma init_fresh:
  assumes "rmem_reliable h mem" and "fresh mem s"
  shows "store_inv mem (snd (fido2_storage_init h s))"
proof -
  let ?z = "s\<lparr>fs_creds := replicate 32 zero_cred, fs_cred_count := 0\<rparr>"
  have "store_ok ?z" using assms(2) by (intro zero_store_ok) (simp add: fresh_def)
  moreover have "coherent mem ?z"
    using assms(2) by (simp add: coherent_def fresh_def slot_ok_def zero_cred_def)
  ultimately have "store_inv mem ?z" by (simp add: store_inv_def)
  moreover have "fido2_storage_init h ?z = fido2_storage_init h s"
    by (simp add: fido2_storage_init_def Let_def)
  ultimately show ?thesis using init_loads [OF assms(1)] by metis
qed

section \<open>Properties\<close>

text \<open>What happens to the store: its operations, and a restart.\<close>

datatype store_event =
    Ev_Create bytes bytes bytes byte bytes bool byte byte
  | Ev_Delete nat
  | Ev_Count nat
  | Ev_Find bytes
  | Ev_Restart

fun store_step :: "'e fido2_hw \<Rightarrow> store_event \<Rightarrow> 'e fido2_store \<Rightarrow> 'e fido2_store" where
  "store_step h (Ev_Create rp hash uid len name rk prot curve) s =
     snd (fido2_storage_create_credential h rp hash uid len name rk prot curve s)"
| "store_step h (Ev_Delete i) s = snd (fido2_storage_delete_credential h i s)"
| "store_step h (Ev_Count i) s = snd (fido2_storage_increment_sign_count h i s)"
| "store_step h (Ev_Find d) s = snd (fido2_storage_find_slot_by_cred_id h d s)"
| "store_step h Ev_Restart s = snd (fido2_storage_init h s)"

fun store_event_ok :: "store_event \<Rightarrow> bool" where
  "store_event_ok (Ev_Create rp hash uid len name rk prot curve) \<longleftrightarrow> length hash = 32 \<and> unat len \<le> length uid"
| "store_event_ok ev \<longleftrightarrow> True"

lemma store_step_inv:
  assumes "rmem_reliable h mem" and "store_inv mem s" and "store_event_ok ev"
  shows "store_inv mem (store_step h ev s)"
proof (cases ev)
  case (Ev_Create rp hash uid len name rk prot curve)
  with assms show ?thesis
    using create_inv [OF assms(1,2), where rp = rp and hash = hash and u = uid and l = len and name = name and
      rk = rk and prot = prot and curve = curve] by (simp add: prod_eq_iff)
qed (use delete_inv [OF assms(1,2)] count_inv [OF assms(1,2)] find_inv [OF assms(1,2)]
    init_loads [OF assms(1,2)] in simp_all)

lemma store_steps_inv:
  assumes "rmem_reliable h mem" and "store_inv mem s" and "list_all store_event_ok evs"
  shows "store_inv mem (fold (store_step h) evs s)"
  using assms(2,3) by (induction evs arbitrary: s) (simp_all add: store_step_inv [OF assms(1)])

text \<open>The credentials by account, the abstraction of the store: where each lies does not matter.\<close>

definition accounts :: "'e fido2_store \<Rightarrow> bytes \<times> bytes \<Rightarrow> cred option" where
  "accounts s a = map_option cred_view (find (\<lambda>c. cr_valid c \<and> account c = a) (fs_creds s))"

lemma accounts_Some:
  assumes "store_ok s" and "i < 32" and "cr_valid (fs_creds s ! i)"
  shows "accounts s (account (fs_creds s ! i)) = Some (cred_view (fs_creds s ! i))"
proof -
  have len: "length (fs_creds s) = 32" using assms(1) by (simp add: store_ok_def)
  let ?P = "\<lambda>c. cr_valid c \<and> account c = account (fs_creds s ! i)"
  have "find ?P (fs_creds s) \<noteq> None"
    using assms(2,3) len by (auto simp: find_None_iff)
  then obtain c where c: "find ?P (fs_creds s) = Some c" by blast
  from find_SomeD [OF c] obtain j where j: "j < 32" "c = fs_creds s ! j" "?P c"
    using len by (auto simp: in_set_conv_nth)
  with store_ok_distinct [OF assms(1) j(1) assms(2)] assms(3) have "j = i" by simp
  with c j show ?thesis by (simp add: accounts_def)
qed

lemma accounts_None:
  "length (fs_creds s) = 32 \<Longrightarrow> (\<And>i. i < 32 \<Longrightarrow> cr_valid (fs_creds s ! i) \<Longrightarrow> account (fs_creds s ! i) \<noteq> a) \<Longrightarrow>
    accounts s a = None"
  by (auto simp: accounts_def find_None_iff in_set_conv_nth)

lemma accounts_visible:
  assumes "visible s = visible t"
  shows "accounts s = accounts t"
proof
  fix a
  let ?g = "\<lambda>c. if cr_valid c then Some (cred_view c) else None"
  have "map_option cred_view (find (\<lambda>c. cr_valid c \<and> account c = a) cs) =
      (case find (\<lambda>v. case v of None \<Rightarrow> False | Some w \<Rightarrow> account w = a) (map ?g cs) of None \<Rightarrow> None | Some v \<Rightarrow> v)" for cs
    by (induction cs) (auto simp: account_def cred_view_def)
  with assms show "accounts s a = accounts t a" by (simp add: accounts_def visible_def)
qed

text \<open>Two stores that differ in one slot, which holds the account \<open>a\<close> or nothing in both.\<close>

lemma accounts_other:
  assumes "store_ok s" and "store_ok t" and "b \<noteq> a"
    and "\<And>j. j < 32 \<Longrightarrow> j \<noteq> i \<Longrightarrow> fs_creds t ! j = fs_creds s ! j"
    and "cr_valid (fs_creds s ! i) \<Longrightarrow> account (fs_creds s ! i) = a"
    and "cr_valid (fs_creds t ! i) \<Longrightarrow> account (fs_creds t ! i) = a"
  shows "accounts t b = accounts s b"
proof (cases "\<exists>j < 32. cr_valid (fs_creds s ! j) \<and> account (fs_creds s ! j) = b")
  case True
  then obtain j where j: "j < 32" "cr_valid (fs_creds s ! j)" "account (fs_creds s ! j) = b" by blast
  with assms(3,5) have "j \<noteq> i" by auto
  with j assms(4) have "fs_creds t ! j = fs_creds s ! j" by blast
  with j accounts_Some [OF assms(1) j(1,2)] accounts_Some [OF assms(2) j(1)] show ?thesis by simp
next
  case False
  have "account (fs_creds t ! j) \<noteq> b" if "j < 32" "cr_valid (fs_creds t ! j)" for j
    using False that assms(3,4,6) by (cases "j = i") auto
  then have "accounts t b = None" using assms(2) by (intro accounts_None) (simp_all add: store_ok_def)
  moreover have "accounts s b = None" using False assms(1) by (intro accounts_None) (auto simp: store_ok_def)
  ultimately show ?thesis by simp
qed

text \<open>What a successful creation leaves.\<close>

lemma create_result:
  assumes "rmem_reliable h mem" and "store_inv mem s" and "length hash = 32" and "unat l \<le> length u"
    and "fido2_storage_create_credential h rp hash u l name rk prot curve s = (Some (i, cid, pub), t)"
  obtains nonce where "cid = cred_id_of i nonce" "length nonce = 16" "i < 32" "i < ecc_count t" "cr_valid (fs_creds t ! i)"
    "cred_view (fs_creds t ! i) = cache_view (new_stored rp hash u l name rk prot curve nonce)"
    "mem (fs_hw t) (rmem_slot_for_logical t i) = Some (stored_bytes (new_stored rp hash u l name rk prot curve nonce))"
    "stored_ok (new_stored rp hash u l name rk prot curve nonce)"
    "\<And>j. j < 32 \<Longrightarrow> j \<noteq> i \<Longrightarrow> fs_creds t ! j = fs_creds s ! j"
    "cr_valid (fs_creds s ! i) \<Longrightarrow> account (fs_creds s ! i) = (hash, take (unat l) u)"
proof -
  have l: "unat l \<le> 64" using assms(5) by (auto simp: fido2_storage_create_credential_def split: if_splits)
  obtain s1 where c: "choose_slot h hash u l s = (Some i, s1)"
    and rest: "fido2_storage_create_credential h rp hash u l name rk prot curve s = (Some (i, cid, pub), t)"
    using assms(5) l
    by (auto simp: fido2_storage_create_credential_def Let_def split: prod.splits option.splits bool.splits if_splits)
  let ?p = "ecc_slot_for_logical s1 i"
  obtain pk nonce s2 where k: "new_key h ?p curve s1 = (Some (pk, nonce), s2)"
    using rest c l
    by (auto simp: fido2_storage_create_credential_def Let_def split: prod.splits option.splits bool.splits if_splits)
  let ?st = "new_stored rp hash u l name rk prot curve nonce"
  obtain s3 where w: "write_rmem_credential h i ?st s2 = (True, s3)" and same3: "same_cache s2 s3"
    and m3: "mem (fs_hw s3) = (mem (fs_hw s2))(rmem_slot_for_logical s2 i := Some (stored_bytes ?st))"
    by (rule write_mem [OF assms(1)])
  have t: "cid = cred_id_of i nonce"
      "t = (update_cache_from_stored i ?st rk s3)\<lparr>fs_cred_count := fs_cred_count s3 + 1\<rparr>"
    using rest c k w l
    by (simp_all add: fido2_storage_create_credential_def Let_def update_cache_from_stored_def)
  have nonce: "length nonce = 16" using new_key_mem [OF assms(1) k] by simp
  have st: "stored_ok ?st" by (rule new_stored_ok [OF assms(3,4) l nonce])
  have same2: "same_cache s1 s2" using same_cache_new_key [of s1 h ?p curve] k by simp
  have same: "same_cache s1 s3" by (rule same_cache_trans [OF same2 same3])
  have ok: "store_ok s" using assms(2) by (simp add: store_inv_def)
  note slot = choose_slot_ok [OF ok assms(4) c]
  have len: "length (fs_creds s3) = 32" "length (fs_creds s) = 32"
    using slot same_cacheD [OF same] ok by (simp_all add: store_ok_def)
  have view: "cred_view (fs_creds t ! i) = cache_view ?st" "cr_valid (fs_creds t ! i)"
    using update_view [OF _ st, of i s3 rk] len slot by (simp_all add: t new_stored_def)
  have s1: "fs_creds s1 ! j = fs_creds s ! j" if "j < 32" "j \<noteq> i" for j
    using c len that same_cacheD [OF same_cache_erase [of s h i]]
    by (auto simp: choose_slot_def Let_def split: option.splits)
  have others: "fs_creds t ! j = fs_creds s ! j" if "j < 32" "j \<noteq> i" for j
    using that s1 [OF that] same_cacheD [OF same] by (simp add: t update_cache_from_stored_def)
  have acc: "account (fs_creds s ! i) = (hash, take (unat l) u)" if "cr_valid (fs_creds s ! i)"
  proof (cases "fido2_storage_find_by_rp_user hash u l s")
    case None
    with c have "fido2_storage_find_free_slot s = Some i" by (auto simp: choose_slot_def)
    with that show ?thesis by (auto simp: fido2_storage_find_free_slot_def dest!: find_SomeD)
  next
    case (Some k)
    with c have "k = i" by (auto simp: choose_slot_def Let_def)
    with Some same_user_account [OF _ assms(4), of "fs_creds s ! i" hash] ok slot
    show ?thesis by (auto simp: fido2_storage_find_by_rp_user_def store_ok_def dest!: find_SomeD)
  qed
  have "mem (fs_hw t) (rmem_slot_for_logical t i) = Some (stored_bytes ?st)"
    using m3 same_cacheD [OF same3] by (simp add: t update_cache_from_stored_def)
  moreover have "i < ecc_count t" "i < 32"
    using slot same_cacheD [OF same] by (simp_all add: t update_cache_from_stored_def)
  ultimately show ?thesis using that [of nonce] t(1) nonce view st others acc by blast
qed


text \<open>A chip for the witnesses, whose state is its R-Memory, and a store over four slots of it.\<close>

definition plain_hw :: "(u16 \<Rightarrow> bytes option) fido2_hw" where
  "plain_hw = \<lparr>hw_present = True, hw_rmemRead = (\<lambda>n e. (e n, e)), hw_rmemErase = (\<lambda>n e. e(n := None)),
     hw_rmemWrite = (\<lambda>n d e. (True, e(n := Some d))), hw_eccDelete = (\<lambda>n e. e),
     hw_eccGenerate = (\<lambda>n c e. (True, e)), hw_eccGetPublicKey = (\<lambda>n e. (Some (replicate 64 5), e)),
     hw_eccSlotUsed = (\<lambda>n e. (True, e)), hw_ecdsaSign = (\<lambda>n m e. (Some (replicate 64 6), e)),
     hw_eddsaSign = (\<lambda>n m e. (Some (replicate 64 6), e)), hw_getRandom = (\<lambda>n e. (Some (replicate n 7), e)),
     hw_nvs_counter = (\<lambda>e. (None, e)), hw_nvs_set_counter = (\<lambda>v e. (True, e)), hw_nvs_u8 = (\<lambda>k e. (None, e)),
     hw_nvs_set_u8 = (\<lambda>k v e. (True, e)), hw_nvs_blob = (\<lambda>m e. (Blob_Missing, e)),
     hw_nvs_blob_length = (\<lambda>e. (None, e)), hw_nvs_set_blob = (\<lambda>d e. (True, e)), hw_nvs_erase = (\<lambda>e. e)\<rparr>"

definition plain_store :: "(u16 \<Rightarrow> bytes option) fido2_store" where
  "plain_store = \<lparr>fs_initialized = False, fs_auth_counter = 0, fs_counter_loaded = False,
     fs_creds = replicate 32 zero_cred, fs_cred_count = 0, fs_ecc_start = 9, fs_ecc_end = 12,
     fs_rmem_start = 9, fs_rmem_end = 12, fs_hw = (\<lambda>n. None)\<rparr>"

lemma plain_hw_reliable: "rmem_reliable plain_hw (\<lambda>e. e)"
  by (simp add: rmem_reliable_def plain_hw_def)

lemma plain_store_fresh: "fresh (\<lambda>e. e) plain_store"
  by (simp add: fresh_def plain_store_def slot_range_valid_def ecc_count_def rmem_count_def no_record_def)


text \<open>
  C20. A created credential is the one for its account, and found by its identifier: after a creation,
  the accounts are the ones before with the new credential for this relying party and user, in place
  of an earlier one for the same; its identifier leads to its slot, and what is stored there is what
  was given.
\<close>

theorem fido2_create_found:
  assumes "rmem_reliable h mem" and "store_inv mem s" and "length hash = 32" and "unat l \<le> length u"
    and "fido2_storage_create_credential h rp hash u l name rk prot curve s = (Some (i, cid, pub), t)"
  shows "\<exists>v. accounts t = (accounts s)((hash, take (unat l) u) \<mapsto> v) \<and> cr_rp_id_hash v = hash \<and>
      cr_user_id v = take (unat l) u \<and> cr_sign_count v = 0 \<and> cr_resident v = rk \<and> cr_protect v = prot \<and>
      cr_curve v = curve \<and>
      fst (fido2_storage_find_slot_by_cred_id h cid t) = Some i \<and> cred_view (fs_creds t ! i) = v"
proof -
  obtain nonce where r: "cid = cred_id_of i nonce" "length nonce = 16" "i < 32" "i < ecc_count t" "cr_valid (fs_creds t ! i)"
    "cred_view (fs_creds t ! i) = cache_view (new_stored rp hash u l name rk prot curve nonce)"
    "mem (fs_hw t) (rmem_slot_for_logical t i) = Some (stored_bytes (new_stored rp hash u l name rk prot curve nonce))"
    "stored_ok (new_stored rp hash u l name rk prot curve nonce)"
    and other: "\<And>j. j < 32 \<Longrightarrow> j \<noteq> i \<Longrightarrow> fs_creds t ! j = fs_creds s ! j"
    and old: "cr_valid (fs_creds s ! i) \<Longrightarrow> account (fs_creds s ! i) = (hash, take (unat l) u)"
    by (rule create_result [OF assms]) blast
  let ?st = "new_stored rp hash u l name rk prot curve nonce"
  let ?v = "cache_view ?st"
  have ok: "store_ok s" "store_ok t"
    using create_inv [OF assms] assms(2) by (simp_all add: store_inv_def)
  have l: "unat l \<le> 64" using r(8) by (simp add: stored_ok_def new_stored_def)
  have v: "cr_rp_id_hash ?v = hash" "cr_user_id ?v = take (unat l) u" "cr_sign_count ?v = 0" "cr_resident ?v = rk"
      "cr_protect ?v = prot" "cr_curve ?v = curve" "cr_user_id_len ?v = l"
    using assms(4) by (simp_all add: cache_view_def new_stored_def)
  have "account (fs_creds t ! i) = account (cred_view (fs_creds t ! i))" by (simp add: account_def cred_view_def)
  then have acc: "account (fs_creds t ! i) = (hash, take (unat l) u)" using r(6) v by (simp add: account_def)
  have "accounts t b = ((accounts s)((hash, take (unat l) u) \<mapsto> ?v)) b" for b
    using accounts_other [OF ok, of b "(hash, take (unat l) u)" i] other old acc
      accounts_Some [OF ok(2) r(3,5)] r(6) by simp
  then have "accounts t = (accounts s)((hash, take (unat l) u) \<mapsto> ?v)" by blast
  moreover have "fst (fido2_storage_find_slot_by_cred_id h cid t) = Some i"
  proof -
    have used: "fido2_storage_slot_used i t" using r(4,5) by (simp add: fido2_storage_slot_used_def slot_logical_valid_def)
    have "slot_ok (mem (fs_hw t) (rmem_slot_for_logical t i)) (fs_creds t ! i)"
      using r(5-8) by (auto simp: slot_ok_def)
    then obtain w where "\<exists>st. read_rmem_credential h i t = (Some st, w) \<and> stored_ok st \<and>
        mem (fs_hw t) (rmem_slot_for_logical t i) = Some (stored_bytes st) \<and> cred_view (fs_creds t ! i) = cache_view st"
      by (rule read_coherent [OF assms(1)]) (use r(5) in blast)
    then obtain st where st: "read_rmem_credential h i t = (Some st, w)" "stored_ok st" "stored_bytes st = stored_bytes ?st"
      using r(7) by auto
    then have "st = ?st" using stored_roundtrip(3) [OF st(2)] stored_roundtrip(3) [OF r(8)] by metis
    then have "sc_nonce st = nonce" by (simp add: new_stored_def)
    then have "fido2_storage_get_cred_id h i t = (Some cid, w)"
      using used st(1) r(1) by (simp add: fido2_storage_get_cred_id_def)
    moreover have "length cid = 64" "unat (hd cid) = i"
      using r(1-3) by (simp_all add: cred_id_of_def unat_of_nat_byte)
    ultimately show ?thesis using used by (simp add: fido2_storage_find_slot_by_cred_id_def Let_def)
  qed
  ultimately show ?thesis using v r(6) by blast
qed

theorem fido2_create_found_witness:
  "\<exists>v i cid pub t.
    fido2_storage_create_credential plain_hw [0x61] (replicate 32 1) [1, 2] 2 [0x62] True 3 1
      (snd (fido2_storage_init plain_hw plain_store)) = (Some (i, cid, pub), t) \<and>
    accounts t (replicate 32 1, [1, 2]) = Some v \<and> cr_protect v = 3"
proof -
  let ?s = "snd (fido2_storage_init plain_hw plain_store)"
  have inv: "store_inv (\<lambda>e. e) ?s" by (rule init_fresh [OF plain_hw_reliable plain_store_fresh])
  have "fst (fido2_storage_create_credential plain_hw [0x61] (replicate 32 1) [1, 2] 2 [0x62] True 3 1 ?s) \<noteq> None"
    by code_simp
  then obtain i cid pub t where r: "fido2_storage_create_credential plain_hw [0x61] (replicate 32 1) [1, 2] 2 [0x62] True 3 1 ?s
      = (Some (i, cid, pub), t)" by (metis not_None_eq prod.collapse prod_cases3)
  from fido2_create_found [OF plain_hw_reliable inv _ _ r] have
    "\<exists>v. accounts t = (accounts ?s)((replicate 32 1, [1, 2]) \<mapsto> v) \<and> cr_protect v = 3" by auto
  with r show ?thesis by (metis fun_upd_same)
qed

section \<open>Signature counters\<close>

lemma create_frame:
  assumes "store_ok s" and "unat l \<le> length u" and "i < 32" and "cr_valid (fs_creds s ! i)"
    and "account (fs_creds s ! i) \<noteq> (hash, take (unat l) u)"
  shows "fs_creds (snd (fido2_storage_create_credential h rp hash u l name rk prot curve s)) ! i = fs_creds s ! i"
proof (cases "unat l \<le> 64")
  case False
  then show ?thesis by (simp add: fido2_storage_create_credential_def)
next
  case True
  obtain c s1 where c: "choose_slot h hash u l s = (c, s1)" by (cases "choose_slot h hash u l s")
  have cnt: "fs_creds s1 ! i = fs_creds s ! i \<and> c \<noteq> Some i"
  proof (cases "fido2_storage_find_by_rp_user hash u l s")
    case None
    with c assms(4) show ?thesis
      by (auto simp: choose_slot_def fido2_storage_find_free_slot_def dest!: find_SomeD)
  next
    case (Some k)
    then have "account (fs_creds s ! k) = (hash, take (unat l) u)" "k < 32"
      using same_user_account [OF _ assms(2), of "fs_creds s ! k" hash] assms(1)
      by (auto simp: fido2_storage_find_by_rp_user_def store_ok_def cache_slots_iff dest!: find_SomeD)
    with assms(5) have "k \<noteq> i" by auto
    with Some c same_cacheD [OF same_cache_erase [of s h k]] show ?thesis
      by (auto simp: choose_slot_def Let_def)
  qed
  show ?thesis
  proof (cases c)
    case None
    with c cnt True show ?thesis by (simp add: fido2_storage_create_credential_def)
  next
    case (Some k)
    obtain r s2 where k: "new_key h (ecc_slot_for_logical s1 k) curve s1 = (r, s2)"
      by (cases "new_key h (ecc_slot_for_logical s1 k) curve s1")
    have s2: "fs_creds s2 = fs_creds s1"
      using same_cacheD [OF same_cache_new_key [of s1 h "ecc_slot_for_logical s1 k" curve]] k by simp
    show ?thesis
    proof (cases r)
      case None
      with c Some cnt k s2 True show ?thesis by (simp add: fido2_storage_create_credential_def Let_def)
    next
      case (Some pn)
      let ?st = "new_stored rp hash u l name rk prot curve (snd pn)"
      obtain ok s3 where w: "write_rmem_credential h k ?st s2 = (ok, s3)" by (cases "write_rmem_credential h k ?st s2")
      have "fs_creds s3 = fs_creds s1" using same_cacheD [OF same_cache_write [of s2 h k ?st]] w s2 by simp
      then have "fs_creds (hw_do f s3) ! i = fs_creds s ! i"
          "fs_creds (update_cache_from_stored k ?st rk s3) ! i = fs_creds s ! i" for f
        using cnt \<open>c = Some k\<close> by (simp_all add: hw_do_def update_cache_from_stored_def)
      with c \<open>c = Some k\<close> k Some w True show ?thesis
        by (cases ok) (simp_all add: fido2_storage_create_credential_def Let_def case_prod_beta)
    qed
  qed
qed

text \<open>The events that leave the credential in slot \<open>i\<close>, for account \<open>a\<close>, in its place.\<close>

fun leaves_slot :: "nat \<Rightarrow> bytes \<times> bytes \<Rightarrow> store_event \<Rightarrow> bool" where
  "leaves_slot i a (Ev_Create rp hash uid len name rk prot curve) \<longleftrightarrow> a \<noteq> (hash, take (unat len) uid)"
| "leaves_slot i a (Ev_Delete j) \<longleftrightarrow> j \<noteq> i"
| "leaves_slot i a ev \<longleftrightarrow> True"

lemma count_creds:
  "fs_creds (snd (fido2_storage_increment_sign_count h j s)) =
    (if fido2_storage_slot_used j s
     then (fs_creds s)[j := (fs_creds s ! j)\<lparr>cr_sign_count := cr_sign_count (fs_creds s ! j) + 1\<rparr>] else fs_creds s)"
proof -
  let ?s1 = "set_cred j (\<lambda>c. c\<lparr>cr_sign_count := cr_sign_count c + 1\<rparr>) s"
  obtain r s2 where r: "read_rmem_credential h j ?s1 = (r, s2)" by (cases "read_rmem_credential h j ?s1")
  have s2: "fs_creds s2 = fs_creds ?s1" using same_cacheD [OF same_cache_read [of ?s1 h j]] r by simp
  have "fs_creds (snd (write_rmem_credential h j st s2)) = fs_creds ?s1" for st
    using same_cacheD [OF same_cache_write [of s2 h j st]] s2 by simp
  with r s2 show ?thesis by (cases r) (simp_all add: fido2_storage_increment_sign_count_def Let_def)
qed

lemma delete_creds:
  "j \<noteq> i \<Longrightarrow> fs_creds (snd (fido2_storage_delete_credential h j s)) ! i = fs_creds s ! i"
  using same_cacheD [OF same_cache_erase [of s h j]]
  by (simp add: fido2_storage_delete_credential_def Let_def)

lemma find_cache: "same_cache s (snd (fido2_storage_find_slot_by_cred_id h d s))"
  using same_cache_read [of s h "unat (hd d)"]
  by (auto simp: fido2_storage_find_slot_by_cred_id_def fido2_storage_get_cred_id_def Let_def
      split: prod.splits option.splits)

lemma step_counts:
  assumes "rmem_reliable h mem" and "store_inv mem s" and "store_event_ok ev" and "i < 32"
    and "cr_valid (fs_creds s ! i)" and "leaves_slot i (account (fs_creds s ! i)) ev"
  defines "c \<equiv> cred_view (fs_creds s ! i)" and "d \<equiv> cred_view (fs_creds (store_step h ev s) ! i)"
  shows "d = c\<lparr>cr_sign_count := cr_sign_count c + (if ev = Ev_Count i then 1 else 0)\<rparr>"
proof (cases ev)
  case (Ev_Create rp hash uid len name rk prot curve)
  with assms create_frame [of s len uid i hash h rp name rk prot curve] show ?thesis
    by (simp add: store_inv_def)
next
  case (Ev_Delete j)
  with assms delete_creds [of j i h s] show ?thesis by simp
next
  case (Ev_Count j)
  have "fido2_storage_slot_used i s" and "length (fs_creds s) = 32"
    using assms(2,4,5) by (auto simp: fido2_storage_slot_used_def slot_logical_valid_def store_inv_def store_ok_def)
  with Ev_Count assms(4) show ?thesis
    by (cases "j = i") (simp_all add: c_def d_def count_creds cred_view_def)
next
  case (Ev_Find x)
  with same_cacheD [OF find_cache [of s h x]] show ?thesis by (simp add: c_def d_def)
next
  case Ev_Restart
  let ?t = "snd (fido2_storage_init h s)"
  have len: "length (fs_creds s) = 32" "length (fs_creds ?t) = 32" and eq: "visible ?t = visible s"
    using init_loads [OF assms(1,2)] assms(2) by (simp_all add: store_inv_def store_ok_def)
  have "visible ?t ! i = visible s ! i" using eq by simp
  with len assms(4,5) have "cred_view (fs_creds ?t ! i) = cred_view (fs_creds s ! i)"
    by (simp add: visible_def split: if_splits)
  with Ev_Restart show ?thesis by (simp add: c_def d_def)
qed



section \<open>Where the code falls short\<close>

text \<open>
  The credential a new one replaces is erased before the new key exists: when the key generation
  fails, the account has lost its credential.
\<close>

lemma fido2_failed_creation_loses:
  assumes "store_ok s" and "hw_present h" and "unat l \<le> 64"
    and "fido2_storage_find_by_rp_user hash u l s = Some i" and "\<forall>n c e. \<not> fst (hw_eccGenerate h n c e)"
  shows "fst (fido2_storage_create_credential h rp hash u l name rk prot curve s) = None \<and>
    \<not> cr_valid (fs_creds (snd (fido2_storage_create_credential h rp hash u l name rk prot curve s)) ! i)"
proof -
  obtain s1 where c: "choose_slot h hash u l s = (Some i, s1)"
    using assms(4) by (simp add: choose_slot_def Let_def)
  have "i < 32" "length (fs_creds s) = 32"
    using assms(1,4) by (auto simp: fido2_storage_find_by_rp_user_def cache_slots_iff store_ok_def dest!: find_SomeD)
  then have s1: "\<not> cr_valid (fs_creds s1 ! i)"
    using c assms(4) same_cacheD [OF same_cache_erase [of s h i]] by (auto simp: choose_slot_def Let_def)
  obtain r s2 where k: "new_key h (ecc_slot_for_logical s1 i) curve s1 = (r, s2)"
    by (cases "new_key h (ecc_slot_for_logical s1 i) curve s1")
  have "r = None" using k assms(2,5) by (auto simp: new_key_def Let_def on_hw_def split: prod.splits bool.splits)
      (metis fst_conv)+
  moreover have "fs_creds s2 = fs_creds s1"
    using same_cacheD [OF same_cache_new_key [of s1 h "ecc_slot_for_logical s1 i" curve]] k by simp
  ultimately show ?thesis using c k s1 assms(3) by (simp add: fido2_storage_create_credential_def Let_def)
qed

text \<open>
  At its last value the counter wraps to 0, which the callers take for a failure although the counter
  has changed; the next use then starts again at 1.
\<close>

lemma fido2_count_wraps:
  assumes "fido2_storage_slot_used i s" and "i < length (fs_creds s)" and "cr_sign_count (fs_creds s ! i) = 0xFFFFFFFF"
  shows "fst (fido2_storage_increment_sign_count h i s) = 0 \<and>
    cr_sign_count (fs_creds (snd (fido2_storage_increment_sign_count h i s)) ! i) = 0"
  using assms by (auto simp: count_creds) (auto simp: fido2_storage_increment_sign_count_def Let_def split: prod.split option.split)

end
