(* ===== verification/Pin_Storage.thy ===== *)
theory Pin_Storage
  imports Pin_Manager
begin

text \<open>
  The functions through which the C-style modules reach the PIN manager
  (\<^verbatim>\<open>components/cdc_core/src/pin_storage_c.cpp\<close>). A getter that first calls \<^verbatim>\<open>init()\<close> returns the
  state, since that call may load the record and start the recovery timer.
\<close>

section \<open>The OpenPGP PINs\<close>

definition pin_storage_openpgp_init :: "pin_env \<Rightarrow> pins \<Rightarrow> pins" where
  "pin_storage_openpgp_init e s = snd (pins_init e s)"

definition pin_storage_openpgp_verify_pw1 :: "pin_env \<Rightarrow> bytes \<Rightarrow> pins \<Rightarrow> bool \<times> pins" where
  "pin_storage_openpgp_verify_pw1 e pin s = verifyPW1 e pin s"

definition pin_storage_openpgp_verify_pw3 :: "pin_env \<Rightarrow> bytes \<Rightarrow> pins \<Rightarrow> bool \<times> pins" where
  "pin_storage_openpgp_verify_pw3 e pin s = verifyPW3 e pin s"

definition pin_storage_openpgp_change_pw1 :: "pin_env \<Rightarrow> bytes \<Rightarrow> pins \<Rightarrow> bool \<times> pins" where
  "pin_storage_openpgp_change_pw1 e new_pin s = setPW1 e new_pin s"

definition pin_storage_openpgp_change_pw3 :: "pin_env \<Rightarrow> bytes \<Rightarrow> pins \<Rightarrow> bool \<times> pins" where
  "pin_storage_openpgp_change_pw3 e new_pin s = setPW3 e new_pin s"

definition pin_storage_openpgp_verify_pw1_raw :: "pin_env \<Rightarrow> bytes \<Rightarrow> pins \<Rightarrow> bool \<times> pins" where
  "pin_storage_openpgp_verify_pw1_raw e d s = verifyPW1Raw e d s"

definition pin_storage_openpgp_verify_pw3_raw :: "pin_env \<Rightarrow> bytes \<Rightarrow> pins \<Rightarrow> bool \<times> pins" where
  "pin_storage_openpgp_verify_pw3_raw e d s = verifyPW3Raw e d s"

definition pin_storage_openpgp_set_pw1_raw :: "pin_env \<Rightarrow> bytes \<Rightarrow> pins \<Rightarrow> bool \<times> pins" where
  "pin_storage_openpgp_set_pw1_raw e d s = setPW1Raw e d s"

definition pin_storage_openpgp_set_pw3_raw :: "pin_env \<Rightarrow> bytes \<Rightarrow> pins \<Rightarrow> bool \<times> pins" where
  "pin_storage_openpgp_set_pw3_raw e d s = setPW3Raw e d s"

definition pin_storage_openpgp_pw1_retries :: "pins \<Rightarrow> byte" where
  "pin_storage_openpgp_pw1_retries s = p_pw1_retries s"

definition pin_storage_openpgp_pw3_retries :: "pins \<Rightarrow> byte" where
  "pin_storage_openpgp_pw3_retries s = p_pw3_retries s"

definition pin_storage_openpgp_reset_pw1_retries :: "pin_env \<Rightarrow> pins \<Rightarrow> pins" where
  "pin_storage_openpgp_reset_pw1_retries e s = resetPW1Retries e s"

definition pin_storage_openpgp_reset_pw3_retries :: "pin_env \<Rightarrow> pins \<Rightarrow> pins" where
  "pin_storage_openpgp_reset_pw3_retries e s = resetPW3Retries e s"

definition pin_storage_openpgp_pw1_blocked :: "pins \<Rightarrow> bool" where
  "pin_storage_openpgp_pw1_blocked s \<longleftrightarrow> p_pw1_retries s = 0"

definition pin_storage_openpgp_pw3_blocked :: "pins \<Rightarrow> bool" where
  "pin_storage_openpgp_pw3_blocked s \<longleftrightarrow> p_pw3_retries s = 0"

definition pin_storage_openpgp_reset :: "pin_env \<Rightarrow> pins \<Rightarrow> bool \<times> pins" where
  "pin_storage_openpgp_reset e s =
     (let (ok1, s) = setPW1 e DEFAULT_PW1 s; (ok3, s) = setPW3 e DEFAULT_PW3 s
      in (ok1 \<and> ok3, resetPW3Retries e (resetPW1Retries e s)))"

section \<open>The badge PIN\<close>

definition pin_storage_is_set :: "pin_env \<Rightarrow> pins \<Rightarrow> bool \<times> pins" where
  "pin_storage_is_set e s = (let s = snd (pins_init e s) in (p_badge_set s, s))"

text \<open>\<^verbatim>\<open>getBadgePinHash\<close> only fails on a null pointer, which neither of the two callers passes.\<close>

definition pin_storage_fido2_available :: "pin_env \<Rightarrow> pins \<Rightarrow> bool \<times> pins" where
  "pin_storage_fido2_available e s = (let s = snd (pins_init e s) in (True, s))"

definition pin_storage_get_fido2_hash :: "pin_env \<Rightarrow> pins \<Rightarrow> bytes \<times> pins" where
  "pin_storage_get_fido2_hash e s = (let s = snd (pins_init e s) in (getBadgePinHash s, s))"

definition pin_storage_verify_fido2_hash :: "pin_env \<Rightarrow> bytes \<Rightarrow> pins \<Rightarrow> bool \<times> pins" where
  "pin_storage_verify_fido2_hash e hash_in s = verifyBadgePinHashCounted e hash_in (snd (pins_init e s))"

definition pin_storage_set_min_pin_floor :: "byte \<Rightarrow> pins \<Rightarrow> pins" where
  "pin_storage_set_min_pin_floor min_len s = setMinPinLengthFloor min_len s"

definition pin_storage_get_min_pin_floor :: "pins \<Rightarrow> byte" where
  "pin_storage_get_min_pin_floor s = p_min_floor s"

end
