(* ===== verification/Fido2.thy ===== *)
theory Fido2
  imports Fido2_Storage Pin_Storage Cbor
begin

text \<open>
  The entry points of the FIDO2 module (\<^verbatim>\<open>components/mod_fido2/src/fido2.cpp\<close>): the prompt for the
  user, the state of the PIN verification, the reset window, the list of the credentials and the
  factory reset; and the environment of the whole module.

  What is outside the module is the record of functions \<^verbatim>\<open>fido2_env\<close>: the secure element and the
  flash, the PIN manager's environment, the clock, the random generators, mbedtls. The functions
  that may answer every call differently work on the state of type \<^typ>\<open>'e\<close> the credential store
  keeps. The components of the module extend the record \<^verbatim>\<open>fido2\<close> by the state they add.
\<close>

section \<open>Environment\<close>

text \<open>A string literal of the source.\<close>

definition ascii :: "string \<Rightarrow> bytes" where
  "ascii s = map of_char s"

datatype up_result = UP_Pending | UP_Approved | UP_Denied | UP_Timeout

datatype fido2_action =
  Action_Register | Action_Authenticate | Action_Select | Action_Overwrite | Action_Reset

type_synonym 'e up_callback =
  "bytes option \<Rightarrow> fido2_action \<Rightarrow> bytes option \<Rightarrow> 'e \<Rightarrow> up_result \<times> 'e"

text \<open>
  A key pair of mbedtls is its private scalar and the 64 bytes of its public point. \<^verbatim>\<open>x_ecdh\<close> is the
  32 bytes of the shared x coordinate; \<^verbatim>\<open>x_key_sign\<close> is \<^verbatim>\<open>mbedtls_ecdsa_write_signature\<close> on a hash into
  a buffer of the given size; the two AES functions are CBC with a 256-bit key, an initial vector
  and data; \<^verbatim>\<open>x_cert_point\<close> is the uncompressed public point of a DER certificate, if mbedtls parses
  it. \<^verbatim>\<open>x_attest_key\<close> is the public key in ECC slot 0 with its curve. \<^verbatim>\<open>x_garbage\<close> is what a variable holds that the code reads before it was set.
\<close>

record 'e fido2_env =
  x_hw :: "'e fido2_hw"
  x_pin :: pin_env
  x_session_active :: "'e \<Rightarrow> bool \<times> 'e"
  x_esp_random :: "nat \<Rightarrow> 'e \<Rightarrow> bytes \<times> 'e"
  x_time_us :: "'e \<Rightarrow> int \<times> 'e"
  x_hmac :: "bytes \<Rightarrow> bytes \<Rightarrow> bytes"
  x_gen_key :: "'e \<Rightarrow> (bytes \<times> bytes) option \<times> 'e"
  x_ecdh :: "bytes \<Rightarrow> bytes \<Rightarrow> bytes \<Rightarrow> 'e \<Rightarrow> bytes option \<times> 'e"
  x_key_sign :: "bytes \<Rightarrow> bytes \<Rightarrow> nat \<Rightarrow> 'e \<Rightarrow> bytes option \<times> 'e"
  x_aes_dec :: "bytes \<Rightarrow> bytes \<Rightarrow> bytes \<Rightarrow> bytes option"
  x_aes_enc :: "bytes \<Rightarrow> bytes \<Rightarrow> bytes \<Rightarrow> bytes option"
  x_attest_key :: "'e \<Rightarrow> (bytes \<times> byte) option \<times> 'e"
  x_cert_point :: "bytes \<Rightarrow> bytes option"
  x_nvs_cert :: "'e \<Rightarrow> bytes option \<times> 'e"
  x_nvs_set_cert :: "bytes \<Rightarrow> 'e \<Rightarrow> bool \<times> 'e"
  x_nvs_erase_cert :: "'e \<Rightarrow> 'e"
  x_garbage :: "nat \<Rightarrow> byte"

abbreviation x_sha256 :: "'e fido2_env \<Rightarrow> bytes \<Rightarrow> bytes" where
  "x_sha256 x \<equiv> e_sha256 (x_pin x)"

section \<open>State\<close>

record 'e fido2 =
  f_initialized :: bool
  f_user_presence_cb :: "'e up_callback option"
  f_pin_verified :: bool
  f_last_usb_connect_us :: int
  f_store :: "'e fido2_store"
  f_pins :: pins

text \<open>Calls that work on the credential store, on what lies behind it, and on the PIN manager.\<close>

definition on_store ::
    "('e fido2_store \<Rightarrow> 'a \<times> 'e fido2_store) \<Rightarrow> ('e, 'm) fido2_scheme \<Rightarrow> 'a \<times> ('e, 'm) fido2_scheme" where
  "on_store f s = (case f (f_store s) of (a, st) \<Rightarrow> (a, s\<lparr>f_store := st\<rparr>))"

definition on_env ::
    "('e \<Rightarrow> 'a \<times> 'e) \<Rightarrow> ('e, 'm) fido2_scheme \<Rightarrow> 'a \<times> ('e, 'm) fido2_scheme" where
  "on_env f = on_store (on_hw f)"

definition on_pins ::
    "(pins \<Rightarrow> 'a \<times> pins) \<Rightarrow> ('e, 'm) fido2_scheme \<Rightarrow> 'a \<times> ('e, 'm) fido2_scheme" where
  "on_pins f s = (case f (f_pins s) of (a, p) \<Rightarrow> (a, s\<lparr>f_pins := p\<rparr>))"

section \<open>Reset window\<close>

abbreviation (input) "RESET_WINDOW_US \<equiv> (10 * 1000 * 1000 :: int)"

definition fido2_note_usb_connect ::
    "'e fido2_env \<Rightarrow> ('e, 'm) fido2_scheme \<Rightarrow> ('e, 'm) fido2_scheme" where
  "fido2_note_usb_connect x s = (let (now, s) = on_env (x_time_us x) s in s\<lparr>f_last_usb_connect_us := now\<rparr>)"

definition fido2_reset_window_open ::
    "'e fido2_env \<Rightarrow> ('e, 'm) fido2_scheme \<Rightarrow> bool \<times> ('e, 'm) fido2_scheme" where
  "fido2_reset_window_open x s =
     (let (now, s) = on_env (x_time_us x) s
      in (now < RESET_WINDOW_US \<or> now - f_last_usb_connect_us s < RESET_WINDOW_US, s))"

section \<open>User presence and PIN state\<close>

definition fido2_set_user_presence_callback ::
    "'e up_callback option \<Rightarrow> ('e, 'm) fido2_scheme \<Rightarrow> ('e, 'm) fido2_scheme" where
  "fido2_set_user_presence_callback cb s = s\<lparr>f_user_presence_cb := cb\<rparr>"

text \<open>Without a callback every request is approved.\<close>

definition fido2_request_user_presence ::
    "bytes option \<Rightarrow> fido2_action \<Rightarrow> bytes option \<Rightarrow> ('e, 'm) fido2_scheme \<Rightarrow>
      up_result \<times> ('e, 'm) fido2_scheme" where
  "fido2_request_user_presence rp_id action user_name s =
     (case f_user_presence_cb s of
        None \<Rightarrow> (UP_Approved, s)
      | Some cb \<Rightarrow> on_env (cb rp_id action user_name) s)"

definition fido2_set_pin_verified :: "bool \<Rightarrow> ('e, 'm) fido2_scheme \<Rightarrow> ('e, 'm) fido2_scheme" where
  "fido2_set_pin_verified verified s = s\<lparr>f_pin_verified := verified\<rparr>"

definition fido2_is_pin_verified :: "('e, 'm) fido2_scheme \<Rightarrow> bool" where
  "fido2_is_pin_verified s = f_pin_verified s"

definition fido2_is_initialized :: "('e, 'm) fido2_scheme \<Rightarrow> bool" where
  "fido2_is_initialized s = f_initialized s"

section \<open>Credentials\<close>

definition fido2_get_credential_count :: "('e, 'm) fido2_scheme \<Rightarrow> byte" where
  "fido2_get_credential_count s = fido2_storage_count (f_store s)"

text \<open>The slot of the visible credential number \<^verbatim>\<open>index\<close>.\<close>

fun visible_slot :: "nat list \<Rightarrow> nat \<Rightarrow> 'e fido2_store \<Rightarrow> nat option" where
  "visible_slot [] index st = None"
| "visible_slot (slot # slots) index st =
     (if fido2_storage_slot_used slot st then
        if index = 0 then Some slot else visible_slot slots (index - 1) st
      else visible_slot slots index st)"

definition fido2_get_credential_info ::
    "'e fido2_env \<Rightarrow> nat \<Rightarrow> ('e, 'm) fido2_scheme \<Rightarrow> cred_info option \<times> ('e, 'm) fido2_scheme" where
  "fido2_get_credential_info x index s =
     (case visible_slot [0..<FIDO2_MAX_CREDENTIALS] index (f_store s) of
        None \<Rightarrow> (None, s)
      | Some slot \<Rightarrow> on_store (fido2_storage_get_credential (x_hw x) slot) s)"

definition fido2_find_credentials_by_rp :: "bytes \<Rightarrow> nat \<Rightarrow> ('e, 'm) fido2_scheme \<Rightarrow> nat list" where
  "fido2_find_credentials_by_rp rp_id_hash max_indices s =
     fido2_storage_find_by_rp rp_id_hash max_indices (f_store s)"

definition fido2_delete_credential ::
    "'e fido2_env \<Rightarrow> nat \<Rightarrow> ('e, 'm) fido2_scheme \<Rightarrow> bool \<times> ('e, 'm) fido2_scheme" where
  "fido2_delete_credential x slot = on_store (fido2_storage_delete_credential (x_hw x) slot)"

definition reset_slot :: "'e fido2_hw \<Rightarrow> nat \<Rightarrow> 'e fido2_store \<Rightarrow> 'e fido2_store" where
  "reset_slot h slot st =
     (if fido2_storage_slot_used slot st then snd (fido2_storage_delete_credential h slot st) else st)"

definition fido2_factory_reset ::
    "'e fido2_env \<Rightarrow> ('e, 'm) fido2_scheme \<Rightarrow> bool \<times> ('e, 'm) fido2_scheme" where
  "fido2_factory_reset x s =
     (let st = fold (reset_slot (x_hw x)) [0..<FIDO2_MAX_CREDENTIALS] (f_store s);
          st = fido2_storage_config_reset (x_hw x) st
      in (True, s\<lparr>f_store := st, f_pins := pin_storage_set_min_pin_floor 0 (f_pins s)\<rparr>))"

definition fido2_get_auth_counter ::
    "'e fido2_env \<Rightarrow> ('e, 'm) fido2_scheme \<Rightarrow> u32 \<times> ('e, 'm) fido2_scheme" where
  "fido2_get_auth_counter x = on_store (fido2_storage_counter_get (x_hw x))"

definition fido2_increment_auth_counter ::
    "'e fido2_env \<Rightarrow> ('e, 'm) fido2_scheme \<Rightarrow> ('e, 'm) fido2_scheme" where
  "fido2_increment_auth_counter x s = snd (on_store (fido2_storage_counter_increment (x_hw x)) s)"

text \<open>\<^verbatim>\<open>total\<close> is a 16-bit number, of which the result keeps the low byte.\<close>

definition fido2_get_available_slots :: "('e, 'm) fido2_scheme \<Rightarrow> byte" where
  "fido2_get_available_slots s =
     (let ecc_start = ucast (fs_ecc_start (f_store s)) :: u16; ecc_end = ucast (fs_ecc_end (f_store s)) in
      if ecc_end < ecc_start then 0
      else
        let total = ecc_end - ecc_start + 1; used = fido2_storage_count (f_store s) in
        if total > ucast used then ucast (total - ucast used) else 0)"

end
