(* ===== verification/U2f.thy ===== *)
theory U2f
  imports Fido2
begin

text \<open>
  The U2F protocol of the FIDO2 module (\<^verbatim>\<open>components/mod_fido2/src/u2f.cpp\<close>): the attestation key in
  ECC slot 0 with its certificate, self-signed or imported, and the three U2F commands.

  A handler gives the length it returns and the bytes it has written to the front of the response
  buffer. The two differ in one place only (\<open>U2F_SW_WTF\<close>).
\<close>

section \<open>State\<close>

abbreviation (input) "U2F_KEY_HANDLE_SIZE \<equiv> (64 :: nat)"
abbreviation (input) "U2F_MAX_ATT_CERT_SIZE \<equiv> (1024 :: nat)"
abbreviation (input) "U2F_MAX_EC_SIG_SIZE \<equiv> (72 :: nat)"
abbreviation (input) "U2F_SW_CONDITIONS_NOT_SATISFIED \<equiv> (0x6985 :: u16)"
abbreviation (input) "U2F_SW_WRONG_DATA \<equiv> (0x6A80 :: u16)"
abbreviation (input) "U2F_SW_WRONG_LENGTH \<equiv> (0x6700 :: u16)"
abbreviation (input) "U2F_SW_CLA_NOT_SUPPORTED \<equiv> (0x6E00 :: u16)"
abbreviation (input) "U2F_SW_INS_NOT_SUPPORTED \<equiv> (0x6D00 :: u16)"
abbreviation (input) "U2F_SW_WTF \<equiv> (0x6F00 :: u16)"
abbreviation (input) "U2F_AUTH_CHECK_ONLY \<equiv> (0x07 :: byte)"
abbreviation (input) "U2F_AUTH_ENFORCE \<equiv> (0x03 :: byte)"

text \<open>\<^verbatim>\<open>g_attest_cert\<close> is a buffer of 1024 bytes, whose first \<^verbatim>\<open>g_attest_cert_len\<close> are the certificate.\<close>

record 'e u2f = "'e fido2" +
  g_attest_cert :: bytes
  g_attest_cert_len :: nat
  g_attest_pubkey :: bytes
  g_attest_initialized :: bool

section \<open>Attestation\<close>

definition cert_matches_attest_key :: "'e fido2_env \<Rightarrow> bytes \<Rightarrow> ('e, 'm) u2f_scheme \<Rightarrow> bool" where
  "cert_matches_attest_key x der s \<longleftrightarrow> x_cert_point x der = Some (g_attest_pubkey s)"

definition u2f_load_imported_cert ::
    "'e fido2_env \<Rightarrow> ('e, 'm) u2f_scheme \<Rightarrow> nat \<times> ('e, 'm) u2f_scheme" where
  "u2f_load_imported_cert x s =
     (case on_env (x_nvs_cert x) s of
        (None, s) \<Rightarrow> (0, s)
      | (Some der, s) \<Rightarrow>
          if length der = 0 \<or> length der > U2F_MAX_ATT_CERT_SIZE then (0, s)
          else
            let s = s\<lparr>g_attest_cert := overwrite der (g_attest_cert s)\<rparr> in
            if \<not> cert_matches_attest_key x der s then (0, s) else (length der, s))"

text \<open>The magnitude of a DER integer: leading zeros stripped, one byte kept.\<close>

fun der_magnitude :: "bytes \<Rightarrow> bytes" where
  "der_magnitude (b # c # bs) = (if b = 0 then der_magnitude (c # bs) else b # c # bs)"
| "der_magnitude bs = bs"

definition u2f_encode_der_integer :: "bytes \<Rightarrow> bytes" where
  "u2f_encode_der_integer mpi =
     (let m = der_magnitude mpi; pad = (if hd m AND 0x80 \<noteq> 0 then [0x00] else [])
      in [0x02, of_nat (length pad + length m)] @ pad @ m)"

definition u2f_attest_sign ::
    "'e fido2_env \<Rightarrow> bytes \<Rightarrow> ('e, 'm) u2f_scheme \<Rightarrow> bytes option \<times> ('e, 'm) u2f_scheme" where
  "u2f_attest_sign x d s =
     (if \<not> hw_present (x_hw x) then (None, s)
      else
        case on_env (hw_ecdsaSign (x_hw x) 0 d) s of
          (None, s) \<Rightarrow> (None, s)
        | (Some raw, s) \<Rightarrow>
            if length raw \<noteq> 64 then (None, s)
            else
              let body = u2f_encode_der_integer (take 32 raw) @ u2f_encode_der_integer (drop 32 raw)
              in (Some ([0x30, of_nat (length body)] @ body), s))"

definition ecdsa_sha256_oid :: bytes where
  "ecdsa_sha256_oid = [0x30, 0x0A, 0x06, 0x08, 0x2A, 0x86, 0x48, 0xCE, 0x3D, 0x04, 0x03, 0x02]"

definition fido2_subject :: bytes where
  "fido2_subject =
     [0x30, 0x59] @
     [0x31, 0x0B, 0x30, 0x09, 0x06, 0x03, 0x55, 0x04, 0x06, 0x13, 0x02] @ ascii ''DE'' @
     [0x31, 0x0C, 0x30, 0x0A, 0x06, 0x03, 0x55, 0x04, 0x0A, 0x0C, 0x03] @ ascii ''CDC'' @
     [0x31, 0x22, 0x30, 0x20, 0x06, 0x03, 0x55, 0x04, 0x0B, 0x0C, 0x19] @
     ascii ''Authenticator Attestation'' @
     [0x31, 0x18, 0x30, 0x16, 0x06, 0x03, 0x55, 0x04, 0x03, 0x0C, 0x0F] @ ascii ''CDC Badge FIDO2''"

definition cert_validity :: bytes where
  "cert_validity =
     [0x30, 0x1E] @ [0x17, 0x0D] @ ascii ''240101000000Z'' @ [0x17, 0x0D] @ ascii ''491231235959Z''"

definition spki_prefix :: bytes where
  "spki_prefix =
     [0x30, 0x59, 0x30, 0x13, 0x06, 0x07, 0x2A, 0x86, 0x48, 0xCE, 0x3D, 0x02, 0x01,
      0x06, 0x08, 0x2A, 0x86, 0x48, 0xCE, 0x3D, 0x03, 0x01, 0x07, 0x03, 0x42, 0x00]"

definition fido2_extensions :: bytes where
  "fido2_extensions =
     [0xA3, 0x1D, 0x30, 0x1B, 0x30, 0x0C, 0x06, 0x03, 0x55, 0x1D, 0x13, 0x01, 0x01, 0xFF,
      0x04, 0x02, 0x30, 0x00, 0x30, 0x0B, 0x06, 0x03, 0x55, 0x1D, 0x0F, 0x04, 0x04,
      0x03, 0x02, 0x07, 0x80]"

definition cert_tbs :: "bytes \<Rightarrow> bytes \<Rightarrow> bytes" where
  "cert_tbs serial pubkey =
     [0xA0, 0x03, 0x02, 0x01, 0x02] @ [0x02, 0x08] @ ((hd serial AND 0x7F) # tl serial) @
     ecdsa_sha256_oid @ fido2_subject @ cert_validity @ fido2_subject @ spki_prefix @ pubkey @
     fido2_extensions"

text \<open>A sequence as the two places of the code write it: a length up to 127, or two more bytes.\<close>

definition cert_sequence :: "bytes \<Rightarrow> bytes" where
  "cert_sequence body =
     (let n = length body in
      0x30 # (if n < 128 then [of_nat n] else [0x82, byte_at 8 (of_nat n :: u32), byte_at 0 (of_nat n :: u32)])
        @ body)"

definition build_cert :: "bytes \<Rightarrow> bytes \<Rightarrow> bytes" where
  "build_cert tbs_wrapped sig =
     cert_sequence (tbs_wrapped @ ecdsa_sha256_oid @ [0x03, of_nat (length sig) + 1, 0x00] @ sig)"

definition u2f_init_attestation ::
    "'e fido2_env \<Rightarrow> ('e, 'm) u2f_scheme \<Rightarrow> bool \<times> ('e, 'm) u2f_scheme" where
  "u2f_init_attestation x s =
     (if g_attest_initialized s then (True, s)
      else if \<not> hw_present (x_hw x) then (False, s)
      else
        case on_env (hw_eccSlotUsed (x_hw x) 0) s of
          (False, s) \<Rightarrow> (False, s)
        | (True, s) \<Rightarrow>
            (case on_env (x_attest_key x) s of
               (None, s) \<Rightarrow> (False, s)
             | (Some (pubkey, curve), s) \<Rightarrow>
                 if curve \<noteq> CDC_CURVE_P256 then (False, s)
                 else
                   let s = s\<lparr>g_attest_pubkey := 0x04 # take 64 pubkey\<rparr>;
                       (imported, s) = u2f_load_imported_cert x s in
                   if imported > 0 then
                     (True, s\<lparr>g_attest_cert_len := imported, g_attest_initialized := True\<rparr>)
                   else
                     (case on_env (hw_getRandom (x_hw x) 8) s of
                        (None, s) \<Rightarrow> (False, s)
                      | (Some serial, s) \<Rightarrow>
                          let tbs_wrapped = cert_sequence (cert_tbs serial (g_attest_pubkey s)) in
                          (case u2f_attest_sign x tbs_wrapped s of
                             (None, s) \<Rightarrow> (False, s)
                           | (Some sig, s) \<Rightarrow>
                               let cert = build_cert tbs_wrapped sig in
                               (True, s\<lparr>g_attest_cert := overwrite cert (g_attest_cert s),
                                  g_attest_cert_len := length cert, g_attest_initialized := True\<rparr>)))))"

definition u2f_get_attestation_cert ::
    "'e fido2_env \<Rightarrow> ('e, 'm) u2f_scheme \<Rightarrow> bytes option \<times> ('e, 'm) u2f_scheme" where
  "u2f_get_attestation_cert x s =
     (case u2f_init_attestation x s of
        (False, s) \<Rightarrow> (None, s)
      | (True, s) \<Rightarrow> (Some (take (g_attest_cert_len s) (g_attest_cert s)), s))"

definition u2f_get_attestation_pubkey ::
    "'e fido2_env \<Rightarrow> ('e, 'm) u2f_scheme \<Rightarrow> bytes option \<times> ('e, 'm) u2f_scheme" where
  "u2f_get_attestation_pubkey x s =
     (case u2f_init_attestation x s of
        (False, s) \<Rightarrow> (None, s)
      | (True, s) \<Rightarrow> (Some (g_attest_pubkey s), s))"

definition u2f_import_attestation_cert ::
    "'e fido2_env \<Rightarrow> bytes \<Rightarrow> ('e, 'm) u2f_scheme \<Rightarrow> bool \<times> ('e, 'm) u2f_scheme" where
  "u2f_import_attestation_cert x der s =
     (if length der = 0 \<or> length der > U2F_MAX_ATT_CERT_SIZE then (False, s)
      else
        case u2f_init_attestation x s of
          (False, s) \<Rightarrow> (False, s)
        | (True, s) \<Rightarrow>
            if \<not> cert_matches_attest_key x der s then (False, s)
            else
              (case on_env (x_nvs_set_cert x der) s of
                 (False, s) \<Rightarrow> (False, s)
               | (True, s) \<Rightarrow> u2f_init_attestation x (s\<lparr>g_attest_initialized := False\<rparr>)))"

definition u2f_clear_attestation_cert ::
    "'e fido2_env \<Rightarrow> ('e, 'm) u2f_scheme \<Rightarrow> bool \<times> ('e, 'm) u2f_scheme" where
  "u2f_clear_attestation_cert x s =
     (let s = s\<lparr>f_store := hw_do (x_nvs_erase_cert x) (f_store s)\<rparr>
      in u2f_init_attestation x (s\<lparr>g_attest_initialized := False\<rparr>))"

definition u2f_attestation_sign ::
    "'e fido2_env \<Rightarrow> bytes \<Rightarrow> ('e, 'm) u2f_scheme \<Rightarrow> bytes option \<times> ('e, 'm) u2f_scheme" where
  "u2f_attestation_sign x d s =
     (case u2f_init_attestation x s of
        (False, s) \<Rightarrow> (None, s)
      | (True, s) \<Rightarrow> u2f_attest_sign x d s)"

section \<open>Commands\<close>

type_synonym u2f_reply = "u16 \<times> bytes"

definition u2f_response_error :: "u16 \<Rightarrow> u2f_reply" where
  "u2f_response_error sw = (2, [byte_at 8 sw, byte_at 0 sw])"

definition u2f_response :: "bytes \<Rightarrow> u2f_reply" where
  "u2f_response bs = (of_nat (length bs), bs)"

definition u2f_version :: "nat \<Rightarrow> u2f_reply" where
  "u2f_version response_max =
     (let version = ascii ''U2F_V2'' in
      if response_max < length version + 2 then u2f_response_error U2F_SW_WRONG_LENGTH
      else u2f_response (version @ [0x90, 0x00]))"

definition is_dummy_application :: "bytes \<Rightarrow> bool" where
  "is_dummy_application application \<longleftrightarrow> (\<forall>i \<in> set [1..<32]. application ! i = application ! 0)"

definition hex_digit :: "byte \<Rightarrow> byte" where
  "hex_digit n = (if n < 10 then 0x30 + n else 0x61 + (n - 10))"

text \<open>\<^verbatim>\<open>snprintf\<close> of \<^verbatim>\<open>"U2F:%02x%02x%02x%02x"\<close>.\<close>

definition u2f_rp_id :: "bytes \<Rightarrow> bytes" where
  "u2f_rp_id application =
     ascii ''U2F:'' @ concat (map (\<lambda>b. [hex_digit (drop_bit 4 b), hex_digit (b AND 0xF)]) (take 4 application))"

definition register_to_sign :: "bytes \<Rightarrow> bytes \<Rightarrow> bytes \<Rightarrow> bytes \<Rightarrow> bytes" where
  "register_to_sign application challenge key_handle pubkey =
     [0x00] @ application @ challenge @ key_handle @ [0x04] @ pubkey"

definition register_head :: "bytes \<Rightarrow> bytes \<Rightarrow> bytes" where
  "register_head pubkey key_handle = [0x05, 0x04] @ pubkey @ [of_nat U2F_KEY_HANDLE_SIZE] @ key_handle"

definition u2f_register_dummy ::
    "'e fido2_env \<Rightarrow> bytes \<Rightarrow> bytes \<Rightarrow> nat \<Rightarrow> ('e, 'm) u2f_scheme \<Rightarrow>
      u2f_reply \<times> ('e, 'm) u2f_scheme" where
  "u2f_register_dummy x challenge application response_max s =
     (let (up, s) = fido2_request_user_presence (Some (u2f_rp_id application)) Action_Select None s in
      if up \<noteq> UP_Approved then (u2f_response_error U2F_SW_CONDITIONS_NOT_SATISFIED, s)
      else if \<not> hw_present (x_hw x) then ((U2F_SW_WTF, []), s)
      else
        case on_env (hw_getRandom (x_hw x) U2F_KEY_HANDLE_SIZE) s of
          (None, s) \<Rightarrow> ((U2F_SW_WTF, []), s)
        | (Some dummy_cred, s) \<Rightarrow>
            (case on_env (hw_getRandom (x_hw x) 64) s of
               (None, s) \<Rightarrow> ((U2F_SW_WTF, []), s)
             | (Some dummy_pubkey, s) \<Rightarrow>
                 let head = register_head dummy_pubkey dummy_cred in
                 if length head + g_attest_cert_len s + U2F_MAX_EC_SIG_SIZE + 2 > response_max then
                   (u2f_response_error U2F_SW_WRONG_LENGTH, s)
                 else
                   (case u2f_attest_sign x (register_to_sign application challenge dummy_cred dummy_pubkey) s of
                      (None, s) \<Rightarrow> (u2f_response_error U2F_SW_WRONG_DATA, s)
                    | (Some signature, s) \<Rightarrow>
                        (u2f_response (head @ take (g_attest_cert_len s) (g_attest_cert s) @ signature @
                           [0x90, 0x00]), s))))"

text \<open>The error paths after the credential was created delete it again.\<close>

definition u2f_undo ::
    "'e fido2_env \<Rightarrow> nat \<Rightarrow> u16 \<Rightarrow> ('e, 'm) u2f_scheme \<Rightarrow> u2f_reply \<times> ('e, 'm) u2f_scheme" where
  "u2f_undo x slot sw s =
     (u2f_response_error sw, snd (on_store (fido2_storage_delete_credential (x_hw x) slot) s))"

definition u2f_register ::
    "'e fido2_env \<Rightarrow> bytes \<Rightarrow> bytes \<Rightarrow> nat \<Rightarrow> ('e, 'm) u2f_scheme \<Rightarrow>
      u2f_reply \<times> ('e, 'm) u2f_scheme" where
  "u2f_register x challenge application response_max s =
     (if is_dummy_application application then u2f_register_dummy x challenge application response_max s
      else
        let rp_id = u2f_rp_id application;
            (up, s) = fido2_request_user_presence (Some rp_id) Action_Register None s in
        if up \<noteq> UP_Approved then (u2f_response_error U2F_SW_CONDITIONS_NOT_SATISFIED, s)
        else
          case on_store (fido2_storage_create_credential (x_hw x) rp_id application [0] 1 (ascii ''U2F'')
                 False 0 CDC_CURVE_P256) s of
            (None, s) \<Rightarrow> (u2f_response_error U2F_SW_WRONG_DATA, s)
          | (Some (slot, cred_id, pubkey), s) \<Rightarrow>
              let head = register_head pubkey cred_id in
              (case u2f_init_attestation x s of
                 (False, s) \<Rightarrow> u2f_undo x slot U2F_SW_WRONG_DATA s
               | (True, s) \<Rightarrow>
                   if length head + g_attest_cert_len s + U2F_MAX_EC_SIG_SIZE + 2 > response_max then
                     u2f_undo x slot U2F_SW_WRONG_LENGTH s
                   else
                     (case u2f_attest_sign x (register_to_sign application challenge cred_id pubkey) s of
                        (None, s) \<Rightarrow> u2f_undo x slot U2F_SW_WRONG_DATA s
                      | (Some signature, s) \<Rightarrow>
                          (u2f_response (head @ take (g_attest_cert_len s) (g_attest_cert s) @ signature @
                             [0x90, 0x00]), s))))"

definition counter_bytes :: "u32 \<Rightarrow> bytes" where
  "counter_bytes v = [byte_at 24 v, byte_at 16 v, byte_at 8 v, byte_at 0 v]"

definition u2f_authenticate ::
    "'e fido2_env \<Rightarrow> byte \<Rightarrow> bytes \<Rightarrow> bytes \<Rightarrow> bytes \<Rightarrow> ('e, 'm) u2f_scheme \<Rightarrow>
      u2f_reply \<times> ('e, 'm) u2f_scheme" where
  "u2f_authenticate x p1 challenge application key_handle s =
     (if length key_handle \<noteq> U2F_KEY_HANDLE_SIZE then (u2f_response_error U2F_SW_WRONG_DATA, s)
      else
        case on_store (fido2_storage_find_slot_by_cred_id (x_hw x) key_handle) s of
          (None, s) \<Rightarrow> (u2f_response_error U2F_SW_WRONG_DATA, s)
        | (Some slot, s) \<Rightarrow>
            (case on_store (fido2_storage_get_credential (x_hw x) slot) s of
               (None, s) \<Rightarrow> (u2f_response_error U2F_SW_WRONG_DATA, s)
             | (Some cred, s) \<Rightarrow>
                 if ci_rp_id_hash cred \<noteq> application then (u2f_response_error U2F_SW_WRONG_DATA, s)
                 else if p1 = U2F_AUTH_CHECK_ONLY then
                   (u2f_response_error U2F_SW_CONDITIONS_NOT_SATISFIED, s)
                 else if p1 \<noteq> U2F_AUTH_ENFORCE then (u2f_response_error U2F_SW_WRONG_DATA, s)
                 else
                   let (up, s) = fido2_request_user_presence (Some (cstr (ci_rp_id cred)))
                         Action_Authenticate (Some (cstr (ci_user_name cred))) s in
                   if up \<noteq> UP_Approved then (u2f_response_error U2F_SW_CONDITIONS_NOT_SATISFIED, s)
                   else
                     let (counter, s) = on_store (fido2_storage_increment_sign_count (x_hw x) slot) s in
                     if counter = 0 then (u2f_response_error U2F_SW_CONDITIONS_NOT_SATISFIED, s)
                     else
                       let s = fido2_increment_auth_counter x s;
                           to_sign = application @ [0x01] @ counter_bytes counter @ challenge in
                       (case on_store (fido2_storage_sign_raw (x_hw x) slot to_sign) s of
                          (None, s) \<Rightarrow> (u2f_response_error U2F_SW_WRONG_DATA, s)
                        | (Some signature, s) \<Rightarrow>
                            (u2f_response ([0x01] @ counter_bytes counter @ signature @ [0x90, 0x00]), s))))"

text \<open>The data field of an APDU with extended or short length, cut to what was received.\<close>

definition u2f_data :: "bytes \<Rightarrow> bytes" where
  "u2f_data apdu =
     (if length apdu > 4 then
        if apdu ! 4 = 0x00 \<and> length apdu > 6 then
          take (unat (be16 (apdu ! 5) (apdu ! 6))) (drop 7 apdu)
        else take (unat (apdu ! 4)) (drop 5 apdu)
      else [])"

definition u2f_process_apdu ::
    "'e fido2_env \<Rightarrow> bytes \<Rightarrow> nat \<Rightarrow> ('e, 'm) u2f_scheme \<Rightarrow> u2f_reply \<times> ('e, 'm) u2f_scheme" where
  "u2f_process_apdu x apdu response_max s =
     (if length apdu < 4 then (u2f_response_error U2F_SW_WRONG_LENGTH, s)
      else
        let cla = apdu ! 0; ins = apdu ! 1; p1 = apdu ! 2; d = u2f_data apdu in
        if cla \<noteq> 0x00 then (u2f_response_error U2F_SW_CLA_NOT_SUPPORTED, s)
        else if ins = 0x03 then (u2f_version response_max, s)
        else if ins = 0x01 then
          if length d < 64 then (u2f_response_error U2F_SW_WRONG_LENGTH, s)
          else u2f_register x (take 32 d) (take 32 (drop 32 d)) response_max s
        else if ins = 0x02 then
          if length d < 65 then (u2f_response_error U2F_SW_WRONG_LENGTH, s)
          else
            let kh_len = unat (d ! 64) in
            if length d < 65 + kh_len then (u2f_response_error U2F_SW_WRONG_LENGTH, s)
            else u2f_authenticate x p1 (take 32 d) (take 32 (drop 32 d)) (take kh_len (drop 65 d)) s
        else (u2f_response_error U2F_SW_INS_NOT_SUPPORTED, s))"

end
