(* ===== verification/Large_Blob.thy ===== *)
theory Large_Blob
  imports Prelude
begin

text \<open>
  The session that assembles a large-blob array from its fragments
  (\<^verbatim>\<open>components/mod_fido2/src/LargeBlobStore.cpp\<close>, \<^verbatim>\<open>LargeBlobStore.h\<close>). The session keeps a pointer to
  the caller's buffer; the model hands the buffer to \<^verbatim>\<open>append\<close> and gets it back.
\<close>

abbreviation (input) "kLargeBlobMaxArray \<equiv> (1024 :: u16)"
abbreviation (input) "kLargeBlobEmptyLen \<equiv> (17 :: u32)"

datatype lb_result = Lb_Ok | Lb_StorageFull | Lb_BadLength | Lb_BadSeq

record lb_session =
  lb_capacity :: u16
  lb_expected :: u16
  lb_received :: u16
  lb_active :: bool

definition lb_reset :: lb_session where
  "lb_reset = \<lparr>lb_capacity = 0, lb_expected = 0, lb_received = 0, lb_active = False\<rparr>"

definition lb_begin :: "u16 \<Rightarrow> u32 \<Rightarrow> lb_session \<Rightarrow> lb_result \<times> lb_session" where
  "lb_begin capacity total_length l =
     (let limit = (if capacity < kLargeBlobMaxArray then capacity else kLargeBlobMaxArray) in
      if total_length > ucast limit then (Lb_StorageFull, l)
      else if total_length < kLargeBlobEmptyLen then (Lb_BadLength, l)
      else (Lb_Ok, l\<lparr>lb_capacity := capacity, lb_expected := ucast total_length, lb_received := 0,
             lb_active := True\<rparr>))"

definition lb_append :: "u32 \<Rightarrow> bytes \<Rightarrow> lb_session \<Rightarrow> bytes \<Rightarrow> lb_result \<times> lb_session \<times> bytes" where
  "lb_append offset d l buf =
     (let len = of_nat (length d) :: u16 in
      if \<not> lb_active l then (Lb_BadSeq, l, buf)
      else if offset \<noteq> ucast (lb_received l) then (Lb_BadSeq, l, buf)
      else if offset + ucast len > ucast (lb_expected l) then (Lb_BadLength, l, buf)
      else (Lb_Ok, l\<lparr>lb_received := lb_received l + len\<rparr>,
            take (unat offset) buf @ d @ drop (unat offset + length d) buf))"

definition lb_complete :: "lb_session \<Rightarrow> bool" where
  "lb_complete l \<longleftrightarrow> lb_active l \<and> lb_received l = lb_expected l"

end
