(* ===== verification/Ctap2_State.thy ===== *)
theory Ctap2_State
  imports U2f Large_Blob
begin

text \<open>
  The state of the CTAP2 commands (\<^verbatim>\<open>components/mod_fido2/src/ctap2.cpp\<close>) and what they share: random
  numbers, the prompt, the check of a \<^verbatim>\<open>pinUvAuthParam\<close>, the authenticator data, and the answers.
  Also the commands without parameters that change no state of their own: \<^verbatim>\<open>authenticatorGetInfo\<close>,
  \<^verbatim>\<open>authenticatorSelection\<close> and \<^verbatim>\<open>authenticatorReset\<close>.

  A handler gets the size of the response buffer (\<^verbatim>\<open>*response_len\<close> on entry) and gives the bytes it
  leaves there, of which the first is the status it returns. The three flags of \<^verbatim>\<open>g_ctap2\<close> the
  dispatcher keeps (initialised, pending, cancelled) belong to the model of the transport.
\<close>

section \<open>State\<close>

text \<open>
  \<open>ga_\<close>: \<^verbatim>\<open>g_ctap2\<close>, what a getNextAssertion continues; \<open>cp_\<close>: \<^verbatim>\<open>g_client_pin\<close>, with no key where
  \<^verbatim>\<open>ecdh_valid\<close> is false; \<open>cm_\<close>: \<^verbatim>\<open>g_cred_mgmt\<close>; \<open>bl_\<close>: the session and the buffer of a large-blob
  write.
\<close>

record 'e ctap2 = "'e u2f" +
  ga_creds :: "nat list"
  ga_count :: byte
  ga_index :: byte
  ga_rp_id_hash :: bytes
  ga_client_data_hash :: bytes
  ga_up_done :: bool
  ga_include_user :: bool
  ga_appid_used :: bool
  cp_initialized :: bool
  cp_key :: "(bytes \<times> bytes) option"
  cp_token :: bytes
  cp_token_valid :: bool
  cp_permissions :: byte
  cp_rp_id_hash :: bytes
  cp_rp_id_set :: bool
  cp_pin_retries :: byte
  cp_uv_retries :: byte
  cm_rp_slots :: "nat list"
  cm_rp_count :: byte
  cm_rp_index :: byte
  cm_cred_slots :: "nat list"
  cm_cred_count :: byte
  cm_cred_index :: byte
  cm_rp_id_hash :: bytes
  bl_session :: lb_session
  bl_buf :: bytes

abbreviation (input) "CTAP2_OK \<equiv> (0x00 :: byte)"
abbreviation (input) "CTAP1_ERR_INVALID_COMMAND \<equiv> (0x01 :: byte)"
abbreviation (input) "CTAP1_ERR_INVALID_PARAMETER \<equiv> (0x02 :: byte)"
abbreviation (input) "CTAP1_ERR_INVALID_LENGTH \<equiv> (0x03 :: byte)"
abbreviation (input) "CTAP1_ERR_INVALID_SEQ \<equiv> (0x04 :: byte)"
abbreviation (input) "CTAP2_ERR_INVALID_CBOR \<equiv> (0x12 :: byte)"
abbreviation (input) "CTAP2_ERR_MISSING_PARAMETER \<equiv> (0x14 :: byte)"
abbreviation (input) "CTAP2_ERR_LARGE_BLOB_STORAGE_FULL \<equiv> (0x18 :: byte)"
abbreviation (input) "CTAP2_ERR_CREDENTIAL_EXCLUDED \<equiv> (0x19 :: byte)"
abbreviation (input) "CTAP2_ERR_UNSUPPORTED_ALGORITHM \<equiv> (0x26 :: byte)"
abbreviation (input) "CTAP2_ERR_OPERATION_DENIED \<equiv> (0x27 :: byte)"
abbreviation (input) "CTAP2_ERR_KEY_STORE_FULL \<equiv> (0x28 :: byte)"
abbreviation (input) "CTAP2_ERR_UNSUPPORTED_OPTION \<equiv> (0x2B :: byte)"
abbreviation (input) "CTAP2_ERR_INVALID_OPTION \<equiv> (0x2C :: byte)"
abbreviation (input) "CTAP2_ERR_NO_CREDENTIALS \<equiv> (0x2E :: byte)"
abbreviation (input) "CTAP2_ERR_NOT_ALLOWED \<equiv> (0x30 :: byte)"
abbreviation (input) "CTAP2_ERR_PIN_INVALID \<equiv> (0x31 :: byte)"
abbreviation (input) "CTAP2_ERR_PIN_BLOCKED \<equiv> (0x32 :: byte)"
abbreviation (input) "CTAP2_ERR_PIN_AUTH_INVALID \<equiv> (0x33 :: byte)"
abbreviation (input) "CTAP2_ERR_PIN_NOT_SET \<equiv> (0x35 :: byte)"
abbreviation (input) "CTAP2_ERR_PIN_REQUIRED \<equiv> (0x36 :: byte)"
abbreviation (input) "CTAP2_ERR_INTEGRITY_FAILURE \<equiv> (0x3D :: byte)"
abbreviation (input) "CTAP2_ERR_OTHER \<equiv> (0x7F :: byte)"

abbreviation (input) "PIN_RETRIES_MAX \<equiv> (8 :: byte)"
abbreviation (input) "PIN_UV_RETRIES_MAX \<equiv> (3 :: byte)"
abbreviation (input) "PIN_TOKEN_SIZE \<equiv> (32 :: nat)"
abbreviation (input) "PIN_PERM_MAKE_CREDENTIAL \<equiv> (0x01 :: byte)"
abbreviation (input) "PIN_PERM_GET_ASSERTION \<equiv> (0x02 :: byte)"
abbreviation (input) "PIN_PERM_CRED_MGMT \<equiv> (0x04 :: byte)"
abbreviation (input) "PIN_PERM_LARGE_BLOB_WRITE \<equiv> (0x10 :: byte)"
abbreviation (input) "PIN_PERM_AUTHN_CONFIG \<equiv> (0x20 :: byte)"
abbreviation (input) "COSE_ALG_ES256 \<equiv> (- 7 :: u64)"
abbreviation (input) "COSE_ALG_EDDSA \<equiv> (- 8 :: u64)"

definition AAGUID :: bytes where
  "AAGUID = [0xCD, 0xCB, 0xAD, 0x6E, 0x39, 0xC3, 0x00, 0x01, 0xBA, 0xD6, 0xE0, 0x01, 0x00, 0x00, 0x00, 0x01]"

text \<open>The \<open>ga_\<close> fields as \<^verbatim>\<open>ctap2_init\<close> leaves them.\<close>

definition ctap2_init :: "('e, 'm) ctap2_scheme \<Rightarrow> ('e, 'm) ctap2_scheme" where
  "ctap2_init s = s\<lparr>ga_creds := replicate FIDO2_MAX_CREDENTIALS 0, ga_count := 0, ga_index := 0,
     ga_rp_id_hash := replicate 32 0, ga_client_data_hash := replicate 32 0, ga_up_done := False,
     ga_include_user := False, ga_appid_used := False\<rparr>"

section \<open>Answers\<close>

text \<open>A writer on the response buffer behind the status byte.\<close>

definition response_writer :: "nat \<Rightarrow> cbor_writer" where
  "response_writer cap = cbor_writer_init (cap - 1)"

definition ok_response :: "cbor_writer \<Rightarrow> bytes" where
  "ok_response w = CTAP2_OK # w_buffer w"

definition checked_response :: "cbor_writer \<Rightarrow> bytes" where
  "checked_response w = (if w_error w then [CTAP2_ERR_OTHER] else ok_response w)"

section \<open>Randomness, presence, authorisation\<close>

definition secure_random_fill ::
    "'e fido2_env \<Rightarrow> nat \<Rightarrow> ('e, 'm) fido2_scheme \<Rightarrow> bytes \<times> ('e, 'm) fido2_scheme" where
  "secure_random_fill x len s =
     (if \<not> hw_present (x_hw x) then on_env (x_esp_random x len) s
      else
        case on_env (x_session_active x) s of
          (False, s) \<Rightarrow> on_env (x_esp_random x len) s
        | (True, s) \<Rightarrow>
            (case on_env (hw_getRandom (x_hw x) len) s of
               (None, s) \<Rightarrow> on_env (x_esp_random x len) s
             | (Some d, s) \<Rightarrow> (d, s)))"

definition wait_for_user_presence ::
    "bytes option \<Rightarrow> fido2_action \<Rightarrow> bytes option \<Rightarrow> ('e, 'm) fido2_scheme \<Rightarrow>
      bool \<times> ('e, 'm) fido2_scheme" where
  "wait_for_user_presence rp_id action user_name s =
     (case fido2_request_user_presence rp_id action user_name s of
        (result, s) \<Rightarrow> (result = UP_Approved, s))"

text \<open>\<^verbatim>\<open>memcmp\<close> of a received parameter with the HMAC: 32 bytes for protocol 2, else 16.\<close>

definition hmac_matches :: "byte \<Rightarrow> bytes \<Rightarrow> bytes \<Rightarrow> bool" where
  "hmac_matches protocol param expected \<longleftrightarrow>
     (let compare_len = (if protocol = 2 then 32 else 16) in
      \<not> length param < compare_len \<and> take compare_len param = take compare_len expected)"

definition verify_token_over_message ::
    "'e fido2_env \<Rightarrow> bytes \<Rightarrow> byte \<Rightarrow> bytes \<Rightarrow> byte \<Rightarrow> ('e, 'm) ctap2_scheme \<Rightarrow> byte" where
  "verify_token_over_message x msg protocol param required_perm s =
     (if \<not> cp_token_valid s then CTAP2_ERR_PIN_AUTH_INVALID
      else if required_perm \<noteq> 0 \<and> cp_permissions s AND required_perm = 0 then CTAP2_ERR_PIN_AUTH_INVALID
      else if \<not> hmac_matches protocol param (x_hmac x (cp_token s) msg) then CTAP2_ERR_PIN_AUTH_INVALID
      else CTAP2_OK)"

text \<open>
  What makeCredential and getAssertion check of their \<^verbatim>\<open>pinUvAuthParam\<close>, over the hash of the client
  data: the status, and whether the user is verified.
\<close>

definition verify_client_data ::
    "'e fido2_env \<Rightarrow> byte \<Rightarrow> bytes \<Rightarrow> bytes \<Rightarrow> byte \<Rightarrow> bytes \<Rightarrow> ('e, 'm) ctap2_scheme \<Rightarrow>
      (byte \<times> bool) \<times> ('e, 'm) ctap2_scheme" where
  "verify_client_data x perm rp_id_hash client_data_hash protocol param s =
     (if length param = 0 then ((CTAP2_OK, False), s)
      else if \<not> cp_token_valid s then ((CTAP2_ERR_PIN_AUTH_INVALID, False), s)
      else if cp_permissions s AND perm = 0 then ((CTAP2_ERR_PIN_AUTH_INVALID, False), s)
      else if cp_rp_id_set s \<and> cp_rp_id_hash s \<noteq> rp_id_hash then ((CTAP2_ERR_PIN_AUTH_INVALID, False), s)
      else if \<not> hmac_matches protocol param (x_hmac x (cp_token s) client_data_hash) then
        ((CTAP2_ERR_PIN_AUTH_INVALID, False), s)
      else ((CTAP2_OK, True), fido2_set_pin_verified True s))"

section \<open>Authenticator data\<close>

definition build_authenticator_data :: "bytes \<Rightarrow> byte \<Rightarrow> u32 \<Rightarrow> bytes \<Rightarrow> bytes \<Rightarrow> bytes" where
  "build_authenticator_data rp_id_hash flags sign_count attested_cred ext_data =
     rp_id_hash @ [if length ext_data > 0 then flags OR 0x80 else flags] @ counter_bytes sign_count @
     attested_cred @ ext_data"

definition ctap2_build_attested_cred :: "bytes \<Rightarrow> bytes \<Rightarrow> byte \<Rightarrow> nat \<Rightarrow> bytes option" where
  "ctap2_build_attested_cred cred_id pubkey curve out_size =
     (let n = length cred_id in
      if out_size < 16 + 2 + n then None
      else
        let head = AAGUID @ [byte_at 8 (of_nat n :: u16), byte_at 0 (of_nat n :: u16)] @ cred_id;
            w = cbor_writer_init (out_size - length head);
            w = (if curve = CDC_CURVE_ED25519 then cbor_encode_cose_key_ed25519 w pubkey
                 else cbor_encode_cose_key_p256 w pubkey (drop 32 pubkey))
        in if w_error w then None else Some (head @ w_buffer w))"

definition ctap2_build_cred_protect_extension :: "byte \<Rightarrow> nat \<Rightarrow> bytes" where
  "ctap2_build_cred_protect_extension level out_size =
     (if level = 0 \<or> out_size < 20 then []
      else
        let w = foldl encode (cbor_writer_init out_size) [EMap 1, EText (ascii ''credProtect''), EUint (ucast level)]
        in if w_error w then [] else w_buffer w)"

definition ctap2_build_appid_extension :: "nat \<Rightarrow> bytes" where
  "ctap2_build_appid_extension out_size =
     (let w = foldl encode (cbor_writer_init out_size) [EMap 1, EText (ascii ''appid''), EBool True]
      in if w_error w then [] else w_buffer w)"

definition ctap2_build_auth_data_for_cred :: "bytes \<Rightarrow> bytes \<Rightarrow> byte \<Rightarrow> bool \<Rightarrow> bytes" where
  "ctap2_build_auth_data_for_cred rp_id_hash attested_cred cred_protect uv_verified =
     (let flags = 0x01 OR 0x40; flags = (if uv_verified then flags OR 0x04 else flags);
          ext_data = (if cred_protect > 0 then ctap2_build_cred_protect_extension cred_protect 32 else [])
      in build_authenticator_data rp_id_hash flags 0 attested_cred ext_data)"

section \<open>The commands without parameters\<close>

text \<open>The least PIN length that counts: the stored one, but not below the badge's own.\<close>

definition min_pin_floor ::
    "'e fido2_env \<Rightarrow> ('e, 'm) fido2_scheme \<Rightarrow> byte \<times> ('e, 'm) fido2_scheme" where
  "min_pin_floor x s =
     (case on_store (fido2_storage_get_min_pin_len (x_hw x)) s of
        (n, s) \<Rightarrow> (if n < 4 then 4 else n, s))"

definition public_key_param :: "u64 \<Rightarrow> encode_call list" where
  "public_key_param alg =
     [EMap 2, EText (ascii ''alg''), EInt alg, EText (ascii ''type''), EText (ascii ''public-key'')]"

definition info_calls :: "bool \<Rightarrow> byte \<Rightarrow> encode_call list" where
  "info_calls always_uv floor =
     [EMap 12] @
     [EUint 0x01, EArray 3, EText (ascii ''FIDO_2_0''), EText (ascii ''FIDO_2_1''), EText (ascii ''U2F_V2'')] @
     [EUint 0x02, EArray 3, EText (ascii ''appid''), EText (ascii ''credProtect''), EText (ascii ''appidExclude'')] @
     [EUint 0x03, EBytes AAGUID] @
     [EUint 0x04, EMap 12, EText (ascii ''rk''), EBool True, EText (ascii ''up''), EBool True,
      EText (ascii ''uv''), EBool False, EText (ascii ''plat''), EBool False,
      EText (ascii ''alwaysUv''), EBool always_uv, EText (ascii ''credMgmt''), EBool True,
      EText (ascii ''authnrCfg''), EBool True, EText (ascii ''clientPin''), EBool True,
      EText (ascii ''largeBlobs''), EBool True, EText (ascii ''pinUvAuthToken''), EBool True,
      EText (ascii ''setMinPINLength''), EBool True, EText (ascii ''makeCredUvNotRqd''), EBool True] @
     [EUint 0x05, EUint 1200] @
     [EUint 0x06, EArray 1, EUint 2] @
     [EUint 0x07, EUint 8] @
     [EUint 0x08, EUint 64] @
     [EUint 0x09, EArray 1, EText (ascii ''usb'')] @
     [EUint 0x0A, EArray 2] @ public_key_param COSE_ALG_ES256 @ public_key_param COSE_ALG_EDDSA @
     [EUint 0x0B, EUint 1024] @
     [EUint 0x0D, EUint (ucast floor)]"

definition ctap2_get_info ::
    "'e fido2_env \<Rightarrow> nat \<Rightarrow> ('e, 'm) fido2_scheme \<Rightarrow> bytes \<times> ('e, 'm) fido2_scheme" where
  "ctap2_get_info x cap s =
     (let (always_uv, s) = on_store (fido2_storage_get_always_uv (x_hw x)) s;
          (floor, s) = min_pin_floor x s
      in (checked_response (foldl encode (response_writer cap) (info_calls always_uv floor)), s))"

definition ctap2_selection :: "('e, 'm) fido2_scheme \<Rightarrow> bytes \<times> ('e, 'm) fido2_scheme" where
  "ctap2_selection s =
     (case wait_for_user_presence None Action_Select None s of
        (False, s) \<Rightarrow> ([CTAP2_ERR_OPERATION_DENIED], s)
      | (True, s) \<Rightarrow> ([CTAP2_OK], s))"

definition ctap2_reset ::
    "'e fido2_env \<Rightarrow> ('e, 'm) ctap2_scheme \<Rightarrow> bytes \<times> ('e, 'm) ctap2_scheme" where
  "ctap2_reset x s =
     (case fido2_reset_window_open x s of
        (False, s) \<Rightarrow> ([CTAP2_ERR_NOT_ALLOWED], s)
      | (True, s) \<Rightarrow>
          (case wait_for_user_presence None Action_Reset None s of
             (False, s) \<Rightarrow> ([CTAP2_ERR_OPERATION_DENIED], s)
           | (True, s) \<Rightarrow>
               (case fido2_factory_reset x s of
                  (False, s) \<Rightarrow> ([CTAP2_ERR_OTHER], s)
                | (True, s) \<Rightarrow>
                    ([CTAP2_OK], fido2_set_pin_verified False (s\<lparr>cp_token := replicate PIN_TOKEN_SIZE 0,
                       cp_token_valid := False, cp_permissions := 0\<rparr>)))))"

end
