(* ===== verification/Ctap2_Pin.thy ===== *)
theory Ctap2_Pin
  imports Ctap2_State
begin

text \<open>
  \<^verbatim>\<open>authenticatorClientPIN\<close> (\<^verbatim>\<open>components/mod_fido2/src/ctap2.cpp\<close>): the retry counters, the key
  agreement, and the two ways to a PIN token. Loops over a CBOR map work on the reader and the
  variables they set; a count below zero, an error of the reader, makes no round.
\<close>

section \<open>Reading maps\<close>

definition skip_item :: "cbor_reader \<Rightarrow> cbor_reader" where
  "skip_item r = snd (cbor_skip_item r)"

text \<open>A \<^verbatim>\<open>cbor_read_uint\<close> whose result nobody looks at: the variable keeps its value on failure.\<close>

definition read_uint_into :: "cbor_reader \<Rightarrow> u64 \<Rightarrow> u64 \<times> cbor_reader" where
  "read_uint_into r v = (case cbor_read_uint r of (None, r) \<Rightarrow> (v, r) | (Some v', r) \<Rightarrow> (v', r))"

definition loop_end :: "'s + 's \<Rightarrow> 's" where
  "loop_end m = (case m of Inl s \<Rightarrow> s | Inr s \<Rightarrow> s)"

text \<open>The key of a map entry: an integer of either sign, as the \<^verbatim>\<open>int64_t\<close> it is put into.\<close>

definition item_key :: "cbor_item \<Rightarrow> u64 option" where
  "item_key item =
     (if it_type item = CBOR_UNSIGNED then Some (it_value item)
      else if it_type item = CBOR_NEGATIVE then Some (- 1 - it_value item)
      else None)"

section \<open>Key agreement\<close>

definition client_pin_init_ecdh ::
    "'e fido2_env \<Rightarrow> ('e, 'm) ctap2_scheme \<Rightarrow> bool \<times> ('e, 'm) ctap2_scheme" where
  "client_pin_init_ecdh x s =
     (if cp_key s \<noteq> None then (True, s)
      else
        case on_env (x_gen_key x) s of
          (None, s) \<Rightarrow> (False, s)
        | (Some key, s) \<Rightarrow>
            (True, s\<lparr>cp_key := Some key, cp_pin_retries := PIN_RETRIES_MAX,
               cp_uv_retries := PIN_UV_RETRIES_MAX\<rparr>))"

definition derive_secret :: "'e fido2_env \<Rightarrow> byte \<Rightarrow> bytes \<Rightarrow> bytes" where
  "derive_secret x pin_protocol z =
     (if pin_protocol = 1 then x_sha256 x z
      else x_hmac x (x_hmac x (replicate 32 0) z) (ascii ''CTAP2 AES key'' @ [0x01]))"

definition client_pin_compute_shared_secret ::
    "'e fido2_env \<Rightarrow> bytes \<Rightarrow> bytes \<Rightarrow> byte \<Rightarrow> ('e, 'm) ctap2_scheme \<Rightarrow>
      bytes option \<times> ('e, 'm) ctap2_scheme" where
  "client_pin_compute_shared_secret x platform_key_x platform_key_y pin_protocol s =
     (case cp_key s of
        None \<Rightarrow> (None, s)
      | Some (d, pub) \<Rightarrow>
          (case on_env (x_ecdh x d platform_key_x platform_key_y) s of
             (None, s) \<Rightarrow> (None, s)
           | (Some z, s) \<Rightarrow> (Some (derive_secret x pin_protocol z), s)))"

definition aes_256_cbc_decrypt_iv :: "'e fido2_env \<Rightarrow> bytes \<Rightarrow> bytes \<Rightarrow> bytes \<Rightarrow> bytes option" where
  "aes_256_cbc_decrypt_iv x key iv input = x_aes_dec x key iv input"

definition aes_256_cbc_decrypt :: "'e fido2_env \<Rightarrow> bytes \<Rightarrow> bytes \<Rightarrow> bytes option" where
  "aes_256_cbc_decrypt x key input = aes_256_cbc_decrypt_iv x key (replicate 16 0) input"

definition aes_256_cbc_encrypt :: "'e fido2_env \<Rightarrow> bytes \<Rightarrow> bytes \<Rightarrow> bytes option" where
  "aes_256_cbc_encrypt x key input = x_aes_enc x key (replicate 16 0) input"

definition aes_256_cbc_encrypt_p2 ::
    "'e fido2_env \<Rightarrow> bytes \<Rightarrow> bytes \<Rightarrow> ('e, 'm) ctap2_scheme \<Rightarrow> bytes option \<times> ('e, 'm) ctap2_scheme" where
  "aes_256_cbc_encrypt_p2 x key input s =
     (let (iv, s) = secure_random_fill x 16 s in
      case x_aes_enc x key iv input of
        None \<Rightarrow> (None, s)
      | Some c \<Rightarrow> (Some (iv @ c), s))"

section \<open>Retries and key agreement\<close>

definition client_pin_get_retries :: "nat \<Rightarrow> ('e, 'm) ctap2_scheme \<Rightarrow> bytes" where
  "client_pin_get_retries cap s =
     ok_response (foldl encode (response_writer cap)
       [EMap 2, EUint 0x03, EUint (ucast (cp_pin_retries s)), EUint 0x05, EUint (ucast (cp_uv_retries s))])"

definition key_agreement_calls :: "bytes \<Rightarrow> encode_call list" where
  "key_agreement_calls pub =
     [EMap 1, EUint 0x01, EMap 5, EUint 1, EUint 2, EUint 3, EInt (- 25), EInt (- 1), EUint 1,
      EInt (- 2), EBytes (take 32 pub), EInt (- 3), EBytes (take 32 (drop 32 pub))]"

definition client_pin_get_key_agreement ::
    "'e fido2_env \<Rightarrow> nat \<Rightarrow> ('e, 'm) ctap2_scheme \<Rightarrow> bytes \<times> ('e, 'm) ctap2_scheme" where
  "client_pin_get_key_agreement x cap s =
     (case client_pin_init_ecdh x s of
        (False, s) \<Rightarrow> ([CTAP2_ERR_OTHER], s)
      | (True, s) \<Rightarrow>
          (ok_response (foldl encode (response_writer cap) (key_agreement_calls (snd (the (cp_key s))))), s))"

section \<open>The parameters of a token request\<close>

text \<open>The buffers start zeroed; \<open>pp_rp_id\<close> is the string in the buffer of 64 characters.\<close>

record pin_params =
  pp_x :: bytes
  pp_y :: bytes
  pp_hash_enc :: bytes
  pp_hash_enc_len :: nat
  pp_protocol :: byte
  pp_has_key :: bool
  pp_has_pin :: bool
  pp_permissions :: byte
  pp_has_permissions :: bool
  pp_rp_id :: bytes

definition pin_params_init :: pin_params where
  "pin_params_init = \<lparr>pp_x = replicate 32 0, pp_y = replicate 32 0, pp_hash_enc = replicate 64 0,
     pp_hash_enc_len = 0, pp_protocol = 2, pp_has_key = False, pp_has_pin = False, pp_permissions = 0,
     pp_has_permissions = False, pp_rp_id = []\<rparr>"

definition cose_entry_step ::
    "cbor_reader \<times> pin_params \<Rightarrow> (cbor_reader \<times> pin_params) + (cbor_reader \<times> pin_params)" where
  "cose_entry_step = (\<lambda>(r, p).
     case cbor_read_item r of
       (None, r) \<Rightarrow> Inl (r, p)
     | (Some item, r) \<Rightarrow>
         (case item_key item of
            None \<Rightarrow> Inr (skip_item r, p)
          | Some key \<Rightarrow>
              if key = - 2 then
                (case cbor_read_bytes r 32 of
                   (None, r) \<Rightarrow> Inr (r, p)
                 | (Some d, r) \<Rightarrow>
                     Inr (r, p\<lparr>pp_x := overwrite d (pp_x p), pp_has_key := pp_has_key p \<or> length d = 32\<rparr>))
              else if key = - 3 then
                (case cbor_read_bytes r 32 of
                   (None, r) \<Rightarrow> Inr (r, p)
                 | (Some d, r) \<Rightarrow> Inr (r, p\<lparr>pp_y := overwrite d (pp_y p)\<rparr>))
              else Inr (skip_item r, p)))"

definition parse_key_agreement :: "cbor_reader \<Rightarrow> pin_params \<Rightarrow> cbor_reader \<times> pin_params" where
  "parse_key_agreement r p =
     (case cbor_read_map r of (n, r) \<Rightarrow> loop_end (for_loop (nat n) cose_entry_step (r, p)))"

definition parse_hash_enc :: "cbor_reader \<Rightarrow> pin_params \<Rightarrow> cbor_reader \<times> pin_params" where
  "parse_hash_enc r p =
     (case cbor_read_bytes r 64 of
        (None, r) \<Rightarrow> (r, p)
      | (Some d, r) \<Rightarrow>
          (r, p\<lparr>pp_hash_enc := overwrite d (pp_hash_enc p), pp_hash_enc_len := length d,
                pp_has_pin := pp_has_pin p \<or> length d = 16 \<or> length d = 32 \<or> length d = 64\<rparr>))"

text \<open>
  One entry of the request. The loop is left with a status (\<^const>\<open>Inl\<close> of \<^const>\<open>Inl\<close>) or at the
  first key that cannot be read. Only the request with permissions knows the keys 9 and 10.
\<close>

definition pin_entry_step ::
    "bool \<Rightarrow> cbor_reader \<times> pin_params \<Rightarrow>
      (byte + cbor_reader \<times> pin_params) + (cbor_reader \<times> pin_params)" where
  "pin_entry_step with_permissions = (\<lambda>(r, p).
     case cbor_read_item r of
       (None, r) \<Rightarrow> Inl (Inr (r, p))
     | (Some item, r) \<Rightarrow>
         (case item_key item of
            None \<Rightarrow> Inr (skip_item r, p)
          | Some key \<Rightarrow>
              if key = 0x01 then
                (case cbor_read_uint r of
                   (None, r) \<Rightarrow> Inr (r, p)
                 | (Some proto, r) \<Rightarrow> Inr (r, p\<lparr>pp_protocol := ucast proto\<rparr>))
              else if key = 0x03 then Inr (parse_key_agreement r p)
              else if key = 0x06 then Inr (parse_hash_enc r p)
              else if with_permissions \<and> key = 0x09 then
                (case cbor_read_uint r of
                   (None, r) \<Rightarrow> Inr (r, p)
                 | (Some perm, r) \<Rightarrow>
                     if perm = 0 \<or> perm > 0xFF then Inl (Inl CTAP1_ERR_INVALID_PARAMETER)
                     else Inr (r, p\<lparr>pp_permissions := ucast perm, pp_has_permissions := True\<rparr>))
              else if with_permissions \<and> key = 0x0A then
                (case cbor_read_text r 63 of
                   (None, r) \<Rightarrow> Inr (r, p)
                 | (Some d, r) \<Rightarrow> Inr (r, p\<lparr>pp_rp_id := cstr d\<rparr>))
              else Inr (skip_item r, p)))"

definition parse_pin_params :: "bool \<Rightarrow> bytes \<Rightarrow> byte + pin_params" where
  "parse_pin_params with_permissions params =
     (case cbor_read_map (cbor_reader_init params) of (map_size, r) \<Rightarrow>
        if map_size < 0 then Inl CTAP2_ERR_INVALID_CBOR
        else
          case (case for_loop (nat map_size) (pin_entry_step with_permissions) (r, pin_params_init) of
                  Inl e \<Rightarrow> e | Inr rp \<Rightarrow> Inr rp) of
            Inl st \<Rightarrow> Inl st
          | Inr (r, p) \<Rightarrow>
              if \<not> pp_has_key p \<or> \<not> pp_has_pin p then Inl CTAP2_ERR_MISSING_PARAMETER
              else if with_permissions \<and> \<not> pp_has_permissions p then Inl CTAP2_ERR_MISSING_PARAMETER
              else Inr p)"

section \<open>Checking the PIN, and the token\<close>

text \<open>
  The 16 bytes compared: those of a 32-byte protocol 2 message behind its initial vector, else the
  front of a buffer of 64 bytes that held anything before.
\<close>

definition decrypt_pin_hash :: "'e fido2_env \<Rightarrow> bytes \<Rightarrow> pin_params \<Rightarrow> bytes option" where
  "decrypt_pin_hash x secret p =
     (if pp_protocol p = 2 \<and> pp_hash_enc_len p = 32 then
        aes_256_cbc_decrypt_iv x secret (take 16 (pp_hash_enc p)) (take 16 (drop 16 (pp_hash_enc p)))
      else
        case aes_256_cbc_decrypt x secret (take (pp_hash_enc_len p) (pp_hash_enc p)) of
          None \<Rightarrow> None
        | Some d \<Rightarrow> Some (take 16 (overwrite d (map (x_garbage x) [0..<64]))))"

definition verify_pin_hash ::
    "'e fido2_env \<Rightarrow> pin_params \<Rightarrow> ('e, 'm) ctap2_scheme \<Rightarrow> (byte + bytes) \<times> ('e, 'm) ctap2_scheme" where
  "verify_pin_hash x p s =
     (case client_pin_compute_shared_secret x (pp_x p) (pp_y p) (pp_protocol p) s of
        (None, s) \<Rightarrow> (Inl CTAP2_ERR_OTHER, s)
      | (Some secret, s) \<Rightarrow>
          (case decrypt_pin_hash x secret p of
             None \<Rightarrow> (Inl CTAP2_ERR_OTHER, s)
           | Some pin_hash \<Rightarrow>
               (case on_pins (pin_storage_verify_fido2_hash (x_pin x) pin_hash) s of
                  (False, s) \<Rightarrow>
                    let s = s\<lparr>cp_pin_retries := cp_pin_retries s - 1\<rparr> in
                    (Inl (if cp_pin_retries s = 0 then CTAP2_ERR_PIN_BLOCKED else CTAP2_ERR_PIN_INVALID), s)
                | (True, s) \<Rightarrow>
                    let s = s\<lparr>cp_pin_retries := PIN_RETRIES_MAX\<rparr>;
                        (token, s) = secure_random_fill x PIN_TOKEN_SIZE s
                    in (Inr secret, s\<lparr>cp_token := token, cp_token_valid := True\<rparr>))))"

definition encrypt_token ::
    "'e fido2_env \<Rightarrow> byte \<Rightarrow> bytes \<Rightarrow> ('e, 'm) ctap2_scheme \<Rightarrow> bytes option \<times> ('e, 'm) ctap2_scheme" where
  "encrypt_token x pin_protocol secret s =
     (if pin_protocol = 2 then aes_256_cbc_encrypt_p2 x secret (cp_token s) s
      else (aes_256_cbc_encrypt x secret (cp_token s), s))"

definition token_response :: "nat \<Rightarrow> bytes \<Rightarrow> bytes" where
  "token_response cap encrypted_token =
     ok_response (foldl encode (response_writer cap) [EMap 1, EUint 0x02, EBytes encrypted_token])"

text \<open>What both requests check before they look at their parameters.\<close>

definition pin_request_blocked ::
    "'e fido2_env \<Rightarrow> ('e, 'm) ctap2_scheme \<Rightarrow> byte option \<times> ('e, 'm) ctap2_scheme" where
  "pin_request_blocked x s =
     (if cp_pin_retries s = 0 then (Some CTAP2_ERR_PIN_BLOCKED, s)
      else
        case on_pins (pin_storage_fido2_available (x_pin x)) s of
          (False, s) \<Rightarrow> (Some CTAP2_ERR_PIN_NOT_SET, s)
        | (True, s) \<Rightarrow> (None, s))"

definition client_pin_get_pin_token ::
    "'e fido2_env \<Rightarrow> bytes \<Rightarrow> nat \<Rightarrow> ('e, 'm) ctap2_scheme \<Rightarrow> bytes \<times> ('e, 'm) ctap2_scheme" where
  "client_pin_get_pin_token x params cap s =
     (case pin_request_blocked x s of
        (Some st, s) \<Rightarrow> ([st], s)
      | (None, s) \<Rightarrow>
          (case parse_pin_params False params of
             Inl st \<Rightarrow> ([st], s)
           | Inr p \<Rightarrow>
               (case verify_pin_hash x p s of
                  (Inl st, s) \<Rightarrow> ([st], s)
                | (Inr secret, s) \<Rightarrow>
                    (case encrypt_token x (pp_protocol p) secret s of
                       (None, s) \<Rightarrow> ([CTAP2_ERR_OTHER], s)
                     | (Some encrypted_token, s) \<Rightarrow>
                         (token_response cap encrypted_token,
                          s\<lparr>cp_permissions := 0xFF, cp_rp_id_set := False\<rparr>)))))"

definition store_permissions ::
    "'e fido2_env \<Rightarrow> pin_params \<Rightarrow> ('e, 'm) ctap2_scheme \<Rightarrow> ('e, 'm) ctap2_scheme" where
  "store_permissions x p s =
     (let s = s\<lparr>cp_permissions := pp_permissions p\<rparr> in
      if pp_rp_id p \<noteq> [] then s\<lparr>cp_rp_id_hash := x_sha256 x (pp_rp_id p), cp_rp_id_set := True\<rparr>
      else s\<lparr>cp_rp_id_set := False\<rparr>)"

definition client_pin_get_pin_uv_auth_token ::
    "'e fido2_env \<Rightarrow> bytes \<Rightarrow> nat \<Rightarrow> ('e, 'm) ctap2_scheme \<Rightarrow> bytes \<times> ('e, 'm) ctap2_scheme" where
  "client_pin_get_pin_uv_auth_token x params cap s =
     (case pin_request_blocked x s of
        (Some st, s) \<Rightarrow> ([st], s)
      | (None, s) \<Rightarrow>
          (case parse_pin_params True params of
             Inl st \<Rightarrow> ([st], s)
           | Inr p \<Rightarrow>
               (case verify_pin_hash x p s of
                  (Inl st, s) \<Rightarrow> ([st], s)
                | (Inr secret, s) \<Rightarrow>
                    (case encrypt_token x (pp_protocol p) secret (store_permissions x p s) of
                       (None, s) \<Rightarrow> ([CTAP2_ERR_OTHER], s)
                     | (Some encrypted_token, s) \<Rightarrow> (token_response cap encrypted_token, s)))))"

section \<open>The command\<close>

definition client_pin_entry_step ::
    "cbor_reader \<times> u64 \<times> u64 \<Rightarrow> (cbor_reader \<times> u64 \<times> u64) + (cbor_reader \<times> u64 \<times> u64)" where
  "client_pin_entry_step = (\<lambda>(r, proto, sub).
     case cbor_read_uint r of
       (None, r) \<Rightarrow> Inl (r, proto, sub)
     | (Some key, r) \<Rightarrow>
         if key = 0x01 then let (proto, r) = read_uint_into r proto in Inr (r, proto, sub)
         else if key = 0x02 then let (sub, r) = read_uint_into r sub in Inr (r, proto, sub)
         else Inr (skip_item r, proto, sub))"

definition ctap2_client_pin ::
    "'e fido2_env \<Rightarrow> bytes \<Rightarrow> nat \<Rightarrow> ('e, 'm) ctap2_scheme \<Rightarrow> bytes \<times> ('e, 'm) ctap2_scheme" where
  "ctap2_client_pin x params cap s =
     (let s = (if \<not> cp_initialized s
               then s\<lparr>cp_pin_retries := PIN_RETRIES_MAX, cp_uv_retries := PIN_UV_RETRIES_MAX,
                      cp_initialized := True\<rparr> else s);
          (map_size, r) = cbor_read_map (cbor_reader_init params) in
      if map_size < 0 then ([CTAP2_ERR_INVALID_CBOR], s)
      else
        let (r, pin_protocol, sub_command) =
              loop_end (for_loop (nat map_size) client_pin_entry_step (r, 0, 0)) in
        if pin_protocol \<noteq> 0 \<and> pin_protocol \<noteq> 2 then ([CTAP1_ERR_INVALID_PARAMETER], s)
        else if sub_command = 0x01 then (client_pin_get_retries cap s, s)
        else if sub_command = 0x02 then client_pin_get_key_agreement x cap s
        else if sub_command = 0x05 then client_pin_get_pin_token x params cap s
        else if sub_command = 0x09 then client_pin_get_pin_uv_auth_token x params cap s
        else if sub_command = 0x03 \<or> sub_command = 0x04 then ([CTAP2_ERR_UNSUPPORTED_OPTION], s)
        else ([CTAP1_ERR_INVALID_COMMAND], s))"

end
