(* ===== verification/Ctap2_Assertion.thy ===== *)
theory Ctap2_Assertion
  imports Ctap2_Pin
begin

text \<open>
  \<^verbatim>\<open>authenticatorGetAssertion\<close> and \<^verbatim>\<open>authenticatorGetNextAssertion\<close>
  (\<^verbatim>\<open>components/mod_fido2/src/ctap2.cpp\<close>). The pointer \<^verbatim>\<open>hash_in_use\<close> is the hash it points to.
\<close>

section \<open>Parameters\<close>

record ga_params =
  gp_rp_id :: bytes
  gp_rp_id_hash :: bytes
  gp_client_data_hash :: bytes
  gp_has_rp :: bool
  gp_has_client_data :: bool
  gp_allow_list_present :: bool
  gp_allow_list :: "nat list"
  gp_option_uv :: bool
  gp_option_up :: bool
  gp_has_appid :: bool
  gp_appid_hash :: bytes
  gp_pin_auth :: bytes
  gp_pin_protocol :: byte

definition ga_params_init :: ga_params where
  "ga_params_init = \<lparr>gp_rp_id = [], gp_rp_id_hash = replicate 32 0, gp_client_data_hash = replicate 32 0,
     gp_has_rp = False, gp_has_client_data = False, gp_allow_list_present = False, gp_allow_list = [],
     gp_option_uv = False, gp_option_up = True, gp_has_appid = False, gp_appid_hash = replicate 32 0,
     gp_pin_auth = [], gp_pin_protocol = 0\<rparr>"

text \<open>
  A map with text keys: what cannot be read as a key of at most \<open>n - 1\<close> characters is skipped, the
  key is handed to the body, which reads the value.
\<close>

definition text_entry ::
    "nat \<Rightarrow> (bytes \<Rightarrow> cbor_reader \<times> 'p \<Rightarrow> cbor_reader \<times> 'p) \<Rightarrow> cbor_reader \<times> 'p \<Rightarrow> cbor_reader \<times> 'p" where
  "text_entry n f = (\<lambda>(r, p).
     case cbor_read_text r n of
       (None, r) \<Rightarrow> (skip_item r, p)
     | (Some key, r) \<Rightarrow> f (cstr key) (r, p))"

definition read_bool_into :: "cbor_reader \<Rightarrow> bool \<Rightarrow> bool \<times> cbor_reader" where
  "read_bool_into r v = (case cbor_read_bool r of (None, r) \<Rightarrow> (v, r) | (Some v', r) \<Rightarrow> (v', r))"

text \<open>
  One descriptor: the identifier read last, of which only its length counts if it is not 64. The
  loop is left at an identifier that cannot be read.
\<close>

definition descriptor_step ::
    "cbor_reader \<times> bytes option \<Rightarrow> cbor_reader + (cbor_reader \<times> bytes option)" where
  "descriptor_step = (\<lambda>(r, cred_id).
     case cbor_read_text r 16 of
       (None, r) \<Rightarrow> Inr (skip_item r, cred_id)
     | (Some key, r) \<Rightarrow>
         if cstr key = ascii ''id'' then
           (case cbor_read_bytes r FIDO2_CRED_ID_LEN of
              (None, r) \<Rightarrow> Inl r
            | (Some d, r) \<Rightarrow> Inr (r, Some d))
         else Inr (skip_item r, cred_id))"

definition ga_parse_allow_list_credential :: "cbor_reader \<Rightarrow> bytes option \<times> cbor_reader" where
  "ga_parse_allow_list_credential r =
     (case cbor_read_map r of (cred_map, r) \<Rightarrow>
        if cred_map < 0 then (None, r)
        else
          case for_loop (nat cred_map) descriptor_step (r, None) of
            Inl r \<Rightarrow> (None, r)
          | Inr (r, None) \<Rightarrow> (None, r)
          | Inr (r, Some d) \<Rightarrow> (if length d = FIDO2_CRED_ID_LEN then Some d else None, r))"

definition allow_list_step ::
    "'e fido2_env \<Rightarrow> cbor_reader \<times> nat list \<times> ('e, 'm) ctap2_scheme \<Rightarrow>
      cbor_reader \<times> nat list \<times> ('e, 'm) ctap2_scheme" where
  "allow_list_step x = (\<lambda>(r, slots, s).
     case ga_parse_allow_list_credential r of
       (None, r) \<Rightarrow> (r, slots, s)
     | (Some cred_id, r) \<Rightarrow>
         (case on_store (fido2_storage_find_slot_by_cred_id (x_hw x) cred_id) s of
            (None, s) \<Rightarrow> (r, slots, s)
          | (Some slot, s) \<Rightarrow>
              (r, if slot \<notin> set slots \<and> length slots < FIDO2_MAX_CREDENTIALS then slots @ [slot] else slots, s)))"

definition ga_parse_allow_list ::
    "'e fido2_env \<Rightarrow> cbor_reader \<Rightarrow> ga_params \<Rightarrow> ('e, 'm) ctap2_scheme \<Rightarrow>
      (cbor_reader \<times> ga_params) option \<times> ('e, 'm) ctap2_scheme" where
  "ga_parse_allow_list x r p s =
     (case cbor_read_array r of (list_count, r) \<Rightarrow>
        if list_count < 0 then (None, s)
        else
          case repeat_n (nat list_count) (allow_list_step x) (r, gp_allow_list p, s) of (r, slots, s) \<Rightarrow>
            (Some (r, p\<lparr>gp_allow_list_present := True, gp_allow_list := slots\<rparr>), s))"

definition ga_extension_entry ::
    "'e fido2_env \<Rightarrow> bytes \<Rightarrow> cbor_reader \<times> ga_params \<Rightarrow> cbor_reader \<times> ga_params" where
  "ga_extension_entry x key = (\<lambda>(r, p).
     if key = ascii ''appid'' then
       (case cbor_read_text r 256 of
          (None, r) \<Rightarrow> (r, p)
        | (Some appid, r) \<Rightarrow>
            (r, if length appid > 0 then p\<lparr>gp_has_appid := True, gp_appid_hash := x_sha256 x (cstr appid)\<rparr>
                else p\<lparr>gp_has_appid := False\<rparr>))
     else (skip_item r, p))"

definition ga_parse_extensions ::
    "'e fido2_env \<Rightarrow> cbor_reader \<Rightarrow> ga_params \<Rightarrow> (cbor_reader \<times> ga_params) option" where
  "ga_parse_extensions x r p =
     (case cbor_read_map r of (ext_count, r) \<Rightarrow>
        if ext_count < 0 then None
        else Some (repeat_n (nat ext_count) (text_entry 16 (ga_extension_entry x)) (r, p)))"

definition ga_option_entry :: "bytes \<Rightarrow> cbor_reader \<times> ga_params \<Rightarrow> cbor_reader \<times> ga_params" where
  "ga_option_entry key = (\<lambda>(r, p).
     if key = ascii ''uv'' then
       (case read_bool_into r (gp_option_uv p) of (v, r) \<Rightarrow> (r, p\<lparr>gp_option_uv := v\<rparr>))
     else if key = ascii ''up'' then
       (case read_bool_into r (gp_option_up p) of (v, r) \<Rightarrow> (r, p\<lparr>gp_option_up := v\<rparr>))
     else (skip_item r, p))"

definition ga_parse_options :: "cbor_reader \<Rightarrow> ga_params \<Rightarrow> (cbor_reader \<times> ga_params) option" where
  "ga_parse_options r p =
     (case cbor_read_map r of (opt_count, r) \<Rightarrow>
        if opt_count < 0 then None
        else Some (repeat_n (nat opt_count) (text_entry 8 ga_option_entry) (r, p)))"

text \<open>One entry of the request; the loop is left with the state when a value is malformed.\<close>

definition ga_entry_step ::
    "'e fido2_env \<Rightarrow> cbor_reader \<times> ga_params \<times> ('e, 'm) ctap2_scheme \<Rightarrow>
      ('e, 'm) ctap2_scheme + (cbor_reader \<times> ga_params \<times> ('e, 'm) ctap2_scheme)" where
  "ga_entry_step x = (\<lambda>(r, p, s).
     case cbor_read_uint r of
       (None, r) \<Rightarrow> Inl s
     | (Some key, r) \<Rightarrow>
         if key = 0x01 then
           let (rp_id, r) = (case cbor_read_text r FIDO2_RP_ID_MAX_LEN of
                 (None, r) \<Rightarrow> (gp_rp_id p, r) | (Some d, r) \<Rightarrow> (cstr d, r)) in
           Inr (r, p\<lparr>gp_rp_id := rp_id, gp_rp_id_hash := x_sha256 x rp_id, gp_has_rp := True\<rparr>, s)
         else if key = 0x02 then
           (case cbor_read_bytes r 32 of
              (None, r) \<Rightarrow> Inl s
            | (Some d, r) \<Rightarrow>
                if length d \<noteq> 32 then Inl s
                else Inr (r, p\<lparr>gp_client_data_hash := d, gp_has_client_data := True\<rparr>, s))
         else if key = 0x03 then
           (case ga_parse_allow_list x r p s of
              (None, s) \<Rightarrow> Inl s
            | (Some (r, p), s) \<Rightarrow> Inr (r, p, s))
         else if key = 0x04 then
           (case ga_parse_extensions x r p of None \<Rightarrow> Inl s | Some (r, p) \<Rightarrow> Inr (r, p, s))
         else if key = 0x05 then
           (case ga_parse_options r p of None \<Rightarrow> Inl s | Some (r, p) \<Rightarrow> Inr (r, p, s))
         else if key = 0x06 then
           (case cbor_read_bytes r 32 of
              (None, r) \<Rightarrow> Inr (r, p, s)
            | (Some d, r) \<Rightarrow> Inr (r, p\<lparr>gp_pin_auth := d\<rparr>, s))
         else if key = 0x07 then
           (case cbor_read_uint r of
              (None, r) \<Rightarrow> Inr (r, p, s)
            | (Some proto, r) \<Rightarrow> Inr (r, p\<lparr>gp_pin_protocol := ucast proto\<rparr>, s))
         else Inr (skip_item r, p, s))"

definition ga_parse_params ::
    "'e fido2_env \<Rightarrow> bytes \<Rightarrow> ('e, 'm) ctap2_scheme \<Rightarrow> (byte + ga_params) \<times> ('e, 'm) ctap2_scheme" where
  "ga_parse_params x params s =
     (case cbor_read_map (cbor_reader_init params) of (map_count, r) \<Rightarrow>
        if map_count < 0 then (Inl CTAP2_ERR_INVALID_CBOR, s)
        else
          case for_loop (nat map_count) (ga_entry_step x) (r, ga_params_init, s) of
            Inl s \<Rightarrow> (Inl CTAP2_ERR_INVALID_CBOR, s)
          | Inr (r, p, s) \<Rightarrow> (Inr p, s))"

section \<open>Selecting the credentials\<close>

definition ga_verify_pin_auth ::
    "'e fido2_env \<Rightarrow> ga_params \<Rightarrow> ('e, 'm) ctap2_scheme \<Rightarrow> (byte \<times> bool) \<times> ('e, 'm) ctap2_scheme" where
  "ga_verify_pin_auth x p s =
     verify_client_data x PIN_PERM_GET_ASSERTION (gp_rp_id_hash p) (gp_client_data_hash p)
       (gp_pin_protocol p) (gp_pin_auth p) s"

definition ga_cred_protect_allows ::
    "'e fido2_env \<Rightarrow> nat \<Rightarrow> bool \<Rightarrow> bool \<Rightarrow> ('e, 'm) ctap2_scheme \<Rightarrow> bool \<times> ('e, 'm) ctap2_scheme" where
  "ga_cred_protect_allows x slot uv_verified allow_list s =
     (case on_store (fido2_storage_get_credential (x_hw x) slot) s of
        (None, s) \<Rightarrow> (False, s)
      | (Some info, s) \<Rightarrow>
          (if ci_protect info \<ge> 3 \<and> \<not> uv_verified then False
           else if ci_protect info = 2 \<and> \<not> uv_verified \<and> \<not> allow_list then False
           else True, s))"

text \<open>A filter whose test calls the store, in the order of the slots.\<close>

fun filter_slots ::
    "(nat \<Rightarrow> 's \<Rightarrow> bool \<times> 's) \<Rightarrow> nat list \<Rightarrow> 's \<Rightarrow> nat list \<times> 's" where
  "filter_slots f [] s = ([], s)"
| "filter_slots f (slot # slots) s =
     (case f slot s of (keep, s) \<Rightarrow>
        case filter_slots f slots s of (chosen, s) \<Rightarrow> (if keep then slot # chosen else chosen, s))"

definition slot_has_rp ::
    "'e fido2_env \<Rightarrow> bytes \<Rightarrow> nat \<Rightarrow> ('e, 'm) ctap2_scheme \<Rightarrow> bool \<times> ('e, 'm) ctap2_scheme" where
  "slot_has_rp x rp_id_hash slot s =
     (case on_store (fido2_storage_get_credential (x_hw x) slot) s of
        (None, s) \<Rightarrow> (False, s)
      | (Some info, s) \<Rightarrow> (ci_rp_id_hash info = rp_id_hash, s))"

record assertion_creds =
  ac_slots :: "nat list"
  ac_include_user :: bool
  ac_appid_used :: bool
  ac_hash :: bytes

definition ga_candidates ::
    "'e fido2_env \<Rightarrow> ga_params \<Rightarrow> ('e, 'm) ctap2_scheme \<Rightarrow> assertion_creds \<times> ('e, 'm) ctap2_scheme" where
  "ga_candidates x p s =
     (if gp_allow_list_present p \<and> length (gp_allow_list p) > 0 then
        let (slots, s) = filter_slots (slot_has_rp x (gp_rp_id_hash p)) (gp_allow_list p) s;
            (temp_slots, s) = (if gp_has_appid p
               then filter_slots (slot_has_rp x (gp_appid_hash p)) (gp_allow_list p) s else ([], s)) in
        if length temp_slots > 0 then
          (\<lparr>ac_slots = temp_slots, ac_include_user = False, ac_appid_used = True,
            ac_hash = gp_appid_hash p\<rparr>, s)
        else (\<lparr>ac_slots = slots, ac_include_user = False, ac_appid_used = False,
            ac_hash = gp_rp_id_hash p\<rparr>, s)
      else
        let slots = fido2_storage_find_by_rp_resident (gp_rp_id_hash p) FIDO2_MAX_CREDENTIALS (f_store s);
            temp_slots = (if gp_has_appid p
               then fido2_storage_find_by_rp_resident (gp_appid_hash p) FIDO2_MAX_CREDENTIALS (f_store s)
               else []) in
        if length temp_slots > 0 then
          (\<lparr>ac_slots = temp_slots, ac_include_user = True, ac_appid_used = True,
            ac_hash = gp_appid_hash p\<rparr>, s)
        else (\<lparr>ac_slots = slots, ac_include_user = True, ac_appid_used = False,
            ac_hash = gp_rp_id_hash p\<rparr>, s))"

definition ga_find_credentials ::
    "'e fido2_env \<Rightarrow> ga_params \<Rightarrow> bool \<Rightarrow> ('e, 'm) ctap2_scheme \<Rightarrow>
      assertion_creds \<times> ('e, 'm) ctap2_scheme" where
  "ga_find_credentials x p uv_verified s =
     (let (creds, s) = ga_candidates x p s;
          allow_list = (gp_allow_list_present p \<and> length (gp_allow_list p) > 0);
          (chosen, s) = filter_slots (\<lambda>slot. ga_cred_protect_allows x slot uv_verified allow_list)
            (ac_slots creds) s
      in (creds\<lparr>ac_slots := chosen\<rparr>, s))"

section \<open>The answer\<close>

definition ga_sign_assertion ::
    "'e fido2_env \<Rightarrow> nat \<Rightarrow> bytes \<Rightarrow> bytes \<Rightarrow> ('e, 'm) ctap2_scheme \<Rightarrow>
      bytes option \<times> ('e, 'm) ctap2_scheme" where
  "ga_sign_assertion x slot auth_data client_data_hash s =
     (if length auth_data > 64 then (None, s)
      else on_store (fido2_storage_sign_raw (x_hw x) slot (auth_data @ client_data_hash)) s)"

definition descriptor_calls :: "bytes \<Rightarrow> encode_call list" where
  "descriptor_calls cred_id =
     [EMap 2, EText (ascii ''id''), EBytes cred_id, EText (ascii ''type''), EText (ascii ''public-key'')]"

definition user_calls :: "cred_info \<Rightarrow> encode_call list" where
  "user_calls cred =
     (let name = cstr (ci_user_name cred) in
      [EMap (if name \<noteq> [] then 2 else 1), EText (ascii ''id''), EBytes (ci_user_id cred)] @
      (if name \<noteq> [] then [EText (ascii ''name''), EText name] else []))"

definition ga_build_response ::
    "bytes \<Rightarrow> bytes \<Rightarrow> bytes \<Rightarrow> cred_info \<Rightarrow> bool \<Rightarrow> byte \<Rightarrow> nat \<Rightarrow> bytes" where
  "ga_build_response cred_id auth_data signature cred include_user total_creds cap =
     checked_response (foldl encode (response_writer cap)
       ([EMap (3 + (if include_user then 1 else 0) + (if total_creds > 1 then 1 else 0)),
         EUint 0x01] @ descriptor_calls cred_id @
        [EUint 0x02, EBytes auth_data, EUint 0x03, EBytes signature] @
        (if include_user then EUint 0x04 # user_calls cred else []) @
        (if total_creds > 1 then [EUint 0x05, EUint (ucast total_creds)] else [])))"

definition save_assertion_state ::
    "ga_params \<Rightarrow> assertion_creds \<Rightarrow> ('e, 'm) ctap2_scheme \<Rightarrow> ('e, 'm) ctap2_scheme" where
  "save_assertion_state p creds s =
     s\<lparr>ga_creds := ac_slots creds @ drop (length (ac_slots creds)) (ga_creds s),
       ga_count := of_nat (length (ac_slots creds)), ga_include_user := ac_include_user creds,
       ga_rp_id_hash := ac_hash creds, ga_client_data_hash := gp_client_data_hash p, ga_index := 0,
       ga_up_done := gp_option_up p, ga_appid_used := ac_appid_used creds\<rparr>"

text \<open>The first assertion, once the credentials are chosen and the user has agreed.\<close>

definition first_assertion ::
    "'e fido2_env \<Rightarrow> ga_params \<Rightarrow> assertion_creds \<Rightarrow> bool \<Rightarrow> nat \<Rightarrow> ('e, 'm) ctap2_scheme \<Rightarrow>
      bytes \<times> ('e, 'm) ctap2_scheme" where
  "first_assertion x p creds uv_verified cap s =
     (let s = save_assertion_state p creds s; slot = ga_creds s ! 0 in
      case on_store (fido2_storage_get_credential (x_hw x) slot) s of
        (None, s) \<Rightarrow> ([CTAP2_ERR_OTHER], s)
      | (Some cred, s) \<Rightarrow>
          (case on_store (fido2_storage_increment_sign_count (x_hw x) slot) s of (sign_count, s) \<Rightarrow>
             if sign_count = 0 then ([CTAP2_ERR_OTHER], s)
             else
               let flags = (if gp_option_up p then 0x01 else 0x00);
                   flags = (if uv_verified then flags OR 0x04 else flags);
                   ext_data = (if ac_appid_used creds then ctap2_build_appid_extension 32 else []);
                   auth_data = build_authenticator_data (ac_hash creds) flags sign_count [] ext_data in
               (case ga_sign_assertion x slot auth_data (gp_client_data_hash p) s of
                  (None, s) \<Rightarrow> ([CTAP2_ERR_OTHER], s)
                | (Some signature, s) \<Rightarrow>
                    (case on_store (fido2_storage_get_cred_id (x_hw x) slot) s of
                       (None, s) \<Rightarrow> ([CTAP2_ERR_OTHER], s)
                     | (Some cred_id, s) \<Rightarrow>
                         let reply = ga_build_response cred_id auth_data signature cred (ga_include_user s)
                               (ga_count s) cap in
                         if hd reply \<noteq> CTAP2_OK then (reply, s)
                         else (reply, fido2_increment_auth_counter x s)))))"

definition ctap2_get_assertion ::
    "'e fido2_env \<Rightarrow> bytes \<Rightarrow> nat \<Rightarrow> ('e, 'm) ctap2_scheme \<Rightarrow> bytes \<times> ('e, 'm) ctap2_scheme" where
  "ctap2_get_assertion x params cap s =
     (case ga_parse_params x params s of
        (Inl st, s) \<Rightarrow> ([st], s)
      | (Inr p, s) \<Rightarrow>
          if \<not> gp_has_rp p \<or> \<not> gp_has_client_data p then ([CTAP2_ERR_MISSING_PARAMETER], s)
          else if gp_option_uv p then ([CTAP2_ERR_UNSUPPORTED_OPTION], s)
          else
            (case ga_verify_pin_auth x p s of ((status, uv_verified), s) \<Rightarrow>
               if status \<noteq> CTAP2_OK then ([status], s)
               else
                 let (always_uv, s) = on_store (fido2_storage_get_always_uv (x_hw x)) s in
                 if always_uv \<and> \<not> uv_verified then ([CTAP2_ERR_PIN_REQUIRED], s)
                 else
                   let (creds, s) = ga_find_credentials x p uv_verified s in
                   if length (ac_slots creds) = 0 then ([CTAP2_ERR_NO_CREDENTIALS], s)
                   else
                     let (present, s) =
                       (if gp_option_up p
                        then wait_for_user_presence (Some (gp_rp_id p)) Action_Authenticate None s
                        else (True, s)) in
                     if \<not> present then ([CTAP2_ERR_OPERATION_DENIED], s)
                     else first_assertion x p creds uv_verified cap s))"

definition ctap2_get_next_assertion ::
    "'e fido2_env \<Rightarrow> nat \<Rightarrow> ('e, 'm) ctap2_scheme \<Rightarrow> bytes \<times> ('e, 'm) ctap2_scheme" where
  "ctap2_get_next_assertion x cap s =
     (if ga_count s = 0 then ([CTAP2_ERR_NOT_ALLOWED], s)
      else
        let s = s\<lparr>ga_index := ga_index s + 1\<rparr> in
        if ga_index s \<ge> ga_count s then ([CTAP2_ERR_NOT_ALLOWED], s)
        else
          let slot = ga_creds s ! unat (ga_index s) in
          case on_store (fido2_storage_get_credential (x_hw x) slot) s of
            (None, s) \<Rightarrow> ([CTAP2_ERR_OTHER], s)
          | (Some cred, s) \<Rightarrow>
              (case on_store (fido2_storage_increment_sign_count (x_hw x) slot) s of (sign_count, s) \<Rightarrow>
                 if sign_count = 0 then ([CTAP2_ERR_OTHER], s)
                 else
                   let ext_data = (if ga_appid_used s then ctap2_build_appid_extension 32 else []);
                       auth_data = build_authenticator_data (ga_rp_id_hash s)
                         (if ga_up_done s then 0x01 else 0x00) sign_count [] ext_data in
                   (case ga_sign_assertion x slot auth_data (ga_client_data_hash s) s of
                      (None, s) \<Rightarrow> ([CTAP2_ERR_OTHER], s)
                    | (Some signature, s) \<Rightarrow>
                        (case on_store (fido2_storage_get_cred_id (x_hw x) slot) s of
                           (None, s) \<Rightarrow> ([CTAP2_ERR_OTHER], s)
                         | (Some cred_id, s) \<Rightarrow>
                             (ok_response (foldl encode (response_writer cap)
                                ([EMap 3, EUint 0x01] @ descriptor_calls cred_id @
                                 [EUint 0x02, EBytes auth_data, EUint 0x03, EBytes signature])), s)))))"

end
