(* ===== verification/Ctap2_Make.thy ===== *)
theory Ctap2_Make
  imports Ctap2_Assertion
begin

text \<open>
  \<^verbatim>\<open>authenticatorMakeCredential\<close> (\<^verbatim>\<open>components/mod_fido2/src/ctap2.cpp\<close>).
\<close>

section \<open>Parameters\<close>

record mc_params =
  mp_client_data_hash :: bytes
  mp_rp_id :: bytes
  mp_rp_id_hash :: bytes
  mp_user_id :: bytes
  mp_user_id_len :: byte
  mp_user_name :: bytes
  mp_rk :: bool
  mp_cred_protect :: byte
  mp_alg :: u64
  mp_option_uv :: bool
  mp_option_up :: bool
  mp_appid_exclude :: bytes
  mp_has_appid_exclude :: bool
  mp_pin_auth :: bytes
  mp_pin_protocol :: byte
  mp_has_client_data :: bool
  mp_has_rp :: bool
  mp_has_user :: bool
  mp_has_alg :: bool

definition mc_params_init :: mc_params where
  "mc_params_init = \<lparr>mp_client_data_hash = replicate 32 0, mp_rp_id = [], mp_rp_id_hash = replicate 32 0,
     mp_user_id = replicate FIDO2_USER_ID_MAX_LEN 0, mp_user_id_len = 0, mp_user_name = [], mp_rk = False,
     mp_cred_protect = 0, mp_alg = 0, mp_option_uv = False, mp_option_up = True, mp_appid_exclude = [],
     mp_has_appid_exclude = False, mp_pin_auth = [], mp_pin_protocol = 0, mp_has_client_data = False,
     mp_has_rp = False, mp_has_user = False, mp_has_alg = False\<rparr>"

definition rp_entry :: "'e fido2_env \<Rightarrow> bytes \<Rightarrow> cbor_reader \<times> mc_params \<Rightarrow> cbor_reader \<times> mc_params" where
  "rp_entry x key = (\<lambda>(r, p).
     if key = ascii ''id'' then
       let (rp_id, r) = (case cbor_read_text r FIDO2_RP_ID_MAX_LEN of
             (None, r) \<Rightarrow> (mp_rp_id p, r) | (Some d, r) \<Rightarrow> (cstr d, r)) in
       (r, p\<lparr>mp_rp_id := rp_id, mp_rp_id_hash := x_sha256 x rp_id, mp_has_rp := True\<rparr>)
     else (skip_item r, p))"

text \<open>\<^verbatim>\<open>id_len\<close> is not set when the identifier cannot be read: what it holds then is anything.\<close>

definition user_entry :: "'e fido2_env \<Rightarrow> bytes \<Rightarrow> cbor_reader \<times> mc_params \<Rightarrow> cbor_reader \<times> mc_params" where
  "user_entry x key = (\<lambda>(r, p).
     if key = ascii ''id'' then
       (case cbor_read_bytes r FIDO2_USER_ID_MAX_LEN of
          (None, r) \<Rightarrow> (r, p\<lparr>mp_user_id_len := x_garbage x (r_offset r), mp_has_user := True\<rparr>)
        | (Some d, r) \<Rightarrow>
            (r, p\<lparr>mp_user_id := overwrite d (mp_user_id p), mp_user_id_len := of_nat (length d),
                  mp_has_user := True\<rparr>))
     else if key = ascii ''name'' then
       (case cbor_read_text r FIDO2_USER_NAME_MAX_LEN of
          (None, r) \<Rightarrow> (r, p)
        | (Some d, r) \<Rightarrow> (r, p\<lparr>mp_user_name := cstr d\<rparr>))
     else (skip_item r, p))"

definition alg_entry :: "bytes \<Rightarrow> cbor_reader \<times> u64 \<Rightarrow> cbor_reader \<times> u64" where
  "alg_entry key = (\<lambda>(r, alg).
     if key = ascii ''alg'' then
       (case cbor_read_int r of (None, r) \<Rightarrow> (r, alg) | (Some v, r) \<Rightarrow> (r, v))
     else (skip_item r, alg))"

definition cred_param_step :: "cbor_reader \<times> mc_params \<Rightarrow> cbor_reader \<times> mc_params" where
  "cred_param_step = (\<lambda>(r, p).
     case cbor_read_map r of (param_count, r) \<Rightarrow>
       case repeat_n (nat param_count) (text_entry 8 alg_entry) (r, 0) of (r, alg) \<Rightarrow>
         (r, if \<not> mp_has_alg p \<and> (alg = COSE_ALG_ES256 \<or> alg = COSE_ALG_EDDSA)
             then p\<lparr>mp_alg := alg, mp_has_alg := True\<rparr> else p))"

definition mc_extension_entry :: "bytes \<Rightarrow> cbor_reader \<times> mc_params \<Rightarrow> cbor_reader \<times> mc_params" where
  "mc_extension_entry key = (\<lambda>(r, p).
     if key = ascii ''appidExclude'' then
       (case cbor_read_text r 256 of
          (None, r) \<Rightarrow> (r, p)
        | (Some d, r) \<Rightarrow> (r, p\<lparr>mp_appid_exclude := cstr d, mp_has_appid_exclude := length d > 0\<rparr>))
     else if key = ascii ''credProtect'' then
       (case cbor_read_uint r of
          (None, r) \<Rightarrow> (r, p)
        | (Some level, r) \<Rightarrow>
            (r, if level \<ge> 1 \<and> level \<le> 3 then p\<lparr>mp_cred_protect := ucast level\<rparr> else p))
     else (skip_item r, p))"

definition mc_option_entry :: "bytes \<Rightarrow> cbor_reader \<times> mc_params \<Rightarrow> cbor_reader \<times> mc_params" where
  "mc_option_entry key = (\<lambda>(r, p).
     if key = ascii ''rk'' then
       (case read_bool_into r (mp_rk p) of (v, r) \<Rightarrow> (r, p\<lparr>mp_rk := v\<rparr>))
     else if key = ascii ''uv'' then
       (case read_bool_into r (mp_option_uv p) of (v, r) \<Rightarrow> (r, p\<lparr>mp_option_uv := v\<rparr>))
     else if key = ascii ''up'' then
       (case read_bool_into r (mp_option_up p) of (v, r) \<Rightarrow> (r, p\<lparr>mp_option_up := v\<rparr>))
     else (skip_item r, p))"

text \<open>The loops of the five parsers of a map or an array.\<close>

definition parse_counted ::
    "int \<times> cbor_reader \<Rightarrow> (cbor_reader \<times> mc_params \<Rightarrow> cbor_reader \<times> mc_params) \<Rightarrow> mc_params \<Rightarrow>
      (cbor_reader \<times> mc_params) option" where
  "parse_counted count_r f p =
     (case count_r of (n, r) \<Rightarrow> if n < 0 then None else Some (repeat_n (nat n) f (r, p)))"

definition parse_rp_map :: "'e fido2_env \<Rightarrow> cbor_reader \<Rightarrow> mc_params \<Rightarrow> (cbor_reader \<times> mc_params) option" where
  "parse_rp_map x r p = parse_counted (cbor_read_map r) (text_entry 16 (rp_entry x)) p"

definition parse_user_map :: "'e fido2_env \<Rightarrow> cbor_reader \<Rightarrow> mc_params \<Rightarrow> (cbor_reader \<times> mc_params) option" where
  "parse_user_map x r p = parse_counted (cbor_read_map r) (text_entry 16 (user_entry x)) p"

definition parse_pubkey_cred_params :: "cbor_reader \<Rightarrow> mc_params \<Rightarrow> (cbor_reader \<times> mc_params) option" where
  "parse_pubkey_cred_params r p = parse_counted (cbor_read_array r) cred_param_step p"

definition parse_extensions_map :: "cbor_reader \<Rightarrow> mc_params \<Rightarrow> (cbor_reader \<times> mc_params) option" where
  "parse_extensions_map r p = parse_counted (cbor_read_map r) (text_entry 16 mc_extension_entry) p"

definition parse_options_map :: "cbor_reader \<Rightarrow> mc_params \<Rightarrow> (cbor_reader \<times> mc_params) option" where
  "parse_options_map r p = parse_counted (cbor_read_map r) (text_entry 8 mc_option_entry) p"

definition mc_entry_step ::
    "'e fido2_env \<Rightarrow> cbor_reader \<times> mc_params \<Rightarrow> unit + (cbor_reader \<times> mc_params)" where
  "mc_entry_step x = (\<lambda>(r, p).
     let required = (\<lambda>m. case m of None \<Rightarrow> Inl () | Some rp \<Rightarrow> Inr rp) in
     case cbor_read_uint r of
       (None, r) \<Rightarrow> Inl ()
     | (Some key, r) \<Rightarrow>
         if key = 0x01 then
           (case cbor_read_bytes r 32 of
              (None, r) \<Rightarrow> Inl ()
            | (Some d, r) \<Rightarrow>
                if length d \<noteq> 32 then Inl ()
                else Inr (r, p\<lparr>mp_client_data_hash := d, mp_has_client_data := True\<rparr>))
         else if key = 0x02 then required (parse_rp_map x r p)
         else if key = 0x03 then required (parse_user_map x r p)
         else if key = 0x04 then required (parse_pubkey_cred_params r p)
         else if key = 0x06 then required (parse_extensions_map r p)
         else if key = 0x07 then required (parse_options_map r p)
         else if key = 0x08 then
           (case cbor_read_bytes r 64 of
              (None, r) \<Rightarrow> Inr (r, p)
            | (Some d, r) \<Rightarrow> Inr (r, p\<lparr>mp_pin_auth := d\<rparr>))
         else if key = 0x09 then
           (case cbor_read_uint r of
              (None, r) \<Rightarrow> Inr (r, p)
            | (Some proto, r) \<Rightarrow> Inr (r, p\<lparr>mp_pin_protocol := ucast proto\<rparr>))
         else Inr (skip_item r, p))"

definition parse_make_credential_params :: "'e fido2_env \<Rightarrow> bytes \<Rightarrow> byte + mc_params" where
  "parse_make_credential_params x params =
     (case cbor_read_map (cbor_reader_init params) of (map_count, r) \<Rightarrow>
        if map_count < 0 then Inl CTAP2_ERR_INVALID_CBOR
        else
          case for_loop (nat map_count) (mc_entry_step x) (r, mc_params_init) of
            Inl _ \<Rightarrow> Inl CTAP2_ERR_INVALID_CBOR
          | Inr (r, p) \<Rightarrow>
              if \<not> mp_has_client_data p \<or> \<not> mp_has_rp p \<or> \<not> mp_has_user p \<or> \<not> mp_has_alg p then
                Inl CTAP2_ERR_MISSING_PARAMETER
              else Inr p)"

section \<open>Checks\<close>

definition verify_pin_uv_auth ::
    "'e fido2_env \<Rightarrow> mc_params \<Rightarrow> ('e, 'm) ctap2_scheme \<Rightarrow> (byte \<times> bool) \<times> ('e, 'm) ctap2_scheme" where
  "verify_pin_uv_auth x p s =
     verify_client_data x PIN_PERM_MAKE_CREDENTIAL (mp_rp_id_hash p) (mp_client_data_hash p)
       (mp_pin_protocol p) (mp_pin_auth p) s"

text \<open>The slots found go to the list getNextAssertion reads.\<close>

definition check_appid_exclude ::
    "'e fido2_env \<Rightarrow> mc_params \<Rightarrow> ('e, 'm) ctap2_scheme \<Rightarrow> byte \<times> ('e, 'm) ctap2_scheme" where
  "check_appid_exclude x p s =
     (if \<not> mp_has_appid_exclude p \<or> mp_appid_exclude p = [] then (CTAP2_OK, s)
      else
        let slots = fido2_storage_find_by_rp (x_sha256 x (mp_appid_exclude p)) FIDO2_MAX_CREDENTIALS
              (f_store s);
            s = s\<lparr>ga_creds := slots @ drop (length slots) (ga_creds s)\<rparr> in
        (if length slots > 0 then CTAP2_ERR_CREDENTIAL_EXCLUDED else CTAP2_OK, s))"

definition is_browser_probe :: "bytes \<Rightarrow> bool" where
  "is_browser_probe rp_id \<longleftrightarrow> rp_id = ascii ''make.me.blink'' \<or> rp_id = ascii ''.dummy''"

section \<open>The answer\<close>

definition ctap2_build_make_credential_response_packed ::
    "bytes \<Rightarrow> bytes \<Rightarrow> bytes \<Rightarrow> nat \<Rightarrow> bytes" where
  "ctap2_build_make_credential_response_packed auth_data sig cert cap =
     (let none_attestation = (length sig = 0 \<and> length cert = 0) in
      checked_response (foldl encode (response_writer cap)
        ([EMap 3, EUint 0x01, EText (if none_attestation then ascii ''none'' else ascii ''packed''),
          EUint 0x02, EBytes auth_data, EUint 0x03] @
         (if none_attestation then [EMap 0]
          else if length cert > 0 then
            [EMap 3, EText (ascii ''alg''), EInt COSE_ALG_ES256, EText (ascii ''sig''), EBytes sig,
             EText (ascii ''x5c''), EArray 1, EBytes cert]
          else [EMap 2, EText (ascii ''alg''), EInt COSE_ALG_ES256, EText (ascii ''sig''), EBytes sig]))))"

definition ctap2_sign_with_keypair ::
    "'e fido2_env \<Rightarrow> bytes \<Rightarrow> bytes \<Rightarrow> nat \<Rightarrow> ('e, 'm) ctap2_scheme \<Rightarrow>
      bytes option \<times> ('e, 'm) ctap2_scheme" where
  "ctap2_sign_with_keypair x d msg sig_size = on_env (x_key_sign x d (x_sha256 x msg) sig_size)"

definition handle_browser_probe ::
    "'e fido2_env \<Rightarrow> mc_params \<Rightarrow> bool \<Rightarrow> nat \<Rightarrow> ('e, 'm) ctap2_scheme \<Rightarrow>
      bytes \<times> ('e, 'm) ctap2_scheme" where
  "handle_browser_probe x p uv_verified cap s =
     (case wait_for_user_presence (Some (mp_rp_id p)) Action_Select None s of
        (False, s) \<Rightarrow> ([CTAP2_ERR_OPERATION_DENIED], s)
      | (True, s) \<Rightarrow>
          (case secure_random_fill x FIDO2_CRED_ID_LEN s of (dummy_cred_id, s) \<Rightarrow>
             case on_env (x_gen_key x) s of
               (None, s) \<Rightarrow> ([CTAP2_ERR_OTHER], s)
             | (Some (d, dummy_pubkey), s) \<Rightarrow>
                 (case ctap2_build_attested_cred dummy_cred_id dummy_pubkey CDC_CURVE_P256 256 of
                    None \<Rightarrow> ([CTAP2_ERR_OTHER], s)
                  | Some attested_cred \<Rightarrow>
                      let auth_data = ctap2_build_auth_data_for_cred (mp_rp_id_hash p) attested_cred 0 uv_verified in
                      if length auth_data + 32 > 512 then ([CTAP2_ERR_OTHER], s)
                      else
                        (case ctap2_sign_with_keypair x d (auth_data @ mp_client_data_hash p) 128 s of
                           (None, s) \<Rightarrow> ([CTAP2_ERR_OTHER], s)
                         | (Some signature, s) \<Rightarrow>
                             (ctap2_build_make_credential_response_packed auth_data signature [] cap, s)))))"

definition mc_rollback_credential ::
    "'e fido2_env \<Rightarrow> nat \<Rightarrow> ('e, 'm) ctap2_scheme \<Rightarrow> bytes \<times> ('e, 'm) ctap2_scheme" where
  "mc_rollback_credential x slot s =
     ([CTAP2_ERR_OTHER], snd (on_store (fido2_storage_delete_credential (x_hw x) slot) s))"

definition create_credential_and_respond ::
    "'e fido2_env \<Rightarrow> mc_params \<Rightarrow> bool \<Rightarrow> byte \<Rightarrow> nat \<Rightarrow> ('e, 'm) ctap2_scheme \<Rightarrow>
      bytes \<times> ('e, 'm) ctap2_scheme" where
  "create_credential_and_respond x p uv_verified curve cap s =
     (case on_store (fido2_storage_create_credential (x_hw x) (mp_rp_id p) (mp_rp_id_hash p) (mp_user_id p)
             (mp_user_id_len p) (mp_user_name p) (mp_rk p) (mp_cred_protect p) curve) s of
        (None, s) \<Rightarrow> ([CTAP2_ERR_KEY_STORE_FULL], s)
      | (Some (slot, cred_id, pubkey), s) \<Rightarrow>
          (case ctap2_build_attested_cred cred_id pubkey curve 256 of
             None \<Rightarrow> mc_rollback_credential x slot s
           | Some attested_cred \<Rightarrow>
               let auth_data = ctap2_build_auth_data_for_cred (mp_rp_id_hash p) attested_cred
                     (mp_cred_protect p) uv_verified in
               if length auth_data + 32 > 512 then mc_rollback_credential x slot s
               else
                 (case u2f_get_attestation_cert x s of
                    (None, s) \<Rightarrow> mc_rollback_credential x slot s
                  | (Some att_cert, s) \<Rightarrow>
                      (case u2f_attestation_sign x (auth_data @ mp_client_data_hash p) s of
                         (None, s) \<Rightarrow> mc_rollback_credential x slot s
                       | (Some signature, s) \<Rightarrow>
                           let reply = ctap2_build_make_credential_response_packed auth_data signature
                                 att_cert cap in
                           if hd reply \<noteq> CTAP2_OK then mc_rollback_credential x slot s
                           else (reply, s)))))"

section \<open>The command\<close>

text \<open>After the checks of the \<^verbatim>\<open>pinUvAuthParam\<close>: options, consent, and the credential.\<close>

definition make_credential_checked ::
    "'e fido2_env \<Rightarrow> mc_params \<Rightarrow> bool \<Rightarrow> nat \<Rightarrow> ('e, 'm) ctap2_scheme \<Rightarrow>
      bytes \<times> ('e, 'm) ctap2_scheme" where
  "make_credential_checked x p uv_verified cap s =
     (if is_browser_probe (mp_rp_id p) then handle_browser_probe x p uv_verified cap s
      else if mp_alg p \<noteq> COSE_ALG_ES256 \<and> mp_alg p \<noteq> COSE_ALG_EDDSA then
        ([CTAP2_ERR_UNSUPPORTED_ALGORITHM], s)
      else
        let curve = (if mp_alg p = COSE_ALG_ES256 then CDC_CURVE_P256 else CDC_CURVE_ED25519) in
        if mp_option_uv p then ([CTAP2_ERR_UNSUPPORTED_OPTION], s)
        else if \<not> mp_option_up p then ([CTAP2_ERR_INVALID_OPTION], s)
        else
          let up_action =
                (if fido2_storage_find_by_rp_user (mp_rp_id_hash p) (mp_user_id p) (mp_user_id_len p)
                      (f_store s) \<noteq> None
                 then Action_Overwrite else Action_Register) in
          case wait_for_user_presence (Some (mp_rp_id p)) up_action (Some (mp_user_name p)) s of
            (False, s) \<Rightarrow> ([CTAP2_ERR_OPERATION_DENIED], s)
          | (True, s) \<Rightarrow> create_credential_and_respond x p uv_verified curve cap s)"

definition ctap2_make_credential ::
    "'e fido2_env \<Rightarrow> bytes \<Rightarrow> nat \<Rightarrow> ('e, 'm) ctap2_scheme \<Rightarrow> bytes \<times> ('e, 'm) ctap2_scheme" where
  "ctap2_make_credential x params cap s =
     (case parse_make_credential_params x params of
        Inl st \<Rightarrow> ([st], s)
      | Inr p \<Rightarrow>
          (case check_appid_exclude x p s of (status, s) \<Rightarrow>
             if status \<noteq> CTAP2_OK then ([status], s)
             else
               (case verify_pin_uv_auth x p s of ((status, uv_verified), s) \<Rightarrow>
                  if status \<noteq> CTAP2_OK then ([status], s)
                  else
                    let (always_uv, s) = on_store (fido2_storage_get_always_uv (x_hw x)) s in
                    if always_uv \<and> length (mp_pin_auth p) = 0 then ([CTAP2_ERR_PIN_REQUIRED], s)
                    else make_credential_checked x p uv_verified cap s)))"

end
