(* ===== verification/Ctap2_Manage.thy ===== *)
theory Ctap2_Manage
  imports Ctap2_Assertion
begin

text \<open>
  \<^verbatim>\<open>authenticatorCredentialManagement\<close>, \<^verbatim>\<open>authenticatorLargeBlobs\<close> and \<^verbatim>\<open>authenticatorConfig\<close>
  (\<^verbatim>\<open>components/mod_fido2/src/ctap2.cpp\<close>).
\<close>

section \<open>Credential management: parameters\<close>

record cm_params =
  mg_subcommand :: byte
  mg_rp_id_hash :: bytes
  mg_has_rp_id_hash :: bool
  mg_cred_id :: "bytes option"
  mg_sub_params :: bytes
  mg_pin_proto :: u64
  mg_pin_auth :: bytes

definition cm_params_init :: cm_params where
  "cm_params_init = \<lparr>mg_subcommand = 0, mg_rp_id_hash = replicate 32 0, mg_has_rp_id_hash = False,
     mg_cred_id = None, mg_sub_params = [], mg_pin_proto = 1, mg_pin_auth = []\<rparr>"

definition cm_cred_id_step :: "cbor_reader \<times> cm_params \<Rightarrow> cbor_reader \<times> cm_params" where
  "cm_cred_id_step = (\<lambda>(r, p).
     case cbor_read_text r 16 of
       (None, r) \<Rightarrow> (skip_item (skip_item r), p)
     | (Some key, r) \<Rightarrow>
         if cstr key = ascii ''id'' then
           (case cbor_read_bytes r FIDO2_CRED_ID_LEN of
              (None, r) \<Rightarrow> (r, p)
            | (Some d, r) \<Rightarrow> (r, p\<lparr>mg_cred_id := Some d\<rparr>))
         else (skip_item r, p))"

definition cm_sub_param_step :: "cbor_reader \<times> cm_params \<Rightarrow> cbor_reader \<times> cm_params" where
  "cm_sub_param_step = (\<lambda>(r, p).
     case cbor_read_uint r of
       (None, r) \<Rightarrow> (skip_item (skip_item r), p)
     | (Some sub_key, r) \<Rightarrow>
         if sub_key = 0x01 then
           (case cbor_read_bytes r 32 of
              (None, r) \<Rightarrow> (r, p)
            | (Some d, r) \<Rightarrow>
                (r, p\<lparr>mg_rp_id_hash := overwrite d (mg_rp_id_hash p),
                      mg_has_rp_id_hash := mg_has_rp_id_hash p \<or> length d = 32\<rparr>))
         else if sub_key = 0x02 then
           (case cbor_read_map r of (cred_map, r) \<Rightarrow> repeat_n (nat cred_map) cm_cred_id_step (r, p))
         else (skip_item r, p))"

text \<open>The bytes of the next item, as the reader skips it: \<^verbatim>\<open>params + r.offset\<close> up to where it ends.\<close>

definition raw_item :: "cbor_reader \<Rightarrow> bytes" where
  "raw_item r = take (r_offset (skip_item r) - r_offset r) (drop (r_offset r) (r_data r))"

definition cm_entry_step :: "cbor_reader \<times> cm_params \<Rightarrow> cbor_reader \<times> cm_params" where
  "cm_entry_step = (\<lambda>(r, p).
     case cbor_read_uint r of
       (None, r) \<Rightarrow> (skip_item r, p)
     | (Some key, r) \<Rightarrow>
         if key = 0x01 then
           (case cbor_read_uint r of
              (None, r) \<Rightarrow> (r, p)
            | (Some cmd, r) \<Rightarrow> (r, p\<lparr>mg_subcommand := ucast cmd\<rparr>))
         else if key = 0x02 then
           let p = p\<lparr>mg_sub_params := raw_item r\<rparr>; (sub_count, r) = cbor_read_map r in
           repeat_n (nat sub_count) cm_sub_param_step (r, p)
         else if key = 0x03 then
           (case read_uint_into r (mg_pin_proto p) of (v, r) \<Rightarrow> (r, p\<lparr>mg_pin_proto := v\<rparr>))
         else if key = 0x04 then
           (case cbor_read_bytes r 32 of
              (None, r) \<Rightarrow> (r, p\<lparr>mg_pin_auth := []\<rparr>)
            | (Some d, r) \<Rightarrow> (r, p\<lparr>mg_pin_auth := d\<rparr>))
         else (skip_item r, p))"

definition cm_parse_params :: "bytes \<Rightarrow> cm_params option" where
  "cm_parse_params params =
     (if length params < 1 then None
      else
        case cbor_read_map (cbor_reader_init params) of (map_count, r) \<Rightarrow>
          if map_count < 1 then None
          else Some (snd (repeat_n (nat map_count) cm_entry_step (r, cm_params_init))))"

section \<open>Credential management: enumeration\<close>

definition cred_mgmt_slot_has_key ::
    "'e fido2_env \<Rightarrow> nat \<Rightarrow> ('e, 'm) ctap2_scheme \<Rightarrow> bool \<times> ('e, 'm) ctap2_scheme" where
  "cred_mgmt_slot_has_key x slot s =
     (case on_store (fido2_storage_get_pubkey (x_hw x) slot) s of (k, s) \<Rightarrow> (k \<noteq> None, s))"

text \<open>The hash of a resident credential of which the metadata and the key are there.\<close>

definition listed_rp ::
    "'e fido2_env \<Rightarrow> nat \<Rightarrow> ('e, 'm) ctap2_scheme \<Rightarrow> bytes option \<times> ('e, 'm) ctap2_scheme" where
  "listed_rp x slot s =
     (if \<not> fido2_storage_is_resident slot (f_store s) then (None, s)
      else
        case on_store (fido2_storage_get_credential (x_hw x) slot) s of
          (None, s) \<Rightarrow> (None, s)
        | (Some info, s) \<Rightarrow>
            (case cred_mgmt_slot_has_key x slot s of
               (False, s) \<Rightarrow> (None, s)
             | (True, s) \<Rightarrow> (Some (ci_rp_id_hash info), s)))"

text \<open>The unique hashes found so far, each with the slot that stands for it.\<close>

definition unique_rp_step ::
    "'e fido2_env \<Rightarrow> nat \<Rightarrow> (bytes \<times> nat) list \<times> ('e, 'm) ctap2_scheme \<Rightarrow>
      (bytes \<times> nat) list \<times> ('e, 'm) ctap2_scheme" where
  "unique_rp_step x slot = (\<lambda>(found, s).
     case listed_rp x slot s of
       (None, s) \<Rightarrow> (found, s)
     | (Some h, s) \<Rightarrow>
         (if h \<notin> fst ` set found \<and> length found < FIDO2_MAX_CREDENTIALS then found @ [(h, slot)] else found, s))"

definition cred_mgmt_count_unique_rps ::
    "'e fido2_env \<Rightarrow> ('e, 'm) ctap2_scheme \<Rightarrow> byte \<times> ('e, 'm) ctap2_scheme" where
  "cred_mgmt_count_unique_rps x s =
     (case fold (unique_rp_step x) [0..<FIDO2_MAX_CREDENTIALS] ([], s) of (found, s) \<Rightarrow>
        (of_nat (length found),
         s\<lparr>cm_rp_slots := map snd found @ drop (length found) (cm_rp_slots s)\<rparr>))"

definition listed_cred ::
    "'e fido2_env \<Rightarrow> bytes \<Rightarrow> nat \<Rightarrow> ('e, 'm) ctap2_scheme \<Rightarrow> bool \<times> ('e, 'm) ctap2_scheme" where
  "listed_cred x rp_id_hash slot s =
     (if \<not> fido2_storage_is_resident slot (f_store s) then (False, s)
      else
        case on_store (fido2_storage_get_credential (x_hw x) slot) s of
          (None, s) \<Rightarrow> (False, s)
        | (Some info, s) \<Rightarrow>
            if ci_rp_id_hash info \<noteq> rp_id_hash then (False, s) else cred_mgmt_slot_has_key x slot s)"

definition cred_mgmt_find_creds_for_rp ::
    "'e fido2_env \<Rightarrow> bytes \<Rightarrow> ('e, 'm) ctap2_scheme \<Rightarrow> byte \<times> ('e, 'm) ctap2_scheme" where
  "cred_mgmt_find_creds_for_rp x rp_id_hash s =
     (case filter_slots (listed_cred x rp_id_hash) [0..<FIDO2_MAX_CREDENTIALS] s of (slots, s) \<Rightarrow>
        (of_nat (length slots), s\<lparr>cm_cred_slots := slots @ drop (length slots) (cm_cred_slots s)\<rparr>))"

definition cred_mgmt_encode_rp ::
    "'e fido2_env \<Rightarrow> nat \<Rightarrow> bool \<Rightarrow> nat \<Rightarrow> ('e, 'm) ctap2_scheme \<Rightarrow>
      cbor_writer option \<times> ('e, 'm) ctap2_scheme" where
  "cred_mgmt_encode_rp x slot include_total cap s =
     (case on_store (fido2_storage_get_credential (x_hw x) slot) s of
        (None, s) \<Rightarrow> (None, s)
      | (Some info, s) \<Rightarrow>
          (Some (foldl encode (response_writer cap)
             ([EMap (if include_total then 3 else 2), EUint 0x03, EMap 1, EText (ascii ''id''),
               EText (cstr (ci_rp_id info)), EUint 0x04, EBytes (ci_rp_id_hash info)] @
              (if include_total then [EUint 0x05, EUint (ucast (cm_rp_count s))] else []))), s))"

definition encode_cose_key :: "byte \<Rightarrow> bytes \<Rightarrow> cbor_writer \<Rightarrow> cbor_writer" where
  "encode_cose_key curve pubkey w =
     (if curve = CDC_CURVE_ED25519 then cbor_encode_cose_key_ed25519 w pubkey
      else cbor_encode_cose_key_p256 w pubkey (drop 32 pubkey))"

definition cred_mgmt_encode_credential ::
    "'e fido2_env \<Rightarrow> nat \<Rightarrow> bool \<Rightarrow> nat \<Rightarrow> ('e, 'm) ctap2_scheme \<Rightarrow>
      cbor_writer option \<times> ('e, 'm) ctap2_scheme" where
  "cred_mgmt_encode_credential x slot include_total cap s =
     (case on_store (fido2_storage_get_credential (x_hw x) slot) s of
        (None, s) \<Rightarrow> (None, s)
      | (Some info, s) \<Rightarrow>
          (case on_store (fido2_storage_get_cred_id (x_hw x) slot) s of
             (None, s) \<Rightarrow> (None, s)
           | (Some cred_id, s) \<Rightarrow>
               (case on_store (fido2_storage_get_pubkey (x_hw x) slot) s of
                  (None, s) \<Rightarrow> (None, s)
                | (Some pubkey, s) \<Rightarrow>
                    let w = foldl encode (response_writer cap)
                          ([EMap (if include_total then 5 else 4), EUint 0x06] @ user_calls info @
                           [EUint 0x07] @ descriptor_calls cred_id @ [EUint 0x08]);
                        w = encode_cose_key (ci_curve info) pubkey w;
                        w = foldl encode w
                          ((if include_total then [EUint 0x09, EUint (ucast (cm_cred_count s))] else []) @
                           [EUint 0x0A, EUint (if ci_protect info \<noteq> 0 then ucast (ci_protect info) else 1)])
                    in (Some w, s))))"

section \<open>Credential management: the command\<close>

definition cm_metadata :: "nat \<Rightarrow> ('e, 'm) ctap2_scheme \<Rightarrow> bytes" where
  "cm_metadata cap s =
     (let existing = length (filter (\<lambda>slot. fido2_storage_is_resident slot (f_store s))
            [0..<FIDO2_MAX_CREDENTIALS]) in
      checked_response (foldl encode (response_writer cap)
        [EMap 2, EUint 0x01, EUint (of_nat existing), EUint 0x02,
         EUint (of_nat (FIDO2_MAX_CREDENTIALS - existing))]))"

definition cm_enumerate_rps_begin ::
    "'e fido2_env \<Rightarrow> nat \<Rightarrow> ('e, 'm) ctap2_scheme \<Rightarrow> bytes \<times> ('e, 'm) ctap2_scheme" where
  "cm_enumerate_rps_begin x cap s =
     (let (n, s) = cred_mgmt_count_unique_rps x s; s = s\<lparr>cm_rp_count := n, cm_rp_index := 0\<rparr> in
      if n = 0 then ([CTAP2_ERR_NO_CREDENTIALS], s)
      else
        case cred_mgmt_encode_rp x (cm_rp_slots s ! 0) True cap s of
          (None, s) \<Rightarrow> ([CTAP2_ERR_OTHER], s)
        | (Some w, s) \<Rightarrow> (checked_response w, s\<lparr>cm_rp_index := 1\<rparr>))"

definition cm_enumerate_rps_next ::
    "'e fido2_env \<Rightarrow> nat \<Rightarrow> ('e, 'm) ctap2_scheme \<Rightarrow> bytes \<times> ('e, 'm) ctap2_scheme" where
  "cm_enumerate_rps_next x cap s =
     (if cm_rp_index s \<ge> cm_rp_count s then ([CTAP2_ERR_NO_CREDENTIALS], s)
      else
        case cred_mgmt_encode_rp x (cm_rp_slots s ! unat (cm_rp_index s)) False cap s of
          (None, s) \<Rightarrow> ([CTAP2_ERR_OTHER], s)
        | (Some w, s) \<Rightarrow> (checked_response w, s\<lparr>cm_rp_index := cm_rp_index s + 1\<rparr>))"

definition cm_enumerate_creds_begin ::
    "'e fido2_env \<Rightarrow> cm_params \<Rightarrow> nat \<Rightarrow> ('e, 'm) ctap2_scheme \<Rightarrow> bytes \<times> ('e, 'm) ctap2_scheme" where
  "cm_enumerate_creds_begin x p cap s =
     (if \<not> mg_has_rp_id_hash p then ([CTAP2_ERR_MISSING_PARAMETER], s)
      else
        let (n, s) = cred_mgmt_find_creds_for_rp x (mg_rp_id_hash p) (s\<lparr>cm_rp_id_hash := mg_rp_id_hash p\<rparr>);
            s = s\<lparr>cm_cred_count := n, cm_cred_index := 0\<rparr> in
        if n = 0 then ([CTAP2_ERR_NO_CREDENTIALS], s)
        else
          case cred_mgmt_encode_credential x (cm_cred_slots s ! 0) True cap s of
            (None, s) \<Rightarrow> ([CTAP2_ERR_OTHER], s)
          | (Some w, s) \<Rightarrow> (checked_response w, s\<lparr>cm_cred_index := 1\<rparr>))"

definition cm_enumerate_creds_next ::
    "'e fido2_env \<Rightarrow> nat \<Rightarrow> ('e, 'm) ctap2_scheme \<Rightarrow> bytes \<times> ('e, 'm) ctap2_scheme" where
  "cm_enumerate_creds_next x cap s =
     (if cm_cred_index s \<ge> cm_cred_count s then ([CTAP2_ERR_NO_CREDENTIALS], s)
      else
        case cred_mgmt_encode_credential x (cm_cred_slots s ! unat (cm_cred_index s)) False cap s of
          (None, s) \<Rightarrow> ([CTAP2_ERR_OTHER], s)
        | (Some w, s) \<Rightarrow> (checked_response w, s\<lparr>cm_cred_index := cm_cred_index s + 1\<rparr>))"

definition cm_delete_credential ::
    "'e fido2_env \<Rightarrow> cm_params \<Rightarrow> ('e, 'm) ctap2_scheme \<Rightarrow> bytes \<times> ('e, 'm) ctap2_scheme" where
  "cm_delete_credential x p s =
     (case mg_cred_id p of
        None \<Rightarrow> ([CTAP2_ERR_MISSING_PARAMETER], s)
      | Some cred_id \<Rightarrow>
          (case on_store (fido2_storage_find_slot_by_cred_id (x_hw x) cred_id) s of
             (None, s) \<Rightarrow> ([CTAP2_ERR_NO_CREDENTIALS], s)
           | (Some slot, s) \<Rightarrow>
               (case on_store (fido2_storage_delete_credential (x_hw x) slot) s of
                  (False, s) \<Rightarrow> ([CTAP2_ERR_OTHER], s)
                | (True, s) \<Rightarrow> ([CTAP2_OK], s))))"

text \<open>The continuations of an enumeration carry no \<^verbatim>\<open>pinUvAuthParam\<close> and need some valid token.\<close>

definition cm_authorise :: "'e fido2_env \<Rightarrow> cm_params \<Rightarrow> ('e, 'm) ctap2_scheme \<Rightarrow> byte" where
  "cm_authorise x p s =
     (if mg_subcommand p = 0x03 \<or> mg_subcommand p = 0x05 then
        if \<not> cp_token_valid s then CTAP2_ERR_PIN_AUTH_INVALID else CTAP2_OK
      else if length (mg_sub_params p) > 256 then CTAP1_ERR_INVALID_LENGTH
      else verify_token_over_message x (mg_subcommand p # mg_sub_params p) (ucast (mg_pin_proto p))
             (mg_pin_auth p) PIN_PERM_CRED_MGMT s)"

definition ctap2_cred_management ::
    "'e fido2_env \<Rightarrow> bytes \<Rightarrow> nat \<Rightarrow> ('e, 'm) ctap2_scheme \<Rightarrow> bytes \<times> ('e, 'm) ctap2_scheme" where
  "ctap2_cred_management x params cap s =
     (case cm_parse_params params of
        None \<Rightarrow> ([CTAP2_ERR_INVALID_CBOR], s)
      | Some p \<Rightarrow>
          let st = cm_authorise x p s; sub = mg_subcommand p in
          if st \<noteq> CTAP2_OK then ([st], s)
          else if sub = 0x01 then (cm_metadata cap s, s)
          else if sub = 0x02 then cm_enumerate_rps_begin x cap s
          else if sub = 0x03 then cm_enumerate_rps_next x cap s
          else if sub = 0x04 then cm_enumerate_creds_begin x p cap s
          else if sub = 0x05 then cm_enumerate_creds_next x cap s
          else if sub = 0x06 then cm_delete_credential x p s
          else ([CTAP2_ERR_UNSUPPORTED_OPTION], s))"

section \<open>Large blobs\<close>

record lb_params =
  lp_has_get :: bool
  lp_has_set :: bool
  lp_has_offset :: bool
  lp_has_length :: bool
  lp_get_len :: u64
  lp_total_len :: u64
  lp_offset :: u64
  lp_pin_proto :: u64
  lp_chunk :: bytes
  lp_pin_auth :: bytes

definition lb_params_init :: lb_params where
  "lb_params_init = \<lparr>lp_has_get = False, lp_has_set = False, lp_has_offset = False, lp_has_length = False,
     lp_get_len = 0, lp_total_len = 0, lp_offset = 0, lp_pin_proto = 0, lp_chunk = [], lp_pin_auth = []\<rparr>"

text \<open>A \<^verbatim>\<open>cbor_read_bytes\<close> into a buffer whose length is 0 unless it succeeds.\<close>

definition read_bytes_or_none :: "cbor_reader \<Rightarrow> nat \<Rightarrow> bytes \<times> cbor_reader" where
  "read_bytes_or_none r n = (case cbor_read_bytes r n of (None, r) \<Rightarrow> ([], r) | (Some d, r) \<Rightarrow> (d, r))"

definition lb_entry_step :: "cbor_reader \<times> lb_params \<Rightarrow> unit + (cbor_reader \<times> lb_params)" where
  "lb_entry_step = (\<lambda>(r, p).
     case cbor_read_uint r of
       (None, r) \<Rightarrow> Inl ()
     | (Some key, r) \<Rightarrow>
         Inr (if key = 0x01 then
                case read_uint_into r (lp_get_len p) of (v, r) \<Rightarrow> (r, p\<lparr>lp_get_len := v, lp_has_get := True\<rparr>)
              else if key = 0x02 then
                case read_bytes_or_none r 1024 of (d, r) \<Rightarrow> (r, p\<lparr>lp_chunk := d, lp_has_set := True\<rparr>)
              else if key = 0x03 then
                case read_uint_into r (lp_offset p) of (v, r) \<Rightarrow> (r, p\<lparr>lp_offset := v, lp_has_offset := True\<rparr>)
              else if key = 0x04 then
                case read_uint_into r (lp_total_len p) of (v, r) \<Rightarrow> (r, p\<lparr>lp_total_len := v, lp_has_length := True\<rparr>)
              else if key = 0x05 then
                case read_bytes_or_none r 64 of (d, r) \<Rightarrow> (r, p\<lparr>lp_pin_auth := d\<rparr>)
              else if key = 0x06 then
                case read_uint_into r (lp_pin_proto p) of (v, r) \<Rightarrow> (r, p\<lparr>lp_pin_proto := v\<rparr>)
              else (skip_item r, p)))"

definition lb_parse_params :: "bytes \<Rightarrow> lb_params option" where
  "lb_parse_params params =
     (case cbor_read_map (cbor_reader_init params) of (n, r) \<Rightarrow>
        if n < 0 then None
        else
          case for_loop (nat n) lb_entry_step (r, lb_params_init) of
            Inl _ \<Rightarrow> None
          | Inr (r, p) \<Rightarrow> Some p)"

definition lb_status :: "lb_result \<Rightarrow> byte" where
  "lb_status r = (case r of Lb_Ok \<Rightarrow> CTAP2_OK | Lb_StorageFull \<Rightarrow> CTAP2_ERR_LARGE_BLOB_STORAGE_FULL
     | Lb_BadLength \<Rightarrow> CTAP1_ERR_INVALID_LENGTH | Lb_BadSeq \<Rightarrow> CTAP1_ERR_INVALID_SEQ)"

text \<open>The stored array is read into the buffer a write in progress uses.\<close>

definition large_blobs_get ::
    "'e fido2_env \<Rightarrow> lb_params \<Rightarrow> nat \<Rightarrow> ('e, 'm) ctap2_scheme \<Rightarrow> bytes \<times> ('e, 'm) ctap2_scheme" where
  "large_blobs_get x p cap s =
     (case on_store (fido2_storage_largeblob_get (x_hw x) 1024) s of
        (None, s) \<Rightarrow> ([CTAP2_ERR_OTHER], s)
      | (Some d, s) \<Rightarrow>
          let s = s\<lparr>bl_buf := overwrite d (bl_buf s)\<rparr>; stored_len = length d in
          if unat (lp_offset p) > stored_len then ([CTAP1_ERR_INVALID_LENGTH], s)
          else
            let avail = stored_len - unat (lp_offset p);
                chunk = (if unat (lp_get_len p) < avail then unat (lp_get_len p) else avail)
            in (checked_response (foldl encode (response_writer cap)
                  [EMap 1, EUint 0x01, EBytes (take chunk (drop (unat (lp_offset p)) (bl_buf s)))]), s))"

definition lb_message :: "'e fido2_env \<Rightarrow> u64 \<Rightarrow> bytes \<Rightarrow> bytes" where
  "lb_message x offset chunk =
     replicate 32 0xFF @ [0x0C, 0x00] @
     [byte_at 0 offset, byte_at 8 offset, byte_at 16 offset, byte_at 24 offset] @ x_sha256 x chunk"

text \<open>
  A fragment: the session is begun or continued first, then the fragment authorised, appended, and
  the whole array checked and stored when it was the last one.
\<close>

definition lb_start :: "lb_params \<Rightarrow> ('e, 'm) ctap2_scheme \<Rightarrow> byte \<times> ('e, 'm) ctap2_scheme" where
  "lb_start p s =
     (if lp_offset p = 0 then
        if \<not> lp_has_length p then (CTAP1_ERR_INVALID_PARAMETER, s)
        else
          case lb_begin 1024 (ucast (lp_total_len p)) (bl_session s) of (res, l) \<Rightarrow>
            if lb_status res \<noteq> CTAP2_OK then (lb_status res, s\<lparr>bl_session := lb_reset\<rparr>)
            else (CTAP2_OK, s\<lparr>bl_session := l\<rparr>)
      else if \<not> lb_active (bl_session s) \<or> lp_offset p \<noteq> ucast (lb_received (bl_session s)) then
        (CTAP1_ERR_INVALID_SEQ, s)
      else (CTAP2_OK, s))"

definition lb_authorise ::
    "'e fido2_env \<Rightarrow> lb_params \<Rightarrow> ('e, 'm) ctap2_scheme \<Rightarrow> byte \<times> ('e, 'm) ctap2_scheme" where
  "lb_authorise x p s =
     (case on_pins (pin_storage_fido2_available (x_pin x)) s of
        (False, s) \<Rightarrow> (CTAP2_OK, s)
      | (True, s) \<Rightarrow>
          let st = verify_token_over_message x (lb_message x (lp_offset p) (lp_chunk p))
                (ucast (lp_pin_proto p)) (lp_pin_auth p) PIN_PERM_LARGE_BLOB_WRITE s in
          (st, if st \<noteq> CTAP2_OK then s\<lparr>bl_session := lb_reset\<rparr> else s))"

definition lb_finish ::
    "'e fido2_env \<Rightarrow> ('e, 'm) ctap2_scheme \<Rightarrow> bytes \<times> ('e, 'm) ctap2_scheme" where
  "lb_finish x s =
     (if \<not> lb_complete (bl_session s) then ([CTAP2_OK], s)
      else
        let blob_len = unat (lb_expected (bl_session s)); blob = take blob_len (bl_buf s) in
        if take 16 (x_sha256 x (take (blob_len - 16) blob)) \<noteq> drop (blob_len - 16) blob then
          ([CTAP2_ERR_INTEGRITY_FAILURE], s\<lparr>bl_session := lb_reset\<rparr>)
        else
          let (ok, s) = on_store (fido2_storage_largeblob_set (x_hw x) blob) s;
              s = s\<lparr>bl_session := lb_reset\<rparr>
          in ([if \<not> ok then CTAP2_ERR_OTHER else CTAP2_OK], s))"

definition large_blobs_set ::
    "'e fido2_env \<Rightarrow> lb_params \<Rightarrow> ('e, 'm) ctap2_scheme \<Rightarrow> bytes \<times> ('e, 'm) ctap2_scheme" where
  "large_blobs_set x p s =
     (case lb_start p s of (st, s) \<Rightarrow>
        if st \<noteq> CTAP2_OK then ([st], s)
        else
          (case lb_authorise x p s of (st, s) \<Rightarrow>
             if st \<noteq> CTAP2_OK then ([st], s)
             else
               (case lb_append (ucast (lp_offset p)) (lp_chunk p) (bl_session s) (bl_buf s) of
                  (res, l, buf) \<Rightarrow>
                    if lb_status res \<noteq> CTAP2_OK then ([lb_status res], s\<lparr>bl_session := lb_reset\<rparr>)
                    else lb_finish x (s\<lparr>bl_session := l, bl_buf := buf\<rparr>))))"

definition ctap2_large_blobs ::
    "'e fido2_env \<Rightarrow> bytes \<Rightarrow> nat \<Rightarrow> ('e, 'm) ctap2_scheme \<Rightarrow> bytes \<times> ('e, 'm) ctap2_scheme" where
  "ctap2_large_blobs x params cap s =
     (case lb_parse_params params of
        None \<Rightarrow> ([CTAP2_ERR_INVALID_CBOR], s)
      | Some p \<Rightarrow>
          if lp_has_get p = lp_has_set p \<or> \<not> lp_has_offset p then ([CTAP1_ERR_INVALID_PARAMETER], s)
          else if lp_has_get p then large_blobs_get x p cap s
          else large_blobs_set x p s)"

section \<open>Configuration\<close>

record cfg_params =
  fp_subcmd :: u64
  fp_has_sub :: bool
  fp_sub_params :: bytes
  fp_pin_proto :: u64
  fp_pin_auth :: bytes

definition cfg_params_init :: cfg_params where
  "cfg_params_init = \<lparr>fp_subcmd = 0, fp_has_sub = False, fp_sub_params = [], fp_pin_proto = 0,
     fp_pin_auth = []\<rparr>"

definition cfg_entry_step :: "cbor_reader \<times> cfg_params \<Rightarrow> unit + (cbor_reader \<times> cfg_params)" where
  "cfg_entry_step = (\<lambda>(r, p).
     case cbor_read_uint r of
       (None, r) \<Rightarrow> Inl ()
     | (Some key, r) \<Rightarrow>
         Inr (if key = 0x01 then
                case read_uint_into r (fp_subcmd p) of (v, r) \<Rightarrow> (r, p\<lparr>fp_subcmd := v, fp_has_sub := True\<rparr>)
              else if key = 0x02 then (skip_item r, p\<lparr>fp_sub_params := raw_item r\<rparr>)
              else if key = 0x03 then
                case read_uint_into r (fp_pin_proto p) of (v, r) \<Rightarrow> (r, p\<lparr>fp_pin_proto := v\<rparr>)
              else if key = 0x04 then
                case read_bytes_or_none r 64 of (d, r) \<Rightarrow> (r, p\<lparr>fp_pin_auth := d\<rparr>)
              else (skip_item r, p)))"

definition cfg_parse_params :: "bytes \<Rightarrow> cfg_params option" where
  "cfg_parse_params params =
     (case cbor_read_map (cbor_reader_init params) of (n, r) \<Rightarrow>
        if n < 0 then None
        else
          case for_loop (nat n) cfg_entry_step (r, cfg_params_init) of
            Inl _ \<Rightarrow> None
          | Inr (r, p) \<Rightarrow> Some p)"

definition new_min_step ::
    "cbor_reader \<times> u64 \<times> bool \<Rightarrow> (cbor_reader \<times> u64 \<times> bool) + (cbor_reader \<times> u64 \<times> bool)" where
  "new_min_step = (\<lambda>(r, new_min, has_new_min).
     case cbor_read_uint r of
       (None, r) \<Rightarrow> Inl (r, new_min, has_new_min)
     | (Some k, r) \<Rightarrow>
         if k = 0x01 then case read_uint_into r new_min of (v, r) \<Rightarrow> Inr (r, v, True)
         else Inr (skip_item r, new_min, has_new_min))"

definition parse_new_min :: "bytes \<Rightarrow> u64 option" where
  "parse_new_min sub_params =
     (if length sub_params = 0 then None
      else
        case cbor_read_map (cbor_reader_init sub_params) of (sn, r) \<Rightarrow>
          case loop_end (for_loop (nat sn) new_min_step (r, 0, False)) of
            (r, new_min, has_new_min) \<Rightarrow> if has_new_min then Some new_min else None)"

definition cfg_authorise ::
    "'e fido2_env \<Rightarrow> cfg_params \<Rightarrow> ('e, 'm) ctap2_scheme \<Rightarrow> byte \<times> ('e, 'm) ctap2_scheme" where
  "cfg_authorise x p s =
     (case on_pins (pin_storage_fido2_available (x_pin x)) s of
        (False, s) \<Rightarrow> (CTAP2_OK, s)
      | (True, s) \<Rightarrow>
          (if length (fp_sub_params p) > 256 then CTAP1_ERR_INVALID_LENGTH
           else verify_token_over_message x
                  (replicate 32 0xFF @ [0x0D, ucast (fp_subcmd p)] @ fp_sub_params p)
                  (ucast (fp_pin_proto p)) (fp_pin_auth p) PIN_PERM_AUTHN_CONFIG s, s))"

definition toggle_always_uv ::
    "'e fido2_env \<Rightarrow> ('e, 'm) ctap2_scheme \<Rightarrow> bytes \<times> ('e, 'm) ctap2_scheme" where
  "toggle_always_uv x s =
     (let (cur, s) = on_store (fido2_storage_get_always_uv (x_hw x)) s;
          (ok, s) = on_store (fido2_storage_set_always_uv (x_hw x) (\<not> cur)) s
      in ([if \<not> ok then CTAP2_ERR_OTHER else CTAP2_OK], s))"

definition set_min_pin_length ::
    "'e fido2_env \<Rightarrow> bytes \<Rightarrow> ('e, 'm) ctap2_scheme \<Rightarrow> bytes \<times> ('e, 'm) ctap2_scheme" where
  "set_min_pin_length x sub_params s =
     (case parse_new_min sub_params of
        None \<Rightarrow> ([CTAP1_ERR_INVALID_PARAMETER], s)
      | Some new_min \<Rightarrow>
          let (current, s) = min_pin_floor x s in
          if new_min < ucast current \<or> new_min > 8 then ([CTAP1_ERR_INVALID_PARAMETER], s)
          else
            let (ok, s) = on_store (fido2_storage_set_min_pin_len (x_hw x) (ucast new_min)) s in
            if \<not> ok then ([CTAP2_ERR_OTHER], s)
            else ([CTAP2_OK], s\<lparr>f_pins := pin_storage_set_min_pin_floor (ucast new_min) (f_pins s)\<rparr>))"

definition ctap2_config ::
    "'e fido2_env \<Rightarrow> bytes \<Rightarrow> ('e, 'm) ctap2_scheme \<Rightarrow> bytes \<times> ('e, 'm) ctap2_scheme" where
  "ctap2_config x params s =
     (case cfg_parse_params params of
        None \<Rightarrow> ([CTAP2_ERR_INVALID_CBOR], s)
      | Some p \<Rightarrow>
          if \<not> fp_has_sub p then ([CTAP2_ERR_MISSING_PARAMETER], s)
          else if fp_subcmd p = 0x01 \<or> fp_subcmd p = 0xFF then ([CTAP2_ERR_UNSUPPORTED_OPTION], s)
          else if fp_subcmd p \<noteq> 0x02 \<and> fp_subcmd p \<noteq> 0x03 then ([CTAP1_ERR_INVALID_PARAMETER], s)
          else
            (case cfg_authorise x p s of (st, s) \<Rightarrow>
               if st \<noteq> CTAP2_OK then ([st], s)
               else if fp_subcmd p = 0x02 then toggle_always_uv x s
               else set_min_pin_length x (fp_sub_params p) s))"

end
