(* ===== verification/Ctap2.thy ===== *)
theory Ctap2
  imports Ctap2_Make Ctap2_Manage
begin

text \<open>
  The CTAP2 commands behind the dispatcher (\<^verbatim>\<open>ctap2_process_command\<close>), and what can happen to the
  FIDO2 module: a CTAP2 command, a U2F request, a USB connection.
\<close>

definition ctap2_handler ::
    "'e fido2_env \<Rightarrow> byte \<Rightarrow> bytes \<Rightarrow> nat \<Rightarrow> ('e, 'm) ctap2_scheme \<Rightarrow> bytes \<times> ('e, 'm) ctap2_scheme" where
  "ctap2_handler x command params cap s =
     (if command = 0x04 then ctap2_get_info x cap s
      else if command = 0x01 then ctap2_make_credential x params cap s
      else if command = 0x02 then ctap2_get_assertion x params cap s
      else if command = 0x08 then ctap2_get_next_assertion x cap s
      else if command = 0x06 then ctap2_client_pin x params cap s
      else if command = 0x07 then ctap2_reset x s
      else if command = 0x0A then ctap2_cred_management x params cap s
      else if command = 0x0B then ctap2_selection s
      else if command = 0x0C then ctap2_large_blobs x params cap s
      else if command = 0x0D then ctap2_config x params s
      else ([CTAP1_ERR_INVALID_COMMAND], s))"

datatype fido2_call = Ctap2_Command byte bytes | U2f_Request bytes | Usb_Connect

text \<open>The sizes of the buffers are those of the transport: 2048 bytes, and 512 for U2F.\<close>

fun fido2_step :: "'e fido2_env \<Rightarrow> fido2_call \<Rightarrow> ('e, 'm) ctap2_scheme \<Rightarrow> ('e, 'm) ctap2_scheme" where
  "fido2_step x (Ctap2_Command c params) s = snd (ctap2_handler x c params 2048 s)"
| "fido2_step x (U2f_Request apdu) s = snd (u2f_process_apdu x apdu 512 s)"
| "fido2_step x Usb_Connect s = fido2_note_usb_connect x s"

end
