(* ===== verification/Ctap2_Sample.thy ===== *)
theory Ctap2_Sample
  imports Ctap2 Fido2_Accounts
begin

text \<open>
  A badge for the concrete instances: a chip that works, hashes and ciphers simple enough to evaluate,
  a user who always agrees, and the requests of a client that knows the PIN.
\<close>

definition sample :: "(u16 \<Rightarrow> bytes option) fido2_env" where
  "sample = \<lparr>x_hw = plain_hw, x_pin = calm_env, x_session_active = (\<lambda>e. (True, e)),
     x_esp_random = (\<lambda>n e. (replicate n 3, e)), x_time_us = (\<lambda>e. (5, e)),
     x_hmac = (\<lambda>k m. replicate 32 2), x_gen_key = (\<lambda>e. (Some ([1], replicate 64 4), e)),
     x_ecdh = (\<lambda>d px py e. (Some (replicate 32 8), e)), x_key_sign = (\<lambda>d h n e. (Some [6], e)),
     x_aes_dec = (\<lambda>k iv d. Some d), x_aes_enc = (\<lambda>k iv d. Some d),
     x_attest_key = (\<lambda>e. (Some (replicate 64 5, 1), e)), x_cert_point = (\<lambda>der. None),
     x_nvs_cert = (\<lambda>e. (None, e)), x_nvs_set_cert = (\<lambda>d e. (True, e)), x_nvs_erase_cert = (\<lambda>e. e),
     x_garbage = (\<lambda>n. 0)\<rparr>"

definition sample_state :: "(u16 \<Rightarrow> bytes option) ctap2" where
  "sample_state = \<lparr>f_initialized = True, f_user_presence_cb = None, f_pin_verified = False,
     f_last_usb_connect_us = 0, f_store = snd (fido2_storage_init plain_hw plain_store),
     f_pins = some_pins, g_attest_cert = replicate 1024 0, g_attest_cert_len = 0,
     g_attest_pubkey = replicate 65 0, g_attest_initialized = False,
     ga_creds = replicate 32 0, ga_count = 0, ga_index = 0, ga_rp_id_hash = replicate 32 0,
     ga_client_data_hash = replicate 32 0, ga_up_done = False, ga_include_user = False,
     ga_appid_used = False, cp_initialized = False, cp_key = None, cp_token = replicate 32 0,
     cp_token_valid = False, cp_permissions = 0, cp_rp_id_hash = replicate 32 0, cp_rp_id_set = False,
     cp_pin_retries = 0, cp_uv_retries = 0, cm_rp_slots = replicate 32 0, cm_rp_count = 0,
     cm_rp_index = 0, cm_cred_slots = replicate 32 0, cm_cred_count = 0, cm_cred_index = 0,
     cm_rp_id_hash = replicate 32 0, bl_session = lb_reset, bl_buf = replicate 1024 0\<rparr>"

definition agreement_request :: fido2_call where
  "agreement_request = Ctap2_Command 0x06 [0xA2, 0x01, 0x02, 0x02, 0x02]"

definition token_message :: "bytes \<Rightarrow> bytes" where
  "token_message h = [0xA4, 0x01, 0x02, 0x02, 0x05, 0x03, 0xA2, 0x21, 0x58, 0x20] @ replicate 32 1 @
     [0x22, 0x58, 0x20] @ replicate 32 1 @ [0x06, 0x50] @ h"

end
