(* ===== verification/Ctap2_Auth.thy ===== *)
theory Ctap2_Auth
  imports Ctap2_Sample
begin

text \<open>
  Who may do what: the PIN token of the CTAP2 commands. Which operations leave the token, the retry
  counter and the PIN manager alone, and what a valid token is needed for.
\<close>

section \<open>What an operation leaves alone\<close>

text \<open>What \<^verbatim>\<open>g_client_pin\<close> holds, and the PIN manager.\<close>

definition pin_state :: "('e, 'm) ctap2_scheme \<Rightarrow>
    bool \<times> (bytes \<times> bytes) option \<times> bytes \<times> bool \<times> byte \<times> bytes \<times> bool \<times> byte \<times> pins" where
  "pin_state s = (cp_initialized s, cp_key s, cp_token s, cp_token_valid s, cp_permissions s,
     cp_rp_id_hash s, cp_rp_id_set s, cp_pin_retries s, f_pins s)"

named_theorems frames \<open>operations that keep the token, the retry counter and the PIN manager\<close>

lemma pin_state_updates [simp]:
  "pin_state (s\<lparr>f_store := v0\<rparr>) = pin_state s"
  "pin_state (s\<lparr>f_pin_verified := v1\<rparr>) = pin_state s"
  "pin_state (s\<lparr>f_last_usb_connect_us := v2\<rparr>) = pin_state s"
  "pin_state (s\<lparr>g_attest_cert := v3\<rparr>) = pin_state s"
  "pin_state (s\<lparr>g_attest_cert_len := v4\<rparr>) = pin_state s"
  "pin_state (s\<lparr>g_attest_pubkey := v5\<rparr>) = pin_state s"
  "pin_state (s\<lparr>g_attest_initialized := v6\<rparr>) = pin_state s"
  "pin_state (s\<lparr>ga_creds := v7\<rparr>) = pin_state s"
  "pin_state (s\<lparr>ga_count := v8\<rparr>) = pin_state s"
  "pin_state (s\<lparr>ga_index := v9\<rparr>) = pin_state s"
  "pin_state (s\<lparr>ga_rp_id_hash := v10\<rparr>) = pin_state s"
  "pin_state (s\<lparr>ga_client_data_hash := v11\<rparr>) = pin_state s"
  "pin_state (s\<lparr>ga_up_done := v12\<rparr>) = pin_state s"
  "pin_state (s\<lparr>ga_include_user := v13\<rparr>) = pin_state s"
  "pin_state (s\<lparr>ga_appid_used := v14\<rparr>) = pin_state s"
  "pin_state (s\<lparr>cm_rp_slots := v15\<rparr>) = pin_state s"
  "pin_state (s\<lparr>cm_rp_count := v16\<rparr>) = pin_state s"
  "pin_state (s\<lparr>cm_rp_index := v17\<rparr>) = pin_state s"
  "pin_state (s\<lparr>cm_cred_slots := v18\<rparr>) = pin_state s"
  "pin_state (s\<lparr>cm_cred_count := v19\<rparr>) = pin_state s"
  "pin_state (s\<lparr>cm_cred_index := v20\<rparr>) = pin_state s"
  "pin_state (s\<lparr>cm_rp_id_hash := v21\<rparr>) = pin_state s"
  "pin_state (s\<lparr>bl_session := v22\<rparr>) = pin_state s"
  "pin_state (s\<lparr>bl_buf := v23\<rparr>) = pin_state s"
  by (simp_all add: pin_state_def)

lemma pin_state_eq:
  "pin_state t = pin_state s \<longleftrightarrow> cp_initialized t = cp_initialized s \<and> cp_key t = cp_key s \<and>
    cp_token t = cp_token s \<and> cp_token_valid t = cp_token_valid s \<and> cp_permissions t = cp_permissions s \<and>
    cp_rp_id_hash t = cp_rp_id_hash s \<and> cp_rp_id_set t = cp_rp_id_set s \<and>
    cp_pin_retries t = cp_pin_retries s \<and> f_pins t = f_pins s"
  by (simp add: pin_state_def)

lemma frame_on_store [frames]: "on_store f s = (a, t) \<Longrightarrow> pin_state t = pin_state s"
  by (auto simp: on_store_def split: prod.splits)

lemma frame_on_env [frames]: "on_env f s = (a, t) \<Longrightarrow> pin_state t = pin_state s"
  by (simp add: on_env_def frame_on_store)

lemma frame_presence [frames]: "fido2_request_user_presence rp act user s = (a, t) \<Longrightarrow> pin_state t = pin_state s"
  by (auto simp: fido2_request_user_presence_def split: option.splits dest: frames)

lemma frame_wait [frames]: "wait_for_user_presence rp act user s = (a, t) \<Longrightarrow> pin_state t = pin_state s"
  by (auto simp: wait_for_user_presence_def split: prod.splits dest: frames)

lemma frame_random [frames]: "secure_random_fill x n s = (a, t) \<Longrightarrow> pin_state t = pin_state s"
  by (auto simp: secure_random_fill_def split: if_splits prod.splits bool.splits option.splits
      dest!: frames)

lemma frame_window [frames]: "fido2_reset_window_open x s = (a, t) \<Longrightarrow> pin_state t = pin_state s"
  by (auto simp: fido2_reset_window_open_def split: prod.splits dest!: frames)

lemma frame_counter [frames]: "fido2_increment_auth_counter x s = t \<Longrightarrow> pin_state t = pin_state s"
  by (auto simp: fido2_increment_auth_counter_def on_store_def split: prod.splits)

lemma frame_min_pin [frames]: "min_pin_floor x s = (a, t) \<Longrightarrow> pin_state t = pin_state s"
  by (auto simp: min_pin_floor_def split: prod.splits dest!: frames)

section \<open>U2F\<close>

lemma frame_load_cert [frames]: "u2f_load_imported_cert x s = (a, t) \<Longrightarrow> pin_state t = pin_state s"
  by (auto simp: u2f_load_imported_cert_def Let_def split: prod.splits option.splits if_splits
      dest!: frames)

lemma frame_attest_sign [frames]: "u2f_attest_sign x d s = (a, t) \<Longrightarrow> pin_state t = pin_state s"
  by (auto simp: u2f_attest_sign_def Let_def split: prod.splits option.splits if_splits dest!: frames)

lemma frame_init_attestation [frames]: "u2f_init_attestation x s = (a, t) \<Longrightarrow> pin_state t = pin_state s"
  by (auto simp: u2f_init_attestation_def Let_def
      split: prod.splits option.splits if_splits bool.splits dest!: frames)

lemma frame_attestation_cert [frames]: "u2f_get_attestation_cert x s = (a, t) \<Longrightarrow> pin_state t = pin_state s"
  by (auto simp: u2f_get_attestation_cert_def split: prod.splits bool.splits dest!: frames)

lemma frame_attestation_sign [frames]: "u2f_attestation_sign x d s = (a, t) \<Longrightarrow> pin_state t = pin_state s"
  by (auto simp: u2f_attestation_sign_def split: prod.splits bool.splits dest!: frames)

lemma frame_undo [frames]: "u2f_undo x slot sw s = (a, t) \<Longrightarrow> pin_state t = pin_state s"
  by (auto simp: u2f_undo_def on_store_def split: prod.splits)

lemma frame_register [frames]: "u2f_register x c app m s = (a, t) \<Longrightarrow> pin_state t = pin_state s"
  by (auto simp: u2f_register_def u2f_register_dummy_def Let_def
      split: prod.splits option.splits if_splits bool.splits dest!: frames)

lemma frame_authenticate [frames]: "u2f_authenticate x p1 c app kh s = (a, t) \<Longrightarrow> pin_state t = pin_state s"
  by (auto simp: u2f_authenticate_def Let_def frame_counter
      split: prod.splits option.splits if_splits bool.splits dest!: frames)

lemma frame_u2f [frames]: "u2f_process_apdu x apdu m s = (a, t) \<Longrightarrow> pin_state t = pin_state s"
  by (auto simp: u2f_process_apdu_def Let_def split: if_splits dest!: frames)

section \<open>Assertions and credentials\<close>

lemma filter_slots_inv:
  assumes "\<And>slot s a t. f slot s = (a, t) \<Longrightarrow> g t = g s" and "filter_slots f slots s = (r, t)"
  shows "g t = g s"
  using assms(2) by (induction slots arbitrary: s r) (auto split: prod.splits dest: assms(1))

lemma frame_allow_step:
  fixes s :: "('e, 'm) ctap2_scheme"
  shows "pin_state (snd (snd (allow_list_step x (r, l, s)))) = pin_state s"
  by (auto simp: allow_list_step_def split: prod.split option.split dest: frames)

lemma frame_allow_list [frames]:
  fixes s :: "('e, 'm) ctap2_scheme"
  assumes "ga_parse_allow_list x r p s = (a, t)"
  shows "pin_state t = pin_state s"
proof -
  have "pin_state (snd (snd (repeat_n n (allow_list_step x) (r, l, s)))) = pin_state s" for n r l
    by (rule repeat_n_inv [where P = "\<lambda>rs. pin_state (snd (snd rs)) = pin_state s"])
      (auto simp: frame_allow_step)
  then show ?thesis
    using assms by (auto simp: ga_parse_allow_list_def split: prod.splits if_splits) (metis snd_conv)
qed

lemma frame_ga_entry:
  fixes s :: "('e, 'm) ctap2_scheme"
  shows "case ga_entry_step x (r, p, s) of Inl t \<Rightarrow> pin_state t = pin_state s
    | Inr (r', p', t) \<Rightarrow> pin_state t = pin_state s"
  apply (simp only: ga_entry_step_def prod.case)
  apply (cases "cbor_read_uint r")
  subgoal for q r1
    apply (simp only: prod.case)
    apply (cases q)
     apply (simp only: option.case sum.case)
    apply (simp only: option.case Let_def)
    subgoal for k
      by (cases "ga_parse_allow_list x r1 p s")
        (auto split: prod.split option.split if_split dest: frame_allow_list)
    done
  done

lemma frame_ga_parse [frames]:
  fixes s :: "('e, 'm) ctap2_scheme"
  assumes "ga_parse_params x params s = (a, t)"
  shows "pin_state t = pin_state s"
proof -
  have entries: "case for_loop n (ga_entry_step x) (r, p, s) of Inl u \<Rightarrow> pin_state u = pin_state s
      | Inr rs \<Rightarrow> pin_state (snd (snd rs)) = pin_state s" for n r p
  proof (rule for_loop_inv [where P = "\<lambda>rs. pin_state (snd (snd rs)) = pin_state s"])
    fix rs :: "cbor_reader \<times> ga_params \<times> ('e, 'm) ctap2_scheme"
    assume "pin_state (snd (snd rs)) = pin_state s"
    then show "case ga_entry_step x rs of Inl u \<Rightarrow> pin_state u = pin_state s
      | Inr rs \<Rightarrow> pin_state (snd (snd rs)) = pin_state s"
      using frame_ga_entry [where x = x and r = "fst rs" and p = "fst (snd rs)" and s = "snd (snd rs)"]
      by (auto split: sum.splits prod.splits)
  qed simp
  show ?thesis
    using assms entries [of "nat (fst (cbor_read_map (cbor_reader_init params)))"
        "snd (cbor_read_map (cbor_reader_init params))" ga_params_init]
    by (auto simp: ga_parse_params_def split: prod.splits if_splits sum.splits)
qed

lemma frame_client_data [frames]:
  "verify_client_data x perm rh ch proto param s = (a, t) \<Longrightarrow> pin_state t = pin_state s"
  by (auto simp: verify_client_data_def fido2_set_pin_verified_def split: if_splits)

lemma frame_ga_verify [frames]: "ga_verify_pin_auth x p s = (a, t) \<Longrightarrow> pin_state t = pin_state s"
  by (simp add: ga_verify_pin_auth_def frames)

lemma frame_protect [frames]: "ga_cred_protect_allows x slot uv l s = (a, t) \<Longrightarrow> pin_state t = pin_state s"
  by (auto simp: ga_cred_protect_allows_def split: prod.splits option.splits dest!: frames)

lemma frame_has_rp [frames]: "slot_has_rp x h slot s = (a, t) \<Longrightarrow> pin_state t = pin_state s"
  by (auto simp: slot_has_rp_def split: prod.splits option.splits dest!: frames)

lemma frame_filters [frames]:
  "filter_slots (\<lambda>slot. ga_cred_protect_allows x slot uv l) slots s = (r, t) \<Longrightarrow> pin_state t = pin_state s"
  "filter_slots (slot_has_rp x h) slots s = (r, t) \<Longrightarrow> pin_state t = pin_state s"
  by (rule filter_slots_inv [where f = "\<lambda>slot. ga_cred_protect_allows x slot uv l" and g = pin_state];
      simp add: frame_protect)
    (rule filter_slots_inv [where f = "slot_has_rp x h" and g = pin_state]; simp add: frame_has_rp)

lemma frame_find [frames]: "ga_find_credentials x p uv s = (a, t) \<Longrightarrow> pin_state t = pin_state s"
  by (auto simp: ga_find_credentials_def ga_candidates_def Let_def split: prod.splits if_splits
      dest!: frames)

lemma frame_sign [frames]: "ga_sign_assertion x slot d h s = (a, t) \<Longrightarrow> pin_state t = pin_state s"
  by (auto simp: ga_sign_assertion_def split: if_splits dest!: frames)

lemma frame_first [frames]: "first_assertion x p creds uv cap s = (a, t) \<Longrightarrow> pin_state t = pin_state s"
  by (auto simp: first_assertion_def save_assertion_state_def Let_def frame_counter
      split: prod.splits option.splits if_splits dest!: frames)

lemma frame_get_assertion [frames]: "ctap2_get_assertion x params cap s = (a, t) \<Longrightarrow> pin_state t = pin_state s"
  by (auto simp: ctap2_get_assertion_def Let_def split: prod.splits sum.splits if_splits dest!: frames)

lemma frame_next [frames]: "ctap2_get_next_assertion x cap s = (a, t) \<Longrightarrow> pin_state t = pin_state s"
  by (auto simp: ctap2_get_next_assertion_def Let_def split: prod.splits option.splits if_splits dest!: frames)

lemma frame_mc_verify [frames]: "verify_pin_uv_auth x p s = (a, t) \<Longrightarrow> pin_state t = pin_state s"
  by (simp add: verify_pin_uv_auth_def frames)

lemma frame_exclude [frames]: "check_appid_exclude x p s = (a, t) \<Longrightarrow> pin_state t = pin_state s"
  by (auto simp: check_appid_exclude_def Let_def split: if_splits)

lemma frame_rollback [frames]: "mc_rollback_credential x slot s = (a, t) \<Longrightarrow> pin_state t = pin_state s"
  by (auto simp: mc_rollback_credential_def on_store_def split: prod.splits)

lemma frame_key_sign [frames]: "ctap2_sign_with_keypair x d m n s = (a, t) \<Longrightarrow> pin_state t = pin_state s"
  by (simp add: ctap2_sign_with_keypair_def frames)

lemma frame_probe [frames]: "handle_browser_probe x p uv cap s = (a, t) \<Longrightarrow> pin_state t = pin_state s"
  by (auto simp: handle_browser_probe_def Let_def split: prod.splits option.splits if_splits bool.splits
      dest!: frames)

lemma frame_create [frames]: "create_credential_and_respond x p uv c cap s = (a, t) \<Longrightarrow> pin_state t = pin_state s"
  by (auto simp: create_credential_and_respond_def Let_def split: prod.splits option.splits if_splits
      dest!: frames)

lemma frame_make [frames]: "ctap2_make_credential x params cap s = (a, t) \<Longrightarrow> pin_state t = pin_state s"
  by (auto simp: ctap2_make_credential_def make_credential_checked_def Let_def
      split: prod.splits sum.splits if_splits bool.splits dest!: frames)

lemma frame_info [frames]: "ctap2_get_info x cap s = (a, t) \<Longrightarrow> pin_state t = pin_state s"
  by (auto simp: ctap2_get_info_def split: prod.splits dest!: frames)

lemma frame_selection [frames]: "ctap2_selection s = (a, t) \<Longrightarrow> pin_state t = pin_state s"
  by (auto simp: ctap2_selection_def split: prod.splits bool.splits dest!: frames)

section \<open>Credential management\<close>

lemma frame_slot_has_key [frames]: "cred_mgmt_slot_has_key x slot s = (a, t) \<Longrightarrow> pin_state t = pin_state s"
  by (auto simp: cred_mgmt_slot_has_key_def split: prod.splits dest!: frames)

lemma frame_listed_rp [frames]: "listed_rp x slot s = (a, t) \<Longrightarrow> pin_state t = pin_state s"
  by (auto simp: listed_rp_def split: prod.splits option.splits if_splits bool.splits dest!: frames)

lemma frame_listed_cred [frames]: "listed_cred x h slot s = (a, t) \<Longrightarrow> pin_state t = pin_state s"
  by (auto simp: listed_cred_def split: prod.splits option.splits if_splits dest!: frames)

lemma frame_unique_rps:
  fixes s :: "('e, 'm) ctap2_scheme"
  shows "pin_state (snd (fold (unique_rp_step x) slots (found, s))) = pin_state s"
proof (induction slots arbitrary: found s)
  case (Cons slot slots)
  obtain a u where "listed_rp x slot s = (a, u)" by fastforce
  then show ?case
    using Cons.IH frame_listed_rp [of x slot s a u]
    by (auto simp: unique_rp_step_def split: option.split)
qed simp

lemma frame_count_rps [frames]: "cred_mgmt_count_unique_rps x s = (a, t) \<Longrightarrow> pin_state t = pin_state s"
  using frame_unique_rps [of x "[0..<FIDO2_MAX_CREDENTIALS]" "[]" s]
  by (auto simp: cred_mgmt_count_unique_rps_def split: prod.splits)

lemma frame_find_creds [frames]: "cred_mgmt_find_creds_for_rp x h s = (a, t) \<Longrightarrow> pin_state t = pin_state s"
  using filter_slots_inv [where f = "listed_cred x h" and g = pin_state, OF frame_listed_cred]
  by (auto simp: cred_mgmt_find_creds_for_rp_def split: prod.splits)

lemma frame_encode_rp [frames]: "cred_mgmt_encode_rp x slot b cap s = (a, t) \<Longrightarrow> pin_state t = pin_state s"
  by (auto simp: cred_mgmt_encode_rp_def split: prod.splits option.splits dest!: frames)

lemma frame_encode_cred [frames]: "cred_mgmt_encode_credential x slot b cap s = (a, t) \<Longrightarrow> pin_state t = pin_state s"
  by (auto simp: cred_mgmt_encode_credential_def Let_def split: prod.splits option.splits dest!: frames)

lemma frame_cm_commands [frames]:
  "cm_enumerate_rps_begin x cap s = (a, t) \<Longrightarrow> pin_state t = pin_state s"
  "cm_enumerate_rps_next x cap s = (a, t) \<Longrightarrow> pin_state t = pin_state s"
  "cm_enumerate_creds_begin x p cap s = (a, t) \<Longrightarrow> pin_state t = pin_state s"
  "cm_enumerate_creds_next x cap s = (a, t) \<Longrightarrow> pin_state t = pin_state s"
  "cm_delete_credential x p s = (a, t) \<Longrightarrow> pin_state t = pin_state s"
  by (auto simp: cm_enumerate_rps_begin_def cm_enumerate_rps_next_def cm_enumerate_creds_begin_def
      cm_enumerate_creds_next_def cm_delete_credential_def Let_def
      split: prod.splits option.splits if_splits bool.splits dest!: frames)

lemma frame_cred_management [frames]: "ctap2_cred_management x params cap s = (a, t) \<Longrightarrow> pin_state t = pin_state s"
  by (auto simp: ctap2_cred_management_def Let_def split: option.splits if_splits dest!: frames)

section \<open>Commands that only ask the PIN manager\<close>

text \<open>What \<^verbatim>\<open>g_client_pin\<close> holds.\<close>

definition token_state :: "('e, 'm) ctap2_scheme \<Rightarrow>
    bool \<times> (bytes \<times> bytes) option \<times> bytes \<times> bool \<times> byte \<times> bytes \<times> bool \<times> byte" where
  "token_state s = (cp_initialized s, cp_key s, cp_token s, cp_token_valid s, cp_permissions s,
     cp_rp_id_hash s, cp_rp_id_set s, cp_pin_retries s)"

lemma pin_state_token: "pin_state t = pin_state s \<Longrightarrow> token_state t = token_state s"
  by (simp add: pin_state_def token_state_def)

lemma token_state_updates [simp]:
  "token_state (s\<lparr>f_pins := p\<rparr>) = token_state s"
  "token_state (s\<lparr>bl_session := l\<rparr>) = token_state s"
  "token_state (s\<lparr>bl_buf := b\<rparr>) = token_state s"
  by (simp_all add: token_state_def)

lemma token_on_pins: "on_pins f s = (a, t) \<Longrightarrow> token_state t = token_state s"
  by (auto simp: on_pins_def split: prod.splits)

lemmas token_frames = token_on_pins frames [THEN pin_state_token]

lemma token_large_blobs: "ctap2_large_blobs x params cap s = (a, t) \<Longrightarrow> token_state t = token_state s"
  by (auto simp: ctap2_large_blobs_def large_blobs_get_def large_blobs_set_def lb_start_def
      lb_authorise_def lb_finish_def Let_def
      split: option.splits prod.splits if_splits bool.splits dest!: token_frames)

lemma token_config: "ctap2_config x params s = (a, t) \<Longrightarrow> token_state t = token_state s"
  by (auto simp: ctap2_config_def cfg_authorise_def toggle_always_uv_def set_min_pin_length_def Let_def
      split: option.splits prod.splits if_splits bool.splits dest!: token_frames)

section \<open>How a token comes to be\<close>

text \<open>
  A request proves the PIN: it names a point, the shared secret with the authenticator's key decrypts
  what it sends to a hash, and the PIN manager, in the state \<open>b\<close>, accepts that hash.
\<close>

definition proves_pin :: "'e fido2_env \<Rightarrow> pin_params \<Rightarrow> ('e, 'm) ctap2_scheme \<Rightarrow> pins \<Rightarrow> bool" where
  "proves_pin x p s b \<longleftrightarrow> (\<exists>d pub z e h. cp_key s = Some (d, pub) \<and>
     fst (x_ecdh x d (pp_x p) (pp_y p) e) = Some z \<and>
     decrypt_pin_hash x (derive_secret x (pp_protocol p) z) p = Some h \<and>
     fst (pin_storage_verify_fido2_hash (x_pin x) h b))"

lemma shared_secret_Some:
  assumes "client_pin_compute_shared_secret x px py proto s = (Some secret, t)"
  shows "\<exists>d pub z e. cp_key s = Some (d, pub) \<and> fst (x_ecdh x d px py e) = Some z \<and>
    secret = derive_secret x proto z"
proof -
  obtain d pub where k: "cp_key s = Some (d, pub)"
    using assms by (auto simp: client_pin_compute_shared_secret_def split: option.splits)
  then obtain z u where z: "on_env (x_ecdh x d px py) s = (Some z, u)" "secret = derive_secret x proto z"
    using assms by (auto simp: client_pin_compute_shared_secret_def split: option.splits prod.splits)
  then have "fst (x_ecdh x d px py (fs_hw (f_store s))) = Some z"
    by (auto simp: on_env_def on_store_def on_hw_def split: prod.splits)
  with k z show ?thesis by blast
qed

lemma frame_shared_secret [frames]:
  "client_pin_compute_shared_secret x px py proto s = (a, t) \<Longrightarrow> pin_state t = pin_state s"
  by (auto simp: client_pin_compute_shared_secret_def split: option.splits prod.splits dest!: frames)

lemma frame_encrypt_token [frames]: "encrypt_token x proto secret s = (a, t) \<Longrightarrow> pin_state t = pin_state s"
  by (auto simp: encrypt_token_def aes_256_cbc_encrypt_p2_def Let_def
      split: if_splits prod.splits option.splits dest!: frames)

lemma verify_hash_refused:
  assumes "verify_pin_hash x p s = (Inl st, t)"
  shows "st \<noteq> 0 \<and> cp_token_valid t = cp_token_valid s \<and> cp_token t = cp_token s \<and> cp_key t = cp_key s \<and>
    cp_initialized t = cp_initialized s"
proof -
  obtain q u where q: "client_pin_compute_shared_secret x (pp_x p) (pp_y p) (pp_protocol p) s = (q, u)"
    by fastforce
  with frame_shared_secret [OF this] assms show ?thesis
    by (auto simp: verify_pin_hash_def on_pins_def pin_state_eq Let_def
        split: option.splits prod.splits bool.splits if_splits)
qed

lemma verify_hash_accepted:
  assumes "verify_pin_hash x p s = (Inr secret, t)"
  shows "proves_pin x p s (f_pins s) \<and> cp_pin_retries t = 8"
proof -
  obtain q u where q: "client_pin_compute_shared_secret x (pp_x p) (pp_y p) (pp_protocol p) s = (q, u)"
    by fastforce
  with assms obtain secret' where s': "q = Some secret'"
    by (cases q) (auto simp: verify_pin_hash_def)
  with q assms obtain h where h: "decrypt_pin_hash x secret' p = Some h"
    by (cases "decrypt_pin_hash x secret' p") (auto simp: verify_pin_hash_def)
  obtain ok v where v: "on_pins (pin_storage_verify_fido2_hash (x_pin x) h) u = (ok, v)" by fastforce
  obtain token w where w: "secure_random_fill x 32 (v\<lparr>cp_pin_retries := 8\<rparr>) = (token, w)" by fastforce
  have "ok" "t = w\<lparr>cp_token := token, cp_token_valid := True\<rparr>"
    using assms q s' h v w by (auto simp: verify_pin_hash_def Let_def split: bool.splits)
  moreover have "cp_pin_retries w = 8"
    using frame_random [OF w] by (simp add: pin_state_eq)
  moreover have "fst (pin_storage_verify_fido2_hash (x_pin x) h (f_pins s))" if "ok"
    using v frame_shared_secret [OF q] that by (auto simp: on_pins_def pin_state_eq split: prod.splits)
  ultimately show ?thesis
    using shared_secret_Some [of x "pp_x p" "pp_y p" "pp_protocol p" s secret' u] q s' h
    by (auto simp: proves_pin_def)
qed

lemma request_blocked:
  assumes "pin_request_blocked x s = (r, t)"
  shows "token_state t = token_state s" "r = None \<Longrightarrow> cp_pin_retries s \<noteq> 0 \<and>
    f_pins t = snd (pin_storage_fido2_available (x_pin x) (f_pins s))"
  using assms by (auto simp: pin_request_blocked_def on_pins_def split: if_splits prod.splits bool.splits)

lemma proves_pin_token: "token_state t = token_state s \<Longrightarrow> proves_pin x p t b = proves_pin x p s b"
  by (simp add: proves_pin_def token_state_def)

text \<open>A request for a token, of either kind.\<close>

definition token_request :: "'e fido2_env \<Rightarrow> bool \<Rightarrow> bytes \<Rightarrow> ('e, 'm) ctap2_scheme \<Rightarrow> bool" where
  "token_request x with_permissions params s \<longleftrightarrow> cp_pin_retries s \<noteq> 0 \<and>
     (\<exists>p. parse_pin_params with_permissions params = Inr p \<and>
       proves_pin x p s (snd (pin_storage_fido2_available (x_pin x) (f_pins s))))"

lemma store_permissions_keeps:
  "cp_pin_retries (store_permissions x p s) = cp_pin_retries s"
  "cp_token_valid (store_permissions x p s) = cp_token_valid s"
  "cp_key (store_permissions x p s) = cp_key s"
  "cp_initialized (store_permissions x p s) = cp_initialized s"
  by (simp_all add: store_permissions_def Let_def)

lemma token_requestI:
  assumes "pin_request_blocked x s = (None, u)" and "parse_pin_params w params = Inr p"
    and "verify_pin_hash x p u = (Inr secret, v)"
  shows "token_request x w params s"
  using request_blocked [OF assms(1)] assms(2) verify_hash_accepted [OF assms(3)] proves_pin_token
  unfolding token_request_def by metis

definition token_kept :: "('e, 'm) ctap2_scheme \<Rightarrow> ('e, 'm) ctap2_scheme \<Rightarrow> bool" where
  "token_kept s t \<longleftrightarrow> cp_token_valid t = cp_token_valid s \<and> cp_token t = cp_token s"

lemma token_keptI: "token_state t = token_state s \<Longrightarrow> token_kept s t"
  by (simp add: token_state_def token_kept_def)

text \<open>Both requests have this shape; \<open>k\<close> is what they do with a token.\<close>

lemma request_shape:
  assumes "(case pin_request_blocked x s of
       (Some st, s) \<Rightarrow> ([st], s)
     | (None, s) \<Rightarrow>
         (case parse_pin_params w params of
            Inl st \<Rightarrow> ([st], s)
          | Inr p \<Rightarrow>
              (case verify_pin_hash x p s of
                 (Inl st, s) \<Rightarrow> ([st], s)
               | (Inr secret, s) \<Rightarrow> k p secret s))) = (a, t)"
  shows "token_request x w params s \<or> token_kept s t"
proof -
  obtain r u where b: "pin_request_blocked x s = (r, u)" by fastforce
  show ?thesis
  proof (cases r)
    case None
    show ?thesis
    proof (cases "parse_pin_params w params")
      case (Inr p)
      obtain q v where v: "verify_pin_hash x p u = (q, v)" by fastforce
      show ?thesis
      proof (cases q)
        case (Inl st)
        with assms b None Inr v have "t = v" by simp
        with request_blocked(1) [OF b] verify_hash_refused [of x p u st v] v Inl show ?thesis
          by (simp add: token_kept_def token_state_def)
      qed (use b None v Inr token_requestI in blast)
    qed (use assms b None request_blocked(1) [OF b] in \<open>simp add: token_keptI\<close>)
  qed (use assms b request_blocked(1) [OF b] in \<open>simp add: token_keptI\<close>)
qed

lemma get_token:
  "client_pin_get_pin_token x params cap s = (a, t) \<Longrightarrow> token_request x False params s \<or> token_kept s t"
  unfolding client_pin_get_pin_token_def by (rule request_shape)

lemma get_uv_token:
  "client_pin_get_pin_uv_auth_token x params cap s = (a, t) \<Longrightarrow>
    token_request x True params s \<or> token_kept s t"
  unfolding client_pin_get_pin_uv_auth_token_def by (rule request_shape)

text \<open>The first clientPIN command sets the counters.\<close>

definition started :: "('e, 'm) ctap2_scheme \<Rightarrow> ('e, 'm) ctap2_scheme" where
  "started s = (if \<not> cp_initialized s
     then s\<lparr>cp_pin_retries := 8, cp_uv_retries := 3, cp_initialized := True\<rparr> else s)"

lemma started_keeps [simp]:
  "cp_token_valid (started s) = cp_token_valid s" "cp_token (started s) = cp_token s"
  "cp_key (started s) = cp_key s" "f_pins (started s) = f_pins s" "cp_initialized (started s)"
  "f_store (started s) = f_store s" "cp_initialized s \<Longrightarrow> started s = s"
  by (auto simp: started_def)

lemma key_agreement_kept:
  "client_pin_get_key_agreement x cap s = (a, t) \<Longrightarrow> token_kept s t"
  by (auto simp: client_pin_get_key_agreement_def client_pin_init_ecdh_def token_kept_def pin_state_eq
      split: if_splits prod.splits option.splits dest!: frames)

lemma client_pin_token:
  assumes "ctap2_client_pin x params cap s = (a, t)"
  shows "token_request x False params (started s) \<or> token_request x True params (started s) \<or> token_kept s t"
proof -
  have "token_kept s (started s)" by (simp add: token_kept_def)
  moreover have "token_kept (started s) t \<Longrightarrow> token_kept s t" by (simp add: token_kept_def)
  ultimately show ?thesis
    using assms unfolding ctap2_client_pin_def started_def [symmetric]
    by (auto simp: Let_def split: prod.splits if_splits
        dest: get_token get_uv_token key_agreement_kept)
qed

lemma reset_token:
  "ctap2_reset x s = (a, t) \<Longrightarrow> token_kept s t \<or> \<not> cp_token_valid t"
  by (auto simp: ctap2_reset_def fido2_factory_reset_def fido2_set_pin_verified_def token_kept_def pin_state_eq
      split: prod.splits bool.splits dest!: frames)

lemma token_handler:
  assumes "ctap2_handler x cmd params cap s = (a, t)" and "cmd \<noteq> 0x06" and "cmd \<noteq> 0x07"
  shows "token_state t = token_state s"
  using assms
  by (auto simp: ctap2_handler_def split: if_splits
      dest: token_large_blobs token_config frame_info [THEN pin_state_token]
        frame_make [THEN pin_state_token] frame_get_assertion [THEN pin_state_token]
        frame_next [THEN pin_state_token] frame_cred_management [THEN pin_state_token]
        frame_selection [THEN pin_state_token])

lemma token_u2f: "token_state (fido2_step x (U2f_Request apdu) s) = token_state s"
  using frame_u2f [of x apdu 512 s] pin_state_token by (cases "u2f_process_apdu x apdu 512 s") auto

lemma token_connect: "token_state (fido2_step x Usb_Connect s) = token_state s"
proof -
  obtain now t where t: "on_env (x_time_us x) s = (now, t)" by fastforce
  then have "pin_state (fido2_step x Usb_Connect s) = pin_state s"
    using frame_on_env [OF t] by (simp add: fido2_note_usb_connect_def)
  then show ?thesis by (rule pin_state_token)
qed

lemma token_step:
  assumes "\<not> token_kept s (fido2_step x c s)" and "cp_token_valid (fido2_step x c s)"
  shows "\<exists>params w. c = Ctap2_Command 0x06 params \<and> token_request x w params (started s)"
proof (cases c)
  case (Ctap2_Command cmd params)
  obtain a t where r: "ctap2_handler x cmd params 2048 s = (a, t)" by fastforce
  then have t: "fido2_step x c s = t" using Ctap2_Command by simp
  consider "cmd = 0x06" | "cmd = 0x07" | "cmd \<noteq> 0x06" "cmd \<noteq> 0x07" by blast
  then show ?thesis
  proof cases
    case 1
    with r have "ctap2_client_pin x params 2048 s = (a, t)" by (simp add: ctap2_handler_def)
    from client_pin_token [OF this] 1 assms t Ctap2_Command show ?thesis by auto
  next
    case 2
    with r have "ctap2_reset x s = (a, t)" by (simp add: ctap2_handler_def)
    from reset_token [OF this] assms t show ?thesis by simp
  next
    case 3
    from token_handler [OF r this] assms t token_keptI show ?thesis by metis
  qed
next
  case (U2f_Request apdu)
  with assms token_keptI token_u2f show ?thesis by metis
next
  case Usb_Connect
  with assms token_keptI token_connect show ?thesis by metis
qed

section \<open>Too many wrong hashes\<close>

text \<open>The state after the eighth: no chance left, under the key the first one was sent to.\<close>

definition pin_blocked :: "('e, 'm) ctap2_scheme \<Rightarrow> bool" where
  "pin_blocked s \<longleftrightarrow> cp_initialized s \<and> cp_key s \<noteq> None \<and> cp_pin_retries s = 0"

lemma blocked_token_state: "token_state t = token_state s \<Longrightarrow> pin_blocked t = pin_blocked s"
  by (simp add: token_state_def pin_blocked_def)

lemma blocked_no_request: "pin_blocked s \<Longrightarrow> \<not> token_request x w params (started s)"
  by (simp add: pin_blocked_def token_request_def)

lemma blocked_requests:
  assumes "pin_blocked s"
  shows "client_pin_get_pin_token x params cap s = ([0x32], s)"
    "client_pin_get_pin_uv_auth_token x params cap s = ([0x32], s)"
  using assms
  by (simp_all add: pin_blocked_def client_pin_get_pin_token_def client_pin_get_pin_uv_auth_token_def
      pin_request_blocked_def)

lemma blocked_client_pin:
  "pin_blocked s \<Longrightarrow> ctap2_client_pin x params cap s = (a, t) \<Longrightarrow> t = s"
  by (auto simp: ctap2_client_pin_def blocked_requests client_pin_get_key_agreement_def
      client_pin_init_ecdh_def Let_def pin_blocked_def split: prod.splits if_splits)

lemma reset_blocked: "pin_blocked s \<Longrightarrow> ctap2_reset x s = (a, t) \<Longrightarrow> pin_blocked t"
  by (auto simp: ctap2_reset_def fido2_factory_reset_def fido2_set_pin_verified_def pin_blocked_def
      pin_state_eq split: prod.splits bool.splits dest!: frames)

lemma blocked_step:
  assumes "pin_blocked s"
  shows "pin_blocked (fido2_step x c s)"
proof (cases c)
  case (Ctap2_Command cmd params)
  obtain a t where r: "ctap2_handler x cmd params 2048 s = (a, t)" by fastforce
  then have t: "fido2_step x c s = t" using Ctap2_Command by simp
  consider "cmd = 0x06" | "cmd = 0x07" | "cmd \<noteq> 0x06" "cmd \<noteq> 0x07" by blast
  then show ?thesis
  proof cases
    case 1
    with r assms t show ?thesis using blocked_client_pin [of s x params 2048 a t] by (simp add: ctap2_handler_def)
  next
    case 2
    with r assms t show ?thesis using reset_blocked [of s x a t] by (simp add: ctap2_handler_def)
  next
    case 3
    from token_handler [OF r this] assms t blocked_token_state show ?thesis by blast
  qed
next
  case (U2f_Request apdu)
  with assms token_u2f blocked_token_state show ?thesis by blast
next
  case Usb_Connect
  with assms token_connect blocked_token_state show ?thesis by blast
qed

section \<open>What a token is needed for\<close>

lemma verify_token_sound:
  assumes "verify_token_over_message x msg proto param perm s = 0"
  shows "cp_token_valid s" "perm \<noteq> 0 \<Longrightarrow> cp_permissions s AND perm \<noteq> 0"
    "take 16 param = take 16 (x_hmac x (cp_token s) msg)"
    "proto = 2 \<Longrightarrow> take 32 param = take 32 (x_hmac x (cp_token s) msg)"
proof -
  from assms have m: "hmac_matches proto param (x_hmac x (cp_token s) msg)"
    by (auto simp: verify_token_over_message_def split: if_splits)
  then show "proto = 2 \<Longrightarrow> take 32 param = take 32 (x_hmac x (cp_token s) msg)"
    by (simp add: hmac_matches_def)
  show "take 16 param = take 16 (x_hmac x (cp_token s) msg)"
  proof (cases "proto = 2")
    case True
    with m have "take 32 param = take 32 (x_hmac x (cp_token s) msg)" by (simp add: hmac_matches_def)
    from arg_cong [OF this, of "take 16"] show ?thesis by simp
  qed (use m in \<open>simp add: hmac_matches_def\<close>)
qed (use assms in \<open>auto simp: verify_token_over_message_def split: if_splits\<close>)

lemma fido2_available [simp]: "fst (pin_storage_fido2_available e p)"
  by (simp add: pin_storage_fido2_available_def)

lemma on_pins_available:
  "on_pins (pin_storage_fido2_available e) s = (b, t) \<Longrightarrow> b \<and> t = s\<lparr>f_pins := snd (pin_storage_fido2_available e (f_pins s))\<rparr>"
  by (auto simp: on_pins_def pin_storage_fido2_available_def)

text \<open>
  What the commands that manage the authenticator must carry: the permission, the message, and the
  parameter that has to be its HMAC. Without one go the reading of the large-blob array and, with any
  valid token, the continuations of an enumeration.
\<close>

definition management_proof :: "'e fido2_env \<Rightarrow> byte \<Rightarrow> bytes \<Rightarrow> (byte \<times> bytes \<times> bytes) option" where
  "management_proof x command params =
     (if command = 0x0A then
        map_option (\<lambda>p. (0x04, mg_subcommand p # mg_sub_params p, mg_pin_auth p)) (cm_parse_params params)
      else if command = 0x0C then
        map_option (\<lambda>p. (0x10, lb_message x (lp_offset p) (lp_chunk p), lp_pin_auth p)) (lb_parse_params params)
      else
        map_option (\<lambda>p. (0x20, replicate 32 0xFF @ [0x0D, ucast (fp_subcmd p)] @ fp_sub_params p, fp_pin_auth p))
          (cfg_parse_params params))"

definition exempt :: "byte \<Rightarrow> bytes \<Rightarrow> ('e, 'm) ctap2_scheme \<Rightarrow> bool" where
  "exempt command params s \<longleftrightarrow>
     command = 0x0A \<and> cp_token_valid s \<and> (\<exists>p. cm_parse_params params = Some p \<and> mg_subcommand p \<in> {0x03, 0x05}) \<or>
     command = 0x0C \<and> (\<exists>p. lb_parse_params params = Some p \<and> lp_has_get p)"

definition token_signed :: "'e fido2_env \<Rightarrow> ('e, 'm) ctap2_scheme \<Rightarrow> byte \<times> bytes \<times> bytes \<Rightarrow> bool" where
  "token_signed x s = (\<lambda>(perm, msg, param).
     cp_token_valid s \<and> cp_permissions s AND perm \<noteq> 0 \<and> take 16 param = take 16 (x_hmac x (cp_token s) msg))"

lemma verify_token_signed:
  "verify_token_over_message x msg proto param perm s = 0 \<Longrightarrow> perm \<noteq> 0 \<Longrightarrow> token_signed x s (perm, msg, param)"
  using verify_token_sound [of x msg proto param perm s] by (simp add: token_signed_def)

lemma cm_signed:
  assumes "ctap2_cred_management x params cap s = (reply, t)" and "hd reply = 0 \<or> t \<noteq> s"
  shows "\<exists>p. cm_parse_params params = Some p \<and>
    (mg_subcommand p \<in> {0x03, 0x05} \<and> cp_token_valid s \<or>
     token_signed x s (0x04, mg_subcommand p # mg_sub_params p, mg_pin_auth p))"
proof -
  obtain p where p: "cm_parse_params params = Some p"
    using assms by (cases "cm_parse_params params") (auto simp: ctap2_cred_management_def)
  moreover have "cm_authorise x p s = 0"
    using assms p by (auto simp: ctap2_cred_management_def Let_def split: if_splits)
  ultimately show ?thesis
    by (auto simp: cm_authorise_def split: if_splits dest: verify_token_signed)
qed

lemma config_signed:
  assumes "ctap2_config x params s = (reply, t)" and "hd reply = 0 \<or> f_store t \<noteq> f_store s"
  shows "\<exists>p. cfg_parse_params params = Some p \<and>
    token_signed x s (0x20, replicate 32 0xFF @ [0x0D, ucast (fp_subcmd p)] @ fp_sub_params p, fp_pin_auth p)"
proof -
  obtain p where p: "cfg_parse_params params = Some p"
    using assms by (cases "cfg_parse_params params") (auto simp: ctap2_config_def)
  obtain st u where c: "cfg_authorise x p s = (st, u)" by fastforce
  then have u: "f_store u = f_store s" "token_state u = token_state s"
    by (auto simp: cfg_authorise_def split: prod.splits bool.splits dest!: on_pins_available)
  with assms p c have "st = 0"
    by (auto simp: ctap2_config_def split: if_splits)
  with c have "token_signed x u (0x20, replicate 32 0xFF @ [0x0D, ucast (fp_subcmd p)] @ fp_sub_params p, fp_pin_auth p)"
    by (auto simp: cfg_authorise_def split: prod.splits bool.splits if_splits
        dest!: on_pins_available verify_token_signed)
  with p u(2) show ?thesis by (simp add: token_signed_def token_state_def)
qed

lemma lb_start_status: "lb_start p s = (st, t) \<Longrightarrow> f_store t = f_store s \<and> token_state t = token_state s"
  by (auto simp: lb_start_def split: if_splits prod.splits)

lemma lb_authorise_status:
  "lb_authorise x p s = (st, t) \<Longrightarrow> f_store t = f_store s \<and> token_state t = token_state s \<and>
    (st = 0 \<longrightarrow> token_signed x s (0x10, lb_message x (lp_offset p) (lp_chunk p), lp_pin_auth p))"
  by (auto simp: lb_authorise_def Let_def token_signed_def token_state_def
      split: if_splits prod.splits bool.splits dest!: on_pins_available dest: verify_token_sound)

lemma large_blobs_signed:
  assumes "ctap2_large_blobs x params cap s = (reply, t)" and "hd reply = 0 \<or> f_store t \<noteq> f_store s"
  shows "\<exists>p. lb_parse_params params = Some p \<and>
    (lp_has_get p \<or> token_signed x s (0x10, lb_message x (lp_offset p) (lp_chunk p), lp_pin_auth p))"
proof -
  obtain p where p: "lb_parse_params params = Some p"
    using assms by (cases "lb_parse_params params") (auto simp: ctap2_large_blobs_def)
  obtain st u where start: "lb_start p s = (st, u)" by fastforce
  obtain st' v where auth: "lb_authorise x p u = (st', v)" by fastforce
  show ?thesis
  proof (cases "lp_has_get p")
    case False
    with assms p have set: "large_blobs_set x p s = (reply, t)"
      by (auto simp: ctap2_large_blobs_def split: if_splits)
    have "st = 0"
      using set start assms(2) lb_start_status [OF start]
      by (auto simp: large_blobs_set_def split: if_splits)
    moreover have "st' = 0"
      using set start auth \<open>st = 0\<close> assms(2) lb_start_status [OF start] lb_authorise_status [OF auth]
      by (auto simp: large_blobs_set_def split: if_splits)
    ultimately show ?thesis
      using p lb_start_status [OF start] lb_authorise_status [OF auth]
      by (auto simp: token_signed_def token_state_def)
  qed (use p in blast)
qed

section \<open>Properties\<close>

text \<open>
  C7. A PIN token takes the PIN: if the authenticator has no token and has one after any sequence of
  CTAP2 commands, U2F requests and connections, then one of them was a clientPIN request, made while
  there were tries left, whose encrypted hash decrypts, under a secret shared with the authenticator's
  key, to a hash that the PIN manager of the badge accepts in the state it then is in.
\<close>

theorem token_needs_pin:
  assumes "\<not> cp_token_valid s" and "cp_token_valid (fold (fido2_step x) calls s)"
  shows "\<exists>before params after w p. calls = before @ Ctap2_Command 0x06 params # after \<and>
    (let u = started (fold (fido2_step x) before s) in
      cp_pin_retries u \<noteq> 0 \<and> parse_pin_params w params = Inr p \<and>
      proves_pin x p u (snd (pin_storage_fido2_available (x_pin x) (f_pins u))))"
  using assms(2)
proof (induction calls rule: rev_induct)
  case (snoc c calls)
  let ?u = "fold (fido2_step x) calls s"
  show ?case
  proof (cases "cp_token_valid ?u")
    case True
    from snoc.IH [OF this] show ?thesis by (metis append.assoc append_Cons)
  next
    case False
    with snoc.prems have "\<not> token_kept ?u (fido2_step x c ?u)" by (simp add: token_kept_def)
    from token_step [OF this] snoc.prems obtain params w where
      c: "c = Ctap2_Command 0x06 params" and r: "token_request x w params (started ?u)"
      by auto
    from c have "calls @ [c] = calls @ Ctap2_Command 0x06 params # []" by simp
    with r show ?thesis
      unfolding token_request_def Let_def started_keeps by blast
  qed
qed (use assms(1) in simp)

theorem token_needs_pin_witness:
  "\<exists>before params after w p.
    [agreement_request, Ctap2_Command 0x06 (token_message (replicate 16 0))] = before @ Ctap2_Command 0x06 params # after \<and>
    (let u = started (fold (fido2_step sample) before sample_state) in
      cp_pin_retries u \<noteq> 0 \<and> parse_pin_params w params = Inr p \<and>
      proves_pin sample p u (snd (pin_storage_fido2_available (x_pin sample) (f_pins u))))"
proof -
  have "\<not> cp_token_valid sample_state" by (simp add: sample_state_def)
  moreover have "cp_token_valid (fold (fido2_step sample)
      [agreement_request, Ctap2_Command 0x06 (token_message (replicate 16 0))] sample_state)"
    by code_simp
  ultimately show ?thesis by (rule token_needs_pin)
qed

text \<open>
  C9. A blocked PIN stays blocked while the badge is powered: once the tries are used up, no sequence
  of commands, a reset of the authenticator included, gives one back or makes or changes a token, and
  every request for a token is answered with \<^verbatim>\<open>CTAP2_ERR_PIN_BLOCKED\<close> and changes nothing.
\<close>

theorem pin_block_holds:
  assumes "pin_blocked s"
  shows "let t = fold (fido2_step x) calls s in
    cp_pin_retries t = 0 \<and> (cp_token_valid t \<longrightarrow> cp_token_valid s \<and> cp_token t = cp_token s) \<and>
    client_pin_get_pin_token x params cap t = ([0x32], t) \<and>
    client_pin_get_pin_uv_auth_token x params cap t = ([0x32], t)"
proof -
  have "pin_blocked (fold (fido2_step x) calls s) \<and>
      (cp_token_valid (fold (fido2_step x) calls s) \<longrightarrow> cp_token_valid s \<and>
        cp_token (fold (fido2_step x) calls s) = cp_token s)"
  proof (induction calls rule: rev_induct)
    case (snoc c calls)
    let ?u = "fold (fido2_step x) calls s"
    have "token_kept ?u (fido2_step x c ?u) \<or> \<not> cp_token_valid (fido2_step x c ?u)"
      using token_step [of ?u x c] snoc blocked_no_request by blast
    with snoc blocked_step [of ?u x c] show ?case by (auto simp: token_kept_def)
  qed (use assms in simp)
  moreover from this have "cp_pin_retries (fold (fido2_step x) calls s) = 0" by (simp add: pin_blocked_def)
  ultimately show ?thesis
    using blocked_requests unfolding Let_def by blast
qed

theorem pin_block_holds_witness:
  "let s = sample_state\<lparr>cp_initialized := True, cp_key := Some ([1], replicate 64 4), cp_token_valid := True\<rparr>;
      t = fold (fido2_step sample) [Ctap2_Command 0x07 [], Ctap2_Command 0x06 (token_message (replicate 16 0))] s in
    cp_pin_retries t = 0 \<and> (cp_token_valid t \<longrightarrow> cp_token_valid s \<and> cp_token t = cp_token s)"
proof -
  have "pin_blocked (sample_state\<lparr>cp_initialized := True, cp_key := Some ([1], replicate 64 4),
      cp_token_valid := True\<rparr>)"
    by (simp add: pin_blocked_def sample_state_def)
  from pin_block_holds [OF this, of sample "[Ctap2_Command 0x07 [], Ctap2_Command 0x06 (token_message (replicate 16 0))]"]
  show ?thesis unfolding Let_def by blast
qed



end
