(* ===== verification/Ctap2_Cache.thy ===== *)
theory Ctap2_Cache
  imports Ctap2_Auth
begin

text \<open>
  Which operations leave the cached credentials alone, and what they find there: the second group of
  frame lemmas, on the credential store and the callback for the prompt.
\<close>

section \<open>The store\<close>

definition cache_of :: "'e fido2_store \<Rightarrow> cred list \<times> byte \<times> byte \<times> byte \<times> u16 \<times> u16" where
  "cache_of s = (fs_creds s, fs_cred_count s, fs_ecc_start s, fs_ecc_end s, fs_rmem_start s, fs_rmem_end s)"

lemma cache_of_same: "same_cache s t \<Longrightarrow> cache_of t = cache_of s"
  by (auto simp: same_cache_def cache_of_def)

lemma cache_of_slots:
  assumes "cache_of t = cache_of s"
  shows "fs_creds t = fs_creds s" "ecc_count t = ecc_count s" "cache_slots t = cache_slots s"
    "fido2_storage_slot_used i t = fido2_storage_slot_used i s"
    "ecc_slot_for_logical t i = ecc_slot_for_logical s i"
  using assms by (auto simp: cache_of_def ecc_count_def slot_range_valid_def cache_slots_def
      fido2_storage_slot_used_def ecc_slot_for_logical_def slot_logical_valid_def)

named_theorems store_reads \<open>calls of the store that keep the cache\<close>

lemma read_on_hw [store_reads]: "on_hw g s = (a, t) \<Longrightarrow> cache_of t = cache_of s"
  by (auto simp: on_hw_def cache_of_def split: prod.splits)

lemma cache_hw_do [simp]: "cache_of (hw_do f s) = cache_of s"
  by (simp add: hw_do_def cache_of_def)

lemma cache_auth_counter [simp]:
  "cache_of (s\<lparr>fs_auth_counter := c\<rparr>) = cache_of s" "cache_of (s\<lparr>fs_counter_loaded := b\<rparr>) = cache_of s"
  by (simp_all add: cache_of_def)

lemma read_rmem [store_reads]: "read_rmem_credential h i s = (a, t) \<Longrightarrow> cache_of t = cache_of s"
  using cache_of_same [OF same_cache_read [of s h i]] by simp

lemma read_user [store_reads]: "fido2_storage_get_user h slot n s = (a, t) \<Longrightarrow> cache_of t = cache_of s"
  by (auto simp: fido2_storage_get_user_def Let_def split: if_splits prod.splits option.splits
      dest!: store_reads)

lemma read_credential [store_reads]: "fido2_storage_get_credential h slot s = (a, t) \<Longrightarrow> cache_of t = cache_of s"
  by (auto simp: fido2_storage_get_credential_def Let_def split: if_splits prod.splits option.splits
      dest!: store_reads)

lemma read_cred_id [store_reads]: "fido2_storage_get_cred_id h slot s = (a, t) \<Longrightarrow> cache_of t = cache_of s"
  by (auto simp: fido2_storage_get_cred_id_def split: if_splits prod.splits option.splits dest!: store_reads)

lemma read_find [store_reads]: "fido2_storage_find_slot_by_cred_id h d s = (a, t) \<Longrightarrow> cache_of t = cache_of s"
  by (auto simp: fido2_storage_find_slot_by_cred_id_def Let_def split: if_splits prod.splits option.splits
      dest!: store_reads)

lemma read_pubkey [store_reads]: "fido2_storage_get_pubkey h slot s = (a, t) \<Longrightarrow> cache_of t = cache_of s"
  by (auto simp: fido2_storage_get_pubkey_def split: if_splits prod.splits bool.splits dest!: store_reads)

lemma read_config [store_reads]:
  "fido2_storage_get_always_uv h s = (b, t) \<Longrightarrow> cache_of t = cache_of s"
  "fido2_storage_set_always_uv h v s = (b, t) \<Longrightarrow> cache_of t = cache_of s"
  "fido2_storage_get_min_pin_len h s = (n, t) \<Longrightarrow> cache_of t = cache_of s"
  "fido2_storage_set_min_pin_len h n s = (b, t) \<Longrightarrow> cache_of t = cache_of s"
  "fido2_storage_largeblob_get h m s = (d, t) \<Longrightarrow> cache_of t = cache_of s"
  "fido2_storage_largeblob_set h blob s = (b, t) \<Longrightarrow> cache_of t = cache_of s"
  by (auto simp: fido2_storage_get_always_uv_def fido2_storage_set_always_uv_def
      fido2_storage_get_min_pin_len_def fido2_storage_set_min_pin_len_def fido2_storage_largeblob_get_def
      fido2_storage_largeblob_set_def split: if_splits prod.splits option.splits nvs_blob.splits
      dest!: store_reads)

lemma read_counter [store_reads]: "fido2_storage_counter_increment h s = (a, t) \<Longrightarrow> cache_of t = cache_of s"
  by (auto simp: fido2_storage_counter_increment_def fido2_storage_counter_load_def Let_def
      split: if_splits prod.splits bool.splits dest!: store_reads)

lemma read_sign [store_reads]: "fido2_storage_sign_raw h slot m s = (a, t) \<Longrightarrow> cache_of t = cache_of s"
  by (auto simp: fido2_storage_sign_raw_def raw_ecdsa_def split: if_splits prod.splits option.splits
      dest!: store_reads)

section \<open>The module\<close>

definition cached :: "('e, 'm) fido2_scheme \<Rightarrow>
    (cred list \<times> byte \<times> byte \<times> byte \<times> u16 \<times> u16) \<times> 'e up_callback option" where
  "cached s = (cache_of (f_store s), f_user_presence_cb s)"

lemma cached_store: "cached t = cached s \<Longrightarrow> cache_of (f_store t) = cache_of (f_store s)"
  by (simp add: cached_def)

lemma cached_callback: "cached t = cached s \<Longrightarrow> f_user_presence_cb t = f_user_presence_cb s"
  by (simp add: cached_def)

lemma cached_updates [simp]:
  fixes s :: "('e, 'm) ctap2_scheme"
  shows "cached (s\<lparr>f_pins := v0\<rparr>) = cached s" "cached (s\<lparr>f_pin_verified := v1\<rparr>) = cached s"
    "cached (s\<lparr>f_last_usb_connect_us := v2\<rparr>) = cached s" "cached (s\<lparr>g_attest_cert := v3\<rparr>) = cached s"
    "cached (s\<lparr>g_attest_cert_len := v4\<rparr>) = cached s" "cached (s\<lparr>g_attest_pubkey := v5\<rparr>) = cached s"
    "cached (s\<lparr>g_attest_initialized := v6\<rparr>) = cached s" "cached (s\<lparr>ga_creds := v7\<rparr>) = cached s"
    "cached (s\<lparr>ga_count := v8\<rparr>) = cached s" "cached (s\<lparr>ga_index := v9\<rparr>) = cached s"
    "cached (s\<lparr>ga_rp_id_hash := v10\<rparr>) = cached s" "cached (s\<lparr>ga_client_data_hash := v11\<rparr>) = cached s"
    "cached (s\<lparr>ga_up_done := v12\<rparr>) = cached s" "cached (s\<lparr>ga_include_user := v13\<rparr>) = cached s"
    "cached (s\<lparr>ga_appid_used := v14\<rparr>) = cached s" "cached (s\<lparr>cp_token := v15\<rparr>) = cached s"
    "cached (s\<lparr>cp_token_valid := v16\<rparr>) = cached s" "cached (s\<lparr>cp_permissions := v17\<rparr>) = cached s"
  by (simp_all add: cached_def)

named_theorems module_reads \<open>operations of the module that keep the cache and the callback\<close>

lemma reads_on_store:
  "on_store f s = (a, t) \<Longrightarrow> (\<And>st b u. f st = (b, u) \<Longrightarrow> cache_of u = cache_of st) \<Longrightarrow> cached t = cached s"
  by (auto simp: on_store_def cached_def split: prod.splits)

lemmas reads_store [module_reads] =
  reads_on_store [of "fido2_storage_get_credential h slot", OF _ read_credential]
  reads_on_store [of "fido2_storage_get_cred_id h slot", OF _ read_cred_id]
  reads_on_store [of "fido2_storage_find_slot_by_cred_id h d", OF _ read_find]
  reads_on_store [of "fido2_storage_get_pubkey h slot", OF _ read_pubkey]
  reads_on_store [of "fido2_storage_sign_raw h slot m", OF _ read_sign]
  reads_on_store [of "fido2_storage_counter_increment h", OF _ read_counter]
  reads_on_store [of "fido2_storage_get_always_uv h", OF _ read_config(1)]
  reads_on_store [of "fido2_storage_set_always_uv h v", OF _ read_config(2)]
  reads_on_store [of "fido2_storage_get_min_pin_len h", OF _ read_config(3)]
  reads_on_store [of "fido2_storage_set_min_pin_len h n", OF _ read_config(4)]
  reads_on_store [of "fido2_storage_largeblob_get h m", OF _ read_config(5)]
  reads_on_store [of "fido2_storage_largeblob_set h blob", OF _ read_config(6)]
  for h slot d m v n blob

lemma reads_on_env [module_reads]: "on_env f s = (a, t) \<Longrightarrow> cached t = cached s"
  unfolding on_env_def by (erule reads_on_store) (rule read_on_hw)

lemma reads_presence [module_reads]: "fido2_request_user_presence rp act user s = (a, t) \<Longrightarrow> cached t = cached s"
  by (auto simp: fido2_request_user_presence_def split: option.splits dest: module_reads)

lemma reads_wait [module_reads]: "wait_for_user_presence rp act user s = (a, t) \<Longrightarrow> cached t = cached s"
  by (auto simp: wait_for_user_presence_def split: prod.splits dest: module_reads)

lemma reads_random [module_reads]: "secure_random_fill x n s = (a, t) \<Longrightarrow> cached t = cached s"
  by (auto simp: secure_random_fill_def split: if_splits prod.splits bool.splits option.splits
      dest!: module_reads)

lemma reads_window [module_reads]: "fido2_reset_window_open x s = (a, t) \<Longrightarrow> cached t = cached s"
  by (auto simp: fido2_reset_window_open_def split: prod.splits dest!: module_reads)

lemma reads_increment [module_reads]: "fido2_increment_auth_counter x s = t \<Longrightarrow> cached t = cached s"
  using reads_store(6) [of "x_hw x" s]
  by (cases "on_store (fido2_storage_counter_increment (x_hw x)) s") (auto simp: fido2_increment_auth_counter_def)

section \<open>Attestation\<close>

lemma reads_load_cert [module_reads]:
  "u2f_load_imported_cert x s = (a, t) \<Longrightarrow> cached t = cached (s :: ('e, 'm) ctap2_scheme)"
  by (auto simp: u2f_load_imported_cert_def Let_def split: prod.splits option.splits if_splits
      dest!: module_reads)

lemma reads_attest_sign [module_reads]:
  "u2f_attest_sign x d s = (a, t) \<Longrightarrow> cached t = cached (s :: ('e, 'm) ctap2_scheme)"
  by (auto simp: u2f_attest_sign_def Let_def split: prod.splits option.splits if_splits dest!: module_reads)

lemma reads_init_attestation [module_reads]:
  "u2f_init_attestation x s = (a, t) \<Longrightarrow> cached t = cached (s :: ('e, 'm) ctap2_scheme)"
  by (auto simp: u2f_init_attestation_def Let_def
      split: prod.splits option.splits if_splits bool.splits dest!: module_reads)

lemma reads_attestation_cert [module_reads]:
  "u2f_get_attestation_cert x s = (a, t) \<Longrightarrow> cached t = cached (s :: ('e, 'm) ctap2_scheme)"
  by (auto simp: u2f_get_attestation_cert_def split: prod.splits bool.splits dest!: module_reads)

lemma reads_attestation_sign [module_reads]:
  "u2f_attestation_sign x d s = (a, t) \<Longrightarrow> cached t = cached (s :: ('e, 'm) ctap2_scheme)"
  by (auto simp: u2f_attestation_sign_def split: prod.splits bool.splits dest!: module_reads)

section \<open>Assertions\<close>

lemma reads_allow_list [module_reads]:
  fixes s :: "('e, 'm) ctap2_scheme"
  assumes "ga_parse_allow_list x r p s = (a, t)"
  shows "cached t = cached s"
proof -
  have step: "cached (snd (snd (allow_list_step x (r, l, s)))) = cached s" for r l and s :: "('e, 'm) ctap2_scheme"
    by (auto simp: allow_list_step_def split: prod.split option.split dest: module_reads)
  have "cached (snd (snd (repeat_n n (allow_list_step x) (r, l, s)))) = cached s" for n r l
    by (rule repeat_n_inv [where P = "\<lambda>rs. cached (snd (snd rs)) = cached s"]) (auto simp: step)
  then show ?thesis
    using assms by (auto simp: ga_parse_allow_list_def split: prod.splits if_splits) (metis snd_conv)
qed

lemma reads_ga_entry:
  fixes s :: "('e, 'm) ctap2_scheme"
  shows "case ga_entry_step x (r, p, s) of Inl t \<Rightarrow> cached t = cached s
    | Inr (r', p', t) \<Rightarrow> cached t = cached s"
  apply (simp only: ga_entry_step_def prod.case)
  apply (cases "cbor_read_uint r")
  subgoal for q r1
    apply (simp only: prod.case)
    apply (cases q)
     apply (simp only: option.case sum.case)
    apply (simp only: option.case Let_def)
    subgoal for k
      by (cases "ga_parse_allow_list x r1 p s")
        (auto split: prod.split option.split if_split dest: reads_allow_list)
    done
  done

lemma reads_ga_parse [module_reads]:
  fixes s :: "('e, 'm) ctap2_scheme"
  assumes "ga_parse_params x params s = (a, t)"
  shows "cached t = cached s"
proof -
  have entries: "case for_loop n (ga_entry_step x) (r, p, s) of Inl u \<Rightarrow> cached u = cached s
      | Inr rs \<Rightarrow> cached (snd (snd rs)) = cached s" for n r p
  proof (rule for_loop_inv [where P = "\<lambda>rs. cached (snd (snd rs)) = cached s"])
    fix rs :: "cbor_reader \<times> ga_params \<times> ('e, 'm) ctap2_scheme"
    assume "cached (snd (snd rs)) = cached s"
    then show "case ga_entry_step x rs of Inl u \<Rightarrow> cached u = cached s
      | Inr rs \<Rightarrow> cached (snd (snd rs)) = cached s"
      using reads_ga_entry [where x = x and r = "fst rs" and p = "fst (snd rs)" and s = "snd (snd rs)"]
      by (auto split: sum.splits prod.splits)
  qed simp
  show ?thesis
    using assms entries [of "nat (fst (cbor_read_map (cbor_reader_init params)))"
        "snd (cbor_read_map (cbor_reader_init params))" ga_params_init]
    by (auto simp: ga_parse_params_def split: prod.splits if_splits sum.splits)
qed

lemma reads_client_data [module_reads]:
  "verify_client_data x perm rh ch proto param s = (a, t) \<Longrightarrow> cached t = cached s"
  by (auto simp: verify_client_data_def fido2_set_pin_verified_def split: if_splits)

lemma reads_protect [module_reads]: "ga_cred_protect_allows x slot uv l s = (a, t) \<Longrightarrow> cached t = cached s"
  by (auto simp: ga_cred_protect_allows_def split: prod.splits option.splits dest!: module_reads)

lemma reads_has_rp [module_reads]: "slot_has_rp x h slot s = (a, t) \<Longrightarrow> cached t = cached s"
  by (auto simp: slot_has_rp_def split: prod.splits option.splits dest!: module_reads)

lemma reads_filters [module_reads]:
  "filter_slots (\<lambda>slot. ga_cred_protect_allows x slot uv l) slots s = (r, t) \<Longrightarrow> cached t = cached s"
  "filter_slots (slot_has_rp x h) slots s = (r, t) \<Longrightarrow> cached t = cached s"
  by (rule filter_slots_inv [where f = "\<lambda>slot. ga_cred_protect_allows x slot uv l" and g = cached];
      simp add: reads_protect)
    (rule filter_slots_inv [where f = "slot_has_rp x h" and g = cached]; simp add: reads_has_rp)

lemma reads_candidates [module_reads]: "ga_candidates x p s = (a, t) \<Longrightarrow> cached t = cached s"
  by (auto simp: ga_candidates_def Let_def split: prod.splits if_splits dest!: module_reads)

lemma reads_find_credentials [module_reads]: "ga_find_credentials x p uv s = (a, t) \<Longrightarrow> cached t = cached s"
  by (auto simp: ga_find_credentials_def Let_def split: prod.splits if_splits dest!: module_reads)

lemma reads_sign_assertion [module_reads]: "ga_sign_assertion x slot d h s = (a, t) \<Longrightarrow> cached t = cached s"
  by (auto simp: ga_sign_assertion_def split: if_splits dest!: module_reads)

lemma cached_save [simp]: "cached (save_assertion_state p creds s) = cached s"
  by (simp add: save_assertion_state_def)

lemma reads_exclude [module_reads]: "check_appid_exclude x p s = (a, t) \<Longrightarrow> cached t = cached s"
  by (auto simp: check_appid_exclude_def Let_def split: if_splits)

end
