(* ===== verification/Ctap2_Sound.thy ===== *)
theory Ctap2_Sound
  imports Ctap2_Cache
begin

text \<open>
  What the authenticator answers for: an assertion is for a credential of the relying party, signed
  with its key, with flags that say the truth; without the consent of the user no credential is made,
  used or erased; a reset leaves nothing behind.
\<close>

section \<open>Consent\<close>

definition consents :: "('e, 'm) fido2_scheme \<Rightarrow> bytes option \<Rightarrow> fido2_action \<Rightarrow> bytes option \<Rightarrow> bool" where
  "consents s rp action user \<longleftrightarrow> (case f_user_presence_cb s of None \<Rightarrow> True
     | Some cb \<Rightarrow> \<exists>e. fst (cb rp action user e) = UP_Approved)"

lemma wait_consents: "wait_for_user_presence rp action user s = (True, t) \<Longrightarrow> consents s rp action user"
  by (auto simp: wait_for_user_presence_def fido2_request_user_presence_def consents_def on_env_def
      on_store_def on_hw_def split: prod.splits option.splits) (metis fst_conv)

lemma request_consents: "fido2_request_user_presence rp action user s = (UP_Approved, t) \<Longrightarrow> consents s rp action user"
  by (auto simp: fido2_request_user_presence_def consents_def on_env_def
      on_store_def on_hw_def split: prod.splits option.splits) (metis fst_conv)

lemma consents_cached: "cached t = cached s \<Longrightarrow> consents t rp action user = consents s rp action user"
  by (simp add: consents_def cached_def)

definition refuses :: "('e, 'm) fido2_scheme \<Rightarrow> bool" where
  "refuses s \<longleftrightarrow> (\<forall>rp action user. \<not> consents s rp action user)"

lemma refuses_cached: "cached t = cached s \<Longrightarrow> refuses t = refuses s"
  by (simp add: refuses_def consents_def cached_def)

lemma refuses_wait: "refuses s \<Longrightarrow> wait_for_user_presence rp action user s = (b, t) \<Longrightarrow> \<not> b"
  using wait_consents [of rp action user s t] by (cases b) (simp_all add: refuses_def)

lemma refused_wait: "refuses s \<Longrightarrow> \<exists>t. wait_for_user_presence rp action user s = (False, t) \<and> cached t = cached s"
  using refuses_wait [of s rp action user] reads_wait [of rp action user s]
  by (cases "wait_for_user_presence rp action user s") auto

lemma refuses_request: "refuses s \<Longrightarrow> fido2_request_user_presence rp action user s = (r, t) \<Longrightarrow> r \<noteq> UP_Approved"
  using request_consents [of rp action user s t] by (auto simp: refuses_def)

lemma parse_make_error: "parse_make_credential_params x params = Inl st \<Longrightarrow> st \<noteq> 0"
  by (auto simp: parse_make_credential_params_def split: prod.splits sum.splits if_splits)

lemma parse_get_error: "ga_parse_params x params s = (Inl st, t) \<Longrightarrow> st \<noteq> 0"
  by (auto simp: ga_parse_params_def split: prod.splits sum.splits if_splits)

lemma refused_probe:
  fixes s :: "('e, 'm) ctap2_scheme"
  assumes "refuses s" and "handle_browser_probe x p uv cap s = (reply, t)"
  shows "hd reply \<noteq> 0 \<and> cached t = cached s"
  using assms(2) refused_wait [OF assms(1), of "Some (mp_rp_id p)" Action_Select None]
  by (auto simp: handle_browser_probe_def)

lemma refused_checked:
  fixes s :: "('e, 'm) ctap2_scheme"
  assumes "refuses s" and "make_credential_checked x p uv cap s = (reply, t)"
  shows "hd reply \<noteq> 0 \<and> cached t = cached s"
proof (cases "is_browser_probe (mp_rp_id p)")
  case True
  with assms show ?thesis using refused_probe by (simp add: make_credential_checked_def)
next
  case False
  let ?action = "if fido2_storage_find_by_rp_user (mp_rp_id_hash p) (mp_user_id p) (mp_user_id_len p) (f_store s) \<noteq> None
      then Action_Overwrite else Action_Register"
  obtain u where "wait_for_user_presence (Some (mp_rp_id p)) ?action (Some (mp_user_name p)) s = (False, u)"
      "cached u = cached s"
    using refused_wait [OF assms(1)] by blast
  with assms(2) False show ?thesis
    by (auto simp: make_credential_checked_def Let_def split: if_splits)
qed

lemma refused_make:
  fixes s :: "('e, 'm) ctap2_scheme"
  assumes "refuses s" and "ctap2_make_credential x params cap s = (reply, t)"
  shows "hd reply \<noteq> 0 \<and> cached t = cached s"
proof (cases "parse_make_credential_params x params")
  case (Inl st)
  with assms(2) parse_make_error show ?thesis by (fastforce simp: ctap2_make_credential_def)
next
  case (Inr p)
  obtain st1 s1 where 1: "check_appid_exclude x p s = (st1, s1)" by fastforce
  obtain st2 uv s2 where 2: "verify_pin_uv_auth x p s1 = ((st2, uv), s2)" by (metis prod.exhaust)
  obtain au s3 where 3: "on_store (fido2_storage_get_always_uv (x_hw x)) s2 = (au, s3)" by fastforce
  have c: "cached s1 = cached s" "cached s2 = cached s" "cached s3 = cached s"
    using reads_exclude [OF 1] reads_client_data [OF 2 [unfolded verify_pin_uv_auth_def]] reads_store(7) [OF 3]
    by simp_all
  then have "refuses s3" using assms(1) refuses_cached by blast
  from refused_checked [OF this] show ?thesis
    using assms(2) Inr 1 2 3 c by (auto simp: ctap2_make_credential_def split: if_splits)
qed

lemma refused_selection:
  fixes s :: "('e, 'm) ctap2_scheme"
  shows "refuses s \<Longrightarrow> ctap2_selection s = (reply, t) \<Longrightarrow> hd reply \<noteq> 0 \<and> cached t = cached s"
  using refused_wait [of s None Action_Select None] by (auto simp: ctap2_selection_def)

lemma refused_reset:
  fixes s :: "('e, 'm) ctap2_scheme"
  assumes "refuses s" and "ctap2_reset x s = (reply, t)"
  shows "hd reply \<noteq> 0 \<and> cached t = cached s"
proof -
  obtain w s1 where 1: "fido2_reset_window_open x s = (w, s1)" by fastforce
  obtain b s2 where 2: "wait_for_user_presence None Action_Reset None s1 = (b, s2)" by fastforce
  have "cached s1 = cached s" "cached s2 = cached s" using reads_window [OF 1] reads_wait [OF 2] by simp_all
  moreover from this have "\<not> b" using assms(1) refuses_wait [OF _ 2] refuses_cached by blast
  ultimately show ?thesis using assms(2) 1 2 by (auto simp: ctap2_reset_def split: bool.splits)
qed

lemma refused_get:
  fixes s :: "('e, 'm) ctap2_scheme"
  assumes "refuses s" and "ctap2_get_assertion x params cap s = (reply, t)"
    and "\<And>p. fst (ga_parse_params x params s) = Inr p \<Longrightarrow> gp_option_up p"
  shows "hd reply \<noteq> 0 \<and> cached t = cached s"
proof -
  obtain q s1 where 1: "ga_parse_params x params s = (q, s1)" by fastforce
  show ?thesis
  proof (cases q)
    case (Inl st)
    with assms(2) 1 parse_get_error [of x params s st s1] reads_ga_parse [OF 1] show ?thesis
      by (auto simp: ctap2_get_assertion_def)
  next
    case (Inr p)
    obtain st2 uv s2 where 2: "ga_verify_pin_auth x p s1 = ((st2, uv), s2)" by (metis prod.exhaust)
    obtain au s3 where 3: "on_store (fido2_storage_get_always_uv (x_hw x)) s2 = (au, s3)" by fastforce
    obtain creds s4 where 4: "ga_find_credentials x p uv s3 = (creds, s4)" by fastforce
    obtain b s5 where 5: "wait_for_user_presence (Some (gp_rp_id p)) Action_Authenticate None s4 = (b, s5)"
      by fastforce
    have c: "cached s1 = cached s" "cached s2 = cached s" "cached s3 = cached s" "cached s4 = cached s"
        "cached s5 = cached s"
      using reads_ga_parse [OF 1] reads_client_data [OF 2 [unfolded ga_verify_pin_auth_def]]
        reads_store(7) [OF 3] reads_find_credentials [OF 4] reads_wait [OF 5] by simp_all
    moreover have "\<not> b" using c(4) assms(1) refuses_wait [OF _ 5] refuses_cached by blast
    moreover have "gp_option_up p" using assms(3) 1 Inr by simp
    ultimately show ?thesis
      using assms(2) Inr 1 2 3 4 5 by (auto simp: ctap2_get_assertion_def split: if_splits)
  qed
qed

text \<open>The two U2F commands that need the user.\<close>

definition u2f_success :: "u2f_reply \<Rightarrow> bool" where
  "u2f_success r \<longleftrightarrow> length (snd r) \<ge> 2 \<and> drop (length (snd r) - 2) (snd r) = [0x90, 0x00]"

lemma u2f_error_fails [simp]:
  "sw \<in> {0x6985, 0x6A80, 0x6700, 0x6E00, 0x6D00} \<Longrightarrow> \<not> u2f_success (u2f_response_error sw)"
  by (auto simp: u2f_success_def u2f_response_error_def byte_at_def)

lemma refused_request:
  "refuses s \<Longrightarrow> \<exists>r t. fido2_request_user_presence rp action user s = (r, t) \<and> r \<noteq> UP_Approved \<and> cached t = cached s"
  using refuses_request [of s rp action user] reads_presence [of rp action user s]
  by (cases "fido2_request_user_presence rp action user s") auto

lemma refused_register:
  fixes s :: "('e, 'm) ctap2_scheme"
  assumes "refuses s" and "u2f_register x challenge app n s = (r, t)"
  shows "\<not> u2f_success r \<and> cached t = cached s"
  using assms(2) refused_request [OF assms(1), of "Some (u2f_rp_id app)" Action_Select None]
    refused_request [OF assms(1), of "Some (u2f_rp_id app)" Action_Register None]
  by (auto simp: u2f_register_def u2f_register_dummy_def Let_def split: if_splits)

lemma refused_authenticate:
  fixes s :: "('e, 'm) ctap2_scheme"
  assumes "refuses s" and "u2f_authenticate x p1 challenge app kh s = (r, t)"
  shows "\<not> u2f_success r \<and> cached t = cached s"
proof -
  obtain q s1 where 1: "on_store (fido2_storage_find_slot_by_cred_id (x_hw x) kh) s = (q, s1)" by fastforce
  show ?thesis
  proof (cases q)
    case None
    with assms(2) 1 reads_store(3) [OF 1] show ?thesis by (auto simp: u2f_authenticate_def split: if_splits)
  next
    case (Some slot)
    obtain c s2 where 2: "on_store (fido2_storage_get_credential (x_hw x) slot) s1 = (c, s2)" by fastforce
    have k: "cached s1 = cached s" "cached s2 = cached s"
      using reads_store(3) [OF 1] reads_store(1) [OF 2] by simp_all
    show ?thesis
    proof (cases c)
      case None
      with assms(2) 1 2 Some k show ?thesis by (auto simp: u2f_authenticate_def split: if_splits)
    next
      case (Some cred)
      have "refuses s2" using assms(1) k(2) refuses_cached by blast
      with refused_request [OF this, of "Some (cstr (ci_rp_id cred))" Action_Authenticate "Some (cstr (ci_user_name cred))"]
        assms(2) 1 2 \<open>q = Some slot\<close> Some k
      show ?thesis by (auto simp: u2f_authenticate_def Let_def split: if_splits)
    qed
  qed
qed

lemma refused_u2f:
  fixes s :: "('e, 'm) ctap2_scheme"
  assumes "refuses s" and "u2f_process_apdu x apdu n s = (r, t)" and "apdu ! 1 \<noteq> 0x03"
  shows "\<not> u2f_success r \<and> cached t = cached s"
  using assms(2,3) refused_register [OF assms(1)] refused_authenticate [OF assms(1)]
  by (auto simp: u2f_process_apdu_def Let_def split: if_splits)

section \<open>Reset\<close>

lemma delete_slot_creds:
  assumes "fido2_storage_slot_used slot st"
  shows "fs_creds (snd (fido2_storage_delete_credential h slot st)) =
      (fs_creds st)[slot := (fs_creds st ! slot)\<lparr>cr_valid := False\<rparr>]"
    "ecc_count (snd (fido2_storage_delete_credential h slot st)) = ecc_count st"
    "slot_logical_valid i (snd (fido2_storage_delete_credential h slot st)) = slot_logical_valid i st"
  using assms same_cacheD [OF same_cache_erase [of st h slot]]
  by (simp_all add: fido2_storage_delete_credential_def Let_def slot_logical_valid_def)

lemma reset_slots:
  assumes "length (fs_creds st) = 32" and "n \<le> 32"
  shows "let t = fold (reset_slot h) [0..<n] st in length (fs_creds t) = 32 \<and> ecc_count t = ecc_count st \<and>
    (\<forall>i < n. \<not> fido2_storage_slot_used i t)"
  using assms(2)
proof (induction n)
  case (Suc n)
  let ?u = "fold (reset_slot h) [0..<n] st"
  have ih: "length (fs_creds ?u) = 32" "ecc_count ?u = ecc_count st" "\<forall>i < n. \<not> fido2_storage_slot_used i ?u"
    using Suc by (simp_all add: Let_def)
  have next_slot: "fold (reset_slot h) [0..<Suc n] st = reset_slot h n ?u" by simp
  show ?case
  proof (cases "fido2_storage_slot_used n ?u")
    case True
    then have "fold (reset_slot h) [0..<Suc n] st = snd (fido2_storage_delete_credential h n ?u)"
      unfolding next_slot by (simp add: reset_slot_def)
    with ih delete_slot_creds [OF True, where h = h] Suc.prems show ?thesis
      by (auto simp: Let_def fido2_storage_slot_used_def nth_list_update less_Suc_eq)
  next
    case False
    then have "fold (reset_slot h) [0..<Suc n] st = ?u"
      unfolding next_slot by (simp add: reset_slot_def)
    with ih False show ?thesis by (auto simp: Let_def less_Suc_eq)
  qed
qed (simp add: assms(1))

lemma delete_ok:
  assumes "store_ok st"
  shows "store_ok (snd (fido2_storage_delete_credential h slot st))"
proof (cases "fido2_storage_slot_used slot st")
  case True
  then have "slot < 32" "cr_valid (fs_creds st ! slot)"
    using assms by (auto simp: fido2_storage_slot_used_def slot_logical_valid_def store_ok_def)
  moreover have "store_ok (erase_slot_data h slot st)"
    using assms store_ok_cache [OF same_cache_erase] by blast
  ultimately show ?thesis
    using store_ok_drop [of "erase_slot_data h slot st" slot] True same_cacheD [OF same_cache_erase [of st h slot]]
    by (simp add: fido2_storage_delete_credential_def Let_def)
qed (use assms in \<open>simp add: fido2_storage_delete_credential_def\<close>)

lemma reset_slots_ok: "store_ok st \<Longrightarrow> store_ok (fold (reset_slot h) slots st)"
  by (induction slots arbitrary: st) (auto simp: reset_slot_def delete_ok)

lemma factory_reset_empties:
  assumes "store_ok (f_store s)" and "fido2_factory_reset x s = (ok, t)"
  shows "accounts (f_store t) = Map.empty \<and> fido2_get_credential_count t = 0 \<and> p_min_floor (f_pins t) = 4"
proof -
  let ?u = "fold (reset_slot (x_hw x)) [0..<32] (f_store s)"
  have t: "f_store t = hw_do (hw_nvs_erase (x_hw x)) ?u" "p_min_floor (f_pins t) = 4"
    using assms(2) by (auto simp: fido2_factory_reset_def fido2_storage_config_reset_def Let_def
        pin_storage_set_min_pin_floor_def setMinPinLengthFloor_def)
  have ok: "store_ok ?u" using reset_slots_ok [OF assms(1)] .
  have "\<not> cr_valid (fs_creds ?u ! i)" if "i < 32" for i
    using reset_slots [of "f_store s" 32 "x_hw x"] assms(1) ok that
    by (auto simp: Let_def store_ok_def fido2_storage_slot_used_def slot_logical_valid_def)
  moreover from this have "filter cr_valid (fs_creds ?u) = []"
    using ok by (auto simp: store_ok_def filter_empty_conv in_set_conv_nth)
  moreover have "fs_creds (f_store t) = fs_creds ?u" "fs_cred_count (f_store t) = fs_cred_count ?u"
    using t(1) by (simp_all add: hw_do_def)
  ultimately show ?thesis
    using ok t(2) accounts_None [of "f_store t"]
    by (auto simp: store_ok_def fido2_get_credential_count_def fido2_storage_count_def
        word_unat_eq_iff)
qed

text \<open>The window of a reset: ten seconds from the start of the badge or from its connection.\<close>

definition in_reset_window :: "'e fido2_env \<Rightarrow> ('e, 'm) fido2_scheme \<Rightarrow> bool" where
  "in_reset_window x s \<longleftrightarrow> (let now = fst (x_time_us x (fs_hw (f_store s))) in
     now < 10000000 \<or> now - f_last_usb_connect_us s < 10000000)"

lemma window_open: "fido2_reset_window_open x s = (b, t) \<Longrightarrow> b = in_reset_window x s"
  by (auto simp: fido2_reset_window_open_def in_reset_window_def on_env_def on_store_def on_hw_def
      split: prod.splits)

lemma window_store: "fido2_reset_window_open x s = (b, t) \<Longrightarrow> same_cache (f_store s) (f_store t)"
  by (auto simp: fido2_reset_window_open_def on_env_def on_store_def same_cache_on_hw [of _ "f_store s"]
      split: prod.splits)

lemma wait_store: "wait_for_user_presence rp action user s = (b, t) \<Longrightarrow> same_cache (f_store s) (f_store t)"
  by (auto simp: wait_for_user_presence_def fido2_request_user_presence_def on_env_def on_store_def
      same_cache_on_hw [of _ "f_store s"] split: prod.splits option.splits)

section \<open>Properties\<close>

text \<open>
  C11. Nothing without consent: while the user's prompt is never answered with approval, no credential
  is made, no assertion that asks for presence is given and no reset happens; whatever the command, its
  parameters and the rest of the state, the answer is an error and the stored credentials, the
  signature counters included, are unchanged.
\<close>

theorem consent_needed:
  fixes s :: "('e, 'm) ctap2_scheme"
  assumes "\<forall>rp action user. \<not> consents s rp action user"
    and "ctap2_handler x command params cap s = (reply, t)"
    and "command \<in> {0x01, 0x07, 0x0B} \<or>
      command = 0x02 \<and> (\<forall>p. fst (ga_parse_params x params s) = Inr p \<longrightarrow> gp_option_up p)"
  shows "hd reply \<noteq> 0 \<and> cache_of (f_store t) = cache_of (f_store s)"
proof -
  have r: "refuses s" using assms(1) by (simp add: refuses_def)
  consider "command = 0x01" | "command = 0x07" | "command = 0x0B" |
    "command = 0x02" "\<And>p. fst (ga_parse_params x params s) = Inr p \<Longrightarrow> gp_option_up p"
    using assms(3) by blast
  then have "hd reply \<noteq> 0 \<and> cached t = cached s"
  proof cases
    case 1
    then show ?thesis using assms(2) refused_make [OF r] by (simp add: ctap2_handler_def)
  next
    case 2
    then show ?thesis using assms(2) refused_reset [OF r] by (simp add: ctap2_handler_def)
  next
    case 3
    then show ?thesis using assms(2) refused_selection [OF r] by (simp add: ctap2_handler_def)
  next
    case 4
    then show ?thesis
      using assms(2) refused_get [OF r _ 4(2)] by (simp add: ctap2_handler_def)
  qed
  then show ?thesis using cached_store by blast
qed

theorem consent_needed_witness:
  "let s = sample_state\<lparr>f_user_presence_cb := Some (\<lambda>rp action user e. (UP_Denied, e))\<rparr> in
    hd (fst (ctap2_handler sample 0x07 [] 2048 s)) \<noteq> 0 \<and>
    cache_of (f_store (snd (ctap2_handler sample 0x07 [] 2048 s))) = cache_of (f_store s)"
proof -
  let ?s = "sample_state\<lparr>f_user_presence_cb := Some (\<lambda>rp action user e. (UP_Denied, e))\<rparr>"
  have "\<forall>rp action user. \<not> consents ?s rp action user" by (simp add: consents_def)
  moreover have "ctap2_handler sample 0x07 [] 2048 ?s =
      (fst (ctap2_handler sample 0x07 [] 2048 ?s), snd (ctap2_handler sample 0x07 [] 2048 ?s))" by simp
  ultimately show ?thesis unfolding Let_def by (rule consent_needed) simp
qed

text \<open>
  C13. The same for U2F: while the prompt is never approved, every request but the one for the version
  ends in an error status and changes no credential and no counter.
\<close>

theorem u2f_consent_needed:
  fixes s :: "('e, 'm) ctap2_scheme"
  assumes "\<forall>rp action user. \<not> consents s rp action user"
    and "u2f_process_apdu x apdu n s = (r, t)" and "apdu ! 1 \<noteq> 0x03"
  shows "\<not> u2f_success r \<and> cache_of (f_store t) = cache_of (f_store s)"
proof -
  have "refuses s" using assms(1) by (simp add: refuses_def)
  from refused_u2f [OF this assms(2,3)] cached_store show ?thesis by blast
qed

theorem u2f_consent_needed_witness:
  "let s = sample_state\<lparr>f_user_presence_cb := Some (\<lambda>rp action user e. (UP_Denied, e))\<rparr>;
      apdu = [0x00, 0x01, 0x00, 0x00, 0x00, 0x00, 0x40] @ replicate 32 1 @ [1] @ replicate 31 2 in
    \<not> u2f_success (fst (u2f_process_apdu sample apdu 512 s))"
proof -
  let ?s = "sample_state\<lparr>f_user_presence_cb := Some (\<lambda>rp action user e. (UP_Denied, e))\<rparr>"
  let ?apdu = "[0x00, 0x01, 0x00, 0x00, 0x00, 0x00, 0x40] @ replicate 32 1 @ [1] @ replicate 31 2 :: bytes"
  have "\<forall>rp action user. \<not> consents ?s rp action user" by (simp add: consents_def)
  moreover have "u2f_process_apdu sample ?apdu 512 ?s =
      (fst (u2f_process_apdu sample ?apdu 512 ?s), snd (u2f_process_apdu sample ?apdu 512 ?s))" by simp
  moreover have "?apdu ! 1 \<noteq> 0x03" by simp
  ultimately show ?thesis using u2f_consent_needed unfolding Let_def by blast
qed



end
