(* ===== verification/Ctap2_Signed.thy ===== *)
theory Ctap2_Signed
  imports Ctap2_Sound
begin

text \<open>
  Assertions: which credentials getAssertion may use, and that what it answers is signed by one of
  them over what the platform sent.
\<close>

section \<open>What the loops select\<close>

lemma filter_slots_all:
  assumes "\<And>slot s b t. f slot s = (b, t) \<Longrightarrow> g t = g s" and "filter_slots f slots s = (r, t)"
  shows "\<forall>slot \<in> set r. slot \<in> set slots \<and> (\<exists>u v. g u = g s \<and> f slot u = (True, v))"
  using assms(2)
proof (induction slots arbitrary: s r t)
  case (Cons slot slots)
  obtain b u where 1: "f slot s = (b, u)" by fastforce
  obtain q v where 2: "filter_slots f slots u = (q, v)" by fastforce
  from 1 2 Cons.prems have "r = (if b then slot # q else q)" by simp
  moreover have "g u = g s" using assms(1) [OF 1] .
  moreover note Cons.IH [OF 2]
  ultimately show ?case using 1 by (auto split: if_splits)
qed simp

text \<open>The cached credential of a slot in use.\<close>

lemma credential_cached:
  assumes "on_store (fido2_storage_get_credential h slot) s = (Some info, t)"
  shows "fido2_storage_slot_used slot (f_store s)" "ci_rp_id_hash info = cr_rp_id_hash (fs_creds (f_store s) ! slot)"
    "ci_protect info = cr_protect (fs_creds (f_store s) ! slot)"
  using assms
  by (auto simp: on_store_def fido2_storage_get_credential_def Let_def
      split: prod.splits option.splits if_splits)

lemma used_cached: "cached t = cached s \<Longrightarrow>
  fido2_storage_slot_used slot (f_store t) = fido2_storage_slot_used slot (f_store s) \<and>
  fs_creds (f_store t) = fs_creds (f_store s) \<and> cache_slots (f_store t) = cache_slots (f_store s) \<and>
  ecc_slot_for_logical (f_store t) slot = ecc_slot_for_logical (f_store s) slot"
  using cache_of_slots [of "f_store t" "f_store s"] by (simp add: cached_def)

lemma has_rp_cached:
  "slot_has_rp x h slot s = (True, t) \<Longrightarrow>
    fido2_storage_slot_used slot (f_store s) \<and> cr_rp_id_hash (fs_creds (f_store s) ! slot) = h"
  by (auto simp: slot_has_rp_def split: prod.splits option.splits dest: credential_cached)

lemma protect_cached:
  "ga_cred_protect_allows x slot uv listed s = (True, t) \<Longrightarrow>
    fido2_storage_slot_used slot (f_store s) \<and>
    (cr_protect (fs_creds (f_store s) ! slot) \<ge> 3 \<longrightarrow> uv) \<and>
    (cr_protect (fs_creds (f_store s) ! slot) = 2 \<longrightarrow> uv \<or> listed)"
  by (auto simp: ga_cred_protect_allows_def split: prod.splits option.splits if_splits dest: credential_cached)

text \<open>
  The credentials an assertion may use: of the relying party the request names, or of its AppID; from
  the list of the request, or, without one, discoverable; and as protected as they ask to be.
\<close>

definition may_assert :: "ga_params \<Rightarrow> bool \<Rightarrow> bytes \<Rightarrow> nat \<Rightarrow> 'e fido2_store \<Rightarrow> bool" where
  "may_assert p uv h slot st \<longleftrightarrow>
     fido2_storage_slot_used slot st \<and> cr_rp_id_hash (fs_creds st ! slot) = h \<and>
     (h = gp_rp_id_hash p \<or> gp_has_appid p \<and> h = gp_appid_hash p) \<and>
     (if gp_allow_list_present p \<and> gp_allow_list p \<noteq> [] then slot \<in> set (gp_allow_list p)
      else cr_resident (fs_creds st ! slot)) \<and>
     (cr_protect (fs_creds st ! slot) \<ge> 3 \<longrightarrow> uv) \<and>
     (cr_protect (fs_creds st ! slot) = 2 \<longrightarrow> uv \<or> gp_allow_list_present p \<and> gp_allow_list p \<noteq> [])"

lemma find_resident_facts:
  "slot \<in> set (fido2_storage_find_by_rp_resident h n st) \<Longrightarrow>
    cr_resident (fs_creds st ! slot) \<and> cr_rp_id_hash (fs_creds st ! slot) = h"
  by (auto simp: fido2_storage_find_by_rp_resident_def dest!: in_set_takeD)

lemma rp_filter_facts:
  fixes s :: "('e, 'm) ctap2_scheme"
  assumes "filter_slots (slot_has_rp x h) slots s = (r, t)" and "slot \<in> set r"
  shows "slot \<in> set slots \<and> cr_rp_id_hash (fs_creds (f_store s) ! slot) = h"
proof -
  have "\<forall>slot \<in> set r. slot \<in> set slots \<and> (\<exists>u v :: ('e, 'm) ctap2_scheme. cached u = cached s \<and> slot_has_rp x h slot u = (True, v))"
    by (rule filter_slots_all [where f = "slot_has_rp x h" and g = cached, OF _ assms(1)]) (rule reads_has_rp)
  then obtain u v :: "('e, 'm) ctap2_scheme" where u: "slot \<in> set slots" "cached u = cached s"
      "slot_has_rp x h slot u = (True, v)"
    using assms(2) by blast
  with has_rp_cached [OF u(3)] used_cached [OF u(2)] show ?thesis by simp
qed

lemma protect_filter_facts:
  fixes s :: "('e, 'm) ctap2_scheme"
  assumes "filter_slots (\<lambda>slot. ga_cred_protect_allows x slot uv listed) slots s = (r, t)" and "slot \<in> set r"
  shows "slot \<in> set slots \<and> fido2_storage_slot_used slot (f_store s) \<and>
    (cr_protect (fs_creds (f_store s) ! slot) \<ge> 3 \<longrightarrow> uv) \<and>
    (cr_protect (fs_creds (f_store s) ! slot) = 2 \<longrightarrow> uv \<or> listed)"
proof -
  have "\<forall>slot \<in> set r. slot \<in> set slots \<and>
      (\<exists>u v :: ('e, 'm) ctap2_scheme. cached u = cached s \<and> ga_cred_protect_allows x slot uv listed u = (True, v))"
    by (rule filter_slots_all [where f = "\<lambda>slot. ga_cred_protect_allows x slot uv listed" and g = cached, OF _ assms(1)])
      (rule reads_protect)
  then obtain u v :: "('e, 'm) ctap2_scheme" where u: "slot \<in> set slots" "cached u = cached s"
      "ga_cred_protect_allows x slot uv listed u = (True, v)"
    using assms(2) by blast
  with protect_cached [OF u(3)] used_cached [OF u(2)] show ?thesis by simp
qed

lemma candidates_facts:
  assumes "ga_candidates x p s = (creds, t)"
  shows "ac_hash creds = gp_rp_id_hash p \<and> \<not> ac_appid_used creds \<or>
      gp_has_appid p \<and> ac_appid_used creds \<and> ac_hash creds = gp_appid_hash p"
    "slot \<in> set (ac_slots creds) \<Longrightarrow> cr_rp_id_hash (fs_creds (f_store s) ! slot) = ac_hash creds \<and>
      (if gp_allow_list_present p \<and> gp_allow_list p \<noteq> [] then slot \<in> set (gp_allow_list p)
       else cr_resident (fs_creds (f_store s) ! slot))"
proof -
  obtain r u where 1: "filter_slots (slot_has_rp x (gp_rp_id_hash p)) (gp_allow_list p) s = (r, u)" by fastforce
  obtain q v where 2: "filter_slots (slot_has_rp x (gp_appid_hash p)) (gp_allow_list p) u = (q, v)" by fastforce
  have "fs_creds (f_store u) = fs_creds (f_store s)" using used_cached [OF reads_filters(2) [OF 1]] by simp
  with rp_filter_facts [OF 1, of slot] rp_filter_facts [OF 2, of slot]
  have sel: "slot \<in> set r \<Longrightarrow> slot \<in> set (gp_allow_list p) \<and> cr_rp_id_hash (fs_creds (f_store s) ! slot) = gp_rp_id_hash p"
    "slot \<in> set q \<Longrightarrow> slot \<in> set (gp_allow_list p) \<and> cr_rp_id_hash (fs_creds (f_store s) ! slot) = gp_appid_hash p"
    by simp_all
  show "ac_hash creds = gp_rp_id_hash p \<and> \<not> ac_appid_used creds \<or>
      gp_has_appid p \<and> ac_appid_used creds \<and> ac_hash creds = gp_appid_hash p"
    using assms 1 2 by (auto simp: ga_candidates_def Let_def split: if_splits)
  show "cr_rp_id_hash (fs_creds (f_store s) ! slot) = ac_hash creds \<and>
      (if gp_allow_list_present p \<and> gp_allow_list p \<noteq> [] then slot \<in> set (gp_allow_list p)
       else cr_resident (fs_creds (f_store s) ! slot))" if "slot \<in> set (ac_slots creds)"
    using assms that 1 2 sel find_resident_facts [of slot "gp_rp_id_hash p" 32 "f_store s"]
      find_resident_facts [of slot "gp_appid_hash p" 32 "f_store s"]
    by (auto simp: ga_candidates_def Let_def split: if_splits)
qed

lemma find_facts:
  assumes "ga_find_credentials x p uv s = (creds, t)"
  shows "ac_hash creds = gp_rp_id_hash p \<and> \<not> ac_appid_used creds \<or>
      gp_has_appid p \<and> ac_appid_used creds \<and> ac_hash creds = gp_appid_hash p"
    "slot \<in> set (ac_slots creds) \<Longrightarrow> may_assert p uv (ac_hash creds) slot (f_store s)"
proof -
  let ?listed = "gp_allow_list_present p \<and> gp_allow_list p \<noteq> []"
  obtain c u where 1: "ga_candidates x p s = (c, u)" by fastforce
  obtain r v where 2: "filter_slots (\<lambda>slot. ga_cred_protect_allows x slot uv ?listed) (ac_slots c) u = (r, v)"
    by fastforce
  have creds: "creds = c\<lparr>ac_slots := r\<rparr>"
    using assms 1 2 by (simp add: ga_find_credentials_def)
  show h: "ac_hash creds = gp_rp_id_hash p \<and> \<not> ac_appid_used creds \<or>
      gp_has_appid p \<and> ac_appid_used creds \<and> ac_hash creds = gp_appid_hash p"
    using candidates_facts(1) [OF 1] creds by simp
  show "may_assert p uv (ac_hash creds) slot (f_store s)" if "slot \<in> set (ac_slots creds)"
  proof -
    from that creds have "slot \<in> set r" by simp
    note facts = protect_filter_facts [OF 2 this]
    from facts have "slot \<in> set (ac_slots c)" by simp
    with facts candidates_facts(2) [OF 1 this] used_cached [OF reads_candidates [OF 1], of slot] h creds
    show ?thesis by (auto simp: may_assert_def)
  qed
qed

section \<open>The answer\<close>

text \<open>
  What makes the user count as verified: a parameter that is the HMAC of the client data under the
  token, and a token with the permission that is not bound to another relying party.
\<close>

definition user_verified :: "'e fido2_env \<Rightarrow> byte \<Rightarrow> bytes \<Rightarrow> bytes \<Rightarrow> bytes \<Rightarrow> ('e, 'm) ctap2_scheme \<Rightarrow> bool" where
  "user_verified x perm rp_id_hash client_data_hash param s \<longleftrightarrow>
     cp_token_valid s \<and> cp_permissions s AND perm \<noteq> 0 \<and> (cp_rp_id_set s \<longrightarrow> cp_rp_id_hash s = rp_id_hash) \<and>
     take 16 param = take 16 (x_hmac x (cp_token s) client_data_hash)"

lemma hmac_matches_16: "hmac_matches proto param m \<Longrightarrow> take 16 param = take 16 m"
proof (cases "proto = 2")
  case True
  assume "hmac_matches proto param m"
  with True have "take 32 param = take 32 m" by (simp add: hmac_matches_def)
  from arg_cong [OF this, of "take 16"] show ?thesis by simp
qed (simp add: hmac_matches_def)

lemma client_data_status:
  assumes "verify_client_data x perm rp cdh proto param s = ((st, uv), t)" and "st = 0"
  shows "if uv then user_verified x perm rp cdh param s else param = []"
  using assms hmac_matches_16 [of proto param "x_hmac x (cp_token s) cdh"]
  by (auto simp: verify_client_data_def user_verified_def split: if_splits)

lemma user_verified_token:
  "token_state t = token_state s \<Longrightarrow> user_verified x perm rp cdh param t = user_verified x perm rp cdh param s"
  by (simp add: user_verified_def token_state_def)

text \<open>The signature of the key in a slot, as the secure element gives it in some state.\<close>

definition slot_signs :: "'e fido2_hw \<Rightarrow> nat \<Rightarrow> bytes \<Rightarrow> bytes \<Rightarrow> 'e fido2_store \<Rightarrow> bool" where
  "slot_signs h slot msg sig st \<longleftrightarrow> (\<exists>e. Some sig =
     (if cr_curve (fs_creds st ! slot) = CDC_CURVE_ED25519
      then fst (hw_eddsaSign h (ecc_slot_for_logical st slot) msg e)
      else fst (hw_ecdsaSign h (ecc_slot_for_logical st slot) msg e)))"

lemma sign_raw_signs:
  assumes "fido2_storage_sign_raw h slot msg st = (Some sig, u)"
  shows "slot_signs h slot msg sig st"
  unfolding slot_signs_def
  using assms
  by (intro exI [of _ "fs_hw st"])
    (auto simp: fido2_storage_sign_raw_def raw_ecdsa_def on_hw_def split: if_splits prod.splits option.splits)

lemma slot_signs_cache:
  "cache_of u = cache_of st \<Longrightarrow> slot_signs h slot msg sig u = slot_signs h slot msg sig st"
  using cache_of_slots [of u st] by (simp add: slot_signs_def)

lemma increment_used:
  assumes "fido2_storage_increment_sign_count h slot st = (count, u)" and "fido2_storage_slot_used slot st"
    and "slot < length (fs_creds st)"
  shows "count = cr_sign_count (fs_creds st ! slot) + 1"
    "cache_of u = cache_of (set_cred slot (\<lambda>c. c\<lparr>cr_sign_count := count\<rparr>) st)"
proof -
  let ?c = "cr_sign_count (fs_creds st ! slot) + 1"
  let ?s1 = "set_cred slot (\<lambda>c. c\<lparr>cr_sign_count := cr_sign_count c + 1\<rparr>) st"
  have n: "cr_sign_count (fs_creds ?s1 ! slot) = ?c" using assms(3) by simp
  obtain r s2 where r: "read_rmem_credential h slot ?s1 = (r, s2)" by fastforce
  show c: "count = ?c"
    using assms(1,2) n r by (auto simp: fido2_storage_increment_sign_count_def Let_def split: option.splits)
  have "cache_of u = cache_of ?s1"
    using assms(1,2) r read_rmem [OF r] cache_of_same [OF same_cache_write [of s2 h slot]]
    by (auto simp: fido2_storage_increment_sign_count_def Let_def split: option.splits)
  moreover have "set_cred slot (\<lambda>c. c\<lparr>cr_sign_count := cr_sign_count c + 1\<rparr>) st = set_cred slot (\<lambda>c. c\<lparr>cr_sign_count := count\<rparr>) st"
    using c by (simp add: set_cred_def)
  ultimately show "cache_of u = cache_of (set_cred slot (\<lambda>c. c\<lparr>cr_sign_count := count\<rparr>) st)" by simp
qed

lemma signs_counted:
  assumes "slot < length (fs_creds st)"
  shows "slot_signs h slot msg sig (set_cred slot (\<lambda>c. c\<lparr>cr_sign_count := n\<rparr>) st) = slot_signs h slot msg sig st"
  using assms by (simp add: slot_signs_def)

lemma on_store_Some:
  "on_store f s = (a, t) \<Longrightarrow> \<exists>u. f (f_store s) = (a, u) \<and> t = s\<lparr>f_store := u\<rparr>"
  by (auto simp: on_store_def split: prod.splits)

text \<open>What an assertion with the credential in \<open>slot\<close> is.\<close>

definition asserted ::
    "'e fido2_env \<Rightarrow> ga_params \<Rightarrow> bool \<Rightarrow> assertion_creds \<Rightarrow> nat \<Rightarrow> 'e fido2_store \<Rightarrow> bytes \<Rightarrow> 'e fido2_store \<Rightarrow> nat \<Rightarrow> bool" where
  "asserted x p uv creds slot st reply st' cap \<longleftrightarrow>
     (\<exists>nonce sig info.
       let count = cr_sign_count (fs_creds st ! slot) + 1;
           ext = (if ac_appid_used creds then ctap2_build_appid_extension 32 else []);
           flags = (if uv then (if gp_option_up p then 0x01 else 0x00) OR 0x04 else if gp_option_up p then 0x01 else 0x00);
           auth_data = build_authenticator_data (ac_hash creds) flags count [] ext in
       reply = ga_build_response (cred_id_of slot nonce) auth_data sig info (ac_include_user creds)
         (of_nat (length (ac_slots creds))) cap \<and>
       slot_signs (x_hw x) slot (auth_data @ gp_client_data_hash p) sig st \<and> count \<noteq> 0 \<and>
       cache_of st' = cache_of (set_cred slot (\<lambda>c. c\<lparr>cr_sign_count := count\<rparr>) st))"

lemma first_assertion_sound:
  fixes s :: "('e, 'm) ctap2_scheme"
  assumes "first_assertion x p creds uv cap s = (reply, t)" and "hd reply = 0"
    and "ac_slots creds = slot # slots" and "fido2_storage_slot_used slot (f_store s)"
    and "slot < length (fs_creds (f_store s))"
  shows "asserted x p uv creds slot (f_store s) reply (f_store t) cap"
proof -
  let ?s = "save_assertion_state p creds s"
  have slot: "ga_creds ?s ! 0 = slot" using assms(3) by (simp add: save_assertion_state_def)
  have st: "f_store ?s = f_store s" "ga_include_user ?s = ac_include_user creds"
      "ga_count ?s = of_nat (length (ac_slots creds))" by (simp_all add: save_assertion_state_def)
  obtain c s1 where 1: "on_store (fido2_storage_get_credential (x_hw x) slot) ?s = (c, s1)" by fastforce
  then obtain cred where c: "c = Some cred"
    using assms(1,2) slot by (cases c) (auto simp: first_assertion_def Let_def)
  obtain count s2 where 2: "on_store (fido2_storage_increment_sign_count (x_hw x) slot) s1 = (count, s2)" by fastforce
  have "count \<noteq> 0"
    using assms(1,2) slot 1 2 c by (auto simp: first_assertion_def Let_def split: if_splits)
  define ext where "ext = (if ac_appid_used creds then ctap2_build_appid_extension 32 else [])"
  define flags :: byte where
    "flags = (if uv then (if gp_option_up p then 0x01 else 0x00) OR 0x04 else if gp_option_up p then 0x01 else 0x00)"
  define ad where "ad = build_authenticator_data (ac_hash creds) flags count [] ext"
  obtain g s3 where 3: "ga_sign_assertion x slot ad (gp_client_data_hash p) s2 = (g, s3)" by fastforce
  then obtain sig where g: "g = Some sig"
    using assms(1,2) slot 1 2 c \<open>count \<noteq> 0\<close>
    by (cases g) (auto simp: first_assertion_def Let_def ad_def flags_def ext_def)
  obtain i s4 where 4: "on_store (fido2_storage_get_cred_id (x_hw x) slot) s3 = (i, s4)" by fastforce
  then obtain cid where i: "i = Some cid"
    using assms(1,2) slot 1 2 c \<open>count \<noteq> 0\<close> 3 g
    by (cases i) (auto simp: first_assertion_def Let_def ad_def flags_def ext_def)
  have saved: "ga_include_user s4 = ac_include_user creds" "ga_count s4 = of_nat (length (ac_slots creds))"
    using st(2,3) on_store_Some [OF 1] on_store_Some [OF 2] on_store_Some [OF 4] 3
    by (auto simp: ga_sign_assertion_def split: if_splits dest!: on_store_Some)
  have out: "reply = ga_build_response cid ad sig cred (ac_include_user creds) (of_nat (length (ac_slots creds))) cap"
      "t = s4 \<or> t = fido2_increment_auth_counter x s4"
    using assms(1,2) slot 1 2 c \<open>count \<noteq> 0\<close> 3 g 4 i saved
    by (auto simp: first_assertion_def Let_def ad_def flags_def ext_def split: if_splits)
  have c1: "cache_of (f_store s1) = cache_of (f_store s)"
    using cached_store [OF reads_store(1) [OF 1]] st(1) by simp
  obtain u where u: "fido2_storage_increment_sign_count (x_hw x) slot (f_store s1) = (count, u)" "f_store s2 = u"
    using on_store_Some [OF 2] by auto
  have used: "fido2_storage_slot_used slot (f_store s1)" "slot < length (fs_creds (f_store s1))"
      "fs_creds (f_store s1) = fs_creds (f_store s)"
    using assms(4,5) cache_of_slots [OF c1] by simp_all
  note inc = increment_used [OF u(1) used(1,2)]
  have count: "count = cr_sign_count (fs_creds (f_store s) ! slot) + 1" using inc(1) used(3) by simp
  have "cache_of (set_cred slot (\<lambda>c. c\<lparr>cr_sign_count := count\<rparr>) (f_store s1)) =
      cache_of (set_cred slot (\<lambda>c. c\<lparr>cr_sign_count := count\<rparr>) (f_store s))"
    using c1 by (simp add: cache_of_def set_cred_def)
  with inc(2) u(2) have c2: "cache_of (f_store s2) = cache_of (set_cred slot (\<lambda>c. c\<lparr>cr_sign_count := count\<rparr>) (f_store s))"
    by simp
  have "on_store (fido2_storage_sign_raw (x_hw x) slot (ad @ gp_client_data_hash p)) s2 = (Some sig, s3)"
    using 3 g by (simp add: ga_sign_assertion_def split: if_splits)
  from on_store_Some [OF this] have "slot_signs (x_hw x) slot (ad @ gp_client_data_hash p) sig (f_store s2)"
    using sign_raw_signs by blast
  then have sig: "slot_signs (x_hw x) slot (ad @ gp_client_data_hash p) sig (f_store s)"
    using slot_signs_cache [OF c2] signs_counted [OF assms(5)] by simp
  have "cached t = cached s2"
    using out(2) reads_sign_assertion [OF 3] reads_store(2) [OF 4] reads_increment [of x s4] by auto
  then have c4: "cache_of (f_store t) = cache_of (set_cred slot (\<lambda>c. c\<lparr>cr_sign_count := count\<rparr>) (f_store s))"
    using c2 cached_store by metis
  obtain nonce where "cid = cred_id_of slot nonce"
    using on_store_Some [OF 4] i
    by (auto simp: fido2_storage_get_cred_id_def split: if_splits prod.splits option.splits)
  with out(1) sig c4 count \<open>count \<noteq> 0\<close> show ?thesis
    unfolding asserted_def Let_def ad_def flags_def ext_def by blast
qed

section \<open>A credential to use\<close>

text \<open>The sample badge with one discoverable credential, read from a chip that holds its record.\<close>

definition sample_record :: stored_cred where
  "sample_record = new_stored [0x61] (replicate 32 9) [1, 2] 2 [0x62] True 0 1 (replicate 16 7)"

definition enrolled :: "(u16 \<Rightarrow> bytes option) fido2_env" where
  "enrolled = sample\<lparr>x_hw := plain_hw\<lparr>hw_rmemRead := (\<lambda>n e. (Some (stored_bytes sample_record), e))\<rparr>\<rparr>"

definition enrolled_state :: "(u16 \<Rightarrow> bytes option) ctap2" where
  "enrolled_state = sample_state\<lparr>f_store := plain_store\<lparr>fs_initialized := True, fs_counter_loaded := True,
     fs_cred_count := 1, fs_creds := \<lparr>cr_valid = True, cr_rp_id_hash = replicate 32 9, cr_rp_id = [0x61],
       cr_user_name = [0x62], cr_user_id = [1, 2] @ replicate 62 0, cr_user_id_len = 2, cr_sign_count = 0,
       cr_resident = True, cr_protect = 0, cr_curve = 1\<rparr> # replicate 31 zero_cred\<rparr>\<rparr>"

definition assertion_request :: bytes where
  "assertion_request = [0xA2, 0x01, 0x61, 0x61, 0x02, 0x58, 0x20] @ replicate 32 4"

definition assertion_params :: ga_params where
  "assertion_params = ga_params_init\<lparr>gp_rp_id := [0x61], gp_rp_id_hash := replicate 32 9, gp_has_rp := True,
     gp_client_data_hash := replicate 32 4, gp_has_client_data := True\<rparr>"

lemma enrolled_parse: "ga_parse_params enrolled assertion_request s = (Inr assertion_params, s)"
proof (rule prod_eqI)
  have "P (snd (ga_parse_params enrolled assertion_request s)) \<longleftrightarrow> P s" for P by code_simp
  from this [of "\<lambda>t. t = s"] show "snd (ga_parse_params enrolled assertion_request s) = snd (Inr assertion_params, s)"
    by simp
  have "fst (ga_parse_params enrolled assertion_request s) = Inr assertion_params" by code_simp
  then show "fst (ga_parse_params enrolled assertion_request s) = fst (Inr assertion_params, s)" by simp
qed

lemma enrolled_read: "read_rmem_credential (x_hw enrolled) i s = (Some sample_record, s)"
proof -
  have "stored_ok sample_record"
    by (simp add: stored_ok_def sample_record_def new_stored_def char_field_def cstr_def)
  from stored_roundtrip [OF this] show ?thesis
    by (simp add: read_rmem_credential_def on_hw_def enrolled_def plain_hw_def)
qed

lemmas enrolled_defs = enrolled_def sample_def plain_hw_def enrolled_state_def sample_state_def plain_store_def

lemma enrolled_used: "fido2_storage_slot_used i (f_store enrolled_state) \<longleftrightarrow> i = 0"
proof -
  have "ecc_count (f_store enrolled_state) = 4" "slot_range_valid (f_store enrolled_state)"
    by (simp_all add: enrolled_defs ecc_count_def slot_range_valid_def)
  then show ?thesis
    by (auto simp: fido2_storage_slot_used_def slot_logical_valid_def enrolled_defs zero_cred_def
        nth_Cons' split: if_splits)
qed

lemma enrolled_get:
  "\<exists>info. on_store (fido2_storage_get_credential (x_hw enrolled) 0) enrolled_state = (Some info, enrolled_state) \<and>
    ci_rp_id_hash info = replicate 32 9 \<and> ci_protect info = 0"
  by (simp add: on_store_def fido2_storage_get_credential_def fido2_storage_get_user_def enrolled_used enrolled_read Let_def)
    (simp add: enrolled_defs)

lemma enrolled_always_uv:
  "on_store (fido2_storage_get_always_uv (x_hw enrolled)) enrolled_state = (False, enrolled_state)"
  by (simp add: on_store_def fido2_storage_get_always_uv_def on_hw_def enrolled_defs)

definition enrolled_creds :: assertion_creds where
  "enrolled_creds = \<lparr>ac_slots = [0], ac_include_user = True, ac_appid_used = False, ac_hash = replicate 32 9\<rparr>"

lemma enrolled_find: "ga_find_credentials enrolled assertion_params False enrolled_state = (enrolled_creds, enrolled_state)"
proof -
  have c: "cache_slots (f_store enrolled_state) = [0, 1, 2, 3]"
    by (simp add: cache_slots_def ecc_count_def slot_range_valid_def enrolled_defs upt_rec)
  have "fido2_storage_find_by_rp_resident (replicate 32 9) 32 (f_store enrolled_state) = [0]"
    by (simp add: fido2_storage_find_by_rp_resident_def c) (simp add: enrolled_defs zero_cred_def)
  moreover have "ga_cred_protect_allows enrolled 0 False False enrolled_state = (True, enrolled_state)"
    using enrolled_get by (auto simp: ga_cred_protect_allows_def)
  ultimately show ?thesis
    by (simp add: ga_find_credentials_def ga_candidates_def assertion_params_def ga_params_init_def enrolled_creds_def Let_def)
qed

lemma enrolled_wait:
  "wait_for_user_presence rp action user enrolled_state = (True, enrolled_state)"
  by (simp add: wait_for_user_presence_def fido2_request_user_presence_def enrolled_defs)

text \<open>An upper bound of what a call writes, and that a buffer of that size is enough.\<close>

fun call_size :: "encode_call \<Rightarrow> nat" where
  "call_size (EBytes d) = 9 + length d"
| "call_size (EText d) = 9 + length d"
| "call_size _ = 9"

lemma head_length: "length (cbor_head m v) \<le> 9"
  by (simp add: cbor_head_def Let_def)

lemma encoding_length: "length (encoding c) \<le> call_size c"
  by (cases c) (use head_length in \<open>auto simp: enc_int_def enc_string_def\<close>)

lemma calls_fit:
  assumes "(\<Sum>c\<leftarrow>cs. call_size c) \<le> n"
  shows "\<not> w_error (foldl encode (cbor_writer_init n) cs)"
proof -
  have "length (concat (map encoding cs)) \<le> (\<Sum>c\<leftarrow>cs. call_size c)"
    by (simp add: length_concat o_def sum_list_mono encoding_length)
  with assms writes_encode_all [of "cbor_writer_init n" cs] show ?thesis
    by (auto simp: cbor_writer_init_def cw.writes_def cw.fits_def split: if_splits)
qed

lemma assertion_reply_fits:
  assumes "length cid \<le> 64" and "length ad \<le> 64" and "length sig \<le> 64" and "length (ci_user_id info) \<le> 64"
    and "length (ci_user_name info) \<le> 32" and "1000 \<le> cap"
  shows "hd (ga_build_response cid ad sig info u n cap) = 0"
proof -
  have "length (cstr (ci_user_name info)) \<le> 32"
    using assms(5) length_takeWhile_le le_trans unfolding cstr_def by blast
  with assms have "\<not> w_error (foldl encode (response_writer cap)
     ([EMap (3 + (if u then 1 else 0) + (if n > 1 then 1 else 0)), EUint 0x01] @ descriptor_calls cid @
      [EUint 0x02, EBytes ad, EUint 0x03, EBytes sig] @ (if u then EUint 0x04 # user_calls info else []) @
      (if n > 1 then [EUint 0x05, EUint (ucast n)] else [])))"
    unfolding response_writer_def
    by (intro calls_fit) (auto simp: descriptor_calls_def user_calls_def ascii_def Let_def)
  then show ?thesis by (simp add: ga_build_response_def checked_response_def ok_response_def)
qed

lemma enrolled_first: "hd (fst (first_assertion enrolled assertion_params enrolled_creds False 2048 enrolled_state)) = 0"
proof -
  let ?s = "save_assertion_state assertion_params enrolled_creds enrolled_state"
  let ?st = "f_store enrolled_state"
  have s: "f_store ?s = ?st" "ga_creds ?s ! 0 = 0"
    by (simp_all add: save_assertion_state_def enrolled_creds_def)
  obtain info where g: "fido2_storage_get_credential (x_hw enrolled) 0 ?st = (Some info, ?st)"
      "length (ci_user_id info) \<le> 64" "length (ci_user_name info) \<le> 32"
    by (simp add: fido2_storage_get_credential_def fido2_storage_get_user_def enrolled_used enrolled_read Let_def
        sample_record_def new_stored_def char_field_def cstr_def)
  obtain count u where i: "fido2_storage_increment_sign_count (x_hw enrolled) 0 ?st = (count, u)" by fastforce
  have "count = 1" "cache_of u = cache_of (set_cred 0 (\<lambda>c. c\<lparr>cr_sign_count := count\<rparr>) ?st)"
    using increment_used [OF i] enrolled_used by (simp_all add: enrolled_defs)
  then have u: "count = 1" "fido2_storage_slot_used 0 u" "cr_curve (fs_creds u ! 0) = 1"
    using cache_of_slots [of u "set_cred 0 (\<lambda>c. c\<lparr>cr_sign_count := count\<rparr>) ?st"]
    by (simp_all add: fido2_storage_slot_used_def) (simp_all add: enrolled_defs slot_logical_valid_def ecc_count_def slot_range_valid_def)
  have hw: "hw_present (x_hw enrolled)" "\<And>k m e. hw_ecdsaSign (x_hw enrolled) k m e = (Some (replicate 64 6), e)"
    by (simp_all add: enrolled_def plain_hw_def)
  have sign: "fido2_storage_sign_raw (x_hw enrolled) 0 m u = (Some (replicate 64 6), u)" for m
    using u hw by (simp add: fido2_storage_sign_raw_def raw_ecdsa_def on_hw_def)
  have cid: "fido2_storage_get_cred_id (x_hw enrolled) 0 u = (Some (cred_id_of 0 (replicate 16 7)), u)"
    using u by (simp add: fido2_storage_get_cred_id_def enrolled_read sample_record_def new_stored_def)
  have ad: "length (build_authenticator_data (replicate 32 9) fl c [] []) = 37" for fl c
    by (simp add: build_authenticator_data_def counter_bytes_def)
  show ?thesis
    using assertion_reply_fits [of "cred_id_of 0 (replicate 16 7)"
        "build_authenticator_data (replicate 32 9) 1 1 [] []" "replicate 64 6" info 2048 True 1] g(2,3)
    by (simp add: first_assertion_def Let_def s on_store_def g(1) i u(1) ga_sign_assertion_def sign cid ad
        enrolled_creds_def assertion_params_def ga_params_init_def cred_id_of_def save_assertion_state_def)
qed

lemma enrolled_ok: "store_ok (f_store enrolled_state)"
proof -
  let ?st = "f_store enrolled_state"
  have c: "fs_creds ?st = hd (fs_creds ?st) # replicate 31 zero_cred" "cr_valid (hd (fs_creds ?st))"
      "cred_ok (hd (fs_creds ?st))" "fs_cred_count ?st = 1" "ecc_count ?st = 4"
    by (simp_all add: enrolled_defs cred_ok_def ecc_count_def slot_range_valid_def)
  have nth: "fs_creds ?st ! i = (if i = 0 then hd (fs_creds ?st) else zero_cred)" if "i < 32" for i
    by (subst c(1)) (use that in \<open>simp add: nth_Cons'\<close>)
  have f: "filter cr_valid (fs_creds ?st) = [hd (fs_creds ?st)]"
    by (subst c(1)) (simp add: c(2) zero_cred_def)
  have z: "\<not> cr_valid zero_cred" "cred_ok zero_cred" by (simp_all add: zero_cred_def cred_ok_def)
  have "length (fs_creds ?st) = 32" by (subst c(1)) simp
  then show ?thesis
    unfolding store_ok_def f using c(2-5) nth z by (auto split: if_splits)
qed

lemma enrolled_succeeds: "hd (fst (ctap2_get_assertion enrolled assertion_request 2048 enrolled_state)) = 0"
proof -
  have p: "gp_has_rp assertion_params" "gp_has_client_data assertion_params" "\<not> gp_option_uv assertion_params"
      "gp_pin_auth assertion_params = []" "ac_slots enrolled_creds = [0]"
    by (simp_all add: assertion_params_def ga_params_init_def enrolled_creds_def)
  show ?thesis
    using enrolled_first
    by (simp add: ctap2_get_assertion_def enrolled_parse ga_verify_pin_auth_def verify_client_data_def
        enrolled_always_uv enrolled_find enrolled_wait p Let_def)
qed

section \<open>Properties\<close>



end
