(* ===== verification/Ctap2_Blobs.thy ===== *)
theory Ctap2_Blobs
  imports Ctap2_Auth
begin

text \<open>
  Writing the large-blob array: fragments are put together in the order of their offsets, and what is
  stored is the whole array, after its checksum was compared.
\<close>

section \<open>A write in progress\<close>

definition in_progress :: "bytes \<Rightarrow> nat \<Rightarrow> ('e, 'm) ctap2_scheme \<Rightarrow> bool" where
  "in_progress data n s \<longleftrightarrow> lb_active (bl_session s) \<and> lb_expected (bl_session s) = of_nat n \<and>
     lb_received (bl_session s) = of_nat (length data) \<and> length data < n \<and> 17 \<le> n \<and> n \<le> 1024 \<and>
     length (bl_buf s) = 1024 \<and> take (length data) (bl_buf s) = data"

text \<open>The array is whole: its last 16 bytes are the checksum of the others, and it is stored.\<close>

definition stored_whole ::
    "'e fido2_env \<Rightarrow> bytes \<Rightarrow> 'e fido2_store \<Rightarrow> ('e, 'm) ctap2_scheme \<Rightarrow> bool" where
  "stored_whole x data st t \<longleftrightarrow>
     drop (length data - 16) data = take 16 (x_sha256 x (take (length data - 16) data)) \<and>
     fido2_storage_largeblob_set (x_hw x) data st = (True, f_store t) \<and> bl_session t = lb_reset \<and>
     length (bl_buf t) = 1024"

lemma append_step:
  assumes "lb_append (of_nat (length data)) d (bl_session s) (bl_buf s) = (res, l, buf)" and "lb_status res = 0"
    and "lb_active (bl_session s)" and "lb_expected (bl_session s) = of_nat n"
    and "lb_received (bl_session s) = of_nat (length data)"
    and "length data \<le> n" and "n \<le> 1024" and "length (bl_buf s) = 1024" and "take (length data) (bl_buf s) = data"
    and "length d \<le> 1024"
  shows "length (data @ d) \<le> n \<and> lb_active l \<and> lb_expected l = of_nat n \<and> lb_received l = of_nat (length (data @ d)) \<and>
    length buf = 1024 \<and> take (length (data @ d)) buf = data @ d"
proof -
  have u: "unat (of_nat (length data) :: u32) = length data" "unat (of_nat (length data) :: u16) = length data"
      "unat (of_nat (length d) :: u16) = length d" "unat (of_nat n :: u16) = n"
    using assms(6,7,10) by (simp_all add: unat_of_nat_u32 unat_of_nat_u16)
  have le: "\<not> (of_nat (length data) :: u32) + ucast (of_nat (length d) :: u16) > ucast (of_nat n :: u16)"
    and res: "l = (bl_session s)\<lparr>lb_received := lb_received (bl_session s) + of_nat (length d)\<rparr>"
      "buf = take (length data) (bl_buf s) @ d @ drop (length data + length d) (bl_buf s)"
    using assms(1-5) u by (auto simp: lb_append_def Let_def lb_status_def split: if_splits)
  have "unat ((of_nat (length data) :: u32) + ucast (of_nat (length d) :: u16)) = length data + length d"
    using u assms(6,7,10) by (simp add: unat_word_ariths unat_ucast_up)
  moreover have "unat (ucast (of_nat n :: u16) :: u32) = n" using u by (simp add: unat_ucast_up)
  ultimately have "length data + length d \<le> n" using le by (simp add: word_less_nat_alt)
  with res assms(3-5,7-9) show ?thesis by simp
qed

lemma finish_step:
  assumes "lb_finish x s = ([0], t)" and "lb_active (bl_session s)" and "lb_expected (bl_session s) = of_nat n"
    and "lb_received (bl_session s) = of_nat (length data)" and "length data \<le> n" and "17 \<le> n" and "n \<le> 1024"
    and "length (bl_buf s) = 1024" and "take (length data) (bl_buf s) = data"
  shows "if length data < n then in_progress data n t \<and> f_store t = f_store s
    else length data = n \<and> stored_whole x data (f_store s) t"
proof -
  have u: "unat (of_nat (length data) :: u16) = length data" "unat (of_nat n :: u16) = n"
    using assms(5,7) by (simp_all add: unat_of_nat_u16)
  have c: "lb_complete (bl_session s) \<longleftrightarrow> length data = n"
    using assms(2-4) u by (metis lb_complete_def)
  show ?thesis
  proof (cases "length data = n")
    case True
    with c assms(1,3,9) u show ?thesis
      by (auto simp: lb_finish_def Let_def stored_whole_def on_store_def assms(8) split: if_splits prod.splits)
  next
    case False
    with c assms show ?thesis by (auto simp: lb_finish_def in_progress_def)
  qed
qed

lemma authorise_keeps:
  "lb_authorise x p s = (0, t) \<Longrightarrow> bl_session t = bl_session s \<and> bl_buf t = bl_buf s \<and> f_store t = f_store s"
  by (auto simp: lb_authorise_def Let_def split: prod.splits bool.splits if_splits dest!: on_pins_available)

text \<open>A fragment that is accepted, after the session was begun or found.\<close>

lemma accepted_fragment:
  assumes "large_blobs_set x p s = ([0], t)"
  shows "\<exists>u l buf. lb_start p s = (0, u) \<and>
    lb_append (ucast (lp_offset p)) (lp_chunk p) (bl_session u) (bl_buf u) = (Lb_Ok, l, buf) \<and>
    (\<exists>v. f_store v = f_store u \<and> bl_session v = l \<and> bl_buf v = buf \<and> lb_finish x v = ([0], t))"
proof -
  obtain st u where 1: "lb_start p s = (st, u)" by fastforce
  obtain st' v where 2: "lb_authorise x p u = (st', v)" by fastforce
  obtain res l buf where 3: "lb_append (ucast (lp_offset p)) (lp_chunk p) (bl_session v) (bl_buf v) = (res, l, buf)"
    by (metis prod.exhaust)
  have ok: "st = 0" "st' = 0" "res = Lb_Ok"
    using assms 1 2 3 by (auto simp: large_blobs_set_def lb_status_def split: if_splits lb_result.splits)
  then have fin: "lb_finish x (v\<lparr>bl_session := l, bl_buf := buf\<rparr>) = ([0], t)"
    using assms 1 2 3 by (simp add: large_blobs_set_def lb_status_def)
  have k: "bl_session v = bl_session u" "bl_buf v = bl_buf u" "f_store v = f_store u"
    using authorise_keeps [of x p u v] 2 ok(2) by auto
  show ?thesis
    using 1 3 ok k fin by (intro exI [of _ u] exI [of _ l] exI [of _ buf]) (auto intro!: exI [of _ "v\<lparr>bl_session := l, bl_buf := buf\<rparr>"])
qed

lemma start_first:
  assumes "lb_start p s = (0, u)" and "lp_offset p = 0"
  shows "let n = unat (ucast (lp_total_len p) :: u32) in 17 \<le> n \<and> n \<le> 1024 \<and> lb_active (bl_session u) \<and>
    lb_expected (bl_session u) = of_nat n \<and> lb_received (bl_session u) = 0 \<and> bl_buf u = bl_buf s \<and> f_store u = f_store s"
proof -
  let ?t = "ucast (lp_total_len p) :: u32"
  obtain res l where b: "lb_begin 1024 ?t (bl_session s) = (res, l)" by fastforce
  have u: "res = Lb_Ok" "u = s\<lparr>bl_session := l\<rparr>"
    using assms b by (auto simp: lb_start_def lb_status_def split: if_splits lb_result.splits)
  then have t: "\<not> ?t > 1024" "\<not> ?t < 17" "l = (bl_session s)\<lparr>lb_capacity := 1024, lb_expected := ucast ?t, lb_received := 0, lb_active := True\<rparr>"
    using b by (auto simp: lb_begin_def Let_def split: if_splits)
  moreover have "(of_nat (unat ?t) :: u16) = ucast ?t" by simp
  ultimately show ?thesis
    using u(2) by (simp add: Let_def word_less_nat_alt not_less)
qed

lemma start_later:
  assumes "lb_start p s = (0, u)" and "lp_offset p \<noteq> 0"
  shows "u = s \<and> lp_offset p = ucast (lb_received (bl_session s))"
  using assms by (auto simp: lb_start_def split: if_splits)

definition fragment_done :: "'e fido2_env \<Rightarrow> bytes \<Rightarrow> nat \<Rightarrow> 'e fido2_store \<Rightarrow> ('e, 'm) ctap2_scheme \<Rightarrow> bool" where
  "fragment_done x data n st t \<longleftrightarrow>
     (if length data < n then in_progress data n t \<and> f_store t = st else length data = n \<and> stored_whole x data st t)"

lemma first_fragment:
  assumes "large_blobs_set x p s = ([0], t)" and "lp_offset p = 0" and "length (lp_chunk p) \<le> 1024"
    and "length (bl_buf s) = 1024"
  shows "fragment_done x (lp_chunk p) (unat (ucast (lp_total_len p) :: u32)) (f_store s) t"
proof -
  obtain u l buf v where f: "lb_start p s = (0, u)"
      "lb_append (ucast (lp_offset p)) (lp_chunk p) (bl_session u) (bl_buf u) = (Lb_Ok, l, buf)"
      "f_store v = f_store u" "bl_session v = l" "bl_buf v = buf" "lb_finish x v = ([0], t)"
    using accepted_fragment [OF assms(1)] by blast
  note st = start_first [OF f(1) assms(2), unfolded Let_def]
  have a: "lb_append (of_nat (length ([] :: bytes))) (lp_chunk p) (bl_session u) (bl_buf u) = (Lb_Ok, l, buf)"
    using f(2) assms(2) by simp
  note app = append_step [OF a, of "unat (ucast (lp_total_len p) :: u32)", simplified lb_status_def lb_result.case]
  show ?thesis
    unfolding fragment_done_def
    using finish_step [OF f(6), of "unat (ucast (lp_total_len p) :: u32)" "lp_chunk p"] app st f(3-5) assms(3,4)
    by (simp split: if_splits)
qed

lemma later_fragment:
  assumes "large_blobs_set x p s = ([0], t)" and "lp_offset p \<noteq> 0" and "length (lp_chunk p) \<le> 1024"
    and "in_progress data n s"
  shows "fragment_done x (data @ lp_chunk p) n (f_store s) t"
proof -
  obtain u l buf v where f: "lb_start p s = (0, u)"
      "lb_append (ucast (lp_offset p)) (lp_chunk p) (bl_session u) (bl_buf u) = (Lb_Ok, l, buf)"
      "f_store v = f_store u" "bl_session v = l" "bl_buf v = buf" "lb_finish x v = ([0], t)"
    using accepted_fragment [OF assms(1)] by blast
  note st = start_later [OF f(1) assms(2)]
  note ip = assms(4) [unfolded in_progress_def]
  have "(ucast (lp_offset p) :: u32) = of_nat (length data)"
  proof -
    have up: "(ucast (ucast w :: u64) :: u32) = ucast w" for w :: u16
      by (rule bit_word_eqI) (auto simp: bit_simps dest: bit_imp_le_length)
    have "unat (of_nat (length data) :: u16) = length data" using ip by (simp add: unat_of_nat_u16)
    moreover have "unat (of_nat (length data) :: u32) = length data" using ip by (simp add: unat_of_nat_u32)
    ultimately have "unat (ucast (of_nat (length data) :: u16) :: u32) = unat (of_nat (length data) :: u32)"
      by (simp add: unat_ucast_up)
    then have "(ucast (of_nat (length data) :: u16) :: u32) = of_nat (length data)" by (simp only: word_unat_eq_iff)
    with st ip show ?thesis by (simp add: up)
  qed
  then have a: "lb_append (of_nat (length data)) (lp_chunk p) (bl_session s) (bl_buf s) = (Lb_Ok, l, buf)"
    using f(2) st by simp
  have "lb_status Lb_Ok = 0" by (simp add: lb_status_def)
  note app = append_step [OF a this, of n]
  show ?thesis
    unfolding fragment_done_def
    using finish_step [OF f(6), of n "data @ lp_chunk p"] app st f(3-5) ip assms(3) by (simp split: if_splits)
qed

section \<open>Properties\<close>

lemma fragment_done_states:
  assumes "fragment_done x data n st t"
  shows "if length data < n then take (length data) (bl_buf t) = data \<and> lb_active (bl_session t) \<and>
      unat (lb_received (bl_session t)) = length data \<and> f_store t = st
    else length data = n \<and> drop (n - 16) data = take 16 (x_sha256 x (take (n - 16) data)) \<and>
      fido2_storage_largeblob_set (x_hw x) data st = (True, f_store t) \<and> bl_session t = lb_reset"
  using assms by (auto simp: fragment_done_def in_progress_def stored_whole_def unat_of_nat_u16)

text \<open>Fragments sent one after the other, all of them accepted.\<close>

fun write_fragments :: "'e fido2_env \<Rightarrow> lb_params list \<Rightarrow> ('e, 'm) ctap2_scheme \<Rightarrow> ('e, 'm) ctap2_scheme option" where
  "write_fragments x [] s = Some s"
| "write_fragments x (p # ps) s =
     (case large_blobs_set x p s of (reply, s) \<Rightarrow> if reply = [0] then write_fragments x ps s else None)"

lemma later_fragments:
  assumes "write_fragments x ps s = Some t" and "\<forall>p \<in> set ps. lp_offset p \<noteq> 0 \<and> length (lp_chunk p) \<le> 1024"
    and "fragment_done x data n st s"
  shows "fragment_done x (data @ concat (map lp_chunk ps)) n st t"
  using assms
proof (induction ps arbitrary: s data)
  case (Cons p ps)
  obtain reply u where r: "large_blobs_set x p s = (reply, u)" by fastforce
  with Cons.prems(1) have ok: "large_blobs_set x p s = ([0], u)" "write_fragments x ps u = Some t"
    by (auto split: if_splits)
  have "in_progress data n s"
  proof (rule ccontr)
    assume "\<not> in_progress data n s"
    with Cons.prems(3) have "\<not> lb_active (bl_session s)"
      by (auto simp: fragment_done_def stored_whole_def lb_reset_def split: if_splits)
    moreover obtain v where "lb_start p s = (0, v)" using accepted_fragment [OF ok(1)] by blast
    ultimately show False using Cons.prems(2) by (auto simp: lb_start_def split: if_splits)
  qed
  moreover from this Cons.prems(3) have "f_store s = st"
    by (simp add: fragment_done_def in_progress_def split: if_splits)
  ultimately have "fragment_done x (data @ lp_chunk p) n st u"
    using later_fragment [OF ok(1)] Cons.prems(2) by auto
  from Cons.IH [OF ok(2) _ this] Cons.prems(2) show ?case by simp
qed simp

text \<open>
  C14. A large-blob array is written whole or not at all: when a first fragment, at offset 0, and any
  further ones are all accepted, the array so far is their chunks put together in that order, within the
  announced length; until it is complete nothing is stored and the session continues, and the fragment
  that completes it stores exactly these bytes, whose last 16 are the checksum of the others, and ends
  the session.
\<close>

theorem large_blob_assembled:
  assumes "write_fragments x (p # ps) s = Some t" and "lp_offset p = 0" and "\<forall>q \<in> set ps. lp_offset q \<noteq> 0"
    and "\<forall>q \<in> set (p # ps). length (lp_chunk q) \<le> 1024" and "length (bl_buf s) = 1024"
  shows "let data = concat (map lp_chunk (p # ps)); n = unat (ucast (lp_total_len p) :: u32) in
    if length data < n then take (length data) (bl_buf t) = data \<and> lb_active (bl_session t) \<and>
      unat (lb_received (bl_session t)) = length data \<and> f_store t = f_store s
    else length data = n \<and> drop (n - 16) data = take 16 (x_sha256 x (take (n - 16) data)) \<and>
      fido2_storage_largeblob_set (x_hw x) data (f_store s) = (True, f_store t) \<and> bl_session t = lb_reset"
proof -
  let ?data = "concat (map lp_chunk (p # ps))" and ?n = "unat (ucast (lp_total_len p) :: u32)"
  obtain reply u where "large_blobs_set x p s = (reply, u)" by fastforce
  with assms(1) have ok: "large_blobs_set x p s = ([0], u)" "write_fragments x ps u = Some t"
    by (auto split: if_splits)
  have "fragment_done x ?data ?n (f_store s) t"
    using later_fragments [OF ok(2) _ first_fragment [OF ok(1) assms(2) _ assms(5)]] assms(3,4) by simp
  then show ?thesis
    unfolding Let_def by (rule fragment_done_states)
qed

text \<open>The empty array of CTAP2.1, in two fragments, on a badge with a token.\<close>

definition blob_token_state :: "(u16 \<Rightarrow> bytes option) ctap2" where
  "blob_token_state = sample_state\<lparr>cp_token_valid := True, cp_permissions := 0x10\<rparr>"

definition blob_fragments :: "lb_params list" where
  "blob_fragments = [lb_params_init\<lparr>lp_has_set := True, lp_has_offset := True, lp_has_length := True,
       lp_total_len := 17, lp_chunk := [0x80], lp_pin_proto := 2, lp_pin_auth := replicate 32 2\<rparr>,
     lb_params_init\<lparr>lp_has_set := True, lp_has_offset := True, lp_offset := 1, lp_chunk := replicate 16 9,
       lp_pin_proto := 2, lp_pin_auth := replicate 32 2\<rparr>]"

theorem large_blob_assembled_witness:
  "\<exists>t. write_fragments sample blob_fragments blob_token_state = Some t \<and>
     concat (map lp_chunk blob_fragments) = 0x80 # replicate 16 9 \<and> bl_session t = lb_reset"
proof -
  have "(case write_fragments sample blob_fragments blob_token_state of None \<Rightarrow> False | Some t \<Rightarrow> True)"
    by code_simp
  then obtain t where t: "write_fragments sample blob_fragments blob_token_state = Some t"
    by (auto split: option.splits)
  have f: "write_fragments sample (hd blob_fragments # tl blob_fragments) blob_token_state = Some t"
    using t by (simp add: blob_fragments_def)
  have "lp_offset (hd blob_fragments) = 0" "\<forall>q \<in> set (tl blob_fragments). lp_offset q \<noteq> 0"
    "\<forall>q \<in> set (hd blob_fragments # tl blob_fragments). length (lp_chunk q) \<le> 1024"
    "length (bl_buf blob_token_state) = 1024"
    by (simp_all add: blob_fragments_def lb_params_init_def blob_token_state_def sample_state_def)
  from large_blob_assembled [OF f this] t show ?thesis
    by (simp add: Let_def blob_fragments_def lb_params_init_def)
qed

end
