(* ===== verification/Slot_Map.thy ===== *)
theory Slot_Map
  imports Prelude
begin

text \<open>
  The static map of the secure element (\<^verbatim>\<open>cdc_core/src/TropicSlotMap.cpp\<close> with the table of
  \<^verbatim>\<open>main/tropic_slot_map.h\<close>): which module owns which ECC and R-Memory slots, and the range of one
  module as its store uses it (\<^verbatim>\<open>SlotManager.h\<close>). A module name is a string and never a null pointer,
  since the table is built of literals.
\<close>

section \<open>The table\<close>

datatype slot_type = ECC | RMEM

record slot_entry =
  se_type :: slot_type
  se_name :: string
  se_id :: byte
  se_start :: u16
  se_end :: u16

abbreviation (input) "MODULE_ID_MOD_2FA \<equiv> (5 :: byte)"
abbreviation (input) "MODULE_ID_UNKNOWN \<equiv> (255 :: byte)"
abbreviation (input) "ECC_SLOT_MIN \<equiv> (0 :: u16)"
abbreviation (input) "ECC_SLOT_MAX \<equiv> (31 :: u16)"
abbreviation (input) "ECC_SLOT_RESERVED \<equiv> (0 :: u16)"
abbreviation (input) "RMEM_SLOT_MIN \<equiv> (0 :: u16)"
abbreviation (input) "RMEM_SLOT_MAX \<equiv> (511 :: u16)"
abbreviation (input) "RMEM_SLOT_RESERVED \<equiv> (0 :: u16)"
abbreviation (input) "RMEM_SLOT_MIN_ALLOC \<equiv> (1 :: u16)"

definition slot_entry_of :: "slot_type \<Rightarrow> string \<times> byte \<times> u16 \<times> u16 \<Rightarrow> slot_entry" where
  "slot_entry_of ty = (\<lambda>(name, i, a, b). \<lparr>se_type = ty, se_name = name, se_id = i, se_start = a, se_end = b\<rparr>)"

definition kSlotMap :: "slot_entry list" where
  "kSlotMap =
     map (slot_entry_of ECC)
       [(''mod_gpg'', 2, 1, 3), (''mod_ca'', 3, 4, 4), (''mod_piv'', 9, 5, 8), (''mod_fido2'', 4, 9, 30),
        (''mod_plugins'', 7, 31, 31)] @
     map (slot_entry_of RMEM)
       [(''mod_gpg'', 2, 1, 3), (''mod_ca'', 3, 4, 4), (''mod_piv'', 9, 5, 8), (''mod_fido2'', 4, 9, 30),
        (''mod_2fa'', 5, 31, 130), (''mod_gpg_rsa'', 8, 131, 136), (''mod_password'', 6, 137, 500),
        (''mod_plugins'', 7, 501, 511)]"

section \<open>Validation\<close>

text \<open>The checks of one entry, and of one entry against those after it; the result is the first error.\<close>

definition entry_error :: "slot_entry \<Rightarrow> string option" where
  "entry_error a =
     (if se_name a = [] then Some ''slot map entry with empty module name''
      else if se_id a = MODULE_ID_UNKNOWN then Some ''slot map entry with unknown module id''
      else if se_start a > se_end a then Some ''slot map range has start > end''
      else if se_start a = 0 \<or> se_end a = 0 then Some ''slot map range uses reserved slot 0''
      else if se_type a = ECC then
        (if se_start a < ECC_SLOT_MIN \<or> se_end a > ECC_SLOT_MAX then Some ''slot map ECC range out of bounds''
         else if se_start a \<le> ECC_SLOT_RESERVED then Some ''slot map ECC range includes reserved slot''
         else None)
      else
        (if se_start a < RMEM_SLOT_MIN \<or> se_end a > RMEM_SLOT_MAX then Some ''slot map RMEM range out of bounds''
         else if se_start a < RMEM_SLOT_MIN_ALLOC \<or> se_end a < RMEM_SLOT_MIN_ALLOC
         then Some ''slot map RMEM range below minimum allowed''
         else None))"

definition pair_error :: "slot_entry \<Rightarrow> slot_entry \<Rightarrow> string option" where
  "pair_error a b =
     (if se_type a = se_type b \<and> \<not> (se_end a < se_start b \<or> se_end b < se_start a)
      then Some ''slot map overlap detected''
      else if se_name a = se_name b \<and> se_type a = se_type b
      then Some ''slot map duplicate module/type entry''
      else if se_id a = se_id b \<and> se_name a \<noteq> se_name b
      then Some ''slot map module id used by multiple names''
      else None)"

fun pairs_error :: "slot_entry \<Rightarrow> slot_entry list \<Rightarrow> string option" where
  "pairs_error a [] = None"
| "pairs_error a (b # bs) = (case pair_error a b of Some e \<Rightarrow> Some e | None \<Rightarrow> pairs_error a bs)"

fun validateOnce :: "slot_entry list \<Rightarrow> string option" where
  "validateOnce [] = None"
| "validateOnce (a # m) =
     (case entry_error a of
        Some e \<Rightarrow> Some e
      | None \<Rightarrow> (case pairs_error a m of Some e \<Rightarrow> Some e | None \<Rightarrow> validateOnce m))"

section \<open>Lookups\<close>

definition getRangeByName :: "slot_entry list \<Rightarrow> string \<Rightarrow> slot_type \<Rightarrow> slot_entry option" where
  "getRangeByName m name ty = find (\<lambda>e. se_type e = ty \<and> se_name e = name) m"

definition getRangeByModuleId :: "slot_entry list \<Rightarrow> byte \<Rightarrow> slot_type \<Rightarrow> slot_entry option" where
  "getRangeByModuleId m i ty = find (\<lambda>e. se_type e = ty \<and> se_id e = i) m"

definition forEachRange :: "slot_entry list \<Rightarrow> slot_type \<Rightarrow> (slot_entry \<Rightarrow> 's \<Rightarrow> 's) \<Rightarrow> 's \<Rightarrow> 's" where
  "forEachRange m ty cb s = fold cb (filter (\<lambda>e. se_type e = ty) m) s"

definition isRmemAllowedForModuleId :: "slot_entry list \<Rightarrow> u16 \<Rightarrow> byte \<Rightarrow> bool" where
  "isRmemAllowedForModuleId m slot i =
     (case getRangeByModuleId m i RMEM of
        None \<Rightarrow> False
      | Some r \<Rightarrow> slot \<ge> se_start r \<and> slot \<le> se_end r)"

definition rmemMax :: u16 where
  "rmemMax = RMEM_SLOT_MAX"

text \<open>FNV-1a, over words instead of bytes.\<close>

definition fnv1a_mix_u32 :: "u32 \<Rightarrow> u32 \<Rightarrow> u32" where
  "fnv1a_mix_u32 hash value = (hash XOR value) * 0x01000193"

definition slot_type_code :: "slot_type \<Rightarrow> u32" where
  "slot_type_code ty = (case ty of ECC \<Rightarrow> 0 | RMEM \<Rightarrow> 1)"

definition computeMapSignature :: "slot_entry list \<Rightarrow> u32" where
  "computeMapSignature m =
     foldl fnv1a_mix_u32 0x811C9DC5
       ([0, 31, 0, 0, 511, 0, 1] @
        concat (map (\<lambda>e. [slot_type_code (se_type e), ucast (se_id e), ucast (se_start e), ucast (se_end e)]) m))"

section \<open>The range of one module\<close>

record slot_manager =
  hasSlotRange :: bool
  rmemStart :: u16
  rmemEnd :: u16
  moduleId :: byte

definition setSlotRange :: "u16 \<Rightarrow> u16 \<Rightarrow> byte \<Rightarrow> slot_manager" where
  "setSlotRange start stop i =
     (if start > stop \<or> start = 0 \<or> stop = 0
      then \<lparr>hasSlotRange = False, rmemStart = 0, rmemEnd = 0, moduleId = 0\<rparr>
      else \<lparr>hasSlotRange = True, rmemStart = start, rmemEnd = stop, moduleId = i\<rparr>)"

definition slot_capacity :: "slot_manager \<Rightarrow> u16" where
  "slot_capacity m = (if \<not> hasSlotRange m then 0 else rmemEnd m - rmemStart m + 1)"

definition toPhysicalSlot :: "slot_manager \<Rightarrow> u16 \<Rightarrow> u16 option" where
  "toPhysicalSlot m logical =
     (if \<not> hasSlotRange m then None
      else
        let slot = ucast (rmemStart m) + ucast logical :: u32 in
        if slot > ucast (rmemEnd m) then None else Some (ucast slot))"

definition toLogicalSlot :: "slot_manager \<Rightarrow> u16 \<Rightarrow> u16 option" where
  "toLogicalSlot m slot =
     (if \<not> hasSlotRange m then None
      else if slot < rmemStart m \<or> slot > rmemEnd m then None
      else Some (slot - rmemStart m))"

section \<open>Lemmas\<close>

lemma pairs_errorD: "pairs_error a m = None \<Longrightarrow> b \<in> set m \<Longrightarrow> pair_error a b = None"
  by (induction m) (auto split: option.splits)

lemma validateD:
  "validateOnce m = None \<Longrightarrow> e \<in> set m \<Longrightarrow> entry_error e = None"
  by (induction m) (auto split: option.splits)

lemma pair_error_sym: "pair_error a b = None \<longleftrightarrow> pair_error b a = None"
  by (auto simp: pair_error_def)

lemma validate_pairs:
  "validateOnce m = None \<Longrightarrow> a \<in> set m \<Longrightarrow> b \<in> set m \<Longrightarrow> a = b \<or> pair_error a b = None"
proof (induction m)
  case (Cons c m)
  from Cons.prems(1) have v: "validateOnce m = None" and c: "pairs_error c m = None"
    by (simp_all split: option.splits)
  consider "a = c" "b = c" | "a = c" "b \<in> set m" | "b = c" "a \<in> set m" | "a \<in> set m" "b \<in> set m"
    using Cons.prems(2,3) by auto
  then show ?case
  proof cases
    case 4
    then show ?thesis by (rule Cons.IH [OF v])
  qed (use pairs_errorD [OF c] pair_error_sym [of a b] in auto)
qed simp

lemma findD: "find P m = Some e \<Longrightarrow> e \<in> set m \<and> P e"
  by (auto simp: find_Some_iff)

lemma find_unique:
  assumes "e \<in> set m" and "P e" and "\<And>x. x \<in> set m \<Longrightarrow> P x \<Longrightarrow> x = e"
  shows "find P m = Some e"
proof -
  obtain x where "find P m = Some x" using assms(1,2) by (metis find_None_iff option.exhaust)
  with findD [OF this] assms(3) [of x] show ?thesis by simp
qed

text \<open>An entry of a valid table is found by its identifier and by its name.\<close>

lemma entry_found:
  assumes "validateOnce m = None" and "e \<in> set m"
  shows "getRangeByModuleId m (se_id e) (se_type e) = Some e \<and> getRangeByName m (se_name e) (se_type e) = Some e"
proof -
  have "x = e" if "x \<in> set m" "se_type x = se_type e" "se_id x = se_id e \<or> se_name x = se_name e" for x
    using validate_pairs [OF assms(1) that(1) assms(2)] that(2,3) by (auto simp: pair_error_def split: if_splits)
  then show ?thesis
    using assms(2) unfolding getRangeByModuleId_def getRangeByName_def by (intro conjI find_unique) auto
qed

lemma physical_logical:
  assumes "hasSlotRange m" and "rmemStart m \<le> rmemEnd m"
  shows "toPhysicalSlot m i = Some p \<longleftrightarrow> toLogicalSlot m p = Some i"
proof -
  have sum: "unat (ucast (rmemStart m) + ucast i :: u32) = unat (rmemStart m) + unat i"
    using unat_less [of "rmemStart m"] unat_less [of i] by (simp add: unat_word_ariths unat_ucast_up)
  have "toPhysicalSlot m i = Some p \<longleftrightarrow>
      unat (rmemStart m) + unat i \<le> unat (rmemEnd m) \<and> p = ucast (ucast (rmemStart m) + ucast i :: u32)"
    using assms(1) sum by (auto simp: toPhysicalSlot_def Let_def word_less_nat_alt unat_ucast_up)
  also have "ucast (ucast (rmemStart m) + ucast i :: u32) = rmemStart m + i"
    by (simp only: word_unat_eq_iff unsigned_ucast_eq unsigned_take_bit_eq sum) (simp add: unat_word_ariths take_bit_eq_mod)
  also have "(unat (rmemStart m) + unat i \<le> unat (rmemEnd m) \<and> p = rmemStart m + i) \<longleftrightarrow> toLogicalSlot m p = Some i"
  proof
    assume a: "unat (rmemStart m) + unat i \<le> unat (rmemEnd m) \<and> p = rmemStart m + i"
    then have "unat p = unat (rmemStart m) + unat i"
      using unat_less [of "rmemEnd m"] by (simp add: unat_word_ariths)
    with a assms(1) show "toLogicalSlot m p = Some i"
      by (simp add: toLogicalSlot_def word_less_nat_alt)
  next
    assume l: "toLogicalSlot m p = Some i"
    then have p: "rmemStart m \<le> p" "p \<le> rmemEnd m" "i = p - rmemStart m"
      by (auto simp: toLogicalSlot_def split: if_splits)
    then have "unat i = unat p - unat (rmemStart m)" by (simp add: unat_sub)
    with p show "unat (rmemStart m) + unat i \<le> unat (rmemEnd m) \<and> p = rmemStart m + i"
      by (simp add: word_le_nat_alt)
  qed
  finally show ?thesis .
qed

section \<open>Properties\<close>



end
