(* ===== verification/Tropic_Storage.thy ===== *)
theory Tropic_Storage
  imports Slot_Map
begin

text \<open>
  Records with a header in the R-Memory of the secure element (\<^verbatim>\<open>cdc_hal/src/Tropic01Element.cpp\<close>:
  \<^verbatim>\<open>rmemWriteWithHeader\<close>, \<^verbatim>\<open>rmemReadWithHeader\<close>), the cache of their headers in the flash
  (\<^verbatim>\<open>cdc_core/src/TropicStorage.cpp\<close>) and the search for a free slot (\<^verbatim>\<open>SlotManager.h\<close>).

  The chip and the flash are a record of functions (\<^verbatim>\<open>tropic_io\<close>) on a state of type \<^typ>\<open>'e\<close>: the
  calls of libtropic and of NVS, and whether the system is locked and the bus free. A read changes
  nothing. A chunk of the cache is the list of its packed entries; a blob of another size counts as
  missing, as in the code. A name is the C string without its terminator, a name field all its bytes.
\<close>

section \<open>The chip and the flash\<close>

datatype se_result = Se_OK | Se_ERROR | Se_SESSION_REQUIRED | Se_SLOT_EMPTY | Se_SLOT_OCCUPIED |
  Se_INVALID_PARAM | Se_ALARM_MODE | Se_NOT_SUPPORTED

record cache_entry =
  ce_module :: byte
  ce_flags :: byte
  ce_name :: bytes

record cache_header =
  tc_version :: byte
  tc_chunk_slots :: byte
  tc_entry_size :: u16
  tc_signature :: u32

record 'e tropic_io =
  io_present :: bool
  io_slot_size :: nat
  io_locked :: "'e \<Rightarrow> bool"
  io_bus :: "'e \<Rightarrow> bool"
  io_session_active :: "'e \<Rightarrow> bool"
  io_session_start :: "'e \<Rightarrow> bool \<times> 'e"
  io_read :: "u16 \<Rightarrow> nat \<Rightarrow> 'e \<Rightarrow> se_result \<times> bytes"
  io_write :: "u16 \<Rightarrow> bytes \<Rightarrow> 'e \<Rightarrow> se_result \<times> 'e"
  io_erase :: "u16 \<Rightarrow> 'e \<Rightarrow> se_result \<times> 'e"
  io_load_header :: "'e \<Rightarrow> cache_header option"
  io_save_header :: "cache_header \<Rightarrow> 'e \<Rightarrow> bool \<times> 'e"
  io_load_chunk :: "nat \<Rightarrow> 'e \<Rightarrow> cache_entry list option"
  io_save_chunk :: "nat \<Rightarrow> cache_entry list \<Rightarrow> 'e \<Rightarrow> bool \<times> 'e"

datatype tropic_service = UNINITIALIZED | INITIALIZED | STARTED | STOPPED | SERVICE_ERROR

record 'e tropic =
  tr_state :: tropic_service
  tr_header :: cache_header
  tr_valid :: bool
  tr_hw :: 'e

abbreviation (input) "RMEM_SLOT_COUNT \<equiv> (512 :: u16)"
abbreviation (input) "RMEM_SLOT_SIZE_MAX \<equiv> (475 :: nat)"
abbreviation (input) "RMEM_NAME_LEN \<equiv> (16 :: nat)"
abbreviation (input) "RMEM_HEADER_MAGIC \<equiv> (0xCD :: byte)"
abbreviation (input) "RMEM_HEADER_SIZE \<equiv> (22 :: nat)"
abbreviation (input) "CACHE_VERSION \<equiv> (1 :: byte)"
abbreviation (input) "CHUNK_SLOTS \<equiv> (64 :: nat)"
abbreviation (input) "FLAG_USED \<equiv> (0x01 :: byte)"

definition on_chip :: "('e \<Rightarrow> 'a \<times> 'e) \<Rightarrow> ('e, 'm) tropic_scheme \<Rightarrow> 'a \<times> ('e, 'm) tropic_scheme" where
  "on_chip f s = (case f (tr_hw s) of (r, e) \<Rightarrow> (r, s\<lparr>tr_hw := e\<rparr>))"

section \<open>Records with a header\<close>

record rmem_header =
  rh_magic :: byte
  rh_checksum :: byte
  rh_module :: byte
  rh_flags :: byte
  rh_name :: bytes
  rh_payload_len :: u16

definition header_bytes :: "rmem_header \<Rightarrow> bytes" where
  "header_bytes h = [rh_magic h, rh_checksum h, rh_module h, rh_flags h] @ rh_name h @ le_bytes 2 (rh_payload_len h)"

definition parse_header :: "bytes \<Rightarrow> rmem_header" where
  "parse_header d = \<lparr>rh_magic = d ! 0, rh_checksum = d ! 1, rh_module = d ! 2, rh_flags = d ! 3,
     rh_name = take RMEM_NAME_LEN (drop 4 d), rh_payload_len = le_value (take 2 (drop 20 d))\<rparr>"

definition computeHeaderChecksum :: "rmem_header \<Rightarrow> byte" where
  "computeHeaderChecksum h =
     (let sum = ucast (rh_module h) + ucast (rh_flags h) :: u16;
          sum = foldl (\<lambda>sum b. sum + ucast b) sum (rh_name h);
          sum = sum + ucast (byte_at 0 (rh_payload_len h));
          sum = sum + ucast (byte_at 8 (rh_payload_len h)) in
      byte_at 0 sum)"

definition validateHeader :: "rmem_header \<Rightarrow> bool" where
  "validateHeader h = (if rh_magic h \<noteq> RMEM_HEADER_MAGIC then False else rh_checksum h = computeHeaderChecksum h)"

definition rmemRead :: "'e tropic_io \<Rightarrow> u16 \<Rightarrow> nat \<Rightarrow> 'e \<Rightarrow> se_result \<times> bytes" where
  "rmemRead io slot maxLen e =
     (if io_locked io e then (Se_ALARM_MODE, [])
      else if slot \<ge> RMEM_SLOT_COUNT \<or> maxLen = 0 then (Se_INVALID_PARAM, [])
      else if \<not> io_bus io e then (Se_ERROR, [])
      else io_read io slot maxLen e)"

definition rmemErase :: "'e tropic_io \<Rightarrow> u16 \<Rightarrow> 'e \<Rightarrow> se_result \<times> 'e" where
  "rmemErase io slot e =
     (if io_locked io e then (Se_ALARM_MODE, e)
      else if slot \<ge> RMEM_SLOT_COUNT then (Se_INVALID_PARAM, e)
      else if \<not> io_bus io e then (Se_ERROR, e)
      else io_erase io slot e)"

definition new_header :: "byte \<Rightarrow> bytes \<Rightarrow> byte \<Rightarrow> u16 \<Rightarrow> rmem_header" where
  "new_header module name flags len =
     (let h = \<lparr>rh_magic = RMEM_HEADER_MAGIC, rh_checksum = 0, rh_module = module, rh_flags = flags,
                rh_name = char_field RMEM_NAME_LEN name, rh_payload_len = len\<rparr> in
      h\<lparr>rh_checksum := computeHeaderChecksum h\<rparr>)"

definition rmemWriteWithHeader ::
    "'e tropic_io \<Rightarrow> u16 \<Rightarrow> byte \<Rightarrow> bytes \<Rightarrow> byte \<Rightarrow> bytes \<Rightarrow> 'e \<Rightarrow> se_result \<times> 'e" where
  "rmemWriteWithHeader io slot module name flags payload e =
     (if io_locked io e then (Se_ALARM_MODE, e)
      else if slot \<ge> RMEM_SLOT_COUNT then (Se_INVALID_PARAM, e)
      else if length payload > io_slot_size io - RMEM_HEADER_SIZE then (Se_INVALID_PARAM, e)
      else if \<not> io_bus io e then (Se_ERROR, e)
      else
        (case io_erase io slot e of (eraseRes, e) \<Rightarrow>
           if eraseRes \<noteq> Se_OK \<and> eraseRes \<noteq> Se_SLOT_EMPTY then (eraseRes, e)
           else io_write io slot (header_bytes (new_header module name flags (of_nat (length payload))) @ payload) e))"

text \<open>
  What was read into the zeroed buffer is checked; \<open>payloadMax\<close> is \<^const>\<open>None\<close> without a payload buffer.
\<close>

definition no_header :: rmem_header where
  "no_header = \<lparr>rh_magic = 0, rh_checksum = 0, rh_module = 0, rh_flags = 0,
     rh_name = replicate RMEM_NAME_LEN 0, rh_payload_len = 0\<rparr>"

definition checked_record :: "nat \<Rightarrow> nat option \<Rightarrow> se_result \<times> bytes \<Rightarrow> se_result \<times> rmem_header \<times> bytes" where
  "checked_record slot_size payloadMax = (\<lambda>(res, d).
     if res \<noteq> Se_OK then (res, no_header, [])
     else if length d < RMEM_HEADER_SIZE then (Se_ERROR, no_header, [])
     else
       let h = parse_header d; len = unat (rh_payload_len h) in
       if \<not> validateHeader h then (Se_ERROR, no_header, [])
       else if len > slot_size - RMEM_HEADER_SIZE then (Se_ERROR, no_header, [])
       else if length d < (RMEM_HEADER_SIZE + len) mod 65536 then (Se_ERROR, no_header, [])
       else if (case payloadMax of None \<Rightarrow> False | Some n \<Rightarrow> 0 < len \<and> n < len)
       then (Se_INVALID_PARAM, no_header, [])
       else (Se_OK, h, (if payloadMax = None then [] else take len (drop RMEM_HEADER_SIZE d))))"

definition rmemReadWithHeader ::
    "'e tropic_io \<Rightarrow> u16 \<Rightarrow> nat option \<Rightarrow> 'e \<Rightarrow> se_result \<times> rmem_header \<times> bytes" where
  "rmemReadWithHeader io slot payloadMax e =
     (if io_locked io e then (Se_ALARM_MODE, no_header, [])
      else if slot \<ge> RMEM_SLOT_COUNT then (Se_INVALID_PARAM, no_header, [])
      else if \<not> io_bus io e then (Se_ERROR, no_header, [])
      else checked_record (io_slot_size io) payloadMax (io_read io slot RMEM_SLOT_SIZE_MAX e))"

section \<open>The cache of the headers\<close>

definition zero_entry :: cache_entry where
  "zero_entry = \<lparr>ce_module = 0, ce_flags = 0, ce_name = replicate RMEM_NAME_LEN 0\<rparr>"

definition isEntryUsed :: "cache_entry \<Rightarrow> bool" where
  "isEntryUsed c \<longleftrightarrow> ce_flags c AND FLAG_USED \<noteq> 0"

definition isEntryAllowed :: "u16 \<Rightarrow> byte \<Rightarrow> bool" where
  "isEntryAllowed slot module = isRmemAllowedForModuleId kSlotMap slot module"

definition tropic_signature :: u32 where
  "tropic_signature = fnv1a_mix_u32 0x811C9DC5 (computeMapSignature kSlotMap)"

definition loadHeader :: "'e tropic_io \<Rightarrow> ('e, 'm) tropic_scheme \<Rightarrow> bool \<times> ('e, 'm) tropic_scheme" where
  "loadHeader io s =
     (case io_load_header io (tr_hw s) of
        None \<Rightarrow> (False, s)
      | Some stored \<Rightarrow>
          if tc_version stored \<noteq> CACHE_VERSION \<or> tc_chunk_slots stored \<noteq> 64 \<or> tc_entry_size stored \<noteq> 18
          then (False, s)
          else if tc_signature stored \<noteq> tropic_signature then (False, s)
          else (True, s\<lparr>tr_header := stored\<rparr>))"

definition saveHeader :: "'e tropic_io \<Rightarrow> ('e, 'm) tropic_scheme \<Rightarrow> bool \<times> ('e, 'm) tropic_scheme" where
  "saveHeader io s = on_chip (io_save_header io (tr_header s)) s"

definition loadChunk :: "'e tropic_io \<Rightarrow> nat \<Rightarrow> ('e, 'm) tropic_scheme \<Rightarrow> cache_entry list" where
  "loadChunk io k s =
     (case io_load_chunk io k (tr_hw s) of
        None \<Rightarrow> replicate CHUNK_SLOTS zero_entry
      | Some xs \<Rightarrow> if length xs \<noteq> CHUNK_SLOTS then replicate CHUNK_SLOTS zero_entry else xs)"

definition saveChunk ::
    "'e tropic_io \<Rightarrow> nat \<Rightarrow> cache_entry list \<Rightarrow> ('e, 'm) tropic_scheme \<Rightarrow> bool \<times> ('e, 'm) tropic_scheme" where
  "saveChunk io k xs s = on_chip (io_save_chunk io k xs) s"

definition setEntry ::
    "'e tropic_io \<Rightarrow> u16 \<Rightarrow> cache_entry \<Rightarrow> ('e, 'm) tropic_scheme \<Rightarrow> bool \<times> ('e, 'm) tropic_scheme" where
  "setEntry io slot entry s =
     (let k = unat slot div CHUNK_SLOTS; i = unat slot mod CHUNK_SLOTS in
      saveChunk io k ((loadChunk io k s)[i := entry]) s)"

definition getEntry :: "'e tropic_io \<Rightarrow> u16 \<Rightarrow> ('e, 'm) tropic_scheme \<Rightarrow> cache_entry" where
  "getEntry io slot s = loadChunk io (unat slot div CHUNK_SLOTS) s ! (unat slot mod CHUNK_SLOTS)"

definition tropic_init :: "'e tropic_io \<Rightarrow> ('e, 'm) tropic_scheme \<Rightarrow> bool \<times> ('e, 'm) tropic_scheme" where
  "tropic_init io s =
     (if tr_state s \<noteq> UNINITIALIZED then (tr_state s = INITIALIZED \<or> tr_state s = STARTED, s)
      else
        let s = s\<lparr>tr_header := \<lparr>tc_version = CACHE_VERSION, tc_chunk_slots = 64, tc_entry_size = 18,
                   tc_signature = tropic_signature\<rparr>\<rparr>;
            (valid, s) = loadHeader io s;
            s = s\<lparr>tr_valid := valid\<rparr>;
            s = (if valid then s
                 else (case saveHeader io s of (ok, s) \<Rightarrow> if ok then s\<lparr>tr_valid := True\<rparr> else s)) in
        (True, s\<lparr>tr_state := INITIALIZED\<rparr>))"

definition tropic_start :: "'e tropic_io \<Rightarrow> ('e, 'm) tropic_scheme \<Rightarrow> bool \<times> ('e, 'm) tropic_scheme" where
  "tropic_start io s =
     (let (ok, s) = (if tr_state s = UNINITIALIZED then tropic_init io s else (True, s)) in
      if \<not> ok then (False, s) else (True, s\<lparr>tr_state := STARTED\<rparr>))"

definition tropic_stop :: "('e, 'm) tropic_scheme \<Rightarrow> ('e, 'm) tropic_scheme" where
  "tropic_stop s = s\<lparr>tr_state := STOPPED\<rparr>"

definition writeSlot ::
    "'e tropic_io \<Rightarrow> byte \<Rightarrow> u16 \<Rightarrow> bytes \<Rightarrow> byte \<Rightarrow> ('e, 'm) tropic_scheme \<Rightarrow> bool \<times> ('e, 'm) tropic_scheme" where
  "writeSlot io module slot name flags s =
     (if \<not> isEntryAllowed slot module then (False, s)
      else
        let entry = \<lparr>ce_module = module, ce_flags = flags OR FLAG_USED, ce_name = char_field RMEM_NAME_LEN name\<rparr> in
        (case saveHeader io s of (ok, s) \<Rightarrow> if \<not> ok then (False, s) else setEntry io slot entry s))"

definition eraseSlot ::
    "'e tropic_io \<Rightarrow> byte \<Rightarrow> u16 \<Rightarrow> ('e, 'm) tropic_scheme \<Rightarrow> bool \<times> ('e, 'm) tropic_scheme" where
  "eraseSlot io module slot s =
     (if \<not> isEntryAllowed slot module then (False, s) else setEntry io slot zero_entry s)"

section \<open>Iteration\<close>

text \<open>
  The callback works on its context and on the state; a chunk is loaded before its slots are visited,
  so what a callback writes into the chunk is not seen until the next call.
\<close>

definition visit_slot ::
    "byte \<Rightarrow> u16 \<Rightarrow> u16 \<Rightarrow> (u16 \<Rightarrow> cache_entry \<Rightarrow> 's \<Rightarrow> 's) \<Rightarrow> nat \<Rightarrow> cache_entry list \<Rightarrow> nat \<Rightarrow> 's \<Rightarrow> 's" where
  "visit_slot module fromSlot toSlot cb k entries i s =
     (let slot = of_nat (k * CHUNK_SLOTS + i); entry = entries ! i in
      if slot < fromSlot \<or> slot > toSlot then s
      else if \<not> isEntryUsed entry then s
      else if \<not> isEntryAllowed slot (ce_module entry) then s
      else if ce_module entry \<noteq> module then s
      else cb slot entry s)"

definition forEachSlot ::
    "'e tropic_io \<Rightarrow> byte \<Rightarrow> u16 \<Rightarrow> u16 \<Rightarrow> (u16 \<Rightarrow> cache_entry \<Rightarrow> 'c \<times> ('e, 'm) tropic_scheme \<Rightarrow> 'c \<times> ('e, 'm) tropic_scheme) \<Rightarrow>
      'c \<times> ('e, 'm) tropic_scheme \<Rightarrow> bool \<times> 'c \<times> ('e, 'm) tropic_scheme" where
  "forEachSlot io module fromSlot toSlot cb s =
     (if fromSlot > toSlot then (False, s)
      else
        case getRangeByModuleId kSlotMap module RMEM of
          None \<Rightarrow> (False, s)
        | Some bounds \<Rightarrow>
            let all_slots = (fromSlot = 0 \<or> toSlot = 0xFFFF);
                fromSlot = (if all_slots then se_start bounds else fromSlot);
                toSlot = (if all_slots then se_end bounds else toSlot);
                fromSlot = (if fromSlot < se_start bounds then se_start bounds else fromSlot);
                toSlot = (if toSlot > se_end bounds then se_end bounds else toSlot) in
            (True, fold (\<lambda>k s. let entries = loadChunk io k (snd s) in
                fold (visit_slot module fromSlot toSlot cb k entries) [0..<CHUNK_SLOTS] s)
              [unat fromSlot div CHUNK_SLOTS..<Suc (unat toSlot div CHUNK_SLOTS)] s))"

definition getSlot :: "'e tropic_io \<Rightarrow> byte \<Rightarrow> u16 \<Rightarrow> ('e, 'm) tropic_scheme \<Rightarrow> (u16 \<times> cache_entry) option" where
  "getSlot io module index s =
     (case getRangeByModuleId kSlotMap module RMEM of
        None \<Rightarrow> None
      | Some bounds \<Rightarrow>
          let slot = ucast (se_start bounds) + ucast index :: u32 in
          if slot > ucast (se_end bounds) then None
          else
            let entry = getEntry io (ucast slot) s in
            if \<not> isEntryUsed entry then None
            else if \<not> isEntryAllowed (ucast slot) (ce_module entry) then None
            else if ce_module entry \<noteq> module then None
            else Some (ucast slot, entry))"

definition findFreeSlot :: "'e tropic_io \<Rightarrow> slot_manager \<Rightarrow> ('e, 'm) tropic_scheme \<Rightarrow> u16 option" where
  "findFreeSlot io m s =
     (if \<not> hasSlotRange m then None
      else
        let cap = slot_capacity m in
        if cap = 0 then None
        else
          let cb = (\<lambda>slot entry (used, s).
                if slot < rmemStart m then (used, s)
                else
                  let idx = slot - rmemStart m in
                  if idx < cap then (used[unat idx := True], s) else (used, s));
              used = fst (snd (forEachSlot io (moduleId m) (rmemStart m) (rmemEnd m) cb (replicate (unat cap) False, s))) in
          (case find (\<lambda>i. \<not> used ! i) [0..<unat cap] of
             None \<Rightarrow> None
           | Some i \<Rightarrow>
               let candidate = rmemStart m + of_nat i in
               if candidate \<le> rmemEnd m then Some candidate else None))"

section \<open>Maintenance\<close>

text \<open>One slot of the rebuild; the log callback is left out.\<close>

definition rebuild_slot :: "'e tropic_io \<Rightarrow> ('e, 'm) tropic_scheme \<Rightarrow> nat \<Rightarrow> nat \<Rightarrow> cache_entry list \<Rightarrow> cache_entry list" where
  "rebuild_slot io s k i entries =
     (let slot = of_nat (k * CHUNK_SLOTS + i) in
      if slot = 0 then entries
      else
        (case rmemReadWithHeader io slot None (tr_hw s) of (res, h, payload) \<Rightarrow>
           if res = Se_OK \<and> isEntryAllowed slot (rh_module h)
           then entries[i := \<lparr>ce_module = rh_module h, ce_flags = rh_flags h OR FLAG_USED,
                  ce_name = char_field RMEM_NAME_LEN (cstr (rh_name h))\<rparr>]
           else entries))"

fun rebuild_chunks :: "'e tropic_io \<Rightarrow> nat list \<Rightarrow> ('e, 'm) tropic_scheme \<Rightarrow> bool \<times> ('e, 'm) tropic_scheme" where
  "rebuild_chunks io [] s = (True, s)"
| "rebuild_chunks io (k # ks) s =
     (case saveChunk io k (fold (rebuild_slot io s k) [0..<CHUNK_SLOTS] (replicate CHUNK_SLOTS zero_entry)) s of
        (ok, s) \<Rightarrow> if \<not> ok then (False, s) else rebuild_chunks io ks s)"

definition total_chunks :: nat where
  "total_chunks = (unat rmemMax + 1) div CHUNK_SLOTS"

definition tropic_rebuild :: "'e tropic_io \<Rightarrow> ('e, 'm) tropic_scheme \<Rightarrow> bool \<times> ('e, 'm) tropic_scheme" where
  "tropic_rebuild io s =
     (if \<not> io_present io then (False, s)
      else
        let (active, s) = (if io_session_active io (tr_hw s) then (True, s) else on_chip (io_session_start io) s) in
        if \<not> active then (False, s)
        else
          case rebuild_chunks io [0..<total_chunks] s of (ok, s) \<Rightarrow>
            if \<not> ok then (False, s)
            else (case saveHeader io s of (valid, s) \<Rightarrow> (valid, s\<lparr>tr_valid := valid\<rparr>)))"

definition cleanup_slot ::
    "'e tropic_io \<Rightarrow> nat \<Rightarrow> nat \<Rightarrow> cache_entry list \<times> bool \<times> ('e, 'm) tropic_scheme \<Rightarrow>
      cache_entry list \<times> bool \<times> ('e, 'm) tropic_scheme" where
  "cleanup_slot io k i = (\<lambda>(entries, changed, s).
     let slot = of_nat (k * CHUNK_SLOTS + i); entry = entries ! i in
     if \<not> isEntryUsed entry \<or> isEntryAllowed slot (ce_module entry) then (entries, changed, s)
     else (entries[i := zero_entry], True, snd (on_chip (rmemErase io slot) s)))"

fun cleanup_chunks :: "'e tropic_io \<Rightarrow> nat list \<Rightarrow> ('e, 'm) tropic_scheme \<Rightarrow> bool \<times> ('e, 'm) tropic_scheme" where
  "cleanup_chunks io [] s = (True, s)"
| "cleanup_chunks io (k # ks) s =
     (case fold (cleanup_slot io k) [0..<CHUNK_SLOTS] (loadChunk io k s, False, s) of (entries, changed, s) \<Rightarrow>
        (case (if changed then saveChunk io k entries s else (True, s)) of
           (ok, s) \<Rightarrow> if \<not> ok then (False, s) else cleanup_chunks io ks s))"

definition tropic_cleanup :: "'e tropic_io \<Rightarrow> ('e, 'm) tropic_scheme \<Rightarrow> bool \<times> ('e, 'm) tropic_scheme" where
  "tropic_cleanup io s =
     (if \<not> io_present io then (False, s)
      else case cleanup_chunks io [0..<total_chunks] s of (ok, s) \<Rightarrow>
        if \<not> ok then (False, s) else tropic_rebuild io s)"

end
