(* ===== verification/Tropic_Records.thy ===== *)
theory Tropic_Records
  imports Tropic_Storage
begin

text \<open>
  What is read back: the laws of the chip and the flash that the stores rely on, the records in the
  R-Memory and the entries of the cache after each operation, and the search for a free slot.
\<close>

section \<open>The chip as documented\<close>

text \<open>
  A badge that is not locked, with a free bus. A write or an erasure touches its slot only; one that
  reports an error leaves the slot as it was or unreadable. The flash keeps what is written to it.
\<close>

definition reads_same :: "'e tropic_io \<Rightarrow> u16 set \<Rightarrow> 'e \<Rightarrow> 'e \<Rightarrow> bool" where
  "reads_same io A e e' \<longleftrightarrow> (\<forall>j \<in> A. io_read io j RMEM_SLOT_SIZE_MAX e' = io_read io j RMEM_SLOT_SIZE_MAX e)"

definition kept_or_lost :: "'e tropic_io \<Rightarrow> u16 \<Rightarrow> 'e \<Rightarrow> 'e \<Rightarrow> bool" where
  "kept_or_lost io i e e' \<longleftrightarrow> io_read io i RMEM_SLOT_SIZE_MAX e' = io_read io i RMEM_SLOT_SIZE_MAX e \<or>
     fst (io_read io i RMEM_SLOT_SIZE_MAX e') \<noteq> Se_OK"

definition chip_reliable :: "'e tropic_io \<Rightarrow> bool" where
  "chip_reliable io \<longleftrightarrow> io_present io \<and> 444 \<le> io_slot_size io \<and> io_slot_size io \<le> RMEM_SLOT_SIZE_MAX \<and>
     (\<forall>e. \<not> io_locked io e \<and> io_bus io e) \<and>
     (\<forall>i b e r e'. io_write io i b e = (r, e') \<longrightarrow> reads_same io (- {i}) e e' \<and>
        (\<forall>k. io_load_chunk io k e' = io_load_chunk io k e) \<and>
        (if r = Se_OK then length b \<le> io_slot_size io \<longrightarrow> io_read io i RMEM_SLOT_SIZE_MAX e' = (Se_OK, b)
         else kept_or_lost io i e e')) \<and>
     (\<forall>i e r e'. io_erase io i e = (r, e') \<longrightarrow> reads_same io (- {i}) e e' \<and>
        (\<forall>k. io_load_chunk io k e' = io_load_chunk io k e) \<and>
        (if r = Se_OK \<or> r = Se_SLOT_EMPTY then fst (io_read io i RMEM_SLOT_SIZE_MAX e') \<noteq> Se_OK
         else kept_or_lost io i e e')) \<and>
     (\<forall>k xs e r e'. io_save_chunk io k xs e = (r, e') \<longrightarrow> r \<and> reads_same io UNIV e e' \<and>
        io_load_chunk io k e' = Some xs \<and> (\<forall>j. j \<noteq> k \<longrightarrow> io_load_chunk io j e' = io_load_chunk io j e)) \<and>
     (\<forall>h e r e'. io_save_header io h e = (r, e') \<longrightarrow> r \<and> reads_same io UNIV e e' \<and>
        (\<forall>k. io_load_chunk io k e' = io_load_chunk io k e))"

lemma reliable_facts:
  assumes "chip_reliable io"
  shows "io_present io" "444 \<le> io_slot_size io" "io_slot_size io \<le> RMEM_SLOT_SIZE_MAX" "\<not> io_locked io e" "io_bus io e"
  using assms by (simp_all add: chip_reliable_def)

lemma reliable_write:
  assumes "chip_reliable io" and "io_write io i b e = (r, e')"
  shows "reads_same io (- {i}) e e'" "io_load_chunk io k e' = io_load_chunk io k e"
    "r = Se_OK \<Longrightarrow> length b \<le> io_slot_size io \<Longrightarrow> io_read io i RMEM_SLOT_SIZE_MAX e' = (Se_OK, b)"
    "r \<noteq> Se_OK \<Longrightarrow> kept_or_lost io i e e'"
  using assms unfolding chip_reliable_def by metis+

lemma reliable_erase:
  assumes "chip_reliable io" and "io_erase io i e = (r, e')"
  shows "reads_same io (- {i}) e e'" "io_load_chunk io k e' = io_load_chunk io k e"
    "r = Se_OK \<or> r = Se_SLOT_EMPTY \<Longrightarrow> fst (io_read io i RMEM_SLOT_SIZE_MAX e') \<noteq> Se_OK"
    "kept_or_lost io i e e'"
  using assms unfolding chip_reliable_def kept_or_lost_def by metis+

lemma reliable_save:
  assumes "chip_reliable io" and "io_save_chunk io k xs e = (r, e')"
  shows "r" "reads_same io UNIV e e'" "io_load_chunk io k e' = Some xs"
    "j \<noteq> k \<Longrightarrow> io_load_chunk io j e' = io_load_chunk io j e"
  using assms unfolding chip_reliable_def by metis+

lemma reliable_header:
  assumes "chip_reliable io" and "io_save_header io h e = (r, e')"
  shows "r" "reads_same io UNIV e e'" "io_load_chunk io k e' = io_load_chunk io k e"
  using assms unfolding chip_reliable_def by metis+

section \<open>Records\<close>

lemma parse_header_bytes:
  assumes "length (rh_name h) = RMEM_NAME_LEN"
  shows "parse_header (header_bytes h @ d) = h" and "length (header_bytes h) = RMEM_HEADER_SIZE"
    and "drop RMEM_HEADER_SIZE (header_bytes h @ d) = d"
  using assms le_value_bytes [where 'a = 16, of 2 "rh_payload_len h"]
  by (simp_all add: parse_header_def header_bytes_def)

lemma new_header_valid: "validateHeader (new_header module name flags n)"
  by (simp add: validateHeader_def new_header_def Let_def computeHeaderChecksum_def)

lemma new_header_fields [simp]:
  "rh_module (new_header module name flags n) = module" "rh_flags (new_header module name flags n) = flags"
  "rh_name (new_header module name flags n) = char_field RMEM_NAME_LEN name"
  "rh_payload_len (new_header module name flags n) = n"
  by (simp_all add: new_header_def Let_def)

lemma read_with_header:
  "chip_reliable io \<Longrightarrow> rmemReadWithHeader io j n e =
     (if j \<ge> RMEM_SLOT_COUNT then (Se_INVALID_PARAM, no_header, [])
      else checked_record (io_slot_size io) n (io_read io j RMEM_SLOT_SIZE_MAX e))"
  using reliable_facts(4,5) [of io e] by (simp add: rmemReadWithHeader_def)

lemma read_unreadable:
  "chip_reliable io \<Longrightarrow> fst (io_read io j RMEM_SLOT_SIZE_MAX e) \<noteq> Se_OK \<Longrightarrow> fst (rmemReadWithHeader io j n e) \<noteq> Se_OK"
  by (auto simp: read_with_header checked_record_def split: prod.splits)

text \<open>The record that a store can read in a slot.\<close>

definition record_at :: "'e tropic_io \<Rightarrow> nat \<Rightarrow> u16 \<Rightarrow> 'e \<Rightarrow> (rmem_header \<times> bytes) option" where
  "record_at io n slot e =
     (case rmemReadWithHeader io slot (Some n) e of (r, d) \<Rightarrow> if r = Se_OK then Some d else None)"

lemma record_at_same: "chip_reliable io \<Longrightarrow> reads_same io A e e' \<Longrightarrow> j \<in> A \<Longrightarrow> record_at io n j e' = record_at io n j e"
  by (simp add: record_at_def reads_same_def read_with_header)

lemma record_at_lost: "chip_reliable io \<Longrightarrow> fst (io_read io j RMEM_SLOT_SIZE_MAX e) \<noteq> Se_OK \<Longrightarrow> record_at io n j e = None"
  using read_unreadable [of io j e "Some n"] by (cases "rmemReadWithHeader io j (Some n) e") (simp add: record_at_def)

lemma record_at_kept: "chip_reliable io \<Longrightarrow> kept_or_lost io j e e' \<Longrightarrow>
    record_at io n j e' = record_at io n j e \<or> record_at io n j e' = None"
  using record_at_lost [of io j e' n] unfolding kept_or_lost_def
  by (elim disjE) (simp_all add: record_at_def read_with_header)

lemma kept_or_lost_trans:
  "kept_or_lost io i a b \<Longrightarrow> kept_or_lost io i b c \<Longrightarrow> kept_or_lost io i a c"
  by (auto simp: kept_or_lost_def)

lemma write_record:
  assumes "chip_reliable io" and "rmemWriteWithHeader io slot module name flags d e = (r, e')" and "length d \<le> 400"
  shows "reads_same io (- {slot}) e e'" and "io_load_chunk io k e' = io_load_chunk io k e"
    and "r = Se_OK \<Longrightarrow> length d \<le> n \<Longrightarrow>
      record_at io n slot e' = Some (new_header module name flags (of_nat (length d)), d)"
    and "r \<noteq> Se_OK \<Longrightarrow> record_at io n slot e' = record_at io n slot e \<or> record_at io n slot e' = None"
proof -
  note f = reliable_facts(2,3) [OF assms(1)] reliable_facts(4,5) [OF assms(1), of e]
  let ?h = "new_header module name flags (of_nat (length d))" and ?bad = "slot \<ge> RMEM_SLOT_COUNT"
  have size: "\<not> length d > io_slot_size io - RMEM_HEADER_SIZE" using f(1) assms(3) by simp
  obtain er e1 where er: "io_erase io slot e = (er, e1)" by fastforce
  have run: "(r, e') = (if ?bad then (Se_INVALID_PARAM, e) else if er \<noteq> Se_OK \<and> er \<noteq> Se_SLOT_EMPTY then (er, e1)
      else io_write io slot (header_bytes ?h @ d) e1)"
    using assms(2) f size er by (auto simp: rmemWriteWithHeader_def split: if_splits)
  show "reads_same io (- {slot}) e e'"
    using run reliable_erase(1) [OF assms(1) er] reliable_write(1) [OF assms(1), where i = slot and e = e1 and r = r and e' = e']
    by (auto simp: reads_same_def split: if_splits)
  show "io_load_chunk io k e' = io_load_chunk io k e"
    using run reliable_erase(2) [OF assms(1) er] reliable_write(2) [OF assms(1), where i = slot and e = e1 and r = r and e' = e']
    by (auto split: if_splits)
  have len: "length (rh_name ?h) = RMEM_NAME_LEN" by simp
  have u: "unat (rh_payload_len ?h) = length d" using assms(3) by (simp add: unat_of_nat_u16)
  show "record_at io n slot e' = Some (?h, d)" if "r = Se_OK" "length d \<le> n"
  proof -
    from that run have w: "io_write io slot (header_bytes ?h @ d) e1 = (Se_OK, e')" "\<not> ?bad" by (auto split: if_splits)
    have "length (header_bytes ?h @ d) \<le> io_slot_size io"
      using f(1) assms(3) parse_header_bytes(2) [OF len] by simp
    then have "io_read io slot RMEM_SLOT_SIZE_MAX e' = (Se_OK, header_bytes ?h @ d)"
      using reliable_write(3) [OF assms(1) w(1)] by simp
    then have "rmemReadWithHeader io slot (Some n) e' = (Se_OK, ?h, d)"
      using f reliable_facts(4,5) [OF assms(1), of e'] w(2) that size u parse_header_bytes [OF len] new_header_valid assms(3)
      by (simp add: read_with_header [OF assms(1)] checked_record_def Let_def del: new_header_fields)
    then show ?thesis by (simp add: record_at_def)
  qed
  show "record_at io n slot e' = record_at io n slot e \<or> record_at io n slot e' = None" if "r \<noteq> Se_OK"
  proof (rule record_at_kept [OF assms(1)])
    have "kept_or_lost io slot e e" by (simp add: kept_or_lost_def)
    with run that reliable_erase(4) [OF assms(1) er]
      reliable_write(4) [OF assms(1), where i = slot and e = e1 and r = r and e' = e']
    show "kept_or_lost io slot e e'" by (auto split: if_splits intro: kept_or_lost_trans)
  qed
qed

lemma erase_record:
  assumes "chip_reliable io" and "rmemErase io slot e = (r, e')"
  shows "reads_same io (- {slot}) e e'" and "io_load_chunk io k e' = io_load_chunk io k e"
    and "r = Se_OK \<Longrightarrow> record_at io n slot e' = None"
    and "record_at io n slot e' = record_at io n slot e \<or> record_at io n slot e' = None"
proof -
  note f = reliable_facts(2,3) [OF assms(1)] reliable_facts(4,5) [OF assms(1), of e]
  have run: "if slot \<ge> RMEM_SLOT_COUNT then r = Se_INVALID_PARAM \<and> e' = e else io_erase io slot e = (r, e')"
    using assms(2) f by (simp add: rmemErase_def split: if_splits)
  show "reads_same io (- {slot}) e e'" "io_load_chunk io k e' = io_load_chunk io k e"
    "record_at io n slot e' = record_at io n slot e \<or> record_at io n slot e' = None"
    using run reliable_erase [OF assms(1), where i = slot and e = e and r = r and e' = e'] record_at_kept [OF assms(1), of slot e e' n]
    by (auto simp: reads_same_def split: if_splits)
  show "record_at io n slot e' = None" if "r = Se_OK"
    using run that reliable_erase(3) [OF assms(1), where i = slot and e = e and r = r and e' = e'] record_at_lost [OF assms(1)]
    by (auto split: if_splits)
qed

section \<open>Entries of the cache\<close>

lemma length_loadChunk [simp]: "length (loadChunk io k s) = CHUNK_SLOTS"
  by (simp add: loadChunk_def split: option.splits)

definition chunks_same :: "'e tropic_io \<Rightarrow> 'e \<Rightarrow> 'e \<Rightarrow> bool" where
  "chunks_same io e e' \<longleftrightarrow> (\<forall>k. io_load_chunk io k e' = io_load_chunk io k e)"

lemma loadChunk_same: "chunks_same io (tr_hw s) (tr_hw t) \<Longrightarrow> loadChunk io k t = loadChunk io k s"
  by (simp add: chunks_same_def loadChunk_def)

lemma getEntry_same: "chunks_same io (tr_hw s) (tr_hw t) \<Longrightarrow> getEntry io j t = getEntry io j s"
  by (simp add: getEntry_def loadChunk_same)

lemma saveHeader_effect:
  assumes "chip_reliable io" and "saveHeader io s = (r, t)"
  shows "r" "reads_same io UNIV (tr_hw s) (tr_hw t)" "chunks_same io (tr_hw s) (tr_hw t)"
  using assms(2) reliable_header [OF assms(1)]
  by (auto simp: saveHeader_def on_chip_def chunks_same_def split: prod.splits)

lemma setEntry_effect:
  assumes "chip_reliable io" and "setEntry io slot c s = (r, t)"
  shows "r" "reads_same io UNIV (tr_hw s) (tr_hw t)" "getEntry io j t = (if j = slot then c else getEntry io j s)"
proof -
  let ?k = "unat slot div CHUNK_SLOTS" and ?i = "unat slot mod CHUNK_SLOTS"
  obtain e where e: "io_save_chunk io ?k ((loadChunk io ?k s)[?i := c]) (tr_hw s) = (r, e)" "t = s\<lparr>tr_hw := e\<rparr>"
    using assms(2) by (auto simp: setEntry_def saveChunk_def on_chip_def Let_def split: prod.splits)
  note eff = reliable_save [OF assms(1) e(1)]
  show "r" "reads_same io UNIV (tr_hw s) (tr_hw t)" using eff e(2) by simp_all
  have at_k: "loadChunk io ?k t = (loadChunk io ?k s)[?i := c]" 
    using eff(3) e(2) by (subst loadChunk_def) simp
  have other: "loadChunk io k t = loadChunk io k s" if "k \<noteq> ?k" for k
    using eff(4) [OF that] e(2) by (simp add: loadChunk_def)
  show "getEntry io j t = (if j = slot then c else getEntry io j s)"
  proof (cases "unat j div CHUNK_SLOTS = ?k")
    case True
    have "j = slot" if "unat j mod CHUNK_SLOTS = ?i"
      using True that by (metis div_mult_mod_eq word_unat_eq_iff)
    with True at_k show ?thesis by (auto simp: getEntry_def nth_list_update)
  next
    case False
    with other show ?thesis by (auto simp: getEntry_def)
  qed
qed

lemma writeSlot_effect:
  assumes "chip_reliable io" and "isEntryAllowed slot module" and "writeSlot io module slot name flags s = (r, t)"
  shows "r" "reads_same io UNIV (tr_hw s) (tr_hw t)"
    "getEntry io j t = (if j = slot then \<lparr>ce_module = module, ce_flags = flags OR FLAG_USED,
       ce_name = char_field RMEM_NAME_LEN name\<rparr> else getEntry io j s)"
proof -
  obtain ok u where u: "saveHeader io s = (ok, u)" by fastforce
  note h = saveHeader_effect [OF assms(1) u]
  from assms(2,3) u h(1) have "setEntry io slot \<lparr>ce_module = module, ce_flags = flags OR FLAG_USED,
      ce_name = char_field RMEM_NAME_LEN name\<rparr> u = (r, t)"
    by (simp add: writeSlot_def)
  note e = setEntry_effect [OF assms(1) this]
  show "r" by (rule e(1))
  show "reads_same io UNIV (tr_hw s) (tr_hw t)" using h(2) e(2) by (simp add: reads_same_def)
  show "getEntry io j t = (if j = slot then \<lparr>ce_module = module, ce_flags = flags OR FLAG_USED,
      ce_name = char_field RMEM_NAME_LEN name\<rparr> else getEntry io j s)"
    using e(3) [of j] getEntry_same [OF h(3)] by simp
qed

lemma eraseSlot_effect:
  assumes "chip_reliable io" and "isEntryAllowed slot module" and "eraseSlot io module slot s = (r, t)"
  shows "r" "reads_same io UNIV (tr_hw s) (tr_hw t)"
    "getEntry io j t = (if j = slot then zero_entry else getEntry io j s)"
  using setEntry_effect [OF assms(1), of slot zero_entry s r t] assms(2,3) by (simp_all add: eraseSlot_def)

section \<open>Iteration without effects\<close>

definition in_cache :: "'e tropic_io \<Rightarrow> byte \<Rightarrow> ('e, 'm) tropic_scheme \<Rightarrow> u16 \<Rightarrow> bool" where
  "in_cache io module s slot \<longleftrightarrow> isEntryUsed (getEntry io slot s) \<and>
     isEntryAllowed slot (ce_module (getEntry io slot s)) \<and> ce_module (getEntry io slot s) = module"

text \<open>The range of a module as the slot map gives it.\<close>

definition own_range :: "slot_manager \<Rightarrow> bool" where
  "own_range m \<longleftrightarrow> hasSlotRange m \<and> rmemStart m \<noteq> 0 \<and>
     getRangeByModuleId kSlotMap (moduleId m) RMEM \<noteq> None \<and>
     (\<forall>r. getRangeByModuleId kSlotMap (moduleId m) RMEM = Some r \<longrightarrow>
        se_start r \<le> rmemStart m \<and> rmemStart m \<le> rmemEnd m \<and> rmemEnd m \<le> se_end r \<and> se_end r \<le> 511)"

lemma fold_blocks:
  "a \<le> b \<Longrightarrow> fold (\<lambda>k. fold (\<lambda>i. f (64 * k + i)) [0..<64]) [a..<b] s = fold f [64 * a..<64 * b] s"
proof (induction "b - a" arbitrary: a s)
  case (Suc n)
  then have ab: "a < b" by simp
  have "[64 * a..<64 * b] = [64 * a..<64 * Suc a] @ [64 * Suc a..<64 * b]"
    using ab upt_add_eq_append [of "64 * a" "64 * Suc a" "64 * b - 64 * Suc a"] by simp
  moreover have "fold f [64 * a..<64 * Suc a] s = fold (\<lambda>i. f (64 * a + i)) [0..<64] s"
  proof -
    have "[64 * a..<64 * Suc a] = map (\<lambda>i. 64 * a + i) [0..<64]"
      using map_add_upt [of "64 * a" 64] by (simp add: add.commute)
    then show ?thesis by (simp only: fold_map comp_def)
  qed
  moreover have "[a..<b] = a # [Suc a..<b]" using ab by (simp add: upt_conv_Cons)
  ultimately show ?case using Suc.hyps(1) [of "Suc a"] Suc.hyps(2) ab by (simp del: upt_Suc)
qed simp

lemma fold_guard:
  assumes "a \<le> c" and "c \<le> d" and "d \<le> b" and "\<And>n s. n \<in> {a..<b} \<Longrightarrow> \<not> (c \<le> n \<and> n < d) \<Longrightarrow> f n s = s"
  shows "fold f [a..<b] s = fold f [c..<d] s"
proof -
  have skip: "fold f xs t = t" if "\<And>n s. n \<in> set xs \<Longrightarrow> f n s = s" for xs t
    using that by (induction xs) auto
  have "[a..<b] = [a..<c] @ [c..<d] @ [d..<b]"
    using assms(1-3) upt_add_eq_append [of a c "b - c"] upt_add_eq_append [of c d "b - d"]
    by (simp del: upt_Suc)
  moreover have "fold f [a..<c] t = t" "fold f [d..<b] t = t" for t
    using assms by (auto intro!: skip)
  ultimately show ?thesis by (simp del: upt_Suc)
qed

text \<open>A loop whose steps leave the state alone works on the context only.\<close>

lemma fold_context:
  "(\<And>k c. k \<in> set ks \<Longrightarrow> G k (c, s) = (H k c, s)) \<Longrightarrow> fold G ks (c, s) = (fold H ks c, s)"
  by (induction ks arbitrary: c) auto

lemma fold_same: "(\<And>n c. n \<in> set ns \<Longrightarrow> f n c = h n c) \<Longrightarrow> fold f ns c = fold h ns c"
  by (induction ns arbitrary: c) auto

lemma unat_slot: "n \<le> 511 \<Longrightarrow> unat (of_nat n :: u16) = n"
  by (rule unat_of_nat_u16) simp

lemma unat_offset: "unat lo + i \<le> 511 \<Longrightarrow> unat (lo + of_nat i :: u16) = unat lo + i"
  using unat_slot [of "unat lo + i"] by simp

definition on_cached ::
    "'e tropic_io \<Rightarrow> slot_manager \<Rightarrow> ('e, 'm) tropic_scheme \<Rightarrow> (u16 \<Rightarrow> 'c \<Rightarrow> 'c) \<Rightarrow> nat \<Rightarrow> 'c \<Rightarrow> 'c" where
  "on_cached io m s g n c = (if in_cache io (moduleId m) s (of_nat n) then g (of_nat n) c else c)"

lemma visit_pure:
  assumes "\<And>slot c. cb slot (getEntry io slot s) (c, s) = (g slot c, s)" and "64 * k + i \<le> 511" and "i < 64"
  shows "visit_slot (moduleId m) lo hi cb k (loadChunk io k s) i (c, s) =
    (if lo \<le> of_nat (64 * k + i) \<and> of_nat (64 * k + i) \<le> hi then on_cached io m s g (64 * k + i) c else c, s)"
proof -
  have "getEntry io (of_nat (64 * k + i)) s = loadChunk io k s ! i"
    using unat_slot [OF assms(2)] assms(3) by (simp only: getEntry_def) simp
  then show ?thesis
    unfolding visit_slot_def Let_def on_cached_def using assms(1) [of "of_nat (64 * k + i)" c]
    by (auto simp: in_cache_def not_less mult.commute)
qed

text \<open>
  A callback that changes its context only runs on the slots of the module in the cache, in their order.
\<close>

lemma forEachSlot_pure:
  assumes "own_range m" and "\<And>slot c. cb slot (getEntry io slot s) (c, s) = (g slot c, s)"
  shows "forEachSlot io (moduleId m) (rmemStart m) (rmemEnd m) cb (c, s) =
    (True, fold (on_cached io m s g) [unat (rmemStart m)..<Suc (unat (rmemEnd m))] c, s)"
proof -
  let ?lo = "rmemStart m" and ?hi = "rmemEnd m"
  let ?a = "unat ?lo div 64" and ?b = "Suc (unat ?hi div 64)"
  obtain r where r: "getRangeByModuleId kSlotMap (moduleId m) RMEM = Some r"
    using assms(1) by (auto simp: own_range_def)
  with assms(1) have b: "?lo \<noteq> 0" "se_start r \<le> ?lo" "?lo \<le> ?hi" "?hi \<le> se_end r" "se_end r \<le> 511"
    by (simp_all add: own_range_def)
  have hi: "unat ?hi \<le> 511" "?hi \<noteq> 0xFFFF" using b(4,5) by (auto simp: word_le_nat_alt)
  define h where "h = (\<lambda>n c. if ?lo \<le> of_nat n \<and> of_nat n \<le> ?hi then on_cached io m s g n c else c)"
  define G where "G = (\<lambda>k t. fold (visit_slot (moduleId m) ?lo ?hi cb k (loadChunk io k (snd t))) [0..<64] t)"
  have "G k (c, s) = (fold (\<lambda>i. h (64 * k + i)) [0..<64] c, s)" if "k \<in> set [?a..<?b]" for k c
  proof -
    have "unat ?hi div 64 \<le> 511 div 64" by (rule div_le_mono [OF hi(1)])
    moreover have "k \<le> unat ?hi div 64" using that by auto
    ultimately have "64 * k + 63 \<le> 511" by simp
    then show ?thesis
      unfolding G_def h_def using visit_pure [where cb = cb and io = io and s = s and g = g, OF assms(2), where m = m and lo = ?lo and hi = ?hi]
      by (simp only: snd_conv) (rule fold_context, simp)
  qed
  then have "fold G [?a..<?b] (c, s) = (fold (\<lambda>k. fold (\<lambda>i. h (64 * k + i)) [0..<64]) [?a..<?b] c, s)"
    by (rule fold_context)
  also have "fold (\<lambda>k. fold (\<lambda>i. h (64 * k + i)) [0..<64]) [?a..<?b] c = fold h [64 * ?a..<64 * ?b] c"
    using b(3) by (intro fold_blocks) (simp add: word_le_nat_alt div_le_mono le_SucI)
  also have "\<dots> = fold h [unat ?lo..<Suc (unat ?hi)] c"
  proof (rule fold_guard)
    show "64 * ?a \<le> unat ?lo" "unat ?lo \<le> Suc (unat ?hi)" using b(3) by (simp_all add: word_le_nat_alt)
    show "Suc (unat ?hi) \<le> 64 * ?b" by (simp add: Suc_leI dividend_less_div_times mult.commute)
    fix n c
    assume n: "n \<in> {64 * ?a..<64 * ?b}" "\<not> (unat ?lo \<le> n \<and> n < Suc (unat ?hi))"
    have "unat ?hi div 64 \<le> 511 div 64" by (rule div_le_mono [OF hi(1)])
    then have "n \<le> 511" using n(1) by simp
    then show "h n c = c" using n(2) by (auto simp: h_def word_le_nat_alt unat_slot)
  qed
  also have "\<dots> = fold (on_cached io m s g) [unat ?lo..<Suc (unat ?hi)] c"
    using hi(1) by (intro fold_same) (auto simp: h_def word_le_nat_alt unat_slot)
  finally show ?thesis
    using b hi(2) r by (auto simp: forEachSlot_def Let_def not_less G_def simp del: upt_Suc)
qed

section \<open>The free slot\<close>

lemma capacity_count: "own_range m \<Longrightarrow> unat (slot_capacity m) = Suc (unat (rmemEnd m)) - unat (rmemStart m)"
proof -
  assume m: "own_range m"
  then have b: "hasSlotRange m" "rmemStart m \<le> rmemEnd m" "rmemEnd m \<le> 511" by (auto simp: own_range_def)
  then have d: "unat (rmemEnd m - rmemStart m) = unat (rmemEnd m) - unat (rmemStart m)" "unat (rmemEnd m) \<le> 511"
    by (simp_all add: unat_sub word_le_nat_alt)
  have "unat (rmemStart m) \<noteq> 0" using m by (auto simp: own_range_def unat_eq_0)
  then have "unat (rmemEnd m - rmemStart m + 1) = Suc (unat (rmemEnd m) - unat (rmemStart m))"
    using unat_offset [of "rmemEnd m - rmemStart m" 1] d by simp
  with b m show ?thesis by (simp add: slot_capacity_def word_le_nat_alt Suc_diff_le)
qed

definition mark_used :: "slot_manager \<Rightarrow> u16 \<Rightarrow> bool list \<Rightarrow> bool list" where
  "mark_used m slot used =
     (if slot < rmemStart m then used
      else if slot - rmemStart m < slot_capacity m then used[unat (slot - rmemStart m) := True] else used)"

lemma mark_fold:
  assumes "own_range m" and "set ns \<subseteq> {unat (rmemStart m)..<Suc (unat (rmemEnd m))}"
    and "length used = unat (slot_capacity m)" and "i < length used"
  shows "fold (on_cached io m s (mark_used m)) ns used ! i \<longleftrightarrow>
    used ! i \<or> unat (rmemStart m) + i \<in> set ns \<and> in_cache io (moduleId m) s (rmemStart m + of_nat i)"
  using assms(2-)
proof (induction ns arbitrary: used)
  case (Cons n ns)
  let ?lo = "unat (rmemStart m)"
  have b: "unat (rmemEnd m) \<le> 511" using assms(1) by (auto simp: own_range_def word_le_nat_alt)
  have n: "?lo \<le> n" "n \<le> unat (rmemEnd m)" using Cons.prems(1) by auto
  then have un: "unat (of_nat n :: u16) = n" using b unat_slot by simp
  have ge: "rmemStart m \<le> of_nat n" using n(1) un by (simp add: word_le_nat_alt)
  then have d: "unat (of_nat n - rmemStart m) = n - ?lo" by (simp add: unat_sub un)
  have lt: "of_nat n - rmemStart m < slot_capacity m"
    using capacity_count [OF assms(1)] n d by (simp add: word_less_nat_alt)
  have mark: "mark_used m (of_nat n) used = used[n - ?lo := True]"
    using ge lt d by (simp add: mark_used_def not_less [symmetric])
  define used' where "used' = on_cached io m s (mark_used m) n used"
  have u: "used' = (if in_cache io (moduleId m) s (of_nat n) then used[n - ?lo := True] else used)"
    unfolding used'_def on_cached_def mark ..
  then have "used' ! i \<longleftrightarrow> used ! i \<or> (?lo + i = n \<and> in_cache io (moduleId m) s (rmemStart m + of_nat i))"
  proof (cases "?lo + i = n")
    case True
    then have "of_nat n = rmemStart m + of_nat i" by auto
    with True u Cons.prems(3) show ?thesis by auto
  next
    case False
    then have "n - ?lo \<noteq> i" using n(1) by auto
    with False u show ?thesis by simp
  qed
  moreover have "length used' = length used" using u by simp
  ultimately show ?case
    using Cons.IH [of used'] Cons.prems by (auto simp: used'_def [symmetric])
qed simp

lemma findFreeSlot_first:
  assumes "own_range m"
  shows "findFreeSlot io m s = map_option (\<lambda>i. rmemStart m + of_nat i)
    (find (\<lambda>i. \<not> in_cache io (moduleId m) s (rmemStart m + of_nat i)) [0..<unat (slot_capacity m)])"
proof -
  let ?cap = "unat (slot_capacity m)" and ?lo = "unat (rmemStart m)"
  have cap: "?cap = Suc (unat (rmemEnd m)) - ?lo" by (rule capacity_count [OF assms])
  have b: "hasSlotRange m" "rmemStart m \<le> rmemEnd m" "rmemEnd m \<le> 511" using assms by (auto simp: own_range_def)
  have pos: "0 < ?cap" using b(2) cap by (simp add: word_le_nat_alt)
  define used where "used = fold (on_cached io m s (mark_used m)) [?lo..<Suc (unat (rmemEnd m))] (replicate ?cap False)"
  have u: "used ! i \<longleftrightarrow> in_cache io (moduleId m) s (rmemStart m + of_nat i)" if "i < ?cap" for i
    using mark_fold [OF assms, of "[?lo..<Suc (unat (rmemEnd m))]" "replicate ?cap False" i io s] that cap
    by (auto simp: used_def simp del: upt_Suc)
  have in_range: "rmemStart m + of_nat i \<le> rmemEnd m" if "i < ?cap" for i
  proof -
    have "?lo + i \<le> unat (rmemEnd m)" "unat (rmemEnd m) \<le> 511" using that cap b by (simp_all add: word_le_nat_alt)
    then show ?thesis by (simp add: word_le_nat_alt unat_offset)
  qed
  have "find (\<lambda>i. \<not> used ! i) [0..<?cap] =
      find (\<lambda>i. \<not> in_cache io (moduleId m) s (rmemStart m + of_nat i)) [0..<?cap]"
    by (rule find_cong) (auto simp: u)
  moreover have "slot_capacity m \<noteq> 0" using pos by auto
  moreover have "forEachSlot io (moduleId m) (rmemStart m) (rmemEnd m)
      (\<lambda>slot entry (used, s). if slot < rmemStart m then (used, s)
         else let idx = slot - rmemStart m in if idx < slot_capacity m then (used[unat idx := True], s) else (used, s))
      (replicate ?cap False, s) = (True, used, s)"
    unfolding used_def by (rule forEachSlot_pure [OF assms]) (simp add: mark_used_def Let_def)
  ultimately show ?thesis
    using b(1) in_range by (auto simp: findFreeSlot_def Let_def split: option.splits dest!: findD)
qed

end
