(* ===== verification/Oath_Store.thy ===== *)
theory Oath_Store
  imports Tropic_Records Oath
begin

text \<open>
  The store of the OATH credentials (\<^verbatim>\<open>mod_2fa/src/OathStore.cpp\<close>): records with a header in the
  R-Memory slots of the module, found through the cache of the headers.

  mbedtls, the clock and the time zone are functions of the environment (\<^verbatim>\<open>oath_env\<close>). Null pointers
  are not modelled: every caller passes buffers and strings, and an absent issuer is the empty one.
  The 32-bit \<^verbatim>\<open>int\<close> that collects the bits of a Base32 text is shifted beyond its width, which the
  compiler lets wrap.
\<close>

section \<open>State\<close>

datatype md_type = MD_SHA1 | MD_SHA256 | MD_SHA512

record 'e oath_env =
  x_io :: "'e tropic_io"
  x_md_hmac :: "md_type \<Rightarrow> bytes \<Rightarrow> bytes \<Rightarrow> bytes option"
  x_time :: "'e \<Rightarrow> u64"
  x_local_year :: "u64 \<Rightarrow> int"

record 'e oath_store = "'e tropic" +
  os_slots :: slot_manager

record oath_entry =
  oe_type :: byte
  oe_name :: bytes
  oe_issuer :: bytes
  oe_secret :: bytes
  oe_secretLen :: byte
  oe_algorithm :: byte
  oe_digits :: byte
  oe_period :: u32
  oe_counter :: u64
  oe_flags :: byte

abbreviation (input) "SECRET_LEN \<equiv> (64 :: nat)"
abbreviation (input) "OATH_PAYLOAD_SIZE \<equiv> (113 :: nat)"
abbreviation (input) "DEFAULT_DIGITS \<equiv> (6 :: byte)"
abbreviation (input) "DEFAULT_PERIOD \<equiv> (30 :: u32)"
abbreviation (input) "USB_CR_SLOT \<equiv> (0x02 :: byte)"

section \<open>Parameters and Base32\<close>

text \<open>The digits and the period that are stored, unless the parameters are refused.\<close>

definition validateOathParams :: "byte \<Rightarrow> byte \<Rightarrow> u32 \<Rightarrow> byte \<Rightarrow> (byte \<times> u32) option" where
  "validateOathParams type digits period algorithm =
     (if type > OTYPE_CR then None
      else if type = OTYPE_CR then (if algorithm \<noteq> 0 \<and> algorithm \<noteq> 1 then None else Some (digits, period))
      else if digits \<noteq> 0 \<and> (digits < 6 \<or> digits > 8) then None
      else
        let digits = (if digits = 0 then DEFAULT_DIGITS else digits) in
        if type = OTYPE_TOTP \<and> period \<noteq> 0 \<and> (period < 15 \<or> period > 300) then None
        else
          let period = (if type = OTYPE_TOTP \<and> period = 0 then DEFAULT_PERIOD else period) in
          if algorithm > 2 then None else Some (digits, period))"

definition base32CharValue :: "byte \<Rightarrow> u32 option" where
  "base32CharValue c =
     (if c \<ge> 0x41 \<and> c \<le> 0x5A then Some (ucast c - 0x41)
      else if c \<ge> 0x61 \<and> c \<le> 0x7A then Some (ucast c - 0x61)
      else if c \<ge> 0x32 \<and> c \<le> 0x37 then Some (ucast c - 0x32 + 26)
      else None)"

text \<open>The loop over the text, with the bits collected, their number and the bytes written.\<close>

fun base32_loop :: "bytes \<Rightarrow> u32 \<Rightarrow> nat \<Rightarrow> bytes \<Rightarrow> nat \<Rightarrow> bytes option" where
  "base32_loop [] buffer bitsLeft out outMax = Some out"
| "base32_loop (c # cs) buffer bitsLeft out outMax =
     (if c \<in> {0x3D, 0x20, 0x09, 0x0D, 0x0A} then base32_loop cs buffer bitsLeft out outMax
      else
        case base32CharValue c of
          None \<Rightarrow> None
        | Some v \<Rightarrow>
            let buffer = push_bit 5 buffer OR v; bitsLeft = bitsLeft + 5 in
            if bitsLeft \<ge> 8 then
              (if length out \<ge> outMax then None
               else base32_loop cs buffer (bitsLeft - 8) (out @ [byte_at (bitsLeft - 8) buffer]) outMax)
            else base32_loop cs buffer bitsLeft out outMax)"

definition base32Decode :: "bytes \<Rightarrow> nat \<Rightarrow> bytes option" where
  "base32Decode encoded outMax = base32_loop encoded 0 0 [] outMax"

section \<open>Records\<close>

definition payload_bytes ::
    "byte \<Rightarrow> bytes \<Rightarrow> bytes \<Rightarrow> byte \<Rightarrow> u32 \<Rightarrow> u64 \<Rightarrow> byte \<Rightarrow> byte \<Rightarrow> bytes" where
  "payload_bytes type issuer secret digits period counter algorithm flags =
     [type] @ char_field 32 issuer @ secret @ replicate (SECRET_LEN - length secret) 0 @
     [of_nat (length secret), digits] @ le_bytes 4 period @ le_bytes 8 counter @ [algorithm, flags]"

definition parse_entry :: "rmem_header \<Rightarrow> bytes \<Rightarrow> oath_entry" where
  "parse_entry h d =
     (let secretLen = d ! 97; digits = d ! 98; period = le_value (take 4 (drop 99 d)) in
      \<lparr>oe_type = d ! 0, oe_name = cstr (take 15 (rh_name h)), oe_issuer = cstr (take 31 (drop 1 d)),
       oe_secret = take SECRET_LEN (drop 33 d), oe_secretLen = (if secretLen > 64 then 64 else secretLen),
       oe_algorithm = d ! 111, oe_digits = (if digits \<noteq> 0 then digits else DEFAULT_DIGITS),
       oe_period = (if period \<noteq> 0 then period else DEFAULT_PERIOD),
       oe_counter = le_value (take 8 (drop 103 d)), oe_flags = d ! 112\<rparr>)"

definition readAccount :: "'e oath_env \<Rightarrow> u16 \<Rightarrow> ('e, 'm) oath_store_scheme \<Rightarrow> oath_entry option" where
  "readAccount x slot s =
     (if \<not> hasSlotRange (os_slots s) then None
      else
        case toPhysicalSlot (os_slots s) slot of
          None \<Rightarrow> None
        | Some physSlot \<Rightarrow>
            if \<not> io_present (x_io x) then None
            else
              (case rmemReadWithHeader (x_io x) physSlot (Some OATH_PAYLOAD_SIZE) (tr_hw s) of (res, h, d) \<Rightarrow>
                 if res \<noteq> Se_OK then None
                 else if rh_module h \<noteq> moduleId (os_slots s) then None
                 else if length d \<noteq> OATH_PAYLOAD_SIZE then None
                 else Some (parse_entry h d)))"

definition writePayload ::
    "'e oath_env \<Rightarrow> u16 \<Rightarrow> bytes \<Rightarrow> byte \<Rightarrow> bytes \<Rightarrow> bytes \<Rightarrow> byte \<Rightarrow> u32 \<Rightarrow> u64 \<Rightarrow> byte \<Rightarrow> byte \<Rightarrow>
      ('e, 'm) oath_store_scheme \<Rightarrow> bool \<times> ('e, 'm) oath_store_scheme" where
  "writePayload x physSlot name type issuer secret digits period counter algorithm flags s =
     (if \<not> io_present (x_io x) then (False, s)
      else
        let payload = payload_bytes type issuer secret (if digits \<noteq> 0 then digits else DEFAULT_DIGITS)
              (if period \<noteq> 0 then period else DEFAULT_PERIOD) counter algorithm flags;
            module = moduleId (os_slots s) in
        (case on_chip (rmemWriteWithHeader (x_io x) physSlot module name flags payload) s of (res, s) \<Rightarrow>
           if res \<noteq> Se_OK then (False, s)
           else (True, snd (writeSlot (x_io x) module physSlot name flags s))))"

definition store_setSlotRange :: "bool \<Rightarrow> u16 \<Rightarrow> u16 \<Rightarrow> byte \<Rightarrow> ('e, 'm) oath_store_scheme \<Rightarrow> ('e, 'm) oath_store_scheme" where
  "store_setSlotRange hasRmem start stop module s =
     s\<lparr>os_slots := (if \<not> hasRmem then setSlotRange 0 0 0 else setSlotRange start stop module)\<rparr>"

definition addAccountRaw ::
    "'e oath_env \<Rightarrow> new_credential \<Rightarrow> ('e, 'm) oath_store_scheme \<Rightarrow> bool \<times> ('e, 'm) oath_store_scheme" where
  "addAccountRaw x n s =
     (if n_key n = [] \<or> length (n_key n) > SECRET_LEN then (False, s)
      else if \<not> hasSlotRange (os_slots s) then (False, s)
      else if length (n_name n) \<ge> RMEM_NAME_LEN then (False, s)
      else
        case validateOathParams (n_type n) (n_digits n) (n_period n) (n_algorithm n) of
          None \<Rightarrow> (False, s)
        | Some (digits, period) \<Rightarrow>
            (case findFreeSlot (x_io x) (os_slots s) s of
               None \<Rightarrow> (False, s)
             | Some slot \<Rightarrow> writePayload x slot (n_name n) (n_type n) (n_issuer n) (n_key n) digits period
                  (n_counter n) (n_algorithm n) (n_flags n) s))"

text \<open>Without its key; \<open>secretBase32\<close> is the text of it.\<close>

definition addAccount ::
    "'e oath_env \<Rightarrow> new_credential \<Rightarrow> bytes \<Rightarrow> ('e, 'm) oath_store_scheme \<Rightarrow> bool \<times> ('e, 'm) oath_store_scheme" where
  "addAccount x n secretBase32 s =
     (case base32Decode secretBase32 SECRET_LEN of
        None \<Rightarrow> (False, s)
      | Some secret \<Rightarrow> if secret = [] then (False, s) else addAccountRaw x (n\<lparr>n_key := secret\<rparr>) s)"

definition updateAccount ::
    "'e oath_env \<Rightarrow> u16 \<Rightarrow> new_credential \<Rightarrow> bytes \<Rightarrow> ('e, 'm) oath_store_scheme \<Rightarrow>
      bool \<times> ('e, 'm) oath_store_scheme" where
  "updateAccount x slot n secretBase32 s =
     (if \<not> hasSlotRange (os_slots s) then (False, s)
      else if length (n_name n) \<ge> RMEM_NAME_LEN then (False, s)
      else
        case validateOathParams (n_type n) (n_digits n) (n_period n) (n_algorithm n) of
          None \<Rightarrow> (False, s)
        | Some (digits, period) \<Rightarrow>
            (case toPhysicalSlot (os_slots s) slot of
               None \<Rightarrow> (False, s)
             | Some physSlot \<Rightarrow>
                 (case base32Decode secretBase32 SECRET_LEN of
                    None \<Rightarrow> (False, s)
                  | Some secret \<Rightarrow>
                      if secret = [] then (False, s)
                      else writePayload x physSlot (n_name n) (n_type n) (n_issuer n) secret digits period
                        (n_counter n) (n_algorithm n) (n_flags n) s)))"

definition deleteAccount ::
    "'e oath_env \<Rightarrow> u16 \<Rightarrow> ('e, 'm) oath_store_scheme \<Rightarrow> bool \<times> ('e, 'm) oath_store_scheme" where
  "deleteAccount x slot s =
     (if \<not> hasSlotRange (os_slots s) then (False, s)
      else
        case toPhysicalSlot (os_slots s) slot of
          None \<Rightarrow> (False, s)
        | Some physSlot \<Rightarrow>
            if \<not> io_present (x_io x) then (False, s)
            else
              (case on_chip (rmemErase (x_io x) physSlot) s of (res, s) \<Rightarrow>
                 if res \<noteq> Se_OK then (False, s)
                 else (True, snd (eraseSlot (x_io x) (moduleId (os_slots s)) physSlot s))))"

section \<open>Codes\<close>

definition hmac_type :: "byte \<Rightarrow> md_type \<times> nat" where
  "hmac_type algo = (if algo = 1 then (MD_SHA256, 32) else if algo = 2 then (MD_SHA512, 64) else (MD_SHA1, 20))"

definition hmacCompute :: "'e oath_env \<Rightarrow> byte \<Rightarrow> bytes \<Rightarrow> bytes \<Rightarrow> (bytes \<times> nat) option" where
  "hmacCompute x algo key dat =
     (let (md, expectedLen) = hmac_type algo in map_option (\<lambda>out. (out, expectedLen)) (x_md_hmac x md key dat))"

text \<open>The offset is the low half of the last byte; the digest is written into a zeroed buffer of 64.\<close>

definition computeTruncated :: "'e oath_env \<Rightarrow> bytes \<Rightarrow> u64 \<Rightarrow> byte \<Rightarrow> u32 option" where
  "computeTruncated x secret counter algorithm =
     (if secret = [] \<or> length secret > SECRET_LEN then None
      else
        let counterBytes = map (\<lambda>i. byte_at (8 * (7 - i)) counter) [0..<8] in
        case hmacCompute x algorithm secret counterBytes of
          None \<Rightarrow> None
        | Some (out, hmacLen) \<Rightarrow>
            let hmac = out @ replicate (64 - length out) 0; offset = unat (hmac ! (hmacLen - 1) AND 0x0F) in
            Some (be32 (hmac ! offset AND 0x7F) (hmac ! (offset + 1)) (hmac ! (offset + 2)) (hmac ! (offset + 3))))"

definition generate :: "'e oath_env \<Rightarrow> bytes \<Rightarrow> u64 \<Rightarrow> byte \<Rightarrow> byte \<Rightarrow> u32" where
  "generate x secret counter digits algorithm =
     (let digits = (if digits < 6 \<or> digits > 8 then DEFAULT_DIGITS else digits) in
      case computeTruncated x secret counter algorithm of
        None \<Rightarrow> 0
      | Some binary \<Rightarrow> binary mod of_nat (10 ^ unat digits))"

text \<open>The key of an entry: as many bytes of the buffer as its length says.\<close>

definition entry_key :: "oath_entry \<Rightarrow> bytes" where
  "entry_key e = take (unat (oe_secretLen e)) (oe_secret e)"

definition persistCounter ::
    "'e oath_env \<Rightarrow> u16 \<Rightarrow> oath_entry \<Rightarrow> u64 \<Rightarrow> ('e, 'm) oath_store_scheme \<Rightarrow> bool \<times> ('e, 'm) oath_store_scheme" where
  "persistCounter x slot entry counter s =
     (case toPhysicalSlot (os_slots s) slot of
        None \<Rightarrow> (False, s)
      | Some physSlot \<Rightarrow> writePayload x physSlot (oe_name entry) (oe_type entry) (oe_issuer entry) (entry_key entry)
          (oe_digits entry) (oe_period entry) counter (oe_algorithm entry) (oe_flags entry) s)"

definition calculateForChallenge ::
    "'e oath_env \<Rightarrow> u16 \<Rightarrow> bytes \<Rightarrow> ('e, 'm) oath_store_scheme \<Rightarrow> (bytes \<times> byte) option \<times> ('e, 'm) oath_store_scheme" where
  "calculateForChallenge x slot challenge s =
     (case readAccount x slot s of
        None \<Rightarrow> (None, s)
      | Some entry \<Rightarrow>
          if oe_type entry = OTYPE_CR then (None, s)
          else
            let (ok, counter, s) =
              (if oe_type entry = OTYPE_HOTP
               then (case persistCounter x slot entry (oe_counter entry + 1) s of (ok, s) \<Rightarrow> (ok, oe_counter entry, s))
               else (True, foldl (\<lambda>c b. push_bit 8 c OR ucast b) 0 (take 8 challenge), s)) in
            if \<not> ok then (None, s)
            else
              case computeTruncated x (entry_key entry) counter (oe_algorithm entry) of
                None \<Rightarrow> (None, s)
              | Some binary \<Rightarrow>
                  (Some ([byte_at 24 binary, byte_at 16 binary, byte_at 8 binary, byte_at 0 binary],
                     if oe_digits entry \<noteq> 0 then oe_digits entry else DEFAULT_DIGITS), s))"

text \<open>\<^verbatim>\<open>snprintf\<close> with \<^verbatim>\<open>%0<n>lu\<close> into a buffer of the given size.\<close>

definition formatCode :: "u32 \<Rightarrow> byte \<Rightarrow> nat \<Rightarrow> bytes" where
  "formatCode code digits codeOutLen =
     (let width = (if digits \<ge> 6 \<and> digits \<le> 8 then unat digits else 6); ds = decimal (unat code) in
      take (codeOutLen - 1) (replicate (width - length ds) 0x30 @ ds))"

definition timeRemaining :: "'e oath_env \<Rightarrow> u32 \<Rightarrow> 'e \<Rightarrow> byte" where
  "timeRemaining x period e =
     (let period = (if period = 0 then DEFAULT_PERIOD else period) in
      ucast (ucast period - x_time x e mod ucast period))"

definition isTimeValid :: "'e oath_env \<Rightarrow> 'e \<Rightarrow> bool" where
  "isTimeValid x e \<longleftrightarrow> x_local_year x (x_time x e) \<ge> 124"

definition generateCode ::
    "'e oath_env \<Rightarrow> u16 \<Rightarrow> nat \<Rightarrow> ('e, 'm) oath_store_scheme \<Rightarrow> (int \<times> bytes) \<times> ('e, 'm) oath_store_scheme" where
  "generateCode x slot codeOutLen s =
     (if codeOutLen = 0 then ((-1, []), s)
      else
        case readAccount x slot s of
          None \<Rightarrow> ((-1, []), s)
        | Some account \<Rightarrow>
            if oe_type account = OTYPE_HOTP then
              let code = generate x (entry_key account) (oe_counter account) (oe_digits account) (oe_algorithm account) in
              (case persistCounter x slot account (oe_counter account + 1) s of (ok, s) \<Rightarrow>
                 if \<not> ok then ((-1, []), s)
                 else ((0, formatCode code (oe_digits account) codeOutLen), s))
            else if \<not> isTimeValid x (tr_hw s) then ((-1, take (codeOutLen - 1) (replicate 6 0x2D)), s)
            else
              let period = (if oe_period account \<noteq> 0 then oe_period account else DEFAULT_PERIOD);
                  counter = x_time x (tr_hw s) div ucast period;
                  code = generate x (entry_key account) counter (oe_digits account) (oe_algorithm account) in
              ((sint (timeRemaining x (oe_period account) (tr_hw s)), formatCode code (oe_digits account) codeOutLen), s))"

section \<open>Lookups\<close>

text \<open>\<^verbatim>\<open>strncmp\<close> of two C strings.\<close>

definition strncmp_eq :: "nat \<Rightarrow> bytes \<Rightarrow> bytes \<Rightarrow> bool" where
  "strncmp_eq n a b \<longleftrightarrow> take n a = take n b"

definition findByName :: "'e oath_env \<Rightarrow> bytes \<Rightarrow> ('e, 'm) oath_store_scheme \<Rightarrow> u16 option" where
  "findByName x name s =
     (if \<not> hasSlotRange (os_slots s) then None
      else
        let cb = (\<lambda>slot entry (found, s).
              if found \<noteq> None then (found, s)
              else if strncmp_eq RMEM_NAME_LEN (cstr (ce_name entry)) name
              then (toLogicalSlot (os_slots s) slot, s)
              else (found, s)) in
        fst (snd (forEachSlot (x_io x) (moduleId (os_slots s)) (rmemStart (os_slots s)) (rmemEnd (os_slots s)) cb (None, s))))"

definition challengeResponse ::
    "'e oath_env \<Rightarrow> bytes \<Rightarrow> bytes \<Rightarrow> ('e, 'm) oath_store_scheme \<Rightarrow> (bytes \<times> bool) option" where
  "challengeResponse x entryName challenge s =
     (case findByName x entryName s of
        None \<Rightarrow> None
      | Some slot \<Rightarrow>
          (case readAccount x slot s of
             None \<Rightarrow> None
           | Some entry \<Rightarrow>
               if oe_type entry \<noteq> OTYPE_CR then None
               else if oe_secretLen entry = 0 then None
               else if oe_algorithm entry \<noteq> 0 \<and> oe_algorithm entry \<noteq> 1 then None
               else
                 (case hmacCompute x (oe_algorithm entry) (entry_key entry) challenge of
                    None \<Rightarrow> None
                  | Some (out, outLen) \<Rightarrow> Some (take outLen out, oe_flags entry AND OFLAG_TOUCH \<noteq> 0))))"

definition findUsbCrSlot :: "'e oath_env \<Rightarrow> ('e, 'm) oath_store_scheme \<Rightarrow> u16 option" where
  "findUsbCrSlot x s =
     (if \<not> hasSlotRange (os_slots s) then None
      else
        let cb = (\<lambda>slot entry (found, s).
              if found \<noteq> None then (found, s)
              else
                case toLogicalSlot (os_slots s) slot of
                  None \<Rightarrow> (found, s)
                | Some logical \<Rightarrow>
                    (case readAccount x logical s of
                       None \<Rightarrow> (found, s)
                     | Some e \<Rightarrow>
                         if oe_type e = OTYPE_CR \<and> oe_flags e AND USB_CR_SLOT \<noteq> 0 then (Some logical, s) else (found, s))) in
        fst (snd (forEachSlot (x_io x) (moduleId (os_slots s)) (rmemStart (os_slots s)) (rmemEnd (os_slots s)) cb (None, s))))"

definition challengeResponseUsbSlot ::
    "'e oath_env \<Rightarrow> bytes \<Rightarrow> ('e, 'm) oath_store_scheme \<Rightarrow> (bytes \<times> bool) option" where
  "challengeResponseUsbSlot x challenge s =
     (case findUsbCrSlot x s of
        None \<Rightarrow> None
      | Some slot \<Rightarrow>
          (case readAccount x slot s of
             None \<Rightarrow> None
           | Some entry \<Rightarrow> challengeResponse x (oe_name entry) challenge s))"

definition clear_cr_flag ::
    "'e oath_env \<Rightarrow> u16 \<Rightarrow> u16 \<Rightarrow> ('e, 'm) oath_store_scheme \<Rightarrow> ('e, 'm) oath_store_scheme" where
  "clear_cr_flag x keep slot s =
     (case toLogicalSlot (os_slots s) slot of
        None \<Rightarrow> s
      | Some logical \<Rightarrow>
          if logical = keep then s
          else
            (case readAccount x logical s of
               None \<Rightarrow> s
             | Some entry \<Rightarrow>
                 if oe_flags entry AND USB_CR_SLOT = 0 then s
                 else
                   (case toPhysicalSlot (os_slots s) logical of
                      None \<Rightarrow> s
                    | Some physSlot \<Rightarrow>
                        snd (writePayload x physSlot (oe_name entry) (oe_type entry) (oe_issuer entry) (entry_key entry)
                          (oe_digits entry) (oe_period entry) (oe_counter entry) (oe_algorithm entry)
                          (oe_flags entry AND NOT USB_CR_SLOT) s))))"

definition clearUsbCrFlagExcept ::
    "'e oath_env \<Rightarrow> u16 \<Rightarrow> ('e, 'm) oath_store_scheme \<Rightarrow> ('e, 'm) oath_store_scheme" where
  "clearUsbCrFlagExcept x keepSlot s =
     (if \<not> hasSlotRange (os_slots s) then s
      else snd (snd (forEachSlot (x_io x) (moduleId (os_slots s)) (rmemStart (os_slots s)) (rmemEnd (os_slots s))
        (\<lambda>slot entry (c, s). (c, clear_cr_flag x keepSlot slot s)) ((), s))))"

end
