(* ===== verification/Oath_Accounts.thy ===== *)
theory Oath_Accounts
  imports Oath_Store
begin

text \<open>
  The OATH store as a map from slots to credentials, the agreement of the records with the cache of
  their headers, and what each operation does to the map.
\<close>

section \<open>The map\<close>

definition oaccounts :: "'e oath_env \<Rightarrow> ('e, 'm) oath_store_scheme \<Rightarrow> u16 \<Rightarrow> oath_entry option" where
  "oaccounts x s = (\<lambda>i. readAccount x i s)"

text \<open>What a reader finds of a credential that was written with these parameters.\<close>

definition new_entry :: "bytes \<Rightarrow> byte \<Rightarrow> bytes \<Rightarrow> bytes \<Rightarrow> byte \<Rightarrow> u32 \<Rightarrow> u64 \<Rightarrow> byte \<Rightarrow> byte \<Rightarrow> oath_entry" where
  "new_entry name type issuer secret digits period counter algorithm flags =
     \<lparr>oe_type = type, oe_name = take 15 (cstr name), oe_issuer = take 31 (cstr issuer),
      oe_secret = secret @ replicate (SECRET_LEN - length secret) 0, oe_secretLen = of_nat (length secret),
      oe_algorithm = algorithm, oe_digits = (if digits \<noteq> 0 then digits else DEFAULT_DIGITS),
      oe_period = (if period \<noteq> 0 then period else DEFAULT_PERIOD), oe_counter = counter, oe_flags = flags\<rparr>"

lemma length_payload [simp]:
  "length secret \<le> SECRET_LEN \<Longrightarrow>
    length (payload_bytes type issuer secret digits period counter algorithm flags) = OATH_PAYLOAD_SIZE"
  by (simp add: payload_bytes_def)

lemma cstr_take: "cstr (take n s) = take n (cstr s)"
proof -
  have "takeWhile P (take n xs) = take n (takeWhile P xs)" for P and xs :: bytes
    by (induction xs arbitrary: n) (auto simp: take_Cons')
  then show ?thesis by (simp add: cstr_def)
qed

lemma parse_stored:
  assumes "length secret \<le> SECRET_LEN"
  shows "parse_entry (new_header m name fl len)
    (payload_bytes type issuer secret (if digits \<noteq> 0 then digits else DEFAULT_DIGITS)
      (if period \<noteq> 0 then period else DEFAULT_PERIOD) counter algorithm flags) =
    new_entry name type issuer secret digits period counter algorithm flags"
proof -
  have u: "unat (of_nat (length secret) :: byte) = length secret" using assms by (simp add: unat_of_nat_byte)
  have big: "\<not> of_nat (length secret) > (64 :: byte)" using assms u by (simp add: word_less_nat_alt)
  have le4: "le_value (le_bytes 4 w) = (w :: u32)" and le8: "le_value (le_bytes 8 c) = (c :: u64)" for w c
    by (simp_all add: le_value_bytes)
  let ?d = "if digits \<noteq> 0 then digits else DEFAULT_DIGITS" and ?p = "if period \<noteq> 0 then period else DEFAULT_PERIOD"
  define pad where "pad = secret @ replicate (SECRET_LEN - length secret) 0"
  have pad: "length pad = 64" using assms by (simp add: pad_def)
  define f where "f = char_field 32 issuer"
  have f: "length f = 32" by (simp add: f_def)
  have shape: "payload_bytes type issuer secret ?d ?p counter algorithm flags =
      [type] @ f @ pad @ [of_nat (length secret), ?d] @ le_bytes 4 ?p @ le_bytes 8 counter @ [algorithm, flags]"
    by (simp add: payload_bytes_def f_def pad_def)
  have parts: "payload_bytes type issuer secret ?d ?p counter algorithm flags ! 0 = type"
    "drop 1 (payload_bytes type issuer secret ?d ?p counter algorithm flags) =
      f @ pad @ [of_nat (length secret), ?d] @ le_bytes 4 ?p @ le_bytes 8 counter @ [algorithm, flags]"
    "drop 33 (payload_bytes type issuer secret ?d ?p counter algorithm flags) =
      pad @ [of_nat (length secret), ?d] @ le_bytes 4 ?p @ le_bytes 8 counter @ [algorithm, flags]"
    "drop 99 (payload_bytes type issuer secret ?d ?p counter algorithm flags) =
      le_bytes 4 ?p @ le_bytes 8 counter @ [algorithm, flags]"
    "drop 103 (payload_bytes type issuer secret ?d ?p counter algorithm flags) = le_bytes 8 counter @ [algorithm, flags]"
    "payload_bytes type issuer secret ?d ?p counter algorithm flags ! 97 = of_nat (length secret)"
    "payload_bytes type issuer secret ?d ?p counter algorithm flags ! 98 = ?d"
    "payload_bytes type issuer secret ?d ?p counter algorithm flags ! 111 = algorithm"
    "payload_bytes type issuer secret ?d ?p counter algorithm flags ! 112 = flags"
    unfolding shape using f pad by (simp_all add: nth_append)
  have issuer: "cstr (take 31 f) = take 31 (cstr issuer)"
    using cstr_char_field [of 32 issuer] by (simp add: cstr_take f_def)
  show ?thesis
    unfolding parse_entry_def new_entry_def Let_def parts
    using f pad [unfolded pad_def] pad_def pad big le4 le8 issuer cstr_char_field [of 16 name] by (simp add: cstr_take)
qed

section \<open>Reading and writing\<close>

abbreviation (input) orecord :: "'e oath_env \<Rightarrow> u16 \<Rightarrow> ('e, 'm) oath_store_scheme \<Rightarrow> (rmem_header \<times> bytes) option" where
  "orecord x p s \<equiv> record_at (x_io x) OATH_PAYLOAD_SIZE p (tr_hw s)"

definition entry_in :: "byte \<Rightarrow> (rmem_header \<times> bytes) option \<Rightarrow> oath_entry option" where
  "entry_in module r = (case r of None \<Rightarrow> None
     | Some (h, d) \<Rightarrow> if rh_module h = module \<and> length d = OATH_PAYLOAD_SIZE then Some (parse_entry h d) else None)"

lemma readAccount_record:
  assumes "chip_reliable (x_io x)" and "own_range (os_slots s)"
  shows "readAccount x i s =
    (case toPhysicalSlot (os_slots s) i of None \<Rightarrow> None | Some p \<Rightarrow> entry_in (moduleId (os_slots s)) (orecord x p s))"
  using assms reliable_facts(1) [OF assms(1)]
  by (auto simp: readAccount_def own_range_def record_at_def entry_in_def split: option.splits prod.splits)

lemma own_physical:
  assumes "own_range m" and "toPhysicalSlot m i = Some p"
  shows "isEntryAllowed p (moduleId m)" "toLogicalSlot m p = Some i" "rmemStart m \<le> p" "p \<le> rmemEnd m"
proof -
  have "hasSlotRange m" "rmemStart m \<le> rmemEnd m" using assms(1) by (auto simp: own_range_def)
  then show l: "toLogicalSlot m p = Some i" using assms(2) by (simp add: physical_logical)
  then show b: "rmemStart m \<le> p" "p \<le> rmemEnd m" by (auto simp: toLogicalSlot_def split: if_splits)
  show "isEntryAllowed p (moduleId m)"
    using assms(1) b by (auto simp: isEntryAllowed_def isRmemAllowedForModuleId_def own_range_def split: option.splits)
qed

lemma physical_unique:
  "own_range m \<Longrightarrow> toPhysicalSlot m i = Some p \<Longrightarrow> toPhysicalSlot m j = Some p \<Longrightarrow> i = j"
  by (metis option.inject own_physical(2))

lemma accounts_elsewhere:
  assumes "chip_reliable (x_io x)" and "own_range (os_slots s)" and "toPhysicalSlot (os_slots s) i = Some p"
    and "reads_same (x_io x) (- {p}) (tr_hw s) (tr_hw t)" and "os_slots t = os_slots s" and "j \<noteq> i"
  shows "oaccounts x t j = oaccounts x s j"
proof (cases "toPhysicalSlot (os_slots s) j")
  case (Some q)
  then have "q \<noteq> p" using physical_unique assms(2,3,6) by blast
  then show ?thesis
    using assms(1,2,5) record_at_same [OF assms(1,4), of q] Some by (simp add: oaccounts_def readAccount_record)
qed (use assms in \<open>simp add: oaccounts_def readAccount_record\<close>)

lemma accounts_at:
  assumes "chip_reliable (x_io x)" and "own_range (os_slots s)" and "toPhysicalSlot (os_slots s) i = Some p"
  shows "oaccounts x s i = entry_in (moduleId (os_slots s)) (orecord x p s)"
  using assms by (simp add: oaccounts_def readAccount_record)

lemma map_changed:
  "(\<And>j. j \<noteq> i \<Longrightarrow> f j = g j) \<Longrightarrow> f i = g i \<or> f i = None \<Longrightarrow> f = g \<or> f = g(i := None)"
  by (metis fun_upd_triv fun_upd_apply ext)

text \<open>A write succeeds, or leaves the slot as it was, or loses it; the cache follows a success.\<close>

lemma writePayload_effect:
  assumes "chip_reliable (x_io x)" and "own_range (os_slots s)" and "toPhysicalSlot (os_slots s) i = Some p"
    and "length secret \<le> SECRET_LEN"
    and "writePayload x p name type issuer secret digits period counter algorithm flags s = (ok, t)"
  shows "os_slots t = os_slots s"
    and "ok \<Longrightarrow> oaccounts x t = (oaccounts x s)(i \<mapsto> new_entry name type issuer secret digits period counter algorithm flags)"
    and "\<not> ok \<Longrightarrow> oaccounts x t = oaccounts x s \<or> oaccounts x t = (oaccounts x s)(i := None)"
    and "getEntry (x_io x) q t = (if ok \<and> q = p then \<lparr>ce_module = moduleId (os_slots s), ce_flags = flags OR FLAG_USED,
       ce_name = char_field RMEM_NAME_LEN name\<rparr> else getEntry (x_io x) q s)"
proof -
  let ?pay = "payload_bytes type issuer secret (if digits \<noteq> 0 then digits else DEFAULT_DIGITS)
      (if period \<noteq> 0 then period else DEFAULT_PERIOD) counter algorithm flags"
  let ?m = "moduleId (os_slots s)"
  obtain res e where w: "rmemWriteWithHeader (x_io x) p ?m name flags ?pay (tr_hw s) = (res, e)" by fastforce
  let ?u = "s\<lparr>tr_hw := e\<rparr>"
  obtain r v where v: "writeSlot (x_io x) ?m p name flags ?u = (r, v)" by fastforce
  have run: "(ok, t) = (if res \<noteq> Se_OK then (False, ?u) else (True, v))"
    using assms(5) w v reliable_facts(1) [OF assms(1)] by (auto simp: writePayload_def on_chip_def Let_def)
  have len: "length ?pay \<le> 400" "length ?pay = OATH_PAYLOAD_SIZE" using assms(4) by simp_all
  note wr = write_record [OF assms(1) w len(1)]
  note ws = writeSlot_effect [OF assms(1) own_physical(1) [OF assms(2,3)] v]
  have keep: "os_slots v = os_slots s"
    using v by (auto simp: writeSlot_def saveHeader_def setEntry_def saveChunk_def on_chip_def Let_def
        split: if_splits prod.splits)
  then show slots: "os_slots t = os_slots s" using run by (auto split: if_splits)
  have hw: "reads_same (x_io x) UNIV e (tr_hw t)" using run ws(2) by (auto simp: reads_same_def split: if_splits)
  then have "reads_same (x_io x) (- {p}) (tr_hw s) (tr_hw t)" using wr(1) by (simp add: reads_same_def)
  then have other: "oaccounts x t j = oaccounts x s j" if "j \<noteq> i" for j
    by (rule accounts_elsewhere [OF assms(1-3) _ slots that])
  have at_t: "oaccounts x t i = entry_in ?m (record_at (x_io x) OATH_PAYLOAD_SIZE p e)"
    using accounts_at [OF assms(1), of t i p] slots assms(2,3) record_at_same [OF assms(1) hw] by simp
  show "oaccounts x t = (oaccounts x s)(i \<mapsto> new_entry name type issuer secret digits period counter algorithm flags)" if ok
  proof -
    have "res = Se_OK" using run that by (simp split: if_splits)
    then have "record_at (x_io x) OATH_PAYLOAD_SIZE p e = Some (new_header ?m name flags (of_nat (length ?pay)), ?pay)"
      using wr(3) len by simp
    then have "oaccounts x t i = Some (new_entry name type issuer secret digits period counter algorithm flags)"
      using at_t len parse_stored [OF assms(4)] by (simp add: entry_in_def)
    with other show ?thesis by (intro ext) simp
  qed
  show "oaccounts x t = oaccounts x s \<or> oaccounts x t = (oaccounts x s)(i := None)" if "\<not> ok"
  proof -
    have "res \<noteq> Se_OK" using run that by (auto split: if_splits)
    then have "oaccounts x t i = oaccounts x s i \<or> oaccounts x t i = None"
      using wr(4) [of OATH_PAYLOAD_SIZE] at_t accounts_at [OF assms(1-3)] by (auto simp: entry_in_def)
    with other show ?thesis by (rule map_changed)
  qed
  show "getEntry (x_io x) q t = (if ok \<and> q = p then \<lparr>ce_module = ?m, ce_flags = flags OR FLAG_USED,
      ce_name = char_field RMEM_NAME_LEN name\<rparr> else getEntry (x_io x) q s)"
  proof -
    have "getEntry (x_io x) q ?u = getEntry (x_io x) q s"
      using wr(2) by (intro getEntry_same) (simp add: chunks_same_def)
    with run ws(3) [of q] show ?thesis by (auto split: if_splits)
  qed
qed

lemma deleteAccount_effect:
  assumes "chip_reliable (x_io x)" and "own_range (os_slots s)" and "deleteAccount x i s = (ok, t)"
  shows "os_slots t = os_slots s"
    and "oaccounts x t = (oaccounts x s)(i := None) \<or> \<not> ok \<and> oaccounts x t = oaccounts x s"
    and "getEntry (x_io x) q t = (if ok \<and> toPhysicalSlot (os_slots s) i = Some q then zero_entry else getEntry (x_io x) q s)"
proof -
  have "os_slots t = os_slots s \<and>
    (oaccounts x t = (oaccounts x s)(i := None) \<or> \<not> ok \<and> oaccounts x t = oaccounts x s) \<and>
    getEntry (x_io x) q t = (if ok \<and> toPhysicalSlot (os_slots s) i = Some q then zero_entry else getEntry (x_io x) q s)"
  proof (cases "toPhysicalSlot (os_slots s) i")
    case None
    then show ?thesis using assms(2,3) by (auto simp: deleteAccount_def own_range_def)
  next
    case (Some p)
    obtain res e where w: "rmemErase (x_io x) p (tr_hw s) = (res, e)" by fastforce
    let ?u = "s\<lparr>tr_hw := e\<rparr>"
    obtain r v where v: "eraseSlot (x_io x) (moduleId (os_slots s)) p ?u = (r, v)" by fastforce
    have run: "(ok, t) = (if res \<noteq> Se_OK then (False, ?u) else (True, v))"
      using assms(2,3) Some w v reliable_facts(1) [OF assms(1)]
      by (auto simp: deleteAccount_def own_range_def on_chip_def)
    note er = erase_record [OF assms(1) w]
    note es = eraseSlot_effect [OF assms(1) own_physical(1) [OF assms(2) Some] v]
    have "os_slots v = os_slots s"
      using v by (auto simp: eraseSlot_def setEntry_def saveChunk_def on_chip_def Let_def split: if_splits prod.splits)
    then have slots: "os_slots t = os_slots s" using run by (auto split: if_splits)
    have hw: "reads_same (x_io x) UNIV e (tr_hw t)" using run es(2) by (auto simp: reads_same_def split: if_splits)
    then have "reads_same (x_io x) (- {p}) (tr_hw s) (tr_hw t)" using er(1) by (simp add: reads_same_def)
    then have other: "oaccounts x t j = oaccounts x s j" if "j \<noteq> i" for j
      by (rule accounts_elsewhere [OF assms(1,2) Some _ slots that])
    have at_t: "oaccounts x t i = entry_in (moduleId (os_slots s)) (record_at (x_io x) OATH_PAYLOAD_SIZE p e)"
      using accounts_at [OF assms(1), of t i p] slots assms(2) Some record_at_same [OF assms(1) hw] by simp
    have "oaccounts x t i = None \<or> \<not> ok \<and> oaccounts x t i = oaccounts x s i"
      using er(3,4) [of OATH_PAYLOAD_SIZE] at_t accounts_at [OF assms(1,2) Some] run
      by (auto simp: entry_in_def split: if_splits)
    then have "oaccounts x t = (oaccounts x s)(i := None) \<or> \<not> ok \<and> oaccounts x t = oaccounts x s"
      using other map_changed [of i "oaccounts x t" "oaccounts x s"] by (auto simp: fun_upd_idem_iff fun_eq_iff)
    moreover have "getEntry (x_io x) q ?u = getEntry (x_io x) q s"
      using er(2) by (intro getEntry_same) (simp add: chunks_same_def)
    ultimately show ?thesis using slots run es(3) [of q] Some by (auto split: if_splits)
  qed
  then show "os_slots t = os_slots s"
    "oaccounts x t = (oaccounts x s)(i := None) \<or> \<not> ok \<and> oaccounts x t = oaccounts x s"
    "getEntry (x_io x) q t = (if ok \<and> toPhysicalSlot (os_slots s) i = Some q then zero_entry else getEntry (x_io x) q s)"
    by blast+
qed

section \<open>Agreement with the cache\<close>

definition cache_covers :: "'e oath_env \<Rightarrow> ('e, 'm) oath_store_scheme \<Rightarrow> bool" where
  "cache_covers x s \<longleftrightarrow> (\<forall>i e. oaccounts x s i = Some e \<longrightarrow>
     (\<exists>p. toPhysicalSlot (os_slots s) i = Some p \<and> in_cache (x_io x) (moduleId (os_slots s)) s p \<and>
        cstr (ce_name (getEntry (x_io x) p s)) = oe_name e))"

definition oath_store_ok :: "'e oath_env \<Rightarrow> ('e, 'm) oath_store_scheme \<Rightarrow> bool" where
  "oath_store_ok x s \<longleftrightarrow> chip_reliable (x_io x) \<and> own_range (os_slots s) \<and> cache_covers x s"

lemma store_okD:
  assumes "oath_store_ok x s"
  shows "chip_reliable (x_io x)" "own_range (os_slots s)" "hasSlotRange (os_slots s)" "io_present (x_io x)"
  using assms reliable_facts(1) [of "x_io x"] by (auto simp: oath_store_ok_def own_range_def)

lemma flags_used: "isEntryUsed \<lparr>ce_module = m, ce_flags = flags OR FLAG_USED, ce_name = n\<rparr>"
proof -
  have "(flags OR 1) AND 1 = (1 :: byte)" by (rule bit_word_eqI) (auto simp: bit_simps)
  then show ?thesis by (simp add: isEntryUsed_def)
qed

lemma writePayload_ok:
  assumes "oath_store_ok x s" and "toPhysicalSlot (os_slots s) i = Some p" and "length secret \<le> SECRET_LEN"
    and "writePayload x p name type issuer secret digits period counter algorithm flags s = (ok, t)"
  shows "oath_store_ok x t"
proof -
  note k = store_okD [OF assms(1)]
  note w = writePayload_effect [OF k(1,2) assms(2-4)]
  have "\<exists>q. toPhysicalSlot (os_slots t) j = Some q \<and> in_cache (x_io x) (moduleId (os_slots t)) t q \<and>
      cstr (ce_name (getEntry (x_io x) q t)) = oe_name e" if e: "oaccounts x t j = Some e" for j e
  proof (cases "ok \<and> j = i")
    case True
    then have "e = new_entry name type issuer secret digits period counter algorithm flags" using w(2) e by simp
    moreover have "isEntryAllowed p (moduleId (os_slots s))" by (rule own_physical(1) [OF k(2) assms(2)])
    ultimately show ?thesis
      using True w(1) w(4) [of p] assms(2) flags_used cstr_char_field [of 16 name]
      by (auto simp: in_cache_def new_entry_def)
  next
    case False
    then have "oaccounts x s j = Some e" using e w(2,3) by (cases ok) (auto split: if_splits)
    then obtain q where q: "toPhysicalSlot (os_slots s) j = Some q" "in_cache (x_io x) (moduleId (os_slots s)) s q"
        "cstr (ce_name (getEntry (x_io x) q s)) = oe_name e"
      using assms(1) by (auto simp: oath_store_ok_def cache_covers_def)
    have "\<not> (ok \<and> q = p)" using False q(1) assms(2) physical_unique [OF k(2)] by blast
    then have "getEntry (x_io x) q t = getEntry (x_io x) q s" using w(4) [of q] by auto
    with q w(1) show ?thesis by (auto simp: in_cache_def)
  qed
  then show ?thesis using k w(1) by (simp add: oath_store_ok_def cache_covers_def)
qed

lemma deleteAccount_ok:
  assumes "oath_store_ok x s" and "deleteAccount x i s = (ok, t)"
  shows "oath_store_ok x t"
proof -
  note k = store_okD [OF assms(1)]
  note d = deleteAccount_effect [OF k(1,2) assms(2)]
  have "\<exists>q. toPhysicalSlot (os_slots t) j = Some q \<and> in_cache (x_io x) (moduleId (os_slots t)) t q \<and>
      cstr (ce_name (getEntry (x_io x) q t)) = oe_name e" if e: "oaccounts x t j = Some e" for j e
  proof -
    have j: "\<not> (ok \<and> j = i)" and s: "oaccounts x s j = Some e" using e d(2) by (auto split: if_splits)
    then obtain q where q: "toPhysicalSlot (os_slots s) j = Some q" "in_cache (x_io x) (moduleId (os_slots s)) s q"
        "cstr (ce_name (getEntry (x_io x) q s)) = oe_name e"
      using assms(1) by (auto simp: oath_store_ok_def cache_covers_def)
    have "\<not> (ok \<and> toPhysicalSlot (os_slots s) i = Some q)" using j q(1) physical_unique [OF k(2)] by blast
    then have "getEntry (x_io x) q t = getEntry (x_io x) q s" using d(3) [of q] by auto
    with q d(1) show ?thesis by (auto simp: in_cache_def)
  qed
  then show ?thesis using k d(1) by (simp add: oath_store_ok_def cache_covers_def)
qed

section \<open>Adding\<close>

lemma own_free:
  assumes "oath_store_ok x s" and "findFreeSlot (x_io x) (os_slots s) s = Some p"
  shows "\<exists>i. toPhysicalSlot (os_slots s) i = Some p \<and> oaccounts x s i = None"
proof -
  let ?m = "os_slots s"
  note k = store_okD [OF assms(1)]
  obtain n where n: "n < unat (slot_capacity ?m)" "\<not> in_cache (x_io x) (moduleId ?m) s (rmemStart ?m + of_nat n)"
      "p = rmemStart ?m + of_nat n"
    using assms(2) findFreeSlot_first [OF k(2), of "x_io x" s] by (auto dest!: findD)
  have b: "rmemStart ?m \<le> rmemEnd ?m" "unat (rmemEnd ?m) \<le> 511" using k(2) by (auto simp: own_range_def word_le_nat_alt)
  have up: "unat p = unat (rmemStart ?m) + n" "unat p \<le> unat (rmemEnd ?m)"
    using n(1,3) b capacity_count [OF k(2)] unat_offset [of "rmemStart ?m" n] by (auto simp: word_le_nat_alt)
  then have "toLogicalSlot ?m p = Some (p - rmemStart ?m)"
    using k(3) by (auto simp: toLogicalSlot_def word_less_nat_alt)
  then have i: "toPhysicalSlot ?m (p - rmemStart ?m) = Some p" using physical_logical [OF k(3) b(1)] by simp
  have "oaccounts x s (p - rmemStart ?m) = None"
  proof (rule ccontr)
    assume "oaccounts x s (p - rmemStart ?m) \<noteq> None"
    then have "in_cache (x_io x) (moduleId ?m) s p"
      using assms(1) i by (fastforce simp: oath_store_ok_def cache_covers_def)
    with n(2,3) show False by simp
  qed
  with i show ?thesis by blast
qed

definition entry_of :: "new_credential \<Rightarrow> byte \<times> u32 \<Rightarrow> oath_entry" where
  "entry_of n = (\<lambda>(digits, period). new_entry (n_name n) (n_type n) (n_issuer n) (n_key n) digits period
     (n_counter n) (n_algorithm n) (n_flags n))"

lemma addAccountRaw_effect:
  assumes "oath_store_ok x s" and "addAccountRaw x n s = (ok, t)"
  shows "oath_store_ok x t"
    and "if ok then \<exists>i dp. oaccounts x s i = None \<and> oaccounts x t = (oaccounts x s)(i \<mapsto> entry_of n dp) \<and>
        validateOathParams (n_type n) (n_digits n) (n_period n) (n_algorithm n) = Some dp \<and>
        length (n_name n) < RMEM_NAME_LEN \<and> n_key n \<noteq> [] \<and> length (n_key n) \<le> SECRET_LEN
      else oaccounts x t = oaccounts x s"
proof -
  note k = store_okD [OF assms(1)]
  have "oath_store_ok x t \<and> (if ok then \<exists>i dp. oaccounts x s i = None \<and> oaccounts x t = (oaccounts x s)(i \<mapsto> entry_of n dp) \<and>
        validateOathParams (n_type n) (n_digits n) (n_period n) (n_algorithm n) = Some dp \<and>
        length (n_name n) < RMEM_NAME_LEN \<and> n_key n \<noteq> [] \<and> length (n_key n) \<le> SECRET_LEN
      else oaccounts x t = oaccounts x s)"
  proof (cases "\<exists>dp p. n_key n \<noteq> [] \<and> length (n_key n) \<le> SECRET_LEN \<and> length (n_name n) < RMEM_NAME_LEN \<and>
      validateOathParams (n_type n) (n_digits n) (n_period n) (n_algorithm n) = Some dp \<and>
      findFreeSlot (x_io x) (os_slots s) s = Some p")
    case False
    then have "(ok, t) = (False, s)"
      using assms(2) by (auto simp: addAccountRaw_def not_le split: if_splits option.splits)
    then show ?thesis using assms(1) by simp
  next
    case True
    then obtain digits period p where a: "n_key n \<noteq> []" "length (n_key n) \<le> SECRET_LEN" "length (n_name n) < RMEM_NAME_LEN"
        "validateOathParams (n_type n) (n_digits n) (n_period n) (n_algorithm n) = Some (digits, period)"
        "findFreeSlot (x_io x) (os_slots s) s = Some p" by auto
    then have w: "writePayload x p (n_name n) (n_type n) (n_issuer n) (n_key n) digits period (n_counter n)
        (n_algorithm n) (n_flags n) s = (ok, t)"
      using assms(2) k(3) by (simp add: addAccountRaw_def)
    obtain i where i: "toPhysicalSlot (os_slots s) i = Some p" "oaccounts x s i = None"
      using own_free [OF assms(1) a(5)] by blast
    note eff = writePayload_effect [OF k(1,2) i(1) a(2) w]
    have "oaccounts x t = oaccounts x s" if "\<not> ok" using eff(3) [OF that] i(2) by (auto simp: fun_upd_idem)
    moreover have "oaccounts x t = (oaccounts x s)(i \<mapsto> entry_of n (digits, period))" if ok
      using eff(2) [OF that] by (simp add: entry_of_def)
    ultimately show ?thesis using writePayload_ok [OF assms(1) i(1) a(2) w] i(2) a by auto
  qed
  then show "oath_store_ok x t"
    "if ok then \<exists>i dp. oaccounts x s i = None \<and> oaccounts x t = (oaccounts x s)(i \<mapsto> entry_of n dp) \<and>
        validateOathParams (n_type n) (n_digits n) (n_period n) (n_algorithm n) = Some dp \<and>
        length (n_name n) < RMEM_NAME_LEN \<and> n_key n \<noteq> [] \<and> length (n_key n) \<le> SECRET_LEN
      else oaccounts x t = oaccounts x s" by blast+
qed

section \<open>A concrete badge\<close>

text \<open>A chip and a flash that store what is written, and a digest that depends on key and message.\<close>

type_synonym plain_memory = "(u16 \<Rightarrow> bytes option) \<times> (nat \<Rightarrow> cache_entry list option)"

definition plain_io :: "plain_memory tropic_io" where
  "plain_io = \<lparr>io_present = True, io_slot_size = 444, io_locked = (\<lambda>e. False), io_bus = (\<lambda>e. True),
     io_session_active = (\<lambda>e. True), io_session_start = (\<lambda>e. (True, e)),
     io_read = (\<lambda>i n (mem, nvs). case mem i of None \<Rightarrow> (Se_SLOT_EMPTY, []) | Some d \<Rightarrow> (Se_OK, take n d)),
     io_write = (\<lambda>i d (mem, nvs). if length d \<le> 444 then (Se_OK, (mem(i \<mapsto> d), nvs)) else (Se_ERROR, (mem, nvs))),
     io_erase = (\<lambda>i (mem, nvs). (Se_OK, (mem(i := None), nvs))),
     io_load_header = (\<lambda>e. None), io_save_header = (\<lambda>h e. (True, e)),
     io_load_chunk = (\<lambda>k (mem, nvs). nvs k),
     io_save_chunk = (\<lambda>k xs (mem, nvs). (True, (mem, nvs(k \<mapsto> xs))))\<rparr>"

lemma plain_simps [simp]:
  "io_present plain_io" "io_slot_size plain_io = 444" "\<not> io_locked plain_io e" "io_bus plain_io e"
  "io_read plain_io i n (mem, nvs) = (case mem i of None \<Rightarrow> (Se_SLOT_EMPTY, []) | Some d \<Rightarrow> (Se_OK, take n d))"
  "io_write plain_io i d (mem, nvs) = (if length d \<le> 444 then (Se_OK, (mem(i \<mapsto> d), nvs)) else (Se_ERROR, (mem, nvs)))"
  "io_erase plain_io i (mem, nvs) = (Se_OK, (mem(i := None), nvs))"
  "io_save_header plain_io h e = (True, e)" "io_load_chunk plain_io k (mem, nvs) = nvs k"
  "io_save_chunk plain_io k xs (mem, nvs) = (True, (mem, nvs(k \<mapsto> xs)))"
  by (simp_all add: plain_io_def)

lemma plain_reliable: "chip_reliable plain_io"
  unfolding chip_reliable_def by (auto simp: reads_same_def kept_or_lost_def split: if_splits)

definition plain_oath :: "plain_memory oath_env" where
  "plain_oath = \<lparr>x_io = plain_io, x_md_hmac = (\<lambda>md key d. Some (take 20 (key @ d @ replicate 20 0))),
     x_time = (\<lambda>e. 1700000000), x_local_year = (\<lambda>t. 123)\<rparr>"

definition empty_oath :: "plain_memory oath_store" where
  "empty_oath = \<lparr>tr_state = STARTED, tr_header = \<lparr>tc_version = 1, tc_chunk_slots = 64, tc_entry_size = 18,
     tc_signature = 0\<rparr>, tr_valid = True, tr_hw = (\<lambda>i. None, \<lambda>k. None), os_slots = setSlotRange 31 130 5\<rparr>"

definition sample_hotp :: new_credential where
  "sample_hotp = \<lparr>n_type = 1, n_name = [0x61, 0x62], n_issuer = [0x78], n_key = [1, 2, 3], n_digits = 6, n_period = 0,
     n_algorithm = 0, n_counter = 7, n_flags = 0\<rparr>"

lemma empty_simps [simp]:
  "x_io plain_oath = plain_io" "tr_hw empty_oath = (\<lambda>i. None, \<lambda>k. None)" "os_slots empty_oath = setSlotRange 31 130 5"
  by (simp_all add: plain_oath_def empty_oath_def)

lemma empty_range: "own_range (os_slots empty_oath)"
proof -
  have "getRangeByModuleId kSlotMap 5 RMEM =
      Some \<lparr>se_type = RMEM, se_name = ''mod_2fa'', se_id = 5, se_start = 31, se_end = 130\<rparr>" by code_simp
  then show ?thesis by (simp add: own_range_def setSlotRange_def)
qed

lemma empty_accounts: "oaccounts plain_oath empty_oath = Map.empty"
proof (rule ext)
  fix i
  have "record_at plain_io n p (tr_hw empty_oath) = None" for n p
    by (rule record_at_lost [OF plain_reliable]) simp
  then have "readAccount plain_oath i empty_oath = None"
    using plain_reliable empty_range by (simp add: readAccount_record entry_in_def split: option.splits)
  then show "oaccounts plain_oath empty_oath i = None" by (simp add: oaccounts_def)
qed

lemma empty_ok: "oath_store_ok plain_oath empty_oath"
  using plain_reliable empty_range empty_accounts
  by (simp add: oath_store_ok_def cache_covers_def)

lemma empty_free: "findFreeSlot (x_io plain_oath) (os_slots empty_oath) empty_oath = Some 31"
proof -
  have "getEntry plain_io i empty_oath = zero_entry" for i
    by (simp add: getEntry_def loadChunk_def)
  then have "\<not> in_cache plain_io m empty_oath i" for m i
    by (simp add: in_cache_def isEntryUsed_def zero_entry_def)
  moreover have "[0..<unat (slot_capacity (os_slots empty_oath))] = 0 # [1..<100]"
    by (simp add: slot_capacity_def setSlotRange_def upt_conv_Cons)
  ultimately show ?thesis
    using findFreeSlot_first [OF empty_range, of plain_io empty_oath]
    by (simp add: setSlotRange_def)
qed

definition hotp_oath :: "plain_memory oath_store" where
  "hotp_oath = snd (addAccountRaw plain_oath sample_hotp empty_oath)"

lemma sample_parameters: "validateOathParams 1 6 0 0 = Some (6, 0)"
  by (simp add: validateOathParams_def)

lemma sample_added: "fst (addAccountRaw plain_oath sample_hotp empty_oath)"
proof -
  have "length (header_bytes (new_header m n f l)) = 22" for m n f l
    using parse_header_bytes(2) [of "new_header m n f l"] by simp
  then show ?thesis
    using empty_free sample_parameters
    by (simp add: addAccountRaw_def sample_hotp_def writePayload_def on_chip_def rmemWriteWithHeader_def Let_def
        setSlotRange_def)
qed

lemma hotp_facts:
  "oath_store_ok plain_oath hotp_oath"
  "\<exists>i. oaccounts plain_oath hotp_oath = [i \<mapsto> entry_of sample_hotp (6, 0)]"
proof -
  have run: "addAccountRaw plain_oath sample_hotp empty_oath = (True, hotp_oath)"
    using sample_added by (simp add: hotp_oath_def prod_eq_iff)
  note eff = addAccountRaw_effect [OF empty_ok run]
  show "oath_store_ok plain_oath hotp_oath" by (rule eff(1))
  show "\<exists>i. oaccounts plain_oath hotp_oath = [i \<mapsto> entry_of sample_hotp (6, 0)]"
    using eff(2) empty_accounts sample_parameters by (auto simp: sample_hotp_def)
qed

section \<open>Properties\<close>

text \<open>
  A new credential harms no other and is read back as given: as long as records and cache agree,
  which every addition keeps, a credential goes into a slot that holds none, and a reader then finds
  its type, name, issuer, key, counter and flags, with the checked digits and period; and a refused or
  failed addition leaves the whole store as it was.
\<close>

theorem oath_add_found:
  assumes "oath_store_ok x s" and "addAccountRaw x n s = (ok, t)" and "0 \<notin> set (n_name n)"
  shows "oath_store_ok x t \<and>
    (if ok then \<exists>i e digits period. oaccounts x s i = None \<and> oaccounts x t = (oaccounts x s)(i \<mapsto> e) \<and>
       validateOathParams (n_type n) (n_digits n) (n_period n) (n_algorithm n) = Some (digits, period) \<and>
       oe_type e = n_type n \<and> oe_name e = n_name n \<and> oe_issuer e = take 31 (cstr (n_issuer n)) \<and>
       entry_key e = n_key n \<and> oe_counter e = n_counter n \<and> oe_algorithm e = n_algorithm n \<and> oe_flags e = n_flags n \<and>
       oe_digits e = (if digits \<noteq> 0 then digits else 6) \<and> oe_period e = (if period \<noteq> 0 then period else 30)
     else oaccounts x t = oaccounts x s)"
proof (cases ok)
  case True
  then obtain i digits period where a: "oaccounts x s i = None"
      "oaccounts x t = (oaccounts x s)(i \<mapsto> entry_of n (digits, period))"
      "validateOathParams (n_type n) (n_digits n) (n_period n) (n_algorithm n) = Some (digits, period)"
      "length (n_name n) < RMEM_NAME_LEN" "length (n_key n) \<le> SECRET_LEN"
    using addAccountRaw_effect(2) [OF assms(1,2)] by auto
  let ?e = "entry_of n (digits, period)"
  have "oe_name ?e = n_name n" using a(4) cstr_id [OF assms(3)] by (simp add: entry_of_def new_entry_def)
  moreover have "entry_key ?e = n_key n"
    using a(5) by (simp add: entry_key_def entry_of_def new_entry_def unat_of_nat_byte)
  ultimately have "oaccounts x s i = None \<and> oaccounts x t = (oaccounts x s)(i \<mapsto> ?e) \<and>
       validateOathParams (n_type n) (n_digits n) (n_period n) (n_algorithm n) = Some (digits, period) \<and>
       oe_type ?e = n_type n \<and> oe_name ?e = n_name n \<and> oe_issuer ?e = take 31 (cstr (n_issuer n)) \<and>
       entry_key ?e = n_key n \<and> oe_counter ?e = n_counter n \<and> oe_algorithm ?e = n_algorithm n \<and> oe_flags ?e = n_flags n \<and>
       oe_digits ?e = (if digits \<noteq> 0 then digits else 6) \<and> oe_period ?e = (if period \<noteq> 0 then period else 30)"
    using a by (simp add: entry_of_def new_entry_def)
  then show ?thesis
    unfolding if_P [OF True] using addAccountRaw_effect(1) [OF assms(1,2)] by blast
qed (use addAccountRaw_effect [OF assms(1,2)] in simp)

theorem oath_add_found_witness:
  "fst (addAccountRaw plain_oath sample_hotp empty_oath) \<and>
   (\<exists>i e. oaccounts plain_oath hotp_oath = [i \<mapsto> e] \<and> oe_name e = [0x61, 0x62] \<and> entry_key e = [1, 2, 3] \<and> oe_counter e = 7)"
proof -
  have run: "addAccountRaw plain_oath sample_hotp empty_oath = (True, hotp_oath)"
    using sample_added by (simp add: hotp_oath_def prod_eq_iff)
  have "0 \<notin> set (n_name sample_hotp)" by (simp add: sample_hotp_def)
  from oath_add_found [OF empty_ok run this] show ?thesis
    using sample_added by (auto simp: empty_accounts sample_hotp_def)
qed

end
