(* ===== verification/Oath_Hotp.thy ===== *)
theory Oath_Hotp
  imports Oath_Accounts
begin

text \<open>
  The moving factor of the HOTP credentials: it is stored before the code leaves, so no two codes
  come from the same value, whatever fails in between.
\<close>

section \<open>A credential up to its counter\<close>

definition wf_entry :: "oath_entry \<Rightarrow> bool" where
  "wf_entry e \<longleftrightarrow> take 15 (cstr (oe_name e)) = oe_name e \<and> take 31 (cstr (oe_issuer e)) = oe_issuer e \<and>
     length (oe_secret e) = SECRET_LEN \<and> unat (oe_secretLen e) \<le> SECRET_LEN \<and> oe_digits e \<noteq> 0 \<and> oe_period e \<noteq> 0"

lemma cstr_cstr [simp]: "cstr (cstr s) = cstr s"
  by (rule cstr_id [OF cstr_no_zero])

lemma take_cstr: "take n (cstr (take n (cstr s))) = take n (cstr s)"
  by (simp add: cstr_take)

lemma read_wf:
  assumes "readAccount x i s = Some e"
  shows "wf_entry e"
proof -
  obtain h d where d: "length d = OATH_PAYLOAD_SIZE" "e = parse_entry h d"
    using assms by (auto simp: readAccount_def split: if_splits option.splits prod.splits)
  have "unat (if l > 64 then 64 else l :: byte) \<le> 64" for l by (auto simp: word_less_nat_alt)
  then show ?thesis
    using d by (auto simp: wf_entry_def parse_entry_def Let_def cstr_take)
qed

definition same_credential :: "oath_entry \<Rightarrow> oath_entry \<Rightarrow> bool" where
  "same_credential e e' \<longleftrightarrow> oe_type e' = oe_type e \<and> oe_name e' = oe_name e \<and> oe_issuer e' = oe_issuer e \<and>
     entry_key e' = entry_key e \<and> oe_algorithm e' = oe_algorithm e \<and> oe_digits e' = oe_digits e \<and>
     oe_period e' = oe_period e \<and> oe_flags e' = oe_flags e"

lemma same_trans: "same_credential a b \<Longrightarrow> same_credential b c \<Longrightarrow> same_credential a c"
  by (simp add: same_credential_def)

lemma key_length: "wf_entry e \<Longrightarrow> length (entry_key e) \<le> SECRET_LEN"
  by (auto simp: wf_entry_def entry_key_def)

definition counted :: "oath_entry \<Rightarrow> u64 \<Rightarrow> oath_entry" where
  "counted e c = new_entry (oe_name e) (oe_type e) (oe_issuer e) (entry_key e) (oe_digits e) (oe_period e) c
     (oe_algorithm e) (oe_flags e)"

lemma counted_same:
  assumes "wf_entry e"
  shows "same_credential e (counted e c)" and "oe_counter (counted e c) = c"
proof -
  have "length (entry_key e) = unat (oe_secretLen e)" "length (entry_key e) \<le> 64"
    using assms by (auto simp: wf_entry_def entry_key_def)
  then have "take (unat (of_nat (length (entry_key e)) :: byte)) (entry_key e @ xs) = entry_key e" for xs
    by (simp add: unat_of_nat_byte)
  moreover have "oe_secret (counted e c) = entry_key e @ replicate (SECRET_LEN - length (entry_key e)) 0"
    "oe_secretLen (counted e c) = of_nat (length (entry_key e))"
    by (simp_all add: counted_def new_entry_def)
  ultimately have "entry_key (counted e c) = entry_key e" by (simp only: entry_key_def [of "counted e c"])
  then show "same_credential e (counted e c)"
    using assms by (simp add: same_credential_def counted_def new_entry_def wf_entry_def)
qed (simp add: counted_def new_entry_def)

lemma persistCounter_effect:
  assumes "oath_store_ok x s" and "oaccounts x s j = Some e" and "persistCounter x j e c s = (ok, t)"
  shows "oath_store_ok x t" and "ok \<Longrightarrow> oaccounts x t = (oaccounts x s)(j \<mapsto> counted e c)"
    and "\<not> ok \<Longrightarrow> oaccounts x t = oaccounts x s \<or> oaccounts x t = (oaccounts x s)(j := None)"
proof -
  note k = store_okD [OF assms(1)]
  have "readAccount x j s = Some e" using assms(2) by (simp add: oaccounts_def)
  then have wf: "wf_entry e" by (rule read_wf)
  obtain p where p: "toPhysicalSlot (os_slots s) j = Some p"
    using assms(1,2) by (fastforce simp: oath_store_ok_def cache_covers_def)
  with assms(3) have w: "writePayload x p (oe_name e) (oe_type e) (oe_issuer e) (entry_key e) (oe_digits e) (oe_period e) c
      (oe_algorithm e) (oe_flags e) s = (ok, t)"
    by (simp add: persistCounter_def)
  note eff = writePayload_effect [OF k(1,2) p key_length [OF wf] w]
  show "oath_store_ok x t" by (rule writePayload_ok [OF assms(1) p key_length [OF wf] w])
  show "oaccounts x t = (oaccounts x s)(j \<mapsto> counted e c)" if ok using eff(2) [OF that] by (simp add: counted_def)
  show "oaccounts x t = oaccounts x s \<or> oaccounts x t = (oaccounts x s)(j := None)" if "\<not> ok" by (rule eff(3) [OF that])
qed

section \<open>Sequences of codes\<close>

text \<open>A code for the host, or on the display in a buffer of a given size.\<close>

datatype code_request = Calculate u16 bytes | Show u16 nat

datatype code_answer = Truncated bytes byte | Shown bytes | No_code

fun request_slot :: "code_request \<Rightarrow> u16" where
  "request_slot (Calculate i c) = i"
| "request_slot (Show i n) = i"

fun code_step :: "'e oath_env \<Rightarrow> code_request \<Rightarrow> ('e, 'm) oath_store_scheme \<Rightarrow> code_answer \<times> ('e, 'm) oath_store_scheme" where
  "code_step x (Calculate i challenge) s =
     (case calculateForChallenge x i challenge s of
        (None, s) \<Rightarrow> (No_code, s)
      | (Some (d, n), s) \<Rightarrow> (Truncated d n, s))"
| "code_step x (Show i n) s =
     (case generateCode x i n s of ((r, text), s) \<Rightarrow> (if r < 0 then No_code else Shown text, s))"

fun code_steps :: "'e oath_env \<Rightarrow> code_request list \<Rightarrow> ('e, 'm) oath_store_scheme \<Rightarrow> code_answer list \<times> ('e, 'm) oath_store_scheme" where
  "code_steps x [] s = ([], s)"
| "code_steps x (r # rs) s =
     (case code_step x r s of (a, s) \<Rightarrow> case code_steps x rs s of (as, s) \<Rightarrow> (a # as, s))"

definition codes_of :: "u16 \<Rightarrow> code_request list \<Rightarrow> code_answer list \<Rightarrow> code_answer list" where
  "codes_of i rs as = map snd (filter (\<lambda>(r, a). request_slot r = i \<and> a \<noteq> No_code) (zip rs as))"

definition hotp_code :: "'e oath_env \<Rightarrow> oath_entry \<Rightarrow> u64 \<Rightarrow> code_answer \<Rightarrow> bool" where
  "hotp_code x e c a = (case a of
     Truncated d n \<Rightarrow> (\<exists>b. computeTruncated x (entry_key e) c (oe_algorithm e) = Some b \<and>
       d = [byte_at 24 b, byte_at 16 b, byte_at 8 b, byte_at 0 b] \<and> n = oe_digits e)
   | Shown text \<Rightarrow> (\<exists>n. text = formatCode (generate x (entry_key e) c (oe_digits e) (oe_algorithm e)) (oe_digits e) n)
   | No_code \<Rightarrow> False)"

text \<open>One request: the answer, if any, comes from the stored counter, which has moved on by then.\<close>

definition code_effect ::
    "'e oath_env \<Rightarrow> u16 \<Rightarrow> ('e, 'm) oath_store_scheme \<Rightarrow> code_answer \<Rightarrow> ('e, 'm) oath_store_scheme \<Rightarrow> bool" where
  "code_effect x j s a t \<longleftrightarrow> oath_store_ok x t \<and>
     (\<forall>e. oaccounts x s j = Some e \<longrightarrow> oe_type e = OTYPE_HOTP \<longrightarrow>
        (if a = No_code then oaccounts x t = oaccounts x s \<or> oaccounts x t = (oaccounts x s)(j := None) \<or>
           oaccounts x t = (oaccounts x s)(j \<mapsto> counted e (oe_counter e + 1))
         else oaccounts x t = (oaccounts x s)(j \<mapsto> counted e (oe_counter e + 1)) \<and> hotp_code x e (oe_counter e) a)) \<and>
     (\<forall>i. i \<noteq> j \<longrightarrow> oaccounts x t i = oaccounts x s i) \<and> (oaccounts x s j = None \<longrightarrow> a = No_code \<and> t = s)"

lemma calculate_effect:
  assumes "oath_store_ok x s" and "code_step x (Calculate j ch) s = (a, t)"
  shows "code_effect x j s a t"
proof (cases "oaccounts x s j")
  case None
  then show ?thesis using assms by (simp add: code_effect_def calculateForChallenge_def oaccounts_def)
next
  case (Some e)
  then have rd: "readAccount x j s = Some e" by (simp add: oaccounts_def)
  have d: "oe_digits e \<noteq> 0" using read_wf [OF rd] by (simp add: wf_entry_def)
  show ?thesis
  proof (cases "oe_type e = OTYPE_HOTP")
    case False
    then have "t = s" using assms(2) rd by (auto simp: calculateForChallenge_def Let_def split: if_splits option.splits)
    then show ?thesis using assms(1) Some False by (simp add: code_effect_def)
  next
    case True
    obtain ok u where p: "persistCounter x j e (oe_counter e + 1) s = (ok, u)" by fastforce
    note eff = persistCounter_effect [OF assms(1) Some p]
    have run: "if ok \<and> computeTruncated x (entry_key e) (oe_counter e) (oe_algorithm e) \<noteq> None
        then t = u \<and> hotp_code x e (oe_counter e) a else t = u \<and> a = No_code"
      using assms(2) rd True p d
      by (auto simp: calculateForChallenge_def Let_def hotp_code_def split: if_splits option.splits)
    then show ?thesis using eff Some by (cases ok) (auto simp: code_effect_def hotp_code_def split: if_splits)
  qed
qed

lemma show_effect:
  assumes "oath_store_ok x s" and "code_step x (Show j n) s = (a, t)"
  shows "code_effect x j s a t"
proof (cases "oaccounts x s j")
  case None
  then show ?thesis using assms by (auto simp: code_effect_def generateCode_def oaccounts_def split: if_splits)
next
  case (Some e)
  then have rd: "readAccount x j s = Some e" by (simp add: oaccounts_def)
  show ?thesis
  proof (cases "n = 0 \<or> oe_type e \<noteq> OTYPE_HOTP")
    case True
    then have "t = s \<and> (n = 0 \<longrightarrow> a = No_code)"
      using assms(2) rd by (auto simp: generateCode_def Let_def split: if_splits option.splits)
    then show ?thesis using assms(1) Some True by (auto simp: code_effect_def)
  next
    case False
    obtain ok u where p: "persistCounter x j e (oe_counter e + 1) s = (ok, u)" by fastforce
    note eff = persistCounter_effect [OF assms(1) Some p]
    have "t = u \<and> (if ok then hotp_code x e (oe_counter e) a else a = No_code)"
      using assms(2) rd False p
      by (auto simp: generateCode_def Let_def hotp_code_def split: if_splits)
    then show ?thesis using eff Some by (cases ok) (auto simp: code_effect_def hotp_code_def)
  qed
qed

lemma step_effect:
  assumes "oath_store_ok x s" and "code_step x r s = (a, t)"
  shows "code_effect x (request_slot r) s a t"
  using assms by (cases r) (auto intro: calculate_effect show_effect simp del: code_step.simps)

lemma codes_of_simps [simp]:
  "codes_of i [] as = []"
  "codes_of i (r # rs) (a # as) = (if request_slot r = i \<and> a \<noteq> No_code then a # codes_of i rs as else codes_of i rs as)"
  by (simp_all add: codes_of_def)

lemma steps_Cons:
  assumes "code_steps x (r # rs) s = (as, t)"
  obtains a u as' where "code_step x r s = (a, u)" "code_steps x rs u = (as', t)" "as = a # as'"
  using assms by (auto split: prod.splits)

lemma lost_no_codes:
  assumes "oath_store_ok x s" and "oaccounts x s i = None" and "code_steps x rs s = (as, t)"
  shows "codes_of i rs as = [] \<and> oaccounts x t i = None"
  using assms
proof (induction rs arbitrary: s as)
  case (Cons r rs)
  from Cons.prems(3) obtain a u as' where st: "code_step x r s = (a, u)" "code_steps x rs u = (as', t)" "as = a # as'"
    by (rule steps_Cons)
  have eff: "code_effect x (request_slot r) s a u" by (rule step_effect [OF Cons.prems(1) st(1)])
  have "oaccounts x u i = None" "request_slot r = i \<longrightarrow> a = No_code"
    using eff Cons.prems(2) by (cases "request_slot r = i"; simp add: code_effect_def)+
  then show ?case using Cons.IH [OF _ _ st(2)] eff st(3) by (simp add: code_effect_def)
qed simp

lemma same_code: "same_credential e e' \<Longrightarrow> hotp_code x e' c a = hotp_code x e c a"
  by (cases a) (simp_all add: hotp_code_def same_credential_def)

lemma counted_at:
  assumes "oath_store_ok x s" and "oaccounts x s i = Some e" and "same_credential e0 e" and "oe_counter e = c + of_nat n"
  shows "same_credential e0 (counted e (oe_counter e + 1))"
    and "oe_counter (counted e (oe_counter e + 1)) = c + of_nat (Suc n)"
proof -
  have "wf_entry e" using assms(2) by (auto simp: oaccounts_def intro: read_wf)
  from counted_same [OF this] assms(3,4) same_trans show
    "same_credential e0 (counted e (oe_counter e + 1))"
    "oe_counter (counted e (oe_counter e + 1)) = c + of_nat (Suc n)" by auto
qed

text \<open>The codes of the slot come from increasing values of the counter, from the \<open>n\<close>-th on.\<close>

definition counted_codes ::
    "'e oath_env \<Rightarrow> oath_entry \<Rightarrow> nat \<Rightarrow> nat \<Rightarrow> code_answer list \<Rightarrow> oath_entry option \<Rightarrow> bool" where
  "counted_codes x e n len codes final \<longleftrightarrow> (\<exists>ks. sorted_wrt (<) ks \<and> (\<forall>k \<in> set ks. n \<le> k \<and> k < n + len) \<and>
     list_all2 (\<lambda>k a. hotp_code x e (oe_counter e + of_nat k) a) ks codes \<and>
     (\<forall>e'. final = Some e' \<longrightarrow> same_credential e e' \<and>
        (\<exists>m \<ge> n. oe_counter e' = oe_counter e + of_nat m \<and> (\<forall>k \<in> set ks. k < m))))"

lemma counted_codesE:
  assumes "counted_codes x e n len codes final"
  obtains ks where "sorted_wrt (<) ks" "\<And>k. k \<in> set ks \<Longrightarrow> n \<le> k \<and> k < n + len"
    "list_all2 (\<lambda>k a. hotp_code x e (oe_counter e + of_nat k) a) ks codes"
    "\<And>e'. final = Some e' \<Longrightarrow> same_credential e e' \<and>
      (\<exists>m \<ge> n. oe_counter e' = oe_counter e + of_nat m \<and> (\<forall>k \<in> set ks. k < m))"
  using assms unfolding counted_codes_def by blast

lemma counted_codes_mono:
  assumes "counted_codes x e n len codes final" and "n' \<le> n" and "n + len \<le> n' + len'"
  shows "counted_codes x e n' len' codes final"
proof -
  from assms(1) obtain ks where k: "sorted_wrt (<) ks" "\<And>k. k \<in> set ks \<Longrightarrow> n \<le> k \<and> k < n + len"
    "list_all2 (\<lambda>k a. hotp_code x e (oe_counter e + of_nat k) a) ks codes"
    and f: "\<And>e'. final = Some e' \<Longrightarrow> same_credential e e' \<and>
      (\<exists>m \<ge> n. oe_counter e' = oe_counter e + of_nat m \<and> (\<forall>k \<in> set ks. k < m))"
    by (rule counted_codesE) blast
  have "n' \<le> k \<and> k < n' + len'" if "k \<in> set ks" for k using k(2) [OF that] assms(2,3) by linarith
  moreover have "same_credential e e' \<and> (\<exists>m \<ge> n'. oe_counter e' = oe_counter e + of_nat m \<and> (\<forall>k \<in> set ks. k < m))"
    if "final = Some e'" for e' using f [OF that] assms(2) order_trans by blast
  ultimately show ?thesis unfolding counted_codes_def using k(1,3) by blast
qed

lemma counted_codes_Cons:
  assumes "counted_codes x e (Suc n) len codes final" and "hotp_code x e (oe_counter e + of_nat n) a"
  shows "counted_codes x e n (Suc len) (a # codes) final"
proof -
  from assms(1) obtain ks where k: "sorted_wrt (<) ks" "\<And>k. k \<in> set ks \<Longrightarrow> Suc n \<le> k \<and> k < Suc n + len"
    "list_all2 (\<lambda>k a. hotp_code x e (oe_counter e + of_nat k) a) ks codes"
    and f: "\<And>e'. final = Some e' \<Longrightarrow> same_credential e e' \<and>
      (\<exists>m \<ge> Suc n. oe_counter e' = oe_counter e + of_nat m \<and> (\<forall>k \<in> set ks. k < m))"
    by (rule counted_codesE) blast
  have "sorted_wrt (<) (n # ks)" using k(1,2) by (auto simp: Suc_le_eq)
  moreover have "n \<le> j \<and> j < n + Suc len" if "j \<in> set (n # ks)" for j using k(2) [of j] that by auto
  moreover have "list_all2 (\<lambda>k a. hotp_code x e (oe_counter e + of_nat k) a) (n # ks) (a # codes)"
    using assms(2) k(3) by (rule list_all2_Cons [THEN iffD2, OF conjI])
  moreover have "same_credential e e' \<and> (\<exists>m \<ge> n. oe_counter e' = oe_counter e + of_nat m \<and> (\<forall>j \<in> set (n # ks). j < m))"
    if e': "final = Some e'" for e'
  proof -
    from f [OF e'] obtain m where "Suc n \<le> m" "oe_counter e' = oe_counter e + of_nat m" "\<forall>k \<in> set ks. k < m"
      "same_credential e e'" by blast
    then show ?thesis by (intro conjI exI [of _ m]) auto
  qed
  ultimately show ?thesis unfolding counted_codes_def by blast
qed

lemma counted_codes_lost: "counted_codes x e n len [] None"
  unfolding counted_codes_def by (intro exI [of _ "[]"]) simp

lemma codes_counted:
  assumes "oath_store_ok x s" and "oaccounts x s i = Some e" and "oe_type e = OTYPE_HOTP"
    and "same_credential e0 e" and "oe_counter e = oe_counter e0 + of_nat n" and "code_steps x rs s = (as, t)"
  shows "counted_codes x e0 n (length rs) (codes_of i rs as) (oaccounts x t i)"
  using assms
proof (induction rs arbitrary: s e n as)
  case Nil
  then show ?case unfolding counted_codes_def by (intro exI [of _ "[]"]) auto
next
  case (Cons r rs)
  from Cons.prems(6) obtain a u as' where st: "code_step x r s = (a, u)" "code_steps x rs u = (as', t)" "as = a # as'"
    by (rule steps_Cons)
  have eff: "code_effect x (request_slot r) s a u" by (rule step_effect [OF Cons.prems(1) st(1)])
  then have ok: "oath_store_ok x u" by (simp add: code_effect_def)
  note now = counted_at [OF Cons.prems(1,2,4,5)]
  let ?e' = "counted e (oe_counter e + 1)"
  have type: "oe_type ?e' = OTYPE_HOTP" using now(1) Cons.prems(3,4) by (simp add: same_credential_def)
  have code: "hotp_code x e0 (oe_counter e0 + of_nat n) a" if "request_slot r = i" "a \<noteq> No_code"
    using eff that Cons.prems(2,3,5) same_code [OF Cons.prems(4)] by (auto simp: code_effect_def)
  have moved: "counted_codes x e0 (Suc n) (length rs) (codes_of i rs as') (oaccounts x t i)" if "oaccounts x u i = Some ?e'"
    by (rule Cons.IH [OF ok that type now st(2)])
  consider "oaccounts x u i = Some e" "request_slot r = i \<longrightarrow> a = No_code" | "oaccounts x u i = None" "a = No_code" |
    "oaccounts x u i = Some ?e'" "request_slot r = i"
    using eff Cons.prems(2,3) unfolding code_effect_def by (cases "request_slot r = i"; cases "a = No_code") fastforce+
  then show ?case
  proof cases
    case 1
    with Cons.IH [OF ok 1(1) Cons.prems(3-5) st(2)] st(3) show ?thesis
      using counted_codes_mono [of x e0 n "length rs" "codes_of i rs as'" "oaccounts x t i" n "Suc (length rs)"] by auto
  next
    case 2
    with lost_no_codes [OF ok 2(1) st(2)] st(3) show ?thesis by (simp add: counted_codes_lost)
  next
    case 3
    then show ?thesis
      using counted_codes_Cons [OF moved code] counted_codes_mono [OF moved, of n "Suc (length rs)"] st(3) by auto
  qed
qed

section \<open>Properties\<close>

text \<open>
  C16. No HOTP code is given twice: whatever codes are asked for, by the host or on the display, on any
  slots and with any failures of the chip, those of one HOTP credential come from increasing values
  of its counter, each used at most once, and as long as the credential is there its key and
  parameters are unchanged and its stored counter is beyond all values used.
\<close>

theorem hotp_counter_once:
  assumes "oath_store_ok x s" and "oaccounts x s i = Some e" and "oe_type e = 1" and "code_steps x rs s = (as, t)"
  shows "\<exists>ks. sorted_wrt (<) ks \<and> (\<forall>k \<in> set ks. k < length rs) \<and>
    list_all2 (\<lambda>k a. hotp_code x e (oe_counter e + of_nat k) a) ks (codes_of i rs as) \<and>
    (\<forall>e'. oaccounts x t i = Some e' \<longrightarrow> same_credential e e' \<and>
       (\<exists>n. oe_counter e' = oe_counter e + of_nat n \<and> (\<forall>k \<in> set ks. k < n)))"
proof -
  have "same_credential e e" "oe_counter e = oe_counter e + of_nat 0" by (simp_all add: same_credential_def)
  from codes_counted [OF assms(1-3) this assms(4)] show ?thesis unfolding counted_codes_def by auto
qed

text \<open>A credential with counter 7, asked by the host, on the display, and by the host again.\<close>

theorem hotp_counter_once_witness:
  "\<exists>i as t. code_steps plain_oath [Calculate i (replicate 8 0), Show i 7, Calculate i (replicate 8 0)] hotp_oath = (as, t) \<and>
     (\<exists>ks :: nat list. sorted_wrt (<) ks \<and> length ks = length (codes_of i [Calculate i (replicate 8 0), Show i 7, Calculate i (replicate 8 0)] as))"
proof -
  obtain i where i: "oaccounts plain_oath hotp_oath i = Some (entry_of sample_hotp (6, 0))"
    using hotp_facts(2) by auto
  let ?rs = "[Calculate i (replicate 8 0), Show i 7, Calculate i (replicate 8 0)]"
  obtain as t where run: "code_steps plain_oath ?rs hotp_oath = (as, t)" by fastforce
  have "oe_type (entry_of sample_hotp (6, 0)) = 1" by (simp add: entry_of_def new_entry_def sample_hotp_def)
  from hotp_counter_once [OF hotp_facts(1) i this run] obtain ks where k: "sorted_wrt (<) ks"
    "list_all2 (\<lambda>k a. hotp_code plain_oath (entry_of sample_hotp (6, 0))
       (oe_counter (entry_of sample_hotp (6, 0)) + of_nat k) a) ks (codes_of i ?rs as)" by blast
  show ?thesis
    by (rule exI [of _ i], rule exI [of _ as], rule exI [of _ t], rule conjI [OF run], rule exI [of _ ks])
      (rule conjI [OF k(1) list_all2_lengthD [OF k(2)]])
qed

end
