(* ===== verification/Oath_Base32.thy ===== *)
theory Oath_Base32
  imports Oath_Store
begin

text \<open>
  The text form of a secret: the loop that collects bits in a machine word agrees with the definition
  of Base32 (RFC 4648), five bits for each character, cut into bytes.
\<close>

section \<open>The definition\<close>

definition ignored :: "byte \<Rightarrow> bool" where
  "ignored c \<longleftrightarrow> c \<in> {0x3D, 0x20, 0x09, 0x0D, 0x0A}"

definition in_alphabet :: "byte \<Rightarrow> bool" where
  "in_alphabet c \<longleftrightarrow> 0x41 \<le> c \<and> c \<le> 0x5A \<or> 0x61 \<le> c \<and> c \<le> 0x7A \<or> 0x32 \<le> c \<and> c \<le> 0x37"

text \<open>The value of a character: its place in the alphabet, letters of either case first, then 2 to 7.\<close>

definition char_value :: "byte \<Rightarrow> nat" where
  "char_value c = (if c \<le> 0x37 then unat c - 24 else if c \<le> 0x5A then unat c - 65 else unat c - 97)"

definition char_bits :: "byte \<Rightarrow> bool list" where
  "char_bits c = map (\<lambda>i. odd (char_value c div 2 ^ i)) [4, 3, 2, 1, 0]"

definition text_bits :: "bytes \<Rightarrow> bool list" where
  "text_bits cs = concat (map char_bits (filter (\<lambda>c. \<not> ignored c) cs))"

definition byte_of_bits :: "bool list \<Rightarrow> byte" where
  "byte_of_bits bs = horner_sum of_bool 2 (rev bs)"

fun octets :: "bool list \<Rightarrow> bytes" where
  "octets bs = (if length bs < 8 then [] else byte_of_bits (take 8 bs) # octets (drop 8 bs))"

declare octets.simps [simp del]

section \<open>The loop\<close>

lemma base32_value:
  "base32CharValue c = (if in_alphabet c then Some (of_nat (char_value c)) else None)"
  "in_alphabet c \<Longrightarrow> char_value c < 32"
proof -
  have low: "ucast c - 0x41 = (of_nat (unat c - 65) :: u32)" if "0x41 \<le> c"
    using that by (simp add: word_le_nat_alt word_unat_eq_iff of_nat_diff unat_ucast_up)
  have mid: "ucast c - 0x61 = (of_nat (unat c - 97) :: u32)" if "0x61 \<le> c"
    using that by (simp add: word_le_nat_alt of_nat_diff)
  have num: "ucast c - 0x32 + 26 = (of_nat (unat c - 24) :: u32)" if "0x32 \<le> c"
    using that by (simp add: word_le_nat_alt of_nat_diff)
  show "base32CharValue c = (if in_alphabet c then Some (of_nat (char_value c)) else None)"
    using low mid num by (auto simp: base32CharValue_def in_alphabet_def char_value_def word_le_nat_alt)
  show "in_alphabet c \<Longrightarrow> char_value c < 32"
    by (auto simp: in_alphabet_def char_value_def word_le_nat_alt)
qed

definition pending :: "u32 \<Rightarrow> nat \<Rightarrow> bool list" where
  "pending buffer n = map (bit buffer) (rev [0..<n])"

lemma pending_add: "pending buffer (n + m) = map (bit buffer) (rev [m..<m + n]) @ pending buffer m"
  using upt_add_eq_append [of 0 m n] by (simp add: pending_def add.commute del: upt_Suc)

lemma length_pending [simp]: "length (pending buffer n) = n"
  by (simp add: pending_def)

lemma pending_char:
  assumes "in_alphabet c" and "n < 8"
  shows "pending (push_bit 5 b OR of_nat (char_value c)) (n + 5) = pending b n @ char_bits c"
proof -
  let ?b = "push_bit 5 b OR of_nat (char_value c) :: u32"
  have v: "char_value c < 2 ^ 5" using base32_value(2) [OF assms(1)] by simp
  have high: "\<not> bit (char_value c) i" if "5 \<le> i" for i
  proof -
    have "char_value c < 2 ^ i" using v power_increasing [OF that, of "2 :: nat"] by simp
    then show ?thesis by (simp add: bit_iff_odd)
  qed
  have shift: "bit ?b (i + 5) = bit b i" if "i < n" for i
    using that assms(2) high [of "i + 5"] by (auto simp: bit_simps)
  have "map (bit ?b) [5..<5 + n] = map (bit ?b) (map (\<lambda>i. i + 5) [0..<n])"
    by (simp add: map_add_upt add.commute)
  also have "\<dots> = map (bit b) [0..<n]"
    using shift by (simp only: map_map comp_def map_eq_conv) auto
  finally have "map (bit ?b) (rev [5..<5 + n]) = pending b n" by (simp add: pending_def rev_map [symmetric])
  moreover have low: "bit ?b i = odd (char_value c div 2 ^ i)" if "i < 5" for i
    using that by (simp add: bit_simps bit_iff_odd [of "char_value c"])
  have "[0..<5] = [0, 1, 2, 3, 4]" by (simp add: upt_conv_Cons)
  then have "pending ?b 5 = char_bits c" by (simp add: pending_def char_bits_def low del: upt_Suc)
  ultimately show ?thesis by (simp add: pending_add)
qed

lemma byte_pending: "byte_at k b = byte_of_bits (map (bit b) (rev [k..<k + 8]))" for b :: u32
  by (rule bit_word_eqI) (simp add: bit_byte_at byte_of_bits_def rev_map bit_horner_sum_bit_iff nth_append)

lemma octets_pending:
  assumes "n < 8"
  shows "octets (pending b (n + 8) @ bits) = byte_at n b # octets (pending b n @ bits)"
  using assms pending_add [of b 8 n] by (subst octets.simps) (simp add: byte_pending add.commute [of n 8])

lemma octets_few: "length bits < 8 \<Longrightarrow> octets bits = []"
  by (subst octets.simps) simp

section \<open>Agreement\<close>

lemma base32_loop_bits:
  assumes "n < 8" and "length out \<le> outMax"
  shows "base32_loop cs buffer n out outMax =
    (let bs = out @ octets (pending buffer n @ text_bits cs) in
     if list_all (\<lambda>c. ignored c \<or> in_alphabet c) cs \<and> length bs \<le> outMax then Some bs else None)"
  using assms
proof (induction cs arbitrary: buffer n out)
  case Nil
  then show ?case by (simp add: text_bits_def octets_few)
next
  case (Cons c cs)
  show ?case
  proof (cases "ignored c \<or> \<not> in_alphabet c")
    case True
    show ?thesis
    proof (cases "ignored c")
      case ign: True
      then have "c \<in> {0x3D, 0x20, 0x09, 0x0D, 0x0A}" by (simp add: ignored_def)
      then have "base32_loop (c # cs) buffer n out outMax = base32_loop cs buffer n out outMax" by (subst base32_loop.simps) (rule if_P)
      moreover have "text_bits (c # cs) = text_bits cs" using ign by (simp add: text_bits_def)
      ultimately show ?thesis using Cons.IH [OF Cons.prems, of buffer] ign by simp
    next
      case False
      then show ?thesis using True by (simp add: ignored_def base32_value(1))
    qed
  next
    case False
    let ?b = "push_bit 5 buffer OR of_nat (char_value c) :: u32"
    have char: "text_bits (c # cs) = char_bits c @ text_bits cs" using False by (simp add: text_bits_def)
    have step: "base32_loop (c # cs) buffer n out outMax =
        (if n + 5 \<ge> 8 then if length out \<ge> outMax then None
           else base32_loop cs ?b (n + 5 - 8) (out @ [byte_at (n + 5 - 8) ?b]) outMax
         else base32_loop cs ?b (n + 5) out outMax)"
      using False by (simp add: ignored_def base32_value(1) Let_def)
    have pend: "pending buffer n @ text_bits (c # cs) = pending ?b (n + 5) @ text_bits cs"
      using pending_char [OF _ Cons.prems(1), of c buffer] False char by simp
    show ?thesis
    proof (cases "n + 5 \<ge> 8")
      case True
      define m where "m = n - 3"
      have m: "n + 5 = m + 8" "m < 8" using True Cons.prems(1) by (simp_all add: m_def)
      show ?thesis
        unfolding step pend m(1) octets_pending [OF m(2)]
        using Cons.IH [OF m(2), of "out @ [byte_at m ?b]" ?b] Cons.prems(2) False by (simp add: Let_def)
    next
      case short: False
      then show ?thesis
        unfolding step pend using Cons.IH [of "n + 5" out ?b] Cons.prems(2) False by (simp add: Let_def)
    qed
  qed
qed

section \<open>Properties\<close>

text \<open>
  C35. Base32 as defined: a secret is decoded exactly if all its characters but padding and blanks are
  letters of either case or digits from 2 to 7 and the bytes fit; the result is the bits of the
  characters, five for each, in bytes, and what is left over below a byte is dropped.
\<close>

theorem base32_reference:
  "base32Decode cs n =
    (if list_all (\<lambda>c. ignored c \<or> in_alphabet c) cs \<and> length (octets (text_bits cs)) \<le> n
     then Some (octets (text_bits cs)) else None)"
  using base32_loop_bits [of 0 "[]" n cs 0] by (simp add: base32Decode_def pending_def Let_def)

text \<open>JBSW Y3DP, in any case and with padding, is the text "Hello".\<close>

theorem base32_reference_witness:
  "base32Decode [0x4A, 0x42, 0x53, 0x77, 0x20, 0x59, 0x33, 0x64, 0x50, 0x3D] 64 = Some [0x48, 0x65, 0x6C, 0x6C, 0x6F]"
proof -
  have "list_all (\<lambda>c. ignored c \<or> in_alphabet c) [0x4A, 0x42, 0x53, 0x77, 0x20, 0x59, 0x33, 0x64, 0x50, 0x3D] \<and>
      octets (text_bits [0x4A, 0x42, 0x53, 0x77, 0x20, 0x59, 0x33, 0x64, 0x50, 0x3D]) = [0x48, 0x65, 0x6C, 0x6C, 0x6F]"
    by code_simp
  then show ?thesis by (subst base32_reference) simp
qed

end
