(* ===== verification/Oath_Display.thy ===== *)
theory Oath_Display
  imports Oath_Hotp Oath_Base32
begin

text \<open>
  The codes the badge shows: the decimal digits of the truncated value, as many as the credential asks
  for.
\<close>

lemma code_bound:
  assumes "6 \<le> d" and "d \<le> 8"
  shows "unat (generate x key c d alg) =
    (case computeTruncated x key c alg of None \<Rightarrow> 0 | Some b \<Rightarrow> unat b mod 10 ^ unat d)"
proof -
  have d: "unat d \<in> {6, 7, 8}" using assms by (auto simp: word_le_nat_alt)
  then have "unat (of_nat (10 ^ unat d) :: u32) = 10 ^ unat d" by (auto simp: unat_of_nat_u32)
  moreover have "\<not> (d < 6 \<or> d > 8)" using assms by auto
  ultimately show ?thesis by (simp add: generate_def Let_def unat_mod split: option.splits)
qed

lemma digits_value_zeros: "digits_value (replicate k 0x30 @ ds) = digits_value ds"
  by (induction k) (simp_all add: digits_value_def)

lemma formatCode_digits:
  assumes "6 \<le> d" and "d \<le> 8" and "unat code < 10 ^ unat d" and "8 < n"
  shows "length (formatCode code d n) = unat d \<and> list_all is_digit (formatCode code d n) \<and>
    digits_value (formatCode code d n) = unat code"
proof -
  have d: "6 \<le> unat d" "unat d \<le> 8" using assms(1,2) by (simp_all add: word_le_nat_alt)
  let ?ds = "decimal (unat code)"
  have len: "length ?ds \<le> unat d" using decimal_length [of "unat d" "unat code"] d assms(3) by simp
  then have f: "formatCode code d n = replicate (unat d - length ?ds) 0x30 @ ?ds"
    using assms(1,2,4) d by (simp add: formatCode_def Let_def)
  have "is_digit 0x30" by (simp add: is_digit_def)
  then show ?thesis
    using len decimal_digits [of "unat code"] decimal_value [of "unat code"]
    by (auto simp: f digits_value_zeros list_all_iff)
qed

lemma plain_writes:
  assumes "p < 512" and "length secret \<le> SECRET_LEN"
  shows "fst (writePayload plain_oath p name type issuer secret digits period counter algorithm flags s)"
proof -
  have "length (header_bytes (new_header m n f l)) = 22" for m n f l
    using parse_header_bytes(2) [of "new_header m n f l"] by simp
  then show ?thesis
    using assms by (cases "tr_hw s") (simp add: writePayload_def on_chip_def rmemWriteWithHeader_def Let_def not_le)
qed

section \<open>Properties\<close>



end
