(* ===== verification/Oath_Backend.thy ===== *)
theory Oath_Backend
  imports Oath_Display
begin

text \<open>
  The back end of the YKOATH applet on the badge (\<^verbatim>\<open>mod_2fa/src/OathBackend.cpp\<close>): the functions the
  applet calls, on the OATH store, the salt and the access key in NVS, mbedtls and the touch prompt.
  NVS, the random numbers and the timer are functions of the environment; a blob of another length
  than the code asks for counts as missing, as in the code.
\<close>

section \<open>The device\<close>

record 'e backend_env = "'e oath_env" +
  x_nvs_write :: "'e \<Rightarrow> bool"
  x_nvs_read :: "'e \<Rightarrow> bool"
  x_devid_get :: "'e \<Rightarrow> bytes option"
  x_devid_set :: "bytes \<Rightarrow> 'e \<Rightarrow> 'e"
  x_akey_get :: "'e \<Rightarrow> bytes option"
  x_akey_set :: "bytes \<Rightarrow> 'e \<Rightarrow> bool \<times> 'e"
  x_akey_erase :: "'e \<Rightarrow> 'e"
  x_random_strict :: "nat \<Rightarrow> 'e \<Rightarrow> bytes option \<times> 'e"
  x_random :: "nat \<Rightarrow> 'e \<Rightarrow> bytes option \<times> 'e"
  x_timer :: "'e \<Rightarrow> int"

record 'e oath_device = "'e oath_store" +
  s_touchPromptSlot :: u16
  s_touchArmedSlot :: u16
  s_touchArmedUntilUs :: int

abbreviation (input) "kNoSlot \<equiv> (0xFFFF :: u16)"
abbreviation (input) "kTouchWindowUs \<equiv> (15000000 :: int)"

definition env_of :: "'e backend_env \<Rightarrow> 'e oath_env" where
  "env_of x = \<lparr>x_io = x_io x, x_md_hmac = x_md_hmac x, x_time = x_time x, x_local_year = x_local_year x\<rparr>"

section \<open>The functions\<close>

definition beCapacity :: "'e oath_device \<Rightarrow> u16" where
  "beCapacity s = slot_capacity (os_slots s)"

definition meta_of :: "oath_entry \<Rightarrow> oath_meta" where
  "meta_of e = \<lparr>m_used = True, m_name = take 16 (oe_name e), m_issuer = take 32 (oe_issuer e), m_type = oe_type e,
     m_algorithm = oe_algorithm e, m_digits = oe_digits e, m_period = oe_period e, m_flags = oe_flags e\<rparr>"

definition beRead :: "'e backend_env \<Rightarrow> u16 \<Rightarrow> 'e oath_device \<Rightarrow> oath_meta option" where
  "beRead x slot s = map_option meta_of (readAccount (env_of x) slot s)"

definition beCalculate :: "'e backend_env \<Rightarrow> u16 \<Rightarrow> bytes \<Rightarrow> 'e oath_device \<Rightarrow> (bytes \<times> byte) option \<times> 'e oath_device" where
  "beCalculate x slot challenge s = calculateForChallenge (env_of x) slot challenge s"

definition beAddRaw :: "'e backend_env \<Rightarrow> new_credential \<Rightarrow> 'e oath_device \<Rightarrow> bool \<times> 'e oath_device" where
  "beAddRaw x n s =
     (let s = (case findByName (env_of x) (n_name n) s of
            Some existing \<Rightarrow> snd (deleteAccount (env_of x) existing s)
          | None \<Rightarrow> s) in
      addAccountRaw (env_of x) n s)"

definition beRemove :: "'e backend_env \<Rightarrow> u16 \<Rightarrow> 'e oath_device \<Rightarrow> bool \<times> 'e oath_device" where
  "beRemove x slot s = deleteAccount (env_of x) slot s"

definition beWipeAll :: "'e backend_env \<Rightarrow> 'e oath_device \<Rightarrow> 'e oath_device" where
  "beWipeAll x s =
     fold (\<lambda>i s. if readAccount (env_of x) (of_nat i) s \<noteq> None then snd (deleteAccount (env_of x) (of_nat i) s) else s)
       [0..<unat (slot_capacity (os_slots s))] s"

definition fallback_id :: bytes where
  "fallback_id = map (\<lambda>i. 0xA0 + of_nat i) [0..<8]"

definition beDevId :: "'e backend_env \<Rightarrow> 'e oath_device \<Rightarrow> bytes \<times> 'e oath_device" where
  "beDevId x s =
     (if x_nvs_write x (tr_hw s) then
        (case x_devid_get x (tr_hw s) of
           Some d \<Rightarrow> (d, s)
         | None \<Rightarrow>
             (let (d, s) = (if io_present (x_io x) then on_chip (x_random_strict x 8) s else (None, s));
                  out = (case d of Some d \<Rightarrow> d | None \<Rightarrow> fallback_id) in
              (out, s\<lparr>tr_hw := x_devid_set x out (tr_hw s)\<rparr>)))
      else (fallback_id, s))"

definition beAkeyGet :: "'e backend_env \<Rightarrow> 'e oath_device \<Rightarrow> bytes option" where
  "beAkeyGet x s = (if \<not> x_nvs_read x (tr_hw s) then None else x_akey_get x (tr_hw s))"

definition beAkeySet :: "'e backend_env \<Rightarrow> bytes \<Rightarrow> 'e oath_device \<Rightarrow> bool \<times> 'e oath_device" where
  "beAkeySet x key s = (if \<not> x_nvs_write x (tr_hw s) then (False, s) else on_chip (x_akey_set x key) s)"

definition beAkeyClear :: "'e backend_env \<Rightarrow> 'e oath_device \<Rightarrow> 'e oath_device" where
  "beAkeyClear x s = (if \<not> x_nvs_write x (tr_hw s) then s else s\<lparr>tr_hw := x_akey_erase x (tr_hw s)\<rparr>)"

definition beHmacSha1 :: "'e backend_env \<Rightarrow> bytes \<Rightarrow> bytes \<Rightarrow> 'e oath_device \<Rightarrow> bytes option" where
  "beHmacSha1 x key dat s = x_md_hmac x MD_SHA1 key dat"

definition beRng :: "'e backend_env \<Rightarrow> nat \<Rightarrow> 'e oath_device \<Rightarrow> bytes option \<times> 'e oath_device" where
  "beRng x n s = (if io_present (x_io x) then on_chip (x_random x n) s else (None, s))"

text \<open>The answers of the user to the prompt, and the gate of a touch-required credential.\<close>

definition onTouchConfirm :: "'e backend_env \<Rightarrow> 'e oath_device \<Rightarrow> 'e oath_device" where
  "onTouchConfirm x s = s\<lparr>s_touchArmedSlot := s_touchPromptSlot s,
     s_touchArmedUntilUs := x_timer x (tr_hw s) + kTouchWindowUs, s_touchPromptSlot := kNoSlot\<rparr>"

definition onTouchCancel :: "'e oath_device \<Rightarrow> 'e oath_device" where
  "onTouchCancel s = s\<lparr>s_touchPromptSlot := kNoSlot\<rparr>"

definition beTouchOk :: "'e backend_env \<Rightarrow> u16 \<Rightarrow> 'e oath_device \<Rightarrow> bool \<times> 'e oath_device" where
  "beTouchOk x slot s =
     (if s_touchArmedSlot s = slot \<and> x_timer x (tr_hw s) < s_touchArmedUntilUs s
      then (True, s\<lparr>s_touchArmedSlot := kNoSlot\<rparr>)
      else (False, if s_touchPromptSlot s = kNoSlot then s\<lparr>s_touchPromptSlot := slot\<rparr> else s))"

definition g_backend :: "'e backend_env \<Rightarrow> 'e oath_device oath_backend" where
  "g_backend x = \<lparr>be_capacity = beCapacity, be_read = beRead x, be_calculate = beCalculate x, be_addRaw = beAddRaw x,
     be_remove = beRemove x, be_wipeAll = beWipeAll x, be_devId = beDevId x, be_akeyGet = beAkeyGet x,
     be_akeySet = beAkeySet x, be_akeyClear = beAkeyClear x, be_hmacSha1 = beHmacSha1 x, be_rng = beRng x,
     be_touchOk = beTouchOk x\<rparr>"

definition oath_backend_install :: "'e backend_env \<Rightarrow> 'e oath_device oath \<Rightarrow> 'e oath_device oath" where
  "oath_backend_install x s = oath_set_backend (Some (g_backend x)) s"

section \<open>Touch\<close>

text \<open>What happens to the gate: the applet asks for a slot, the user confirms or cancels, time passes.\<close>

datatype 'e touch_event = Ask u16 | Confirm | Cancel | Meanwhile "'e \<Rightarrow> 'e"

fun touch_step :: "'e backend_env \<Rightarrow> 'e touch_event \<Rightarrow> 'e oath_device \<Rightarrow> bool \<times> 'e oath_device" where
  "touch_step x (Ask i) s = beTouchOk x i s"
| "touch_step x Confirm s = (False, onTouchConfirm x s)"
| "touch_step x Cancel s = (False, onTouchCancel s)"
| "touch_step x (Meanwhile f) s = (False, s\<lparr>tr_hw := f (tr_hw s)\<rparr>)"

fun touch_run :: "'e backend_env \<Rightarrow> 'e touch_event list \<Rightarrow> 'e oath_device \<Rightarrow> bool list \<times> 'e oath_device" where
  "touch_run x [] s = ([], s)"
| "touch_run x (v # vs) s =
     (case touch_step x v s of (b, s) \<Rightarrow> case touch_run x vs s of (bs, s) \<Rightarrow> (b # bs, s))"

lemma touch_run_append:
  "touch_run x (us @ vs) s =
     (case touch_run x us s of (bs, t) \<Rightarrow> case touch_run x vs t of (cs, r) \<Rightarrow> (bs @ cs, r))"
  by (induction us arbitrary: s) (auto split: prod.splits)

text \<open>A prompt on the screen was asked for by the applet.\<close>

lemma prompt_asked:
  assumes "s_touchPromptSlot s = kNoSlot" "s_touchPromptSlot (snd (touch_run x vs s)) = i" "i \<noteq> kNoSlot"
  shows "Ask i \<in> set vs"
  using assms(2)
proof (induction vs rule: rev_induct)
  case Nil
  then show ?case using assms by simp
next
  case (snoc v vs)
  obtain bs t where t: "touch_run x vs s = (bs, t)"
    by (cases "touch_run x vs s")
  show ?case
  proof (cases "s_touchPromptSlot t = i")
    case True
    then show ?thesis using snoc.IH t by simp
  next
    case False
    then have "v = Ask i"
      using snoc.prems t assms(3)
      by (cases v) (auto simp: touch_run_append beTouchOk_def onTouchConfirm_def onTouchCancel_def split: if_splits)
    then show ?thesis by simp
  qed
qed

text \<open>An armed slot was confirmed on its prompt, and nothing was released since.\<close>

lemma armed_confirmed:
  assumes "s_touchArmedSlot s = kNoSlot" "s_touchArmedSlot (snd (touch_run x vs s)) = i" "i \<noteq> kNoSlot"
  shows "\<exists>us ws. vs = us @ Confirm # ws \<and> s_touchPromptSlot (snd (touch_run x us s)) = i \<and>
    s_touchArmedUntilUs (snd (touch_run x vs s)) = x_timer x (tr_hw (snd (touch_run x us s))) + kTouchWindowUs \<and>
    True \<notin> set (fst (touch_run x ws (onTouchConfirm x (snd (touch_run x us s)))))"
  using assms(2)
proof (induction vs rule: rev_induct)
  case Nil
  then show ?case using assms by simp
next
  case (snoc v vs)
  obtain bs t where t: "touch_run x vs s = (bs, t)"
    by (cases "touch_run x vs s")
  show ?case
  proof (cases "v = Confirm")
    case True
    then have "s_touchPromptSlot t = i"
      using snoc.prems t by (simp add: touch_run_append onTouchConfirm_def)
    then show ?thesis
      using t True by (intro exI[of _ vs] exI[of _ "[]"]) (simp add: touch_run_append onTouchConfirm_def)
  next
    case False
    have v: "s_touchArmedSlot t = i" "s_touchArmedUntilUs (snd (touch_step x v t)) = s_touchArmedUntilUs t"
        "fst (touch_step x v t) = False"
      using snoc.prems t False assms(3)
      by (cases v; auto simp: touch_run_append beTouchOk_def onTouchCancel_def split: if_splits)+
    obtain us ws where u: "vs = us @ Confirm # ws" "s_touchPromptSlot (snd (touch_run x us s)) = i"
        "s_touchArmedUntilUs t = x_timer x (tr_hw (snd (touch_run x us s))) + kTouchWindowUs"
        "True \<notin> set (fst (touch_run x ws (onTouchConfirm x (snd (touch_run x us s)))))"
      using snoc.IH v(1) t by auto
    have r: "snd (touch_run x ws (onTouchConfirm x (snd (touch_run x us s)))) = t"
      using t u(1) by (auto simp: touch_run_append split: prod.splits)
    show ?thesis
      using u v t r
      by (intro exI[of _ us] exI[of _ "ws @ [v]"]) (auto simp: touch_run_append split: prod.splits)
  qed
qed


definition plain_backend :: "plain_memory backend_env" where
  "plain_backend = \<lparr>x_io = plain_io, x_md_hmac = (\<lambda>_ _ _. None), x_time = (\<lambda>_. 0), x_local_year = (\<lambda>_. 1970),
     x_nvs_write = (\<lambda>_. True), x_nvs_read = (\<lambda>_. True), x_devid_get = (\<lambda>_. None), x_devid_set = (\<lambda>_ e. e),
     x_akey_get = (\<lambda>_. None), x_akey_set = (\<lambda>_ e. (True, e)), x_akey_erase = (\<lambda>e. e),
     x_random_strict = (\<lambda>_ e. (None, e)), x_random = (\<lambda>_ e. (None, e)),
     x_timer = (\<lambda>(mem, nvs). if mem 0 = None then 1000 else 14000000)\<rparr>"

definition empty_device :: "plain_memory oath_device" where
  "empty_device = \<lparr>tr_state = STARTED, tr_header = \<lparr>tc_version = 1, tc_chunk_slots = 64, tc_entry_size = 18,
     tc_signature = 0\<rparr>, tr_valid = True, tr_hw = (\<lambda>i. None, \<lambda>k. None), os_slots = setSlotRange 31 130 5,
     s_touchPromptSlot = 0xFFFF, s_touchArmedSlot = 0xFFFF, s_touchArmedUntilUs = 0\<rparr>"


end
