(* ===== verification/Oath_Put.thy ===== *)
theory Oath_Put
  imports Oath_Backend
begin

text \<open>
  The PUT command of the YKOATH applet on the badge's own back end: what a client that adds a
  credential over the card finds in the OATH store.
\<close>

section \<open>The credential of a name\<close>

lemma fold_found:
  assumes "fold (on_cached io m s (\<lambda>slot found. if found \<noteq> None then found
      else if Q slot then h slot else found)) ns None = Some i"
  shows "\<exists>n. n \<in> set ns \<and> in_cache io (moduleId m) s (of_nat n) \<and> Q (of_nat n) \<and> h (of_nat n) = Some i"
  using assms
proof (induction ns rule: rev_induct)
  case (snoc n ns)
  then show ?case by (auto simp: on_cached_def split: if_splits)
qed simp

lemma findByName_cached:
  assumes "own_range (os_slots s)" and "findByName x name s = Some i"
  shows "\<exists>p. toPhysicalSlot (os_slots s) i = Some p \<and> in_cache (x_io x) (moduleId (os_slots s)) s p \<and>
    take RMEM_NAME_LEN (cstr (ce_name (getEntry (x_io x) p s))) = take RMEM_NAME_LEN name"
proof -
  let ?m = "os_slots s"
  let ?Q = "\<lambda>slot. strncmp_eq RMEM_NAME_LEN (cstr (ce_name (getEntry (x_io x) slot s))) name"
  let ?g = "\<lambda>slot found. if found \<noteq> None then found else if ?Q slot then toLogicalSlot ?m slot else found"
  have b: "hasSlotRange ?m" "rmemStart ?m \<le> rmemEnd ?m" using assms(1) by (auto simp: own_range_def)
  have run: "findByName x name s = fold (on_cached (x_io x) ?m s ?g) [unat (rmemStart ?m)..<Suc (unat (rmemEnd ?m))] None"
    unfolding findByName_def Let_def using b(1)
    by (subst forEachSlot_pure [OF assms(1), where g = ?g]) auto
  obtain n where n: "in_cache (x_io x) (moduleId ?m) s (of_nat n)" "?Q (of_nat n)" "toLogicalSlot ?m (of_nat n) = Some i"
    using assms(2) fold_found [of "x_io x" ?m s ?Q "toLogicalSlot ?m"] unfolding run by blast
  have "toPhysicalSlot ?m i = Some (of_nat n)" using n(3) physical_logical [OF b] by simp
  with n show ?thesis by (auto simp: strncmp_eq_def)
qed

definition one_lost :: "bytes \<Rightarrow> (u16 \<Rightarrow> oath_entry option) \<Rightarrow> (u16 \<Rightarrow> oath_entry option) \<Rightarrow> bool" where
  "one_lost name A M \<longleftrightarrow> M = A \<or> (\<exists>j old. A j = Some old \<and> oe_name old = name \<and> M = A(j := None))"

text \<open>The deletion that goes before the addition takes a credential of the name, if it takes one.\<close>

lemma replaced_named:
  assumes "oath_store_ok x s" and "findByName x name s = Some i" and "length name \<le> RMEM_NAME_LEN"
    and "deleteAccount x i s = (ok, t)"
  shows "one_lost name (oaccounts x s) (oaccounts x t)"
proof -
  note k = store_okD [OF assms(1)]
  obtain p where p: "toPhysicalSlot (os_slots s) i = Some p"
      "take RMEM_NAME_LEN (cstr (ce_name (getEntry (x_io x) p s))) = name"
    using findByName_cached [OF k(2) assms(2)] assms(3) by auto
  have d: "oaccounts x t = (oaccounts x s)(i := None) \<or> oaccounts x t = oaccounts x s"
    using deleteAccount_effect(2) [OF k(1,2) assms(4)] by blast
  show ?thesis
  proof (cases "oaccounts x s i")
    case None
    then show ?thesis using d by (auto simp: one_lost_def fun_upd_idem)
  next
    case (Some e)
    then have "cstr (ce_name (getEntry (x_io x) p s)) = oe_name e"
      using assms(1) p(1) by (fastforce simp: oath_store_ok_def cache_covers_def)
    moreover have "length (oe_name e) \<le> 15"
      using Some by (auto simp: oaccounts_def readAccount_def parse_entry_def cstr_take Let_def split: if_splits option.splits prod.splits)
    ultimately have "oe_name e = name" using p(2) by simp
    then show ?thesis using d Some by (auto simp: one_lost_def)
  qed
qed

section \<open>The back end\<close>

lemma env_of_simps [simp]: "x_io (env_of x) = x_io x"
  by (simp add: env_of_def)

lemma beAddRaw_effect:
  assumes "oath_store_ok (env_of x) s" and "length (n_name n) \<le> RMEM_NAME_LEN" and "0 \<notin> set (n_name n)"
    and "beAddRaw x n s = (ok, t)"
  shows "oath_store_ok (env_of x) t \<and>
    (\<exists>M. one_lost (n_name n) (oaccounts (env_of x) s) M \<and>
      (if ok then \<exists>i e. M i = None \<and> oaccounts (env_of x) t = M(i \<mapsto> e) \<and> oe_type e = n_type n \<and>
         oe_name e = n_name n \<and> oe_issuer e = take 31 (cstr (n_issuer n)) \<and> entry_key e = n_key n \<and>
         oe_counter e = n_counter n \<and> oe_algorithm e = n_algorithm n \<and> oe_flags e = n_flags n
       else oaccounts (env_of x) t = M))"
proof -
  obtain u where u: "oath_store_ok (env_of x) u" "one_lost (n_name n) (oaccounts (env_of x) s) (oaccounts (env_of x) u)"
      "addAccountRaw (env_of x) n u = (ok, t)"
  proof (cases "findByName (env_of x) (n_name n) s")
    case None
    then show ?thesis using that [of s] assms(1,4) by (simp add: beAddRaw_def one_lost_def)
  next
    case (Some i)
    obtain k v where v: "deleteAccount (env_of x) i s = (k, v)" by fastforce
    show ?thesis
      using that [of v] deleteAccount_ok [OF assms(1) v] replaced_named [OF assms(1) Some assms(2) v] assms(4) Some v
      by (simp add: beAddRaw_def)
  qed
  note a = addAccountRaw_effect [OF u(1,3)]
  show ?thesis
  proof (cases ok)
    case False
    then show ?thesis using a u(2) by auto
  next
    case True
    then obtain i digits period where b: "oaccounts (env_of x) u i = None"
        "oaccounts (env_of x) t = (oaccounts (env_of x) u)(i \<mapsto> entry_of n (digits, period))"
        "length (n_name n) < RMEM_NAME_LEN" "length (n_key n) \<le> SECRET_LEN"
      using a(2) by auto
    then have "oe_name (entry_of n (digits, period)) = n_name n" "entry_key (entry_of n (digits, period)) = n_key n"
      using cstr_id [OF assms(3)] by (simp_all add: entry_of_def new_entry_def entry_key_def unat_of_nat_byte)
    then show ?thesis
      using True a(1) u(2) b(1,2) by (auto simp: entry_of_def new_entry_def intro!: exI [of _ "oaccounts (env_of x) u"] exI [of _ i])
  qed
qed

section \<open>The command\<close>

text \<open>The account and the issuer that a PUT command names.\<close>

definition put_account :: "bytes \<Rightarrow> (bytes \<times> bytes) option" where
  "put_account dat = (case find_tlv TAG_NAME dat of None \<Rightarrow> None
     | Some name \<Rightarrow> map_option (\<lambda>(period, issuer, account). (account, issuer)) (parse_yk_name name))"

lemma put_account_bounds:
  assumes "put_account dat = Some (account, issuer)"
  shows "length account \<le> RMEM_NAME_LEN \<and> 0 \<notin> set account \<and> 0 \<notin> set issuer"
proof -
  have z: "0 \<notin> set (takeWhile (\<lambda>c. c \<noteq> 0) xs)" for xs :: bytes by (auto dest: set_takeWhileD)
  have s: "set b \<subseteq> set xs \<and> set a \<subseteq> set xs" if "split_char c xs = Some (a, b)" for a b c xs
    using split_char_prefix [OF that] by auto
  have p: "length account \<le> 16 \<and> set account \<subseteq> set cur \<and> set issuer \<subseteq> set cur"
    if "parse_issuer per cur = Some (q, issuer, account)" for per cur q
    using that s [of 58 cur] by (auto simp: parse_issuer_def Let_def split: if_splits option.splits)
  obtain name q where "parse_yk_name name = Some (q, issuer, account)"
    using assms by (auto simp: put_account_def split: option.splits)
  then obtain per cur where "parse_issuer per cur = Some (q, issuer, account)" "0 \<notin> set cur"
    using z [of name] s [of _ "takeWhile (\<lambda>c. c \<noteq> 0) name"]
    by (fastforce simp: parse_yk_name_def Let_def split: if_splits option.splits)
  with p show ?thesis by blast
qed

lemma put_status:
  "apdu_sw SW_WRONG_SYNTAX \<noteq> [0x90, 0]" "apdu_sw SW_OK = [0x90, 0]" "apdu_sw SW_NO_SPACE \<noteq> [0x90, 0]"
  by code_simp+

lemma cmd_put_cases:
  "cmd_put be dat s = sw SW_WRONG_SYNTAX s \<or>
   (\<exists>account issuer key m ok b. put_account dat = Some (account, issuer) \<and> find_tlv TAG_KEY dat = Some key \<and>
      n_name m = account \<and> n_issuer m = issuer \<and> n_key m = drop 2 key \<and>
      n_type m = (if key ! 0 AND 0xF0 = 0x10 then OTYPE_HOTP else OTYPE_TOTP) \<and> n_algorithm m = (key ! 0 AND 0x0F) - 1 \<and>
      be_addRaw be m (store s) = (ok, b) \<and> cmd_put be dat s = sw (if ok then SW_OK else SW_NO_SPACE) (s\<lparr>store := b\<rparr>))"
proof (cases "\<exists>name key p. find_tlv TAG_NAME dat = Some name \<and> find_tlv TAG_KEY dat = Some key \<and>
    parse_yk_name name = Some p \<and> 3 \<le> length key \<and> length key \<le> 66 \<and> 1 \<le> key ! 0 AND 0x0F \<and> key ! 0 AND 0x0F \<le> 3")
  case False
  then have "cmd_put be dat s = sw SW_WRONG_SYNTAX s"
    by (force simp: cmd_put_def Let_def not_le not_less split: option.splits)
  then show ?thesis ..
next
  case True
  then obtain name key period issuer account where p: "find_tlv TAG_NAME dat = Some name" "find_tlv TAG_KEY dat = Some key"
      "parse_yk_name name = Some (period, issuer, account)" "3 \<le> length key" "length key \<le> 66"
      "1 \<le> key ! 0 AND 0x0F" "key ! 0 AND 0x0F \<le> 3" by auto
  define fl where "fl = (case find_tlv TAG_PROPERTY dat of
      Some p \<Rightarrow> if 1 \<le> length p \<and> p ! 0 AND 0x02 \<noteq> 0 then OFLAG_TOUCH else 0 | None \<Rightarrow> 0)"
  define co :: u64 where "co = (case find_tlv TAG_IMF dat of
      Some i \<Rightarrow> if length i = 4 then ucast (be32 (i ! 0) (i ! 1) (i ! 2) (i ! 3)) else 0 | None \<Rightarrow> 0)"
  let ?m = "\<lparr>n_type = (if key ! 0 AND 0xF0 = 0x10 then OTYPE_HOTP else OTYPE_TOTP), n_name = account, n_issuer = issuer,
      n_key = drop 2 key, n_digits = key ! 1, n_period = period, n_algorithm = (key ! 0 AND 0x0F) - 1, n_counter = co,
      n_flags = fl\<rparr>"
  obtain ok b where r: "be_addRaw be ?m (store s) = (ok, b)" by fastforce
  have "\<not> length key < 3" "\<not> 64 < length key - 2" "key ! 0 AND 0x0F \<noteq> 0" "\<not> 3 < key ! 0 AND 0x0F"
    using p(4-7) by auto
  then have "cmd_put be dat s = sw (if ok then SW_OK else SW_NO_SPACE) (s\<lparr>store := b\<rparr>)"
    unfolding cmd_put_def Let_def fl_def [symmetric] co_def [symmetric] using p(1-3) r by simp
  then show ?thesis
    using p r by (intro disjI2 exI [of _ account] exI [of _ issuer] exI [of _ key] exI [of _ ?m] exI [of _ ok] exI [of _ b])
      (simp add: put_account_def)
qed

section \<open>A badge with an empty store\<close>

definition put_badge :: "plain_memory oath_device oath" where
  "put_badge = \<lparr>g_be = Some (g_backend plain_backend), g_validated = True, g_sel_challenge = replicate 8 0,
     g_challenge_valid = False, g_resp = replicate 4096 0, g_resp_pos = 0, g_resp_remaining = 0, store = empty_device\<rparr>"

text \<open>PUT of a TOTP credential with the account ab and the secret 1, 2, 3.\<close>

definition sample_put :: bytes where
  "sample_put = [0x71, 2, 0x61, 0x62, 0x73, 5, 0x21, 6, 1, 2, 3]"

lemma device_simps [simp]:
  "x_io plain_backend = plain_io" "tr_hw empty_device = (\<lambda>i. None, \<lambda>k. None)" "os_slots empty_device = setSlotRange 31 130 5"
  "tr_state empty_device = STARTED"
  by (simp_all add: plain_backend_def empty_device_def)

lemma device_range: "own_range (setSlotRange 31 130 5)"
  using empty_range by simp

lemma device_uncached: "\<not> in_cache plain_io m empty_device i"
  by (simp add: in_cache_def getEntry_def loadChunk_def isEntryUsed_def zero_entry_def)

lemma device_accounts: "oaccounts (env_of plain_backend) empty_device = Map.empty"
proof (rule ext)
  fix i
  have "record_at plain_io n p (tr_hw empty_device) = None" for n p
    by (rule record_at_lost [OF plain_reliable]) simp
  then have "readAccount (env_of plain_backend) i empty_device = None"
    using plain_reliable device_range by (simp add: readAccount_record entry_in_def split: option.splits)
  then show "oaccounts (env_of plain_backend) empty_device i = None" by (simp add: oaccounts_def)
qed

lemma device_ok: "oath_store_ok (env_of plain_backend) empty_device"
  using plain_reliable device_range device_accounts by (simp add: oath_store_ok_def cache_covers_def)

lemma device_free: "findFreeSlot plain_io (setSlotRange 31 130 5) empty_device = Some 31"
proof -
  have "[0..<unat (slot_capacity (setSlotRange 31 130 5))] = 0 # [1..<100]"
    by (simp add: slot_capacity_def setSlotRange_def upt_conv_Cons)
  then show ?thesis
    using findFreeSlot_first [OF device_range, of plain_io empty_device] device_uncached
    by (simp add: setSlotRange_def)
qed

lemma device_none: "findByName (env_of plain_backend) name empty_device = None"
proof (rule ccontr)
  assume "findByName (env_of plain_backend) name empty_device \<noteq> None"
  then obtain i where "findByName (env_of plain_backend) name empty_device = Some i" by auto
  from findByName_cached [OF _ this] show False using device_range device_uncached by auto
qed

lemma device_added:
  "fst (beAddRaw plain_backend \<lparr>n_type = 0, n_name = [0x61, 0x62], n_issuer = [], n_key = [1, 2, 3], n_digits = 6,
     n_period = 30, n_algorithm = 0, n_counter = 0, n_flags = 0\<rparr> empty_device)"
proof -
  have "length (header_bytes (new_header m n f l)) = 22" for m n f l
    using parse_header_bytes(2) [of "new_header m n f l"] by simp
  moreover have "validateOathParams 0 6 30 0 = Some (6, 30)" by (simp add: validateOathParams_def)
  moreover have "hasSlotRange (setSlotRange 31 130 5)" by (simp add: setSlotRange_def)
  ultimately show ?thesis
    using device_free device_none
    by (simp add: beAddRaw_def addAccountRaw_def writePayload_def on_chip_def rmemWriteWithHeader_def Let_def)
qed

lemma sample_tlvs:
  "find_tlv TAG_NAME sample_put = Some [0x61, 0x62]" "find_tlv TAG_KEY sample_put = Some [0x21, 6, 1, 2, 3]"
  "find_tlv TAG_PROPERTY sample_put = None" "find_tlv TAG_IMF sample_put = None"
  "parse_yk_name [0x61, 0x62] = Some (30, [], [0x61, 0x62])"
  by code_simp+

lemma badge_put: "fst (cmd_put (g_backend plain_backend) sample_put put_badge) = (2, [0x90, 0])"
  using device_added put_status(2)
  by (auto simp: cmd_put_def sample_tlvs put_badge_def g_backend_def sw_def split: prod.splits)

section \<open>Properties\<close>



end
