(* ===== verification/Spec2Isabelle.thy ===== *)
theory Spec2Isabelle
  imports Cbor Ccid Scard_Usb Badge_Card Pin_Manager CtapHid_Protocol Fido2_Accounts Ctap2_Signed Ctap2_Blobs Oath_Put
begin

text \<open>
  Verification of the CDC badge firmware (C++ under \<^verbatim>\<open>src/components/\<close>): the parts of it that carry
  the logic of the security key, each translated from the source and proved.

  \<^bold>\<open>The program and how its parts interact.\<close> The badge is a USB device with two faces.

  \<^item> As a smartcard reader: the CCID class driver (\<^verbatim>\<open>cdc_scard/src/ccid.cpp\<close>) assembles messages from
    USB packets and hands the APDU of a transfer block to the dispatcher (\<^verbatim>\<open>cdc_scard/src/scard.cpp\<close>),
    which gives it to the applet selected by its identifier: YKOATH
    (\<^verbatim>\<open>mod_2fa/src/OathApplet.cpp\<close>) or PIV (\<^verbatim>\<open>mod_piv/src/piv_applet.cpp\<close>). The applet modules share
    one CCID interface by counting references (\<^verbatim>\<open>cdc_scard/src/scard_usb.cpp\<close>), and the USB interface
    manager (\<^verbatim>\<open>cdc_core/src/UsbManager.cpp\<close>) decides which interfaces the badge enumerates, within the
    endpoints the chip has. The credentials of YKOATH live in the OATH store
    (\<^verbatim>\<open>mod_2fa/src/OathStore.cpp\<close>), which the applet reaches through the function table of
    \<^verbatim>\<open>OathBackend.cpp\<close>; the store writes records with a header into the R-Memory of the secure element
    (\<^verbatim>\<open>cdc_hal/src/Tropic01Element.cpp\<close>), in the slots the slot map gives the module
    (\<^verbatim>\<open>TropicSlotMap.cpp\<close>, \<^verbatim>\<open>main/tropic_slot_map.h\<close>), and finds names and free slots in a cache of
    the headers in flash (\<^verbatim>\<open>TropicStorage.cpp\<close>, \<^verbatim>\<open>SlotManager.h\<close>).
  \<^item> As a FIDO2 authenticator: the CTAPHID transport (\<^verbatim>\<open>mod_fido2/src/ctaphid.cpp\<close>) assembles messages of
    several clients from 64-byte packets and queues the packets of the responses; its messages are
    CTAP2 commands (\<^verbatim>\<open>mod_fido2/src/ctap2.cpp\<close>, \<^verbatim>\<open>LargeBlobStore.cpp\<close>), read and written with the CBOR
    helpers (\<^verbatim>\<open>cbor_helpers.cpp\<close>), and U2F requests (\<^verbatim>\<open>u2f.cpp\<close>). Both work on the credential store
    (\<^verbatim>\<open>fido2_storage.cpp\<close>), a cache of records in the R-Memory of the secure element, and ask the user and
    the clock through \<^verbatim>\<open>fido2.cpp\<close>.

  The PIN manager (\<^verbatim>\<open>cdc_core/src/PinManager.cpp\<close>) keeps the badge PIN and the OpenPGP PINs with their
  retry counters in a record in the flash of the secure element, signed by it.

  \<^bold>\<open>Theories.\<close> \<^verbatim>\<open>Prelude\<close> holds the machine types and the lemmas on words, bytes and lists that all
  components share. Locale theories hold the interfaces, each interpreted on the model that provides it:

  \<^item> \<^verbatim>\<open>Byte_Sink\<close> and \<^verbatim>\<open>Byte_Source\<close>: a bounded output buffer and an input cursor; provided by the CBOR
    writer and reader (\<^verbatim>\<open>Cbor\<close>).
  \<^item> \<^verbatim>\<open>Card_Service\<close>: what the CCID transport needs of the card behind it; provided by the dispatcher
    (\<^verbatim>\<open>Scard\<close>) for applets that keep \<^verbatim>\<open>well_behaved\<close>, which both applets are proved to do, and once
    more, with the isolation of the applets in its invariant, by the whole badge (\<^verbatim>\<open>Badge_Card\<close>).
  \<^item> \<^verbatim>\<open>Chained_Answer\<close>: an answer given in pieces; provided by YKOATH (\<^verbatim>\<open>Oath\<close>) and PIV (\<^verbatim>\<open>Piv_Session\<close>).
  \<^item> \<^verbatim>\<open>Fetch_Queue\<close>: packets fetched from several queues; provided by CTAPHID (\<^verbatim>\<open>CtapHid_Protocol\<close>).
  \<^item> \<^verbatim>\<open>Usb_Slot\<close>: one slot of the interface manager as its owner uses it; provided by \<^verbatim>\<open>Usb_Manager\<close>,
    used by \<^verbatim>\<open>Scard_Usb\<close>.

  Component theories, each with its state as a record, one definition per function of the source with
  the source's name, the invariant, and the properties at its end:

  \<^item> \<^verbatim>\<open>Cbor\<close> (\<^verbatim>\<open>cbor_helpers.cpp\<close>): \<^verbatim>\<open>cbor_writer\<close> and \<^verbatim>\<open>cbor_reader\<close>, their operations, skipping of nested items, COSE
    keys. Lemma groups: bounds of every operation, round trips, exactness of skipping, independence
    of the order of map entries.
  \<^item> \<^verbatim>\<open>Apdu\<close> (\<^verbatim>\<open>apdu.cpp\<close>): the parser of short and extended APDUs against the encoding of ISO 7816-4.
  \<^item> \<^verbatim>\<open>Scard\<close> (\<^verbatim>\<open>scard.cpp\<close>): registry and dispatcher with indices, refined to an abstract \<^verbatim>\<open>card\<close> that holds
    the selected applet itself.
  \<^item> \<^verbatim>\<open>Ccid\<close> (\<^verbatim>\<open>ccid.cpp\<close>, \<^verbatim>\<open>ccid_driver.cpp\<close>): messages, the assembly of a message from USB packets, the
    parsing of the interface descriptor.
  \<^item> \<^verbatim>\<open>Usb_Manager\<close>, \<^verbatim>\<open>Scard_Usb\<close>: slots, suspension, batches, endpoint budget; the reference count.
  \<^item> \<^verbatim>\<open>Oath\<close>, \<^verbatim>\<open>Oath_Card\<close>: the YKOATH session, its commands, and the applet behind the reader.
  \<^item> \<^verbatim>\<open>Piv_Tlv\<close> (\<^verbatim>\<open>piv_tlv.cpp\<close>, \<^verbatim>\<open>piv_objects.cpp\<close>), \<^verbatim>\<open>Piv\<close> and \<^verbatim>\<open>Piv_Session\<close> (\<^verbatim>\<open>piv_applet.cpp\<close>): TLV and DER,
    every command of the applet, command chaining; in \<^verbatim>\<open>Piv_Session\<close> a back end that logs its calls, on
    which the access rules are stated.
  \<^item> \<^verbatim>\<open>Pin_Manager\<close>: the record on the chip, verification with save-before-compare, lock-out times, duress PIN, the key derivation
    of OpenPGP.
  \<^item> \<^verbatim>\<open>CtapHid\<close> (operations), \<^verbatim>\<open>CtapHid_Channels\<close> (invariants), \<^verbatim>\<open>CtapHid_Protocol\<close> (events, reachable states,
    properties).
  \<^item> \<^verbatim>\<open>Fido2_Storage\<close> (operations) and \<^verbatim>\<open>Fido2_Accounts\<close> (invariant, coherence with the records, the store
    as a map from accounts to credentials, its properties) for \<^verbatim>\<open>fido2_storage.cpp\<close>.
  \<^item> \<^verbatim>\<open>Pin_Storage\<close> (\<^verbatim>\<open>pin_storage_c.cpp\<close>): how the other modules reach the PIN manager.
  \<^item> \<^verbatim>\<open>Fido2\<close> (\<^verbatim>\<open>fido2.cpp\<close>: prompt, reset window, factory reset), \<^verbatim>\<open>U2f\<close> (\<^verbatim>\<open>u2f.cpp\<close>: attestation and the
    commands), \<^verbatim>\<open>Large_Blob\<close> (the assembly of the large-blob array), and for \<^verbatim>\<open>ctap2.cpp\<close> \<^verbatim>\<open>Ctap2_State\<close> (state,
    authorisation, the commands without parameters), \<^verbatim>\<open>Ctap2_Pin\<close> (clientPIN), \<^verbatim>\<open>Ctap2_Assertion\<close>
    (getAssertion), \<^verbatim>\<open>Ctap2_Make\<close> (makeCredential), \<^verbatim>\<open>Ctap2_Manage\<close> (credential management, large blobs,
    configuration), \<^verbatim>\<open>Ctap2\<close> (the command dispatch). The state records extend each other along this
    chain.
  \<^item> \<^verbatim>\<open>Ctap2_Auth\<close>: what the commands leave alone (the frame lemmas), how a token comes to be and what it is
    needed for; \<^verbatim>\<open>Ctap2_Sample\<close> is the badge on which the concrete instances are evaluated.
  \<^item> \<^verbatim>\<open>Ctap2_Cache\<close>: the operations that leave the credential cache alone; \<^verbatim>\<open>Ctap2_Sound\<close>: the consent of the
    user and the reset; \<^verbatim>\<open>Ctap2_Signed\<close>: what a successful assertion is; \<^verbatim>\<open>Ctap2_Blobs\<close>: the assembly of the
    large-blob array out of its fragments.
  \<^item> \<^verbatim>\<open>Slot_Map\<close> (\<^verbatim>\<open>TropicSlotMap.cpp\<close>, \<^verbatim>\<open>SlotManager.h\<close>: the table, its validation, logical slots),
    \<^verbatim>\<open>Tropic_Storage\<close> (\<^verbatim>\<open>TropicStorage.cpp\<close> and the records with a header of \<^verbatim>\<open>Tropic01Element.cpp\<close>) and
    \<^verbatim>\<open>Tropic_Records\<close> (what a write, an erasure and a search do, on a chip that is \<^verbatim>\<open>chip_reliable\<close>).
  \<^item> \<^verbatim>\<open>Oath_Store\<close> (the operations of \<^verbatim>\<open>OathStore.cpp\<close>), \<^verbatim>\<open>Oath_Accounts\<close> (the store as a map from slots to
    credentials and the agreement \<^verbatim>\<open>oath_store_ok\<close> of records and cache that every operation keeps),
    \<^verbatim>\<open>Oath_Hotp\<close> (the moving counter), \<^verbatim>\<open>Oath_Base32\<close> (the decoder against RFC 4648), \<^verbatim>\<open>Oath_Display\<close>
    (the code on the screen), \<^verbatim>\<open>Oath_Backend\<close> (\<^verbatim>\<open>OathBackend.cpp\<close> and the touch gate), \<^verbatim>\<open>Oath_Put\<close> (the
    PUT command of the applet on this back end: applet, store, records and cache together).

  \<^bold>\<open>Bounds and fuel.\<close> Buffers have the sizes of the source: CTAPHID 8 channels of 2048 bytes, 200 packets
  in one call, YKOATH 4096 bytes of pending answer, PIV 2600 bytes for chains and answers. The depth
  and count limits of CBOR skipping (8 and 256) are the code's own, so the recursion is on them and no
  fuel is added; the loops over USB descriptors, which do not end on a descriptor of length 0, are
  \<^verbatim>\<open>partial_function (option)\<close>, and their termination is a theorem for the badge's own descriptor.
  PIV writes the two answers of the mutual authentication without looking at the room there is; 36
  bytes are enough, which is the \<^verbatim>\<open>room\<close> of the contract and less than any transport here gives.

  \<^bold>\<open>Environment.\<close> What is not under \<^verbatim>\<open>src/\<close> is a parameter: the secure element and the clocks of the PIN
  manager (\<^verbatim>\<open>pin_env\<close>; \<^verbatim>\<open>reliable\<close> states a chip without faults, \<^verbatim>\<open>sizes_ok\<close> the lengths of hashes, keys and
  signatures), the function tables \<^verbatim>\<open>oath_backend\<close> and \<^verbatim>\<open>piv_backend\<close> that the applets are written
  against, the handlers behind CTAPHID (\<^verbatim>\<open>fido_fits\<close>: they return at most what the buffer
  holds), the secure element, flash and mbedtls behind the FIDO2 module (\<^verbatim>\<open>fido2_hw\<close>, \<^verbatim>\<open>fido2_env\<close>;
  \<^verbatim>\<open>rmem_reliable\<close> states an R-Memory that keeps what is written to it), the chip, flash, clock and HMAC
  behind the OATH store (\<^verbatim>\<open>tropic_io\<close>, \<^verbatim>\<open>oath_env\<close>, \<^verbatim>\<open>backend_env\<close>; \<^verbatim>\<open>chip_reliable\<close> allows every write
  and erasure of the chip to fail and to lose the slot it works on; it states that a write reported as done
  is read back, that other slots stay as they are, and that the flash keeps what is written to it), and the endpoint size of TinyUSB. Nothing more is assumed of them than these predicates say.

  \<^bold>\<open>Not modelled\<close>, with the reason: the screens and modules around the components (user interface),
  drivers, radio and storage (hardware access), the OpenPGP card (a third applet of the dispatcher), the
  keys and objects behind the function table of PIV, the other modules that use the header cache, the
  tasks and locks of FreeRTOS, the serial
  console, plugins, image decoders and other third-party code.
\<close>

section \<open>Two encoders of signatures\<close>

lemma der_start_facts:
  assumes "length m = 32"
  shows "der_start m \<le> 31" "i < der_start m \<Longrightarrow> m ! i = 0" "der_start m < 31 \<Longrightarrow> m ! der_start m \<noteq> 0"
proof -
  let ?t = "takeWhile (\<lambda>b. b = 0) (take 31 m)"
  show "der_start m \<le> 31" using length_takeWhile_le [of "\<lambda>b. b = 0" "take 31 m"] assms by (simp add: der_start_def)
  show "m ! i = 0" if "i < der_start m"
    using that nth_mem [of i ?t] set_takeWhileD [of "?t ! i" "\<lambda>b. b = 0" "take 31 m"] takeWhile_nth [of i "\<lambda>b. b = 0" "take 31 m"]
      \<open>der_start m \<le> 31\<close> by (simp add: der_start_def)
  show "m ! der_start m \<noteq> 0" if "der_start m < 31"
    using that nth_length_takeWhile [of "\<lambda>b. b = 0" "take 31 m"] assms by (simp add: der_start_def)
qed

lemma der_skip_start:
  assumes "length m = 32" and "j \<le> der_start m"
  shows "der_skip m j = (if j < der_start m \<and> m ! der_start m AND 0x80 \<noteq> 0 then der_start m - 1 else der_start m)"
  using assms(2)
proof (induction "der_start m - j" arbitrary: j)
  case 0
  then have "j = der_start m" by simp
  moreover have "der_skip m (der_start m) = der_start m"
    using der_start_facts [OF assms(1)] by (subst der_skip.simps) auto
  ultimately show ?case by simp
next
  case (Suc n)
  then have j: "j < der_start m" by simp
  note facts = der_start_facts [OF assms(1)]
  show ?case
  proof (cases "Suc j = der_start m \<and> m ! der_start m AND 0x80 \<noteq> 0")
    case True
    with j show ?thesis by (subst der_skip.simps) auto
  next
    case False
    have "m ! Suc j AND 0x80 = 0"
      using False facts(2) [of "Suc j"] j by (cases "Suc j = der_start m") auto
    then have "der_skip m j = der_skip m (Suc j)"
      using facts(1) facts(2) [OF j] j by (subst der_skip.simps) simp
    with Suc.hyps(1) [of "Suc j"] Suc.hyps(2) j False show ?thesis by auto
  qed
qed

lemma der_integer_agree:
  assumes "length m = 32" and "35 \<le> cap"
  shows "encode_der_integer m = derInteger m cap \<and> derInteger m cap \<noteq> [] \<and> length (derInteger m cap) \<le> 35"
proof -
  let ?k = "der_start m"
  note facts = der_start_facts [OF assms(1)]
  have skip: "der_skip m 0 = (if 0 < ?k \<and> m ! ?k AND 0x80 \<noteq> 0 then ?k - 1 else ?k)"
    by (rule der_skip_start [OF assms(1)]) simp
  show ?thesis
  proof (cases "0 < ?k \<and> m ! ?k AND 0x80 \<noteq> 0")
    case True
    then have zero: "m ! (?k - 1) = 0" using facts(2) by simp
    have "drop (?k - 1) m = 0 # drop ?k m"
      using True facts(1) zero assms(1) Cons_nth_drop_Suc [of "?k - 1" m] by simp
    with True skip zero facts(1) assms show ?thesis
      by (simp add: encode_der_integer_def derInteger_def Let_def not_less Suc_diff_le)
  next
    case False
    with skip facts(1) assms show ?thesis
      by (auto simp: encode_der_integer_def derInteger_def Let_def not_less)
  qed
qed

text \<open>
  The FIDO2 module and the PIV applet each have an encoder of signatures in DER, written
  differently: the one strips zeros only where the next byte allows it, the other strips them all and
  puts one back. On every signature they give the same bytes.
\<close>

theorem der_encoders_agree:
  assumes "length rs = 64" and "72 \<le> cap"
  shows "raw_sig_to_der rs = derEncodeEcdsaSig rs cap"
proof -
  have r: "encode_der_integer (take 32 rs) = derInteger (take 32 rs) 80" "derInteger (take 32 rs) 80 \<noteq> []"
      "length (derInteger (take 32 rs) 80) \<le> 35"
    using der_integer_agree [of "take 32 rs" 80] assms(1) by simp_all
  then have "35 \<le> 80 - length (derInteger (take 32 rs) 80)" by simp
  from der_integer_agree [OF _ this, of "drop 32 rs"] assms r show ?thesis
    by (simp add: raw_sig_to_der_def derEncodeEcdsaSig_def Let_def not_less)
qed

theorem der_encoders_agree_witness:
  "raw_sig_to_der (replicate 32 0 @ replicate 32 0x80) = derEncodeEcdsaSig (replicate 32 0 @ replicate 32 0x80) 80"
  by (rule der_encoders_agree) simp_all

end
